(* ===== verification/Prelude.thy ===== *)
theory Prelude
  imports Main "HOL-Library.Word" "HOL-Library.Sublist"
begin

text \<open>
  Shared ground of the HandShaker development: the names of the machine types the Rust code
  uses, its \<open>Result\<close> type as a sum, big-endian integers as the SSP frames carry them, the
  checked and saturating operations of the Rust standard library on 64-bit sizes, and the parts
  of \<open>str\<close> the code calls (\<open>trim\<close>, \<open>split\<close>, \<open>strip_prefix\<close>) over UTF-8 byte strings.
  Lemmas the components share are declared \<open>simp\<close> or collected in \<open>be_simps\<close>
  (big-endian), \<open>result_simps\<close> (results) and \<open>str_simps\<close> (strings).
\<close>

named_theorems be_simps "big-endian encoding and decoding"
named_theorems result_simps "sequencing of fallible steps"
named_theorems str_simps "string operations of the Rust standard library"

type_synonym byte = "8 word"
type_synonym bytes = "8 word list"
type_synonym u8 = "8 word"
type_synonym u16 = "16 word"
type_synonym u32 = "32 word"
type_synonym u64 = "64 word"

section \<open>Results\<close>

text \<open>\<open>Result<T, E>\<close> is the sum \<open>'e + 'a\<close>: \<open>Inl\<close> is \<open>Err\<close>, \<open>Inr\<close> is \<open>Ok\<close>.
  \<open>and_then\<close> is the \<open>?\<close> operator: an error returns at once.\<close>

definition and_then :: "'e + 'a \<Rightarrow> ('a \<Rightarrow> 'e + 'b) \<Rightarrow> 'e + 'b" where
  "and_then r f = (case r of Inl e \<Rightarrow> Inl e | Inr x \<Rightarrow> f x)"

lemma and_then_simps [simp, result_simps]:
  "and_then (Inl e) f = Inl e"
  "and_then (Inr x) f = f x"
  by (simp_all add: and_then_def)

lemma and_then_eq_Inr:
  "and_then r f = Inr y \<longleftrightarrow> (\<exists>x. r = Inr x \<and> f x = Inr y)"
  by (cases r) auto

lemma and_then_eq_Inl:
  "and_then r f = Inl e \<longleftrightarrow> r = Inl e \<or> (\<exists>x. r = Inr x \<and> f x = Inl e)"
  by (cases r) auto

definition is_ok :: "'e + 'a \<Rightarrow> bool" where
  "is_ok r = (case r of Inl _ \<Rightarrow> False | Inr _ \<Rightarrow> True)"

lemma is_ok_simps [simp]: "is_ok (Inl e) = False" "is_ok (Inr x) = True"
  by (simp_all add: is_ok_def)

section \<open>Sizes\<close>

text \<open>\<open>usize\<close> and \<open>u64\<close> counters on the supported 64-bit targets, as naturals below
  \<open>2 ^ 64\<close>, with the overflow behaviour of the operation the code calls written out.\<close>

definition usize_bound :: nat where
  "usize_bound = 2 ^ 64"

definition checked_add_usize :: "nat \<Rightarrow> nat \<Rightarrow> nat option" where
  "checked_add_usize a b = (if a + b < usize_bound then Some (a + b) else None)"

definition saturating_add_u64 :: "nat \<Rightarrow> nat \<Rightarrow> nat" where
  "saturating_add_u64 a b = min (a + b) (usize_bound - 1)"

lemma checked_add_usize_Some [simp]:
  "checked_add_usize a b = Some c \<longleftrightarrow> a + b < usize_bound \<and> c = a + b"
  by (auto simp: checked_add_usize_def)

lemma checked_add_usize_None [simp]:
  "checked_add_usize a b = None \<longleftrightarrow> usize_bound \<le> a + b"
  by (auto simp: checked_add_usize_def)

section \<open>Big-endian integers\<close>

text \<open>\<open>to_be n v\<close> is the big-endian encoding of \<open>v\<close> in \<open>n\<close> bytes
  (\<open>to_be_bytes\<close> of the integer type of that width), \<open>from_be\<close> the value of a byte string
  (\<open>from_be_bytes\<close>).\<close>

primrec to_be :: "nat \<Rightarrow> nat \<Rightarrow> bytes" where
  "to_be 0 v = []"
| "to_be (Suc n) v = to_be n (v div 256) @ [word_of_nat (v mod 256)]"

definition from_be :: "bytes \<Rightarrow> nat" where
  "from_be bs = foldl (\<lambda>acc b. acc * 256 + unat b) 0 bs"

lemma length_to_be [simp, be_simps]: "length (to_be n v) = n"
  by (induction n arbitrary: v) simp_all

lemma from_be_Nil [simp]: "from_be [] = 0"
  by (simp add: from_be_def)

lemma from_be_snoc [be_simps]: "from_be (bs @ [b]) = from_be bs * 256 + unat b"
  by (simp add: from_be_def)

lemma unat_of_byte_nat [simp]: "unat (word_of_nat (v mod 256) :: byte) = v mod 256"
  by (simp add: unat_of_nat)

lemma from_be_to_be [be_simps]: "from_be (to_be n v) = v mod 256 ^ n"
proof (induction n arbitrary: v)
  case 0
  then show ?case by simp
next
  case (Suc n)
  have "v div 256 mod 256 ^ n * 256 + v mod 256 = v mod (256 * 256 ^ n)"
    by (simp add: mod_mult2_eq mult.commute)
  then show ?case by (simp add: from_be_snoc Suc.IH)
qed

lemma from_be_to_be_8 [simp]: "n < usize_bound \<Longrightarrow> from_be (to_be 8 n) = n"
  by (simp add: from_be_to_be usize_bound_def)

lemma from_be_to_be_2 [simp]: "n < 2 ^ 16 \<Longrightarrow> from_be (to_be 2 n) = n"
  by (simp add: from_be_to_be)

lemma from_be_to_be_4 [simp]: "n < 2 ^ 32 \<Longrightarrow> from_be (to_be 4 n) = n"
  by (simp add: from_be_to_be)

lemma from_be_less: "from_be bs < 256 ^ length bs"
proof (induction bs rule: rev_induct)
  case Nil
  then show ?case by simp
next
  case (snoc b bs)
  have "unat b < 256" using unsigned_less[of b] by simp
  moreover have "Suc (from_be bs) * 256 \<le> 256 ^ length bs * 256"
    using snoc.IH by (intro mult_le_mono1) simp
  ultimately show ?case by (simp add: from_be_snoc)
qed

lemma to_be_from_be [simp]: "to_be (length bs) (from_be bs) = bs"
proof (induction bs rule: rev_induct)
  case Nil
  then show ?case by simp
next
  case (snoc b bs)
  have "unat b < 256" using unsigned_less[of b] by simp
  then have "(from_be bs * 256 + unat b) div 256 = from_be bs"
    and "(from_be bs * 256 + unat b) mod 256 = unat b" by simp_all
  with snoc.IH show ?case by (simp add: from_be_snoc)
qed

definition u32_to_be_bytes :: "u32 \<Rightarrow> bytes" where
  "u32_to_be_bytes w = to_be 4 (unat w)"

definition u32_from_be_bytes :: "bytes \<Rightarrow> u32" where
  "u32_from_be_bytes bs = word_of_nat (from_be bs)"

lemma length_u32_to_be_bytes [simp, be_simps]: "length (u32_to_be_bytes w) = 4"
  by (simp add: u32_to_be_bytes_def)

lemma u32_be_roundtrip [simp, be_simps]: "u32_from_be_bytes (u32_to_be_bytes w) = w"
proof -
  have "unat w < 2 ^ 32" using unsigned_less[of w] by simp
  then show ?thesis by (simp add: u32_to_be_bytes_def u32_from_be_bytes_def)
qed

lemma u32_from_to: "length bs = 4 \<Longrightarrow> u32_to_be_bytes (u32_from_be_bytes bs) = bs"
proof -
  assume len: "length bs = 4"
  have "from_be bs < 2 ^ 32" using from_be_less[of bs] len by simp
  then have "unat (u32_from_be_bytes bs) = from_be bs"
    by (simp add: u32_from_be_bytes_def unat_of_nat)
  then show ?thesis using to_be_from_be[of bs] len by (simp add: u32_to_be_bytes_def)
qed

lemma u32_to_be_bytes_inject [simp]: "u32_to_be_bytes a = u32_to_be_bytes b \<longleftrightarrow> a = b"
  by (metis u32_be_roundtrip)

section \<open>Lists\<close>

lemma take_append_exact [simp]: "length xs = n \<Longrightarrow> take n (xs @ ys) = xs"
  by simp

lemma drop_append_exact [simp]: "length xs = n \<Longrightarrow> drop n (xs @ ys) = ys"
  by simp

lemma find_Some_mem: "find P xs = Some x \<Longrightarrow> x \<in> set xs \<and> P x"
  by (auto simp: find_Some_iff)

lemma sum_list_le_count:
  fixes f :: "'a \<Rightarrow> nat"
  assumes "\<And>x. x \<in> set xs \<Longrightarrow> f x \<le> c"
  shows "sum_list (map f xs) \<le> length xs * c"
  using assms by (induction xs) (auto intro: add_mono)

end
