(* ===== verification/Errors.thy ===== *)
theory Errors
  imports Prelude
begin

text \<open>
  The error model of both layers: \<open>handshaker-core/src/error.rs\<close> and
  \<open>cancellation.rs\<close> (the stable categories, their process exit codes, who cancelled a
  request), and \<open>handshaker-application/src/error.rs\<close> (the public codes and
  \<open>from_core_error\<close>). The message a variant carries is kept as the i18n key the source
  names; rendering a key into a localized text is presentation and not modelled.
\<close>

section \<open>Cancellation\<close>

datatype CancellationOrigin = Local bool | Remote "int option"

record CancellationInfo =
  ci_sid :: u32
  ci_origin :: CancellationOrigin
  ci_connection_closed :: bool

section \<open>Core errors\<close>

datatype core_error =
    Usage string
  | Configuration string
  | DeviceSelection string
  | AdbUnavailable string
  | Transport string
  | Handshake string
  | Timeout string
  | Protocol string
  | RemoteIo "int option" string
  | LocalIo string
  | ConfirmationRequired string
  | Interrupted
  | Cancelled CancellationInfo

type_synonym 'a core_result = "core_error + 'a"

datatype ErrorCode =
    UsageCode | ConfigurationCode | DeviceSelectionCode | AdbUnavailableCode | TransportCode
  | HandshakeCode | TimeoutCode | ProtocolCode | RemoteIoCode | LocalIoCode
  | ConfirmationRequiredCode | InterruptedCode | CancelledCode

fun error_code :: "core_error \<Rightarrow> ErrorCode" where
  "error_code (Usage _) = UsageCode"
| "error_code (Configuration _) = ConfigurationCode"
| "error_code (DeviceSelection _) = DeviceSelectionCode"
| "error_code (AdbUnavailable _) = AdbUnavailableCode"
| "error_code (Transport _) = TransportCode"
| "error_code (Handshake _) = HandshakeCode"
| "error_code (Timeout _) = TimeoutCode"
| "error_code (Protocol _) = ProtocolCode"
| "error_code (RemoteIo _ _) = RemoteIoCode"
| "error_code (LocalIo _) = LocalIoCode"
| "error_code (ConfirmationRequired _) = ConfirmationRequiredCode"
| "error_code Interrupted = InterruptedCode"
| "error_code (Cancelled _) = CancelledCode"

fun exit_code :: "core_error \<Rightarrow> int" where
  "exit_code (Usage _) = 2"
| "exit_code (Configuration _) = 3"
| "exit_code (DeviceSelection _) = 3"
| "exit_code (AdbUnavailable _) = 3"
| "exit_code (Transport _) = 4"
| "exit_code (Handshake _) = 4"
| "exit_code (Timeout _) = 4"
| "exit_code (Protocol _) = 5"
| "exit_code (RemoteIo _ _) = 6"
| "exit_code (LocalIo _) = 7"
| "exit_code (ConfirmationRequired _) = 8"
| "exit_code Interrupted = 130"
| "exit_code (Cancelled info) =
     (case ci_origin info of Local _ \<Rightarrow> 130 | Remote _ \<Rightarrow> 6)"

section \<open>Public errors of the application layer\<close>

datatype PublicErrorCode =
    RuntimeClosed | InvalidArgument | InvalidState | NotFound
  | DeviceNotFound | DeviceUnavailable
  | ConnectFailed | ConnectionLost | SessionNotFound | SessionClosed
  | TrustRequired | TrustRejected
  | RemotePathNotFound | RemotePermissionDenied | RemotePathExists | PublicRemoteIo
  | LocalPathNotFound | LocalPermissionDenied | LocalPathExists
  | TransferNotFound | TransferCancelled | RemoteCancelled
  | ProtocolError | DecodeError
  | PublicAdbUnavailable | AdbUnauthorized | AdbOffline | WifiDiscoveryFailed | UsbUnavailable
  | MediaError | ClipboardError | SyncError
  | Internal

fun code_value :: "PublicErrorCode \<Rightarrow> int" where
  "code_value RuntimeClosed = 1001"
| "code_value InvalidArgument = 1101"
| "code_value InvalidState = 1102"
| "code_value NotFound = 1103"
| "code_value DeviceNotFound = 2001"
| "code_value DeviceUnavailable = 2002"
| "code_value ConnectFailed = 2101"
| "code_value ConnectionLost = 2102"
| "code_value SessionNotFound = 2103"
| "code_value SessionClosed = 2104"
| "code_value TrustRequired = 2201"
| "code_value TrustRejected = 2202"
| "code_value RemotePathNotFound = 3001"
| "code_value RemotePermissionDenied = 3002"
| "code_value RemotePathExists = 3003"
| "code_value PublicRemoteIo = 3004"
| "code_value LocalPathNotFound = 3101"
| "code_value LocalPermissionDenied = 3102"
| "code_value LocalPathExists = 3103"
| "code_value TransferNotFound = 4201"
| "code_value TransferCancelled = 4202"
| "code_value RemoteCancelled = 4203"
| "code_value ProtocolError = 5001"
| "code_value DecodeError = 5101"
| "code_value PublicAdbUnavailable = 6001"
| "code_value AdbUnauthorized = 6002"
| "code_value AdbOffline = 6003"
| "code_value WifiDiscoveryFailed = 6101"
| "code_value UsbUnavailable = 6201"
| "code_value MediaError = 7001"
| "code_value ClipboardError = 7101"
| "code_value SyncError = 7201"
| "code_value Internal = 9001"

fun as_str :: "PublicErrorCode \<Rightarrow> string" where
  "as_str RuntimeClosed = ''runtime_closed''"
| "as_str InvalidArgument = ''invalid_argument''"
| "as_str InvalidState = ''invalid_state''"
| "as_str NotFound = ''not_found''"
| "as_str DeviceNotFound = ''device_not_found''"
| "as_str DeviceUnavailable = ''device_unavailable''"
| "as_str ConnectFailed = ''connect_failed''"
| "as_str ConnectionLost = ''connection_lost''"
| "as_str SessionNotFound = ''session_not_found''"
| "as_str SessionClosed = ''session_closed''"
| "as_str TrustRequired = ''trust_required''"
| "as_str TrustRejected = ''trust_rejected''"
| "as_str RemotePathNotFound = ''remote_path_not_found''"
| "as_str RemotePermissionDenied = ''remote_permission_denied''"
| "as_str RemotePathExists = ''remote_path_exists''"
| "as_str PublicRemoteIo = ''remote_io''"
| "as_str LocalPathNotFound = ''local_path_not_found''"
| "as_str LocalPermissionDenied = ''local_permission_denied''"
| "as_str LocalPathExists = ''local_path_exists''"
| "as_str TransferNotFound = ''transfer_not_found''"
| "as_str TransferCancelled = ''transfer_cancelled''"
| "as_str RemoteCancelled = ''remote_cancelled''"
| "as_str ProtocolError = ''protocol_error''"
| "as_str DecodeError = ''decode_error''"
| "as_str PublicAdbUnavailable = ''adb_unavailable''"
| "as_str AdbUnauthorized = ''adb_unauthorized''"
| "as_str AdbOffline = ''adb_offline''"
| "as_str WifiDiscoveryFailed = ''wifi_discovery_failed''"
| "as_str UsbUnavailable = ''usb_unavailable''"
| "as_str MediaError = ''media_error''"
| "as_str ClipboardError = ''clipboard_error''"
| "as_str SyncError = ''sync_error''"
| "as_str Internal = ''internal''"

record PublicError =
  pe_code :: PublicErrorCode
  pe_message :: string
  pe_detail :: "string option"
  pe_retryable :: bool
  pe_operation :: "string option"

type_synonym 'a app_result = "PublicError + 'a"

definition public_error_new :: "PublicErrorCode \<Rightarrow> string \<Rightarrow> PublicError" where
  "public_error_new code message =
     \<lparr>pe_code = code, pe_message = message, pe_detail = None, pe_retryable = False,
      pe_operation = None\<rparr>"

definition with_operation :: "PublicError \<Rightarrow> string \<Rightarrow> PublicError" where
  "with_operation e op = e\<lparr>pe_operation := Some op\<rparr>"

text \<open>The classification of a core error: its public code, and whether a retry may help.\<close>

fun public_class :: "core_error \<Rightarrow> PublicErrorCode \<times> bool" where
  "public_class Interrupted = (TransferCancelled, False)"
| "public_class (Cancelled info) =
     (case ci_origin info of
        Local _ \<Rightarrow> (TransferCancelled, False)
      | Remote _ \<Rightarrow> (RemoteCancelled, False))"
| "public_class (Timeout _) = (ConnectionLost, True)"
| "public_class (Transport _) = (ConnectFailed, True)"
| "public_class (Handshake _) = (TrustRejected, False)"
| "public_class (Protocol _) = (ProtocolError, False)"
| "public_class (AdbUnavailable _) = (PublicAdbUnavailable, False)"
| "public_class (DeviceSelection _) = (DeviceNotFound, False)"
| "public_class (Configuration _) = (InvalidState, False)"
| "public_class (RemoteIo _ _) = (RemotePathNotFound, False)"
| "public_class (LocalIo _) = (LocalPathNotFound, False)"
| "public_class (Usage _) = (InvalidArgument, False)"
| "public_class (ConfirmationRequired _) = (InvalidState, False)"

fun public_detail :: "core_error \<Rightarrow> string option" where
  "public_detail (Transport m) = Some m"
| "public_detail (Handshake m) = Some m"
| "public_detail (Protocol m) = Some m"
| "public_detail (Configuration m) = Some m"
| "public_detail (LocalIo m) = Some m"
| "public_detail (Usage m) = Some m"
| "public_detail (Timeout m) = Some m"
| "public_detail (RemoteIo _ m) = Some m"
| "public_detail _ = None"

text \<open>\<open>Display\<close> of a core error is localized text, so it is a parameter.\<close>

definition from_core_error ::
  "(core_error \<Rightarrow> string) \<Rightarrow> core_error \<Rightarrow> string \<Rightarrow> PublicError" where
  "from_core_error display e operation =
     \<lparr>pe_code = fst (public_class e), pe_message = display e, pe_detail = public_detail e,
      pe_retryable = snd (public_class e), pe_operation = Some operation\<rparr>"

text \<open>\<open>runtime.rs\<close>: which errors prove that the connection is gone.\<close>

definition connection_lost_code :: "PublicErrorCode \<Rightarrow> bool" where
  "connection_lost_code code \<longleftrightarrow> code = ConnectFailed"

fun transfer_closed_the_session :: "core_error \<Rightarrow> bool" where
  "transfer_closed_the_session (Cancelled info) = ci_connection_closed info"
| "transfer_closed_the_session other = (error_code other = TransportCode)"

end
