(* ===== verification/Frame.thy ===== *)
theory Frame
  imports Errors
begin

text \<open>
  The SSP frame layer, \<open>handshaker-core/src/protocol/frame.rs\<close>: upstream frames
  (\<open>sid[4] flag[1] length[4] payload\<close>), downstream chunks (\<open>sid[4] length[2] data\<close>) and the
  wire log. A byte stream that is read is the list of the bytes still to come before its end; a
  stream that is written is the list of the bytes written so far. What the operating system
  answers to a write, a flush, a rename or an open is an argument.
\<close>

section \<open>Limits\<close>

definition MAX_UPSTREAM_PAYLOAD :: nat where
  "MAX_UPSTREAM_PAYLOAD = 0x400000"

definition MAX_DOWNSTREAM_CHUNK :: nat where
  "MAX_DOWNSTREAM_CHUNK = 32761"

definition MAX_WIRE_LOG_BYTES :: nat where
  "MAX_WIRE_LOG_BYTES = 64 * 1024 * 1024"

section \<open>Frames\<close>

definition encode_upstream :: "u32 \<Rightarrow> u8 \<Rightarrow> bytes \<Rightarrow> bytes core_result" where
  "encode_upstream sid flag payload =
     (if length payload > MAX_UPSTREAM_PAYLOAD
      then Inl (Protocol ''frame.upstream_too_large'')
      else Inr (u32_to_be_bytes sid @ [flag]
                @ u32_to_be_bytes (word_of_nat (length payload)) @ payload))"

text \<open>What the transport does with one \<open>write_all\<close> and \<open>flush\<close>: both succeed, the write stops
  after some bytes, or the flush fails.\<close>

datatype write_io = WriteOk | WriteFailed nat | FlushFailed

definition write_upstream ::
  "write_io \<Rightarrow> bytes \<Rightarrow> u32 \<Rightarrow> u8 \<Rightarrow> bytes \<Rightarrow> bytes core_result \<times> bytes" where
  "write_upstream io writer sid flag payload =
     (case encode_upstream sid flag payload of
        Inl e \<Rightarrow> (Inl e, writer)
      | Inr frame \<Rightarrow>
          (case io of
             WriteFailed n \<Rightarrow> (Inl (Transport ''frame.write_failed''), writer @ take n frame)
           | FlushFailed \<Rightarrow> (Inl (Transport ''frame.flush_failed''), writer @ frame)
           | WriteOk \<Rightarrow> (Inr frame, writer @ frame)))"

text \<open>\<open>read_exact\<close>: all of the requested bytes, or the end of the stream before them.\<close>

definition read_exact :: "nat \<Rightarrow> bytes \<Rightarrow> (bytes \<times> bytes) option" where
  "read_exact n stream = (if n \<le> length stream then Some (take n stream, drop n stream) else None)"

type_synonym chunk_frame = "u32 \<times> bytes \<times> bytes"

definition read_downstream :: "bytes \<Rightarrow> (chunk_frame \<times> bytes) core_result" where
  "read_downstream stream =
     (case read_exact 6 stream of
        None \<Rightarrow> Inl (Transport ''frame.header_read_failed'')
      | Some (header, stream1) \<Rightarrow>
          (let sid = u32_from_be_bytes (take 4 header);
               chunk_len = from_be (drop 4 header)
           in if chunk_len > MAX_DOWNSTREAM_CHUNK
              then Inl (Protocol ''frame.downstream_too_large'')
              else (case read_exact chunk_len stream1 of
                      None \<Rightarrow> Inl (Transport ''frame.data_read_failed'')
                    | Some (chunk, stream2) \<Rightarrow> Inr ((sid, chunk, header), stream2))))"

section \<open>The wire log\<close>

datatype WireDirection = Out | In

record WireLog =
  wl_payload :: bool
  wl_max_bytes :: nat

text \<open>The two files of a log: the one at the log's path, the rotated generation, and which of
  them the open handle writes to (after a rename the handle follows the inode).\<close>

datatype log_handle = AtPath | AtRotated

record log_files =
  lf_path :: "string option"
  lf_rotated :: "string option"
  lf_handle :: log_handle

record log_io =
  io_metadata_ok :: bool
  io_rename_ok :: bool
  io_open_ok :: bool

definition handle_contents :: "log_files \<Rightarrow> string" where
  "handle_contents fs =
     (case (case lf_handle fs of AtPath \<Rightarrow> lf_path fs | AtRotated \<Rightarrow> lf_rotated fs) of
        None \<Rightarrow> '''' | Some c \<Rightarrow> c)"

definition append_handle :: "string \<Rightarrow> log_files \<Rightarrow> log_files" where
  "append_handle text fs =
     (case lf_handle fs of
        AtPath \<Rightarrow> fs\<lparr>lf_path := Some (handle_contents fs @ text)\<rparr>
      | AtRotated \<Rightarrow> fs\<lparr>lf_rotated := Some (handle_contents fs @ text)\<rparr>)"

definition rename_to_rotated :: "log_files \<Rightarrow> log_files" where
  "rename_to_rotated fs =
     (case lf_path fs of
        None \<Rightarrow> fs
      | Some c \<Rightarrow> fs\<lparr>lf_path := None, lf_rotated := Some c,
                     lf_handle := (if lf_handle fs = AtPath then AtRotated else lf_handle fs)\<rparr>)"

definition open_file :: "log_files \<Rightarrow> log_files" where
  "open_file fs =
     fs\<lparr>lf_path := Some (case lf_path fs of None \<Rightarrow> '''' | Some c \<Rightarrow> c), lf_handle := AtPath\<rparr>"

definition maybe_rotate :: "log_io \<Rightarrow> WireLog \<Rightarrow> log_files \<Rightarrow> log_files" where
  "maybe_rotate io log fs =
     (let over_limit = (io_metadata_ok io \<and> length (handle_contents fs) \<ge> wl_max_bytes log)
      in if \<not> over_limit then fs
         else (let fs1 = (if io_rename_ok io then rename_to_rotated fs else fs)
               in if io_open_ok io then open_file fs1 else fs1))"

definition hex_digit :: "nat \<Rightarrow> char" where
  "hex_digit n = ''0123456789abcdef'' ! (n mod 16)"

definition hex_byte :: "byte \<Rightarrow> string" where
  "hex_byte b = [hex_digit (unat b div 16), hex_digit (unat b)]"

function chunks :: "nat \<Rightarrow> 'a list \<Rightarrow> 'a list list" where
  "chunks n xs = (if n = 0 \<or> xs = [] then [] else take n xs # chunks n (drop n xs))"
  by pat_completeness auto
termination by (relation "measure (length \<circ> snd)") auto

declare chunks.simps [simp del]

definition dump_payload :: "bytes \<Rightarrow> string" where
  "dump_payload data =
     concat (map (\<lambda>chunk. concat (map (\<lambda>b. hex_byte b @ '' '') chunk) @ [CHR 10])
                 (chunks 32 data))"

definition direction_mark :: "WireDirection \<Rightarrow> string" where
  "direction_mark d = (case d of Out \<Rightarrow> ''>>'' | In \<Rightarrow> ''<<'')"

text \<open>The header line is a localized template over the direction, the note and the length, so
  the template is an argument.\<close>

definition record_wire ::
  "(string \<Rightarrow> string \<Rightarrow> nat \<Rightarrow> string) \<Rightarrow> log_io \<Rightarrow> WireLog \<Rightarrow> WireDirection \<Rightarrow> string \<Rightarrow> bytes
   \<Rightarrow> log_files \<Rightarrow> log_files" where
  "record_wire record_header io log direction note data fs =
     (let fs1 = maybe_rotate io log fs;
          fs2 = append_handle (record_header (direction_mark direction) note (length data)
                               @ [CHR 10]) fs1
      in if wl_payload log then append_handle (dump_payload data) fs2 else fs2)"

section \<open>Reading and writing frames\<close>

lemma encode_upstream_ok_iff:
  "encode_upstream sid flag payload = Inr frame \<longleftrightarrow>
     length payload \<le> MAX_UPSTREAM_PAYLOAD \<and>
     frame = u32_to_be_bytes sid @ [flag]
             @ u32_to_be_bytes (word_of_nat (length payload)) @ payload"
  by (auto simp: encode_upstream_def)

lemma upstream_length_exact:
  "length payload \<le> MAX_UPSTREAM_PAYLOAD \<Longrightarrow>
   from_be (u32_to_be_bytes (word_of_nat (length payload))) = length payload"
  by (simp add: u32_to_be_bytes_def MAX_UPSTREAM_PAYLOAD_def unat_of_nat)

lemma read_exact_append [simp]:
  "length xs = n \<Longrightarrow> read_exact n (xs @ ys) = Some (xs, ys)"
  by (auto simp: read_exact_def)

lemma read_exact_eq_Some:
  "read_exact n s = Some (a, b) \<longleftrightarrow> s = a @ b \<and> length a = n"
  by (auto simp: read_exact_def)

text \<open>The frame the phone sends for a chunk, as \<open>read_downstream\<close> expects it.\<close>

definition downstream_frame :: "u32 \<Rightarrow> bytes \<Rightarrow> bytes" where
  "downstream_frame sid chunk = u32_to_be_bytes sid @ to_be 2 (length chunk) @ chunk"

lemma read_downstream_frame [simp]:
  assumes "length chunk \<le> MAX_DOWNSTREAM_CHUNK"
  shows "read_downstream (downstream_frame sid chunk @ rest) =
         Inr ((sid, chunk, u32_to_be_bytes sid @ to_be 2 (length chunk)), rest)"
proof -
  have head: "read_exact 6 (downstream_frame sid chunk @ rest) =
      Some (u32_to_be_bytes sid @ to_be 2 (length chunk), chunk @ rest)"
    using read_exact_append[of "u32_to_be_bytes sid @ to_be 2 (length chunk)" 6 "chunk @ rest"]
    by (simp add: downstream_frame_def)
  have "length chunk < 2 ^ 16"
    using assms by (simp add: MAX_DOWNSTREAM_CHUNK_def)
  with assms show ?thesis by (simp add: read_downstream_def head)
qed

lemma read_downstream_sound:
  assumes "read_downstream stream = Inr ((sid, chunk, header), rest)"
  shows "stream = downstream_frame sid chunk @ rest"
    and "header = u32_to_be_bytes sid @ to_be 2 (length chunk)"
    and "length chunk \<le> MAX_DOWNSTREAM_CHUNK"
proof -
  obtain stream1 where h: "read_exact 6 stream = Some (header, stream1)"
    and sid: "sid = u32_from_be_bytes (take 4 header)"
    and le: "from_be (drop 4 header) \<le> MAX_DOWNSTREAM_CHUNK"
    and c: "read_exact (from_be (drop 4 header)) stream1 = Some (chunk, rest)"
    using assms
    by (auto simp: read_downstream_def Let_def split: option.splits if_splits)
  have len: "length header = 6" and st: "stream = header @ chunk @ rest"
    and clen: "length chunk = from_be (drop 4 header)"
    using h c by (auto simp: read_exact_eq_Some)
  have "take 4 header = u32_to_be_bytes sid"
    using len u32_from_to[of "take 4 header"] by (simp add: sid)
  moreover have "drop 4 header = to_be 2 (length chunk)"
    using len to_be_from_be[of "drop 4 header"] by (simp add: clen)
  ultimately show "header = u32_to_be_bytes sid @ to_be 2 (length chunk)"
    by (metis append_take_drop_id)
  then show "stream = downstream_frame sid chunk @ rest"
    by (simp add: st downstream_frame_def)
  show "length chunk \<le> MAX_DOWNSTREAM_CHUNK" using le clen by simp
qed

end
