(* ===== verification/Envelope.thy ===== *)
theory Envelope
  imports Frame
begin

text \<open>
  Reassembly of length-prefixed messages from downstream chunks. The program has three copies of
  it, with different limits: \<open>NormalAccumulator::push\<close> (device pushes) and the loop of
  \<open>receive_normal\<close> (responses) in \<open>session.rs\<close>, and \<open>read_normal_direct\<close>
  (handshake) in \<open>protocol/handshake.rs\<close>. Each is translated on its own; the locale
  \<open>envelope_assembler\<close> states what a reassembler promises against the reference verdict
  \<open>envelope_verdict\<close>, its lemmas are proved once, and the three translations are
  interpretations. \<open>usize\<close> has 64 bits, so \<open>usize::try_from(u64)\<close> succeeds.
\<close>

section \<open>The reference\<close>

definition envelope :: "bytes \<Rightarrow> bytes" where
  "envelope body = to_be 8 (length body) @ body"

datatype verdict = NeedMore | Complete bytes | Reject

definition envelope_verdict :: "nat \<Rightarrow> bytes \<Rightarrow> verdict" where
  "envelope_verdict limit bs =
     (if length bs < 8 then NeedMore
      else let tot = from_be (take 8 bs) in
           if tot > limit then Reject
           else if length bs = tot + 8 then Complete (drop 8 bs)
           else if length bs > tot + 8 then Reject
           else NeedMore)"

lemma take_envelope [simp]: "take 8 (envelope body) = to_be 8 (length body)"
  by (simp add: envelope_def)

lemma drop_envelope [simp]: "drop 8 (envelope body) = body"
  by (simp add: envelope_def)

lemma length_envelope [simp]: "length (envelope body) = 8 + length body"
  by (simp add: envelope_def)

lemma verdict_Complete_iff:
  assumes "limit < usize_bound"
  shows "envelope_verdict limit bs = Complete body \<longleftrightarrow> bs = envelope body \<and> length body \<le> limit"
proof
  assume v: "envelope_verdict limit bs = Complete body"
  then have len: "length bs = from_be (take 8 bs) + 8" and le: "from_be (take 8 bs) \<le> limit"
    and body: "body = drop 8 bs"
    by (auto simp: envelope_verdict_def Let_def split: if_splits)
  have "to_be 8 (from_be (take 8 bs)) = take 8 bs"
    using to_be_from_be[of "take 8 bs"] len by simp
  moreover have "length body = from_be (take 8 bs)" using len by (simp add: body)
  ultimately show "bs = envelope body \<and> length body \<le> limit"
    using le by (simp add: envelope_def) (simp add: body)
next
  assume a: "bs = envelope body \<and> length body \<le> limit"
  then show "envelope_verdict limit bs = Complete body"
    using assms by (simp add: envelope_verdict_def Let_def)
qed

lemma verdict_strict_prefix:
  assumes "limit < usize_bound" "length body \<le> limit" "bs @ c = envelope body" "c \<noteq> []"
  shows "envelope_verdict limit bs = NeedMore"
proof (cases "length bs < 8")
  case True
  then show ?thesis by (simp add: envelope_verdict_def)
next
  case False
  have "take 8 bs = take 8 (bs @ c)" using False by simp
  then have t: "take 8 bs = to_be 8 (length body)" using assms(3) by (simp add: envelope_def)
  have "length bs < 8 + length body"
    using arg_cong[OF assms(3), of length] assms(4) by (cases c) auto
  with False t assms(1,2) show ?thesis by (simp add: envelope_verdict_def Let_def)
qed

lemma verdict_NeedMore_bound: "envelope_verdict limit bs = NeedMore \<Longrightarrow> length bs < limit + 8"
  by (auto simp: envelope_verdict_def Let_def split: if_splits)

section \<open>The interface of a reassembler\<close>

type_synonym 's push_op = "'s \<Rightarrow> bytes \<Rightarrow> core_error + ('s \<times> bytes option)"

text \<open>Feeding chunks until a message is complete: an error, a state that waits for more, or the
  body with the chunks not yet consumed.\<close>

fun feed :: "'s push_op \<Rightarrow> 's \<Rightarrow> bytes list \<Rightarrow> core_error + ('s + bytes \<times> bytes list)" where
  "feed push s [] = Inr (Inl s)"
| "feed push s (c # cs) =
     (case push s c of
        Inl e \<Rightarrow> Inl e
      | Inr (s', None) \<Rightarrow> feed push s' cs
      | Inr (s', Some body) \<Rightarrow> Inr (Inr (body, cs)))"

locale envelope_assembler =
  fixes push :: "'s push_op"
    and start :: 's
    and buffered :: "'s \<Rightarrow> bytes"
    and good :: "'s \<Rightarrow> bool"
    and limit :: nat
  assumes start_wf: "good start"
    and start_buffered: "buffered start = []"
    and limit_bound: "limit < usize_bound"
    and wf_waiting: "good s \<Longrightarrow> envelope_verdict limit (buffered s) = NeedMore"
    and push_more: "good s \<Longrightarrow> length c \<le> MAX_DOWNSTREAM_CHUNK \<Longrightarrow>
      envelope_verdict limit (buffered s @ c) = NeedMore \<Longrightarrow>
      \<exists>s'. push s c = Inr (s', None) \<and> good s' \<and> buffered s' = buffered s @ c"
    and push_complete: "good s \<Longrightarrow> length c \<le> MAX_DOWNSTREAM_CHUNK \<Longrightarrow>
      envelope_verdict limit (buffered s @ c) = Complete body \<Longrightarrow>
      \<exists>s'. push s c = Inr (s', Some body)"
    and push_reject: "good s \<Longrightarrow> length c \<le> MAX_DOWNSTREAM_CHUNK \<Longrightarrow>
      envelope_verdict limit (buffered s @ c) = Reject \<Longrightarrow>
      \<exists>m. push s c = Inl (Protocol m)"
begin

lemma feed_complete_from:
  assumes "good s" "\<forall>d \<in> set (cs @ [c]). length d \<le> MAX_DOWNSTREAM_CHUNK" "c \<noteq> []"
    and "buffered s @ concat cs @ c = envelope body" "length body \<le> limit"
  shows "feed push s (cs @ c # rest) = Inr (Inr (body, rest))"
  using assms
proof (induction cs arbitrary: s)
  case Nil
  then have "envelope_verdict limit (buffered s @ c) = Complete body"
    by (simp add: verdict_Complete_iff[OF limit_bound])
  then obtain s' where "push s c = Inr (s', Some body)"
    using push_complete[of s c body] Nil.prems(1,2) by auto
  then show ?case by simp
next
  case (Cons d cs)
  have "(buffered s @ d) @ (concat cs @ c) = envelope body"
    using Cons.prems(4) by simp
  then have "envelope_verdict limit (buffered s @ d) = NeedMore"
    using verdict_strict_prefix[OF limit_bound Cons.prems(5)] Cons.prems(3) by blast
  then obtain s' where s': "push s d = Inr (s', None)" "good s'" "buffered s' = buffered s @ d"
    using push_more[of s d] Cons.prems(1,2) by auto
  then have "feed push s' (cs @ c # rest) = Inr (Inr (body, rest))"
    using Cons.IH[of s'] Cons.prems by simp
  with s'(1) show ?case by simp
qed

lemma feed_complete:
  assumes "\<forall>d \<in> set (cs @ [c]). length d \<le> MAX_DOWNSTREAM_CHUNK" "c \<noteq> []"
    and "concat cs @ c = envelope body" "length body \<le> limit"
  shows "feed push start (cs @ c # rest) = Inr (Inr (body, rest))"
  using feed_complete_from[OF start_wf] assms start_buffered by simp

lemma feed_sound_from:
  assumes "good s" "\<forall>d \<in> set cs. length d \<le> MAX_DOWNSTREAM_CHUNK"
    and "feed push s cs = Inr (Inr (body, rest))"
  shows "\<exists>used. cs = used @ rest \<and> buffered s @ concat used = envelope body \<and> length body \<le> limit"
  using assms
proof (induction cs arbitrary: s)
  case Nil
  then show ?case by simp
next
  case (Cons d cs)
  have d: "length d \<le> MAX_DOWNSTREAM_CHUNK" using Cons.prems(2) by simp
  show ?case
  proof (cases "envelope_verdict limit (buffered s @ d)")
    case NeedMore
    then obtain s' where s': "push s d = Inr (s', None)" "good s'" "buffered s' = buffered s @ d"
      using push_more[OF Cons.prems(1) d] by blast
    then obtain used where "cs = used @ rest"
      "buffered s' @ concat used = envelope body" "length body \<le> limit"
      using Cons.IH[of s'] Cons.prems by auto
    then show ?thesis using s'(3) by (intro exI[of _ "d # used"]) simp
  next
    case (Complete b)
    then have eq: "b = body" "cs = rest"
      using push_complete[OF Cons.prems(1) d, of b] Cons.prems(3) by auto
    then show ?thesis
      using Complete by (intro exI[of _ "[d]"]) (simp add: verdict_Complete_iff[OF limit_bound])
  next
    case Reject
    then show ?thesis using push_reject[OF Cons.prems(1) d] Cons.prems(3) by auto
  qed
qed

lemma feed_sound:
  assumes "\<forall>d \<in> set cs. length d \<le> MAX_DOWNSTREAM_CHUNK"
    and "feed push start cs = Inr (Inr (body, rest))"
  shows "\<exists>used. cs = used @ rest \<and> concat used = envelope body \<and> length body \<le> limit"
  using feed_sound_from[OF start_wf assms] by (simp add: start_buffered)

lemma feed_waiting_from:
  assumes "good s" "\<forall>d \<in> set cs. length d \<le> MAX_DOWNSTREAM_CHUNK"
    and "feed push s cs = Inr (Inl s')"
  shows "good s' \<and> buffered s' = buffered s @ concat cs"
  using assms
proof (induction cs arbitrary: s)
  case Nil
  then show ?case by simp
next
  case (Cons d cs)
  have d: "length d \<le> MAX_DOWNSTREAM_CHUNK" using Cons.prems(2) by simp
  show ?case
  proof (cases "envelope_verdict limit (buffered s @ d)")
    case NeedMore
    then obtain t where "push s d = Inr (t, None)" "good t" "buffered t = buffered s @ d"
      using push_more[OF Cons.prems(1) d] by blast
    then show ?thesis using Cons.IH[of t] Cons.prems by simp
  next
    case (Complete b)
    then show ?thesis using push_complete[OF Cons.prems(1) d] Cons.prems(3) by auto
  next
    case Reject
    then show ?thesis using push_reject[OF Cons.prems(1) d] Cons.prems(3) by auto
  qed
qed

lemma feed_bounded:
  assumes "\<forall>d \<in> set cs. length d \<le> MAX_DOWNSTREAM_CHUNK"
    and "feed push start cs = Inr (Inl s)"
  shows "buffered s = concat cs \<and> length (concat cs) < limit + 8"
  using feed_waiting_from[OF start_wf assms] wf_waiting verdict_NeedMore_bound
  by (metis append_Nil start_buffered)

lemma feed_error:
  assumes "good s" "\<forall>d \<in> set cs. length d \<le> MAX_DOWNSTREAM_CHUNK"
    and "feed push s cs = Inl e"
  shows "error_code e = ProtocolCode"
  using assms
proof (induction cs arbitrary: s)
  case Nil
  then show ?case by simp
next
  case (Cons d cs)
  have d: "length d \<le> MAX_DOWNSTREAM_CHUNK" using Cons.prems(2) by simp
  show ?case
  proof (cases "envelope_verdict limit (buffered s @ d)")
    case NeedMore
    then obtain t where "push s d = Inr (t, None)" "good t"
      using push_more[OF Cons.prems(1) d] by blast
    then show ?thesis using Cons.IH[of t] Cons.prems by simp
  next
    case (Complete b)
    then show ?thesis using push_complete[OF Cons.prems(1) d] Cons.prems(3) by auto
  next
    case Reject
    then show ?thesis using push_reject[OF Cons.prems(1) d] Cons.prems(3) by auto
  qed
qed

end

text \<open>The reaction of a reassembler to the verdict on everything received, with the errors left
  open.\<close>

definition reacts :: "verdict \<Rightarrow> 's \<Rightarrow> core_error + ('s \<times> bytes option) \<Rightarrow> bool" where
  "reacts v waiting r =
     (case v of
        NeedMore \<Rightarrow> r = Inr (waiting, None)
      | Complete body \<Rightarrow> (\<exists>s'. r = Inr (s', Some body))
      | Reject \<Rightarrow> (\<exists>m. r = Inl (Protocol m)))"

lemma reacts_laws:
  "reacts NeedMore w r \<longleftrightarrow> r = Inr (w, None)"
  "reacts (Complete body) w r \<longleftrightarrow> (\<exists>s'. r = Inr (s', Some body))"
  "reacts Reject w r \<longleftrightarrow> (\<exists>m. r = Inl (Protocol m))"
  by (simp_all add: reacts_def)

text \<open>An implementation is easiest checked against the verdict itself: \<open>waiting\<close> names the
  state it moves to when more bytes are needed.\<close>

locale reacting_assembler =
  fixes push :: "'s push_op"
    and start :: 's
    and buffered :: "'s \<Rightarrow> bytes"
    and good :: "'s \<Rightarrow> bool"
    and limit :: nat
    and waiting :: "'s \<Rightarrow> bytes \<Rightarrow> 's"
  assumes begins: "good start \<and> buffered start = []"
    and bounded: "limit < usize_bound"
    and wf_open: "good s \<Longrightarrow> envelope_verdict limit (buffered s) = NeedMore"
    and push_reacts: "good s \<Longrightarrow> length c \<le> MAX_DOWNSTREAM_CHUNK \<Longrightarrow>
      reacts (envelope_verdict limit (buffered s @ c)) (waiting s c) (push s c)"
    and waiting_buffered: "buffered (waiting s c) = buffered s @ c"
    and waiting_wf: "good s \<Longrightarrow> envelope_verdict limit (buffered s @ c) = NeedMore \<Longrightarrow>
      good (waiting s c)"

sublocale reacting_assembler \<subseteq> envelope_assembler push start buffered good limit
proof unfold_locales
  fix s and c :: bytes
  assume g: "good s" and l: "length c \<le> MAX_DOWNSTREAM_CHUNK"
  note r = push_reacts[OF g l]
  show "envelope_verdict limit (buffered s @ c) = NeedMore \<Longrightarrow>
      \<exists>s'. push s c = Inr (s', None) \<and> good s' \<and> buffered s' = buffered s @ c"
    using r waiting_wf[OF g] waiting_buffered by (auto simp: reacts_laws)
  show "envelope_verdict limit (buffered s @ c) = Complete body \<Longrightarrow>
      \<exists>s'. push s c = Inr (s', Some body)" for body
    using r by (auto simp: reacts_laws)
  show "envelope_verdict limit (buffered s @ c) = Reject \<Longrightarrow> \<exists>m. push s c = Inl (Protocol m)"
    using r by (auto simp: reacts_laws)
qed (use begins bounded wf_open in auto)

section \<open>The reassembler of device pushes\<close>

definition MAX_PUSH_MESSAGE :: nat where
  "MAX_PUSH_MESSAGE = 4 * 1024 * 1024"

record NormalAccumulator =
  na_bytes :: bytes
  na_total :: "nat option"
  na_last_seen :: nat

definition accumulator_total :: "nat option \<Rightarrow> bytes \<Rightarrow> nat option core_result" where
  "accumulator_total tot bs =
     (if tot = None \<and> length bs \<ge> 8
      then (if from_be (take 8 bs) > MAX_PUSH_MESSAGE
            then Inl (Protocol ''session.event_length_too_large'')
            else Inr (Some (from_be (take 8 bs))))
      else Inr tot)"

definition push_accumulator ::
  "NormalAccumulator \<Rightarrow> bytes \<Rightarrow> bytes option core_result \<times> NormalAccumulator" where
  "push_accumulator acc chunk =
     (let bs = na_bytes acc @ chunk; acc1 = acc\<lparr>na_bytes := bs\<rparr> in
      if length bs > MAX_PUSH_MESSAGE + 8
      then (Inl (Protocol ''session.event_length_too_large''), acc1)
      else (case accumulator_total (na_total acc) bs of
              Inl e \<Rightarrow> (Inl e, acc1)
            | Inr None \<Rightarrow> (Inr None, acc1)
            | Inr (Some tot) \<Rightarrow>
                (let acc2 = acc1\<lparr>na_total := Some tot\<rparr> in
                 case checked_add_usize tot 8 of
                   None \<Rightarrow> (Inl (Protocol ''session.event_length_overflow''), acc2)
                 | Some expected \<Rightarrow>
                     if length bs = expected
                     then (Inr (Some (drop 8 bs)), acc2\<lparr>na_bytes := take 8 bs\<rparr>)
                     else if length bs > expected
                     then (Inl (Protocol ''session.event_too_long''), acc2)
                     else (Inr None, acc2))))"

definition accumulator_new :: "nat \<Rightarrow> NormalAccumulator" where
  "accumulator_new now = \<lparr>na_bytes = [], na_total = None, na_last_seen = now\<rparr>"

definition accumulator_push :: "NormalAccumulator push_op" where
  "accumulator_push acc chunk =
     (case push_accumulator acc chunk of
        (Inl e, _) \<Rightarrow> Inl e
      | (Inr body, acc') \<Rightarrow> Inr (acc', body))"

section \<open>The reassembler of responses\<close>

definition NORMAL_RESPONSE_LIMIT :: nat where
  "NORMAL_RESPONSE_LIMIT = 64 * 1024 * 1024"

type_synonym partial_response = "bytes \<times> nat option"

text \<open>One iteration of the loop of \<open>receive_normal\<close> on a data chunk, before the body is
  inspected for a cancellation.\<close>

definition response_push :: "partial_response push_op" where
  "response_push st chunk =
     (let assembled = fst st @ chunk; tot = snd st in
      if tot = None \<and> length assembled > 8 + MAX_DOWNSTREAM_CHUNK
      then Inl (Protocol ''session.response_too_long'')
      else let tot1 = (if tot = None \<and> length assembled \<ge> 8
                         then Some (from_be (take 8 assembled)) else tot)
           in case tot1 of
                None \<Rightarrow> Inr ((assembled, tot1), None)
              | Some n \<Rightarrow>
                  if n > NORMAL_RESPONSE_LIMIT
                  then Inl (Protocol ''session.response_cap_exceeded'')
                  else (case checked_add_usize n 8 of
                          None \<Rightarrow> Inl (Protocol ''session.response_length_overflow'')
                        | Some expected \<Rightarrow>
                            if length assembled = expected
                            then Inr ((take 8 assembled, tot1), Some (drop 8 assembled))
                            else if length assembled > expected
                            then Inl (Protocol ''session.response_too_long'')
                            else Inr ((assembled, tot1), None)))"

section \<open>The reassembler of the handshake\<close>

definition MAX_HANDSHAKE_RESPONSE :: nat where
  "MAX_HANDSHAKE_RESPONSE = 16 * 1024 * 1024"

definition handshake_push :: "partial_response push_op" where
  "handshake_push st chunk =
     (let assembled = fst st @ chunk; tot = snd st;
          tot1 = (if tot = None \<and> length assembled \<ge> 8
                    then Some (from_be (take 8 assembled)) else tot)
      in case tot1 of
           None \<Rightarrow> Inr ((assembled, tot1), None)
         | Some n \<Rightarrow>
             if n > MAX_HANDSHAKE_RESPONSE
             then Inl (Protocol ''session.response_length_too_large'')
             else (case checked_add_usize n 8 of
                     None \<Rightarrow> Inl (Protocol ''session.response_length_overflow'')
                   | Some expected \<Rightarrow>
                       if length assembled = expected
                       then Inr ((take 8 assembled, tot1), Some (drop 8 assembled))
                       else if length assembled > expected
                       then Inl (Protocol ''session.response_too_long'')
                       else Inr ((assembled, tot1), None)))"

lemma read_downstream_shorter:
  "read_downstream stream = Inr ((sid, chunk, header), rest) \<Longrightarrow> length rest < length stream"
  by (drule read_downstream_sound(1)) (simp add: downstream_frame_def)

text \<open>\<open>read_normal_direct\<close> over the bytes the stream still delivers; it returns the body and
  the rest of the stream. Every iteration consumes a frame header, so it ends.\<close>

function read_normal_from ::
  "partial_response \<Rightarrow> u32 \<Rightarrow> bytes \<Rightarrow> (bytes \<times> bytes) core_result" where
  "read_normal_from st expected_sid stream =
     (case read_downstream stream of
        Inl e \<Rightarrow> Inl e
      | Inr ((sid, chunk, header), rest) \<Rightarrow>
          if sid \<noteq> expected_sid then Inl (Protocol ''handshake.sid_mismatch'')
          else (case handshake_push st chunk of
                  Inl e \<Rightarrow> Inl e
                | Inr (st', None) \<Rightarrow> read_normal_from st' expected_sid rest
                | Inr (_, Some body) \<Rightarrow> Inr (body, rest)))"
  by pat_completeness auto
termination
  by (relation "measure (\<lambda>(_, _, stream). length stream)")
     (auto dest: read_downstream_shorter)

declare read_normal_from.simps [simp del]

definition read_normal_direct :: "u32 \<Rightarrow> bytes \<Rightarrow> (bytes \<times> bytes) core_result" where
  "read_normal_direct expected_sid stream = read_normal_from ([], None) expected_sid stream"

section \<open>The three translations refine the reference\<close>

definition declared_total :: "bytes \<Rightarrow> nat option" where
  "declared_total bs = (if length bs \<ge> 8 then Some (from_be (take 8 bs)) else None)"

definition accumulator_wf :: "NormalAccumulator \<Rightarrow> bool" where
  "accumulator_wf acc \<longleftrightarrow>
     envelope_verdict MAX_PUSH_MESSAGE (na_bytes acc) = NeedMore \<and>
     na_total acc = declared_total (na_bytes acc)"

definition partial_wf :: "nat \<Rightarrow> partial_response \<Rightarrow> bool" where
  "partial_wf limit st \<longleftrightarrow>
     envelope_verdict limit (fst st) = NeedMore \<and> snd st = declared_total (fst st)"

lemma limits_bounded:
  "MAX_PUSH_MESSAGE + 8 < usize_bound"
  "NORMAL_RESPONSE_LIMIT + 8 < usize_bound"
  "MAX_HANDSHAKE_RESPONSE + 8 < usize_bound"
  by (simp_all add: MAX_PUSH_MESSAGE_def NORMAL_RESPONSE_LIMIT_def MAX_HANDSHAKE_RESPONSE_def
      usize_bound_def)

lemma declared_total_step:
  assumes "tot = declared_total xs" "bs = xs @ c"
  shows "(if tot = None \<and> length bs \<ge> 8 then Some (from_be (take 8 bs)) else tot) = declared_total bs"
  using assms by (auto simp: declared_total_def)

lemma declared_total_cases:
  obtains "length bs < 8" "declared_total bs = None"
  | n where "\<not> length bs < 8" "n = from_be (take 8 bs)" "declared_total bs = Some n"
  by (cases "length bs < 8") (auto simp: declared_total_def)

lemma verdict_total:
  "declared_total bs = Some n \<Longrightarrow> envelope_verdict limit bs =
     (if n > limit then Reject else if length bs = n + 8 then Complete (drop 8 bs)
      else if length bs > n + 8 then Reject else NeedMore)"
  "declared_total bs = None \<Longrightarrow> envelope_verdict limit bs = NeedMore"
  by (auto simp: declared_total_def envelope_verdict_def Let_def split: if_splits)

lemma handshake_push_reacts:
  assumes "partial_wf MAX_HANDSHAKE_RESPONSE st"
  shows "reacts (envelope_verdict MAX_HANDSHAKE_RESPONSE (fst st @ c))
           (fst st @ c, declared_total (fst st @ c)) (handshake_push st c)"
proof -
  define bs where "bs = fst st @ c"
  have tot: "(if snd st = None \<and> length bs \<ge> 8 then Some (from_be (take 8 bs)) else snd st)
      = declared_total bs"
    using assms by (intro declared_total_step) (auto simp: partial_wf_def bs_def)
  show ?thesis
    unfolding handshake_push_def Let_def bs_def[symmetric] tot
    using limits_bounded(3)
    by (cases bs rule: declared_total_cases)
       (auto simp: reacts_def verdict_total checked_add_usize_def)
qed

lemma response_push_reacts:
  assumes "partial_wf NORMAL_RESPONSE_LIMIT st" "length c \<le> MAX_DOWNSTREAM_CHUNK"
  shows "reacts (envelope_verdict NORMAL_RESPONSE_LIMIT (fst st @ c))
           (fst st @ c, declared_total (fst st @ c)) (response_push st c)"
proof -
  define bs where "bs = fst st @ c"
  have tot: "(if snd st = None \<and> length bs \<ge> 8 then Some (from_be (take 8 bs)) else snd st)
      = declared_total bs"
    using assms by (intro declared_total_step) (auto simp: partial_wf_def bs_def)
  have short: "\<not> (snd st = None \<and> length bs > 8 + MAX_DOWNSTREAM_CHUNK)"
    using assms by (auto simp: partial_wf_def bs_def declared_total_def split: if_splits)
  show ?thesis
    unfolding response_push_def Let_def bs_def[symmetric] tot if_not_P[OF short]
    using limits_bounded(2)
    by (cases bs rule: declared_total_cases)
       (auto simp: reacts_def verdict_total checked_add_usize_def)
qed

lemma accumulator_push_reacts:
  assumes "accumulator_wf acc"
  shows "reacts (envelope_verdict MAX_PUSH_MESSAGE (na_bytes acc @ c))
           (acc\<lparr>na_bytes := na_bytes acc @ c, na_total := declared_total (na_bytes acc @ c)\<rparr>)
           (accumulator_push acc c)"
proof -
  define bs where "bs = na_bytes acc @ c"
  have good: "na_total acc = declared_total (na_bytes acc)"
    and waiting: "envelope_verdict MAX_PUSH_MESSAGE (na_bytes acc) = NeedMore"
    using assms by (auto simp: accumulator_wf_def)
  have known: "na_total acc = Some n \<Longrightarrow> declared_total bs = Some n \<and> n \<le> MAX_PUSH_MESSAGE" for n
    using good waiting
    by (auto simp: bs_def declared_total_def envelope_verdict_def Let_def split: if_splits)
  have tot: "accumulator_total (na_total acc) bs =
      (case declared_total bs of
         Some n \<Rightarrow> if n > MAX_PUSH_MESSAGE
                   then Inl (Protocol ''session.event_length_too_large'') else Inr (Some n)
       | None \<Rightarrow> Inr None)"
    using known by (cases "na_total acc") (auto simp: accumulator_total_def declared_total_def)
  have same: "declared_total bs = None \<Longrightarrow>
      acc\<lparr>na_bytes := bs\<rparr> = acc\<lparr>na_bytes := bs, na_total := None\<rparr>"
    using known by (cases acc; cases "na_total acc") auto
  show ?thesis
    unfolding accumulator_push_def push_accumulator_def Let_def bs_def[symmetric] tot
    using limits_bounded(1) known same
    by (cases bs rule: declared_total_cases)
       (auto simp: reacts_def verdict_total checked_add_usize_def)
qed

lemma partial_start [simp]: "limit < usize_bound \<Longrightarrow> partial_wf limit ([], None)"
  by (simp add: partial_wf_def declared_total_def envelope_verdict_def)

interpretation pushes: reacting_assembler
  accumulator_push "accumulator_new now" na_bytes accumulator_wf MAX_PUSH_MESSAGE
  "\<lambda>acc c. acc\<lparr>na_bytes := na_bytes acc @ c, na_total := declared_total (na_bytes acc @ c)\<rparr>"
  for now
proof unfold_locales
  show "accumulator_wf (accumulator_new now) \<and> na_bytes (accumulator_new now) = []"
    by (simp add: accumulator_wf_def accumulator_new_def declared_total_def envelope_verdict_def)
  show "MAX_PUSH_MESSAGE < usize_bound" using limits_bounded(1) by linarith
qed (simp_all only: accumulator_push_reacts, simp_all add: accumulator_wf_def)

interpretation responses: reacting_assembler
  response_push "([], None)" fst "partial_wf NORMAL_RESPONSE_LIMIT" NORMAL_RESPONSE_LIMIT
  "\<lambda>st c. (fst st @ c, declared_total (fst st @ c))"
proof unfold_locales
  show "NORMAL_RESPONSE_LIMIT < usize_bound" using limits_bounded(2) by linarith
  then show "partial_wf NORMAL_RESPONSE_LIMIT ([], None) \<and> fst ([], None :: nat option) = []"
    by simp
qed (simp_all only: response_push_reacts, simp_all add: partial_wf_def)

interpretation handshakes: reacting_assembler
  handshake_push "([], None)" fst "partial_wf MAX_HANDSHAKE_RESPONSE" MAX_HANDSHAKE_RESPONSE
  "\<lambda>st c. (fst st @ c, declared_total (fst st @ c))"
proof unfold_locales
  show "MAX_HANDSHAKE_RESPONSE < usize_bound" using limits_bounded(3) by linarith
  then show "partial_wf MAX_HANDSHAKE_RESPONSE ([], None) \<and> fst ([], None :: nat option) = []"
    by simp
qed (simp_all only: handshake_push_reacts, simp_all add: partial_wf_def)

section \<open>The handshake reader on a byte stream\<close>

abbreviation frames :: "u32 \<Rightarrow> bytes list \<Rightarrow> bytes" where
  "frames sid cs \<equiv> concat (map (downstream_frame sid) cs)"

lemma read_normal_from_frames:
  assumes "\<forall>c \<in> set cs. length c \<le> MAX_DOWNSTREAM_CHUNK"
  shows "read_normal_from st sid (frames sid cs @ rest) =
    (case feed handshake_push st cs of
       Inl e \<Rightarrow> Inl e
     | Inr (Inl st') \<Rightarrow> read_normal_from st' sid rest
     | Inr (Inr (body, cs')) \<Rightarrow> Inr (body, frames sid cs' @ rest))"
  using assms
proof (induction cs arbitrary: st)
  case Nil
  then show ?case by simp
next
  case (Cons c cs)
  then show ?case
    by (subst read_normal_from.simps)
       (auto split: sum.splits option.splits)
qed

lemma read_normal_from_sound:
  assumes "read_normal_from st sid stream = Inr (body, rest)"
  shows "\<exists>cs. stream = frames sid cs @ rest \<and> feed handshake_push st cs = Inr (Inr (body, []))
    \<and> (\<forall>c \<in> set cs. length c \<le> MAX_DOWNSTREAM_CHUNK)"
  using assms
proof (induction st sid stream rule: read_normal_from.induct)
  case (1 st sid stream)
  obtain sid' chunk header rest1 where r: "read_downstream stream = Inr ((sid', chunk, header), rest1)"
    using "1.prems" by (subst (asm) read_normal_from.simps) (auto split: sum.splits)
  note st = read_downstream_sound[OF r]
  have sid': "sid' = sid"
    using "1.prems" r by (subst (asm) read_normal_from.simps) (auto split: if_splits)
  show ?case
  proof (cases "handshake_push st chunk")
    case (Inl e)
    then show ?thesis
      using "1.prems" r sid' by (subst (asm) read_normal_from.simps) auto
  next
    case (Inr p)
    obtain st' o' where p: "p = (st', o')" by (cases p)
    show ?thesis
    proof (cases o')
      case None
      then have "read_normal_from st' sid rest1 = Inr (body, rest)"
        using "1.prems" r sid' Inr p by (subst (asm) read_normal_from.simps) auto
      then obtain cs where "rest1 = frames sid cs @ rest"
        "feed handshake_push st' cs = Inr (Inr (body, []))"
        "\<forall>c \<in> set cs. length c \<le> MAX_DOWNSTREAM_CHUNK"
        using "1.IH"[OF r refl refl refl _ Inr p[symmetric] None] sid' by auto
      then show ?thesis
        using st sid' Inr p None by (intro exI[of _ "chunk # cs"]) auto
    next
      case (Some b)
      then have "b = body" "rest1 = rest"
        using "1.prems" r sid' Inr p by (subst (asm) read_normal_from.simps, auto)+
      then show ?thesis
        using st sid' Inr p Some by (intro exI[of _ "[chunk]"]) auto
    qed
  qed
qed

text \<open>The handshake reader reassembles a message from however the phone cut it into chunks:
  for every body within the 16 MiB cap and every cutting of its length-prefixed form into frames
  of the expected sid (the last one not empty), it returns exactly the body and leaves the bytes
  that follow unread.\<close>

lemma read_normal_direct_roundtrip:
  assumes "\<forall>d \<in> set (cs @ [c]). length d \<le> MAX_DOWNSTREAM_CHUNK" "c \<noteq> []"
    and "concat cs @ c = envelope body" "length body \<le> MAX_HANDSHAKE_RESPONSE"
  shows "read_normal_direct sid (frames sid (cs @ [c]) @ rest) = Inr (body, rest)"
proof -
  have "feed handshake_push ([], None) (cs @ [c]) = Inr (Inr (body, []))"
    using handshakes.feed_complete[OF assms, of "[]"] by simp
  then show ?thesis
    using read_normal_from_frames[OF assms(1)] by (simp add: read_normal_direct_def)
qed

lemma read_normal_direct_roundtrip_witness:
  "read_normal_direct 7 (frames 7 [[0, 0, 0], [0, 0, 0, 0, 2, 111], [107]] @ [1]) = Inr ([111, 107], [1])"
proof -
  have "concat [[0, 0, 0], [0, 0, 0, 0, 2, 111]] @ [107] = envelope [111, 107 :: byte]"
    by code_simp
  then show ?thesis
    using read_normal_direct_roundtrip[of "[[0, 0, 0], [0, 0, 0, 0, 2, 111]]" "[107]" "[111, 107]" 7 "[1]"]
    by (simp add: MAX_DOWNSTREAM_CHUNK_def MAX_HANDSHAKE_RESPONSE_def)
qed

text \<open>whatever the handshake reader returns was sent: the consumed bytes are frames of the
  expected sid whose chunks, concatenated, are the length-prefixed body, and the body is within
  the cap. A rogue peer cannot make it accept a chunk of another session or a truncated body.\<close>

theorem read_normal_direct_sound:
  assumes "read_normal_direct sid stream = Inr (body, rest)"
  shows "\<exists>cs. stream = frames sid cs @ rest \<and> concat cs = envelope body
    \<and> length body \<le> MAX_HANDSHAKE_RESPONSE"
proof -
  obtain cs where "stream = frames sid cs @ rest"
    "feed handshake_push ([], None) cs = Inr (Inr (body, []))"
    "\<forall>c \<in> set cs. length c \<le> MAX_DOWNSTREAM_CHUNK"
    using read_normal_from_sound[OF assms[unfolded read_normal_direct_def]] by blast
  then show ?thesis using handshakes.feed_sound by fastforce
qed

theorem read_normal_direct_sound_witness:
  "\<exists>cs. frames 7 [envelope [111, 107]] = frames 7 cs @ [] \<and> concat cs = envelope [111, 107]
    \<and> length [111, 107 :: byte] \<le> MAX_HANDSHAKE_RESPONSE"
proof (rule read_normal_direct_sound)
  have len: "length [111, 107 :: byte] \<le> MAX_HANDSHAKE_RESPONSE" "envelope [111, 107] \<noteq> []"
    "length (envelope [111, 107]) \<le> MAX_DOWNSTREAM_CHUNK"
    by (simp_all add: MAX_HANDSHAKE_RESPONSE_def MAX_DOWNSTREAM_CHUNK_def envelope_def)
  then have "feed handshake_push ([], None) [envelope [111, 107]] = Inr (Inr ([111, 107], []))"
    using handshakes.feed_complete[of "[]" "envelope [111, 107]" "[111, 107]" "[]"] by simp
  then show "read_normal_direct 7 (frames 7 [envelope [111, 107]]) = Inr ([111, 107], [])"
    using read_normal_from_frames[of "[envelope [111, 107]]" "([], None)" 7 "[]"] len(3)
    by (simp add: read_normal_direct_def)
qed

end
