(* ===== verification/Stores.thy ===== *)
theory Stores
  imports Prelude "HOL-Library.List_Lexorder" "HOL-Library.Char_ord"
begin

text \<open>
  The two maps of the Rust standard library the program keeps its state in. A \<open>HashMap\<close> is a
  HOL map: its iteration order is unspecified and no translated code depends on it. A
  \<open>BTreeMap\<close> is iterated in key order, so it is the list of its entries, kept sorted by
  \<open>bt_insert\<close>. The locale \<open>keyed_store\<close> is the contract both are used through; strings
  are ordered bytewise, as Rust orders \<open>String\<close>.
\<close>

section \<open>The contract\<close>

locale keyed_store =
  fixes get :: "'m \<Rightarrow> 'k \<Rightarrow> 'v option"
    and put :: "'k \<Rightarrow> 'v \<Rightarrow> 'm \<Rightarrow> 'm"
    and del :: "'k \<Rightarrow> 'm \<Rightarrow> 'm"
    and none :: 'm
    and valid :: "'m \<Rightarrow> bool"
  assumes get_none: "get none k = None"
    and valid_none: "valid none"
    and get_put: "valid m \<Longrightarrow> get (put k v m) k' = (if k' = k then Some v else get m k')"
    and valid_put: "valid m \<Longrightarrow> valid (put k v m)"
    and get_del: "valid m \<Longrightarrow> get (del k m) k' = (if k' = k then None else get m k')"
    and valid_del: "valid m \<Longrightarrow> valid (del k m)"
begin

lemma valid_put_all: "valid m \<Longrightarrow> valid (fold (\<lambda>(k, v). put k v) kvs m)"
  by (induction kvs arbitrary: m) (auto simp: valid_put)

lemma get_put_all_other:
  "valid m \<Longrightarrow> k \<notin> fst ` set kvs \<Longrightarrow> get (fold (\<lambda>(k, v). put k v) kvs m) k = get m k"
proof (induction kvs arbitrary: m)
  case Nil
  then show ?case by simp
next
  case (Cons kv kvs)
  then show ?case by (cases kv) (auto simp: valid_put get_put)
qed

lemma get_put_all:
  "valid m \<Longrightarrow> distinct (map fst kvs) \<Longrightarrow> (k, v) \<in> set kvs \<Longrightarrow>
   get (fold (\<lambda>(k, v). put k v) kvs m) k = Some v"
proof (induction kvs arbitrary: m)
  case Nil
  then show ?case by simp
next
  case (Cons kv kvs)
  obtain k' v' where kv: "kv = (k', v')" by (cases kv)
  show ?case
  proof (cases "(k, v) = (k', v')")
    case True
    then have "k \<notin> fst ` set kvs" using Cons.prems(2) kv by auto
    then show ?thesis
      using get_put_all_other[of "put k' v' m" k kvs] True Cons.prems(1) kv
      by (simp add: valid_put get_put)
  next
    case False
    then show ?thesis using Cons kv by (auto simp: valid_put)
  qed
qed

lemma valid_del_all: "valid m \<Longrightarrow> valid (fold del ks m)"
  by (induction ks arbitrary: m) (auto simp: valid_del)

lemma get_del_all:
  "valid m \<Longrightarrow> get (fold del ks m) k = (if k \<in> set ks then None else get m k)"
  by (induction ks arbitrary: m) (auto simp: valid_del get_del)

end

section \<open>Ordered maps\<close>

type_synonym ('k, 'v) btree = "('k \<times> 'v) list"

fun bt_insert :: "'k::linorder \<Rightarrow> 'v \<Rightarrow> ('k, 'v) btree \<Rightarrow> ('k, 'v) btree" where
  "bt_insert k v [] = [(k, v)]"
| "bt_insert k v ((k', v') # m) =
     (if k < k' then (k, v) # (k', v') # m
      else if k = k' then (k, v) # m
      else (k', v') # bt_insert k v m)"

definition bt_remove :: "'k \<Rightarrow> ('k, 'v) btree \<Rightarrow> ('k, 'v) btree" where
  "bt_remove k m = filter (\<lambda>(k', _). k' \<noteq> k) m"

definition bt_get :: "('k, 'v) btree \<Rightarrow> 'k \<Rightarrow> 'v option" where
  "bt_get m = map_of m"

definition bt_keys :: "('k, 'v) btree \<Rightarrow> 'k list" where
  "bt_keys m = map fst m"

definition bt_ok :: "('k::linorder, 'v) btree \<Rightarrow> bool" where
  "bt_ok m \<longleftrightarrow> sorted_wrt (<) (bt_keys m)"

lemma bt_insert_keys [simp]: "set (bt_keys (bt_insert k v m)) = insert k (set (bt_keys m))"
  by (induction m rule: bt_insert.induct) (auto simp: bt_keys_def)

lemma bt_ok_insert [simp]: "bt_ok m \<Longrightarrow> bt_ok (bt_insert k v m)"
proof (induction k v m rule: bt_insert.induct)
  case (1 k v)
  then show ?case by (simp add: bt_ok_def bt_keys_def)
next
  case (2 k v k' v' m)
  have tail: "set (map fst (bt_insert k v m)) = insert k (fst ` set m)"
    using bt_insert_keys[of k v m] by (simp add: bt_keys_def)
  show ?case
    using 2 tail by (auto simp: bt_ok_def bt_keys_def)
qed

lemma bt_get_insert [simp]: "bt_get (bt_insert k v m) k' = (if k' = k then Some v else bt_get m k')"
  by (induction k v m rule: bt_insert.induct) (auto simp: bt_get_def)

lemma bt_ok_remove [simp]: "bt_ok m \<Longrightarrow> bt_ok (bt_remove k m)"
  by (induction m) (auto simp: bt_ok_def bt_keys_def bt_remove_def)

lemma bt_get_remove [simp]: "bt_get (bt_remove k m) k' = (if k' = k then None else bt_get m k')"
  by (induction m) (auto simp: bt_get_def bt_remove_def)

lemma bt_distinct: "bt_ok m \<Longrightarrow> distinct (bt_keys m)"
  by (induction m) (auto simp: bt_ok_def bt_keys_def)

lemma bt_get_iff: "bt_ok m \<Longrightarrow> bt_get m k = Some v \<longleftrightarrow> (k, v) \<in> set m"
  using bt_distinct[of m] by (simp add: bt_get_def bt_keys_def)

lemma bt_get_None_iff: "bt_get m k = None \<longleftrightarrow> k \<notin> set (bt_keys m)"
  by (simp add: bt_get_def bt_keys_def map_of_eq_None_iff)

interpretation bt: keyed_store bt_get bt_insert bt_remove "[]" bt_ok
  by unfold_locales (simp_all, simp_all add: bt_get_def bt_ok_def bt_keys_def)

section \<open>Hash maps\<close>

interpretation hm: keyed_store "\<lambda>m k. m k" "\<lambda>k v m. m(k \<mapsto> v)" "\<lambda>k m. m(k := None)" Map.empty
  "\<lambda>_. True"
  by unfold_locales auto

end
