(* ===== verification/Domain.thy ===== *)
theory Domain
  imports Errors Stores
begin

text \<open>
  The public values of \<open>handshaker-core/src/domain.rs\<close>, field for field. Field names carry a
  prefix for their struct because record fields are global here. Unsigned integers that are only
  stored and compared are naturals; an \<open>f64\<close> is its 64-bit pattern. Progress callbacks and
  cancellation handles are not data and appear as arguments where they are used.
\<close>

type_synonym f64 = "64 word"

record DeviceInfo =
  di_serial :: string
  di_phone_id :: "string option"
  di_name :: "string option"
  di_model :: "string option"
  di_brand :: "string option"
  di_manufacturer :: "string option"
  di_smartisan_version :: "string option"
  di_apk_version :: "string option"
  di_apk_version_name :: "string option"
  di_root_path :: string
  di_external_storage_path :: "string option"
  di_disk_size :: "nat option"
  di_used_disk_size :: "nat option"
  di_battery_percentage :: "nat option"
  di_phone_locked :: "bool option"

record AdbDevice =
  ad_serial :: string
  ad_state :: string
  ad_product :: "string option"
  ad_model :: "string option"
  ad_device :: "string option"

record WifiDevice =
  wd_instance :: string
  wd_host :: string
  wd_addresses :: "string list"
  wd_port :: nat
  wd_txt :: "(string, string) btree"

record TrustRecordInfo =
  ti_device_uuid :: string
  ti_device_name :: "string option"
  ti_updated_at :: nat

record RemoteFile =
  rf_path :: string
  rf_size :: nat
  rf_created_at :: "nat option"
  rf_modified_at :: "nat option"
  rf_is_directory :: bool
  rf_checksum :: "string option"
  rf_is_trash :: "bool option"
  rf_id :: "nat option"
  rf_ext_data :: "string option"

record ClipboardEntry =
  ce_text :: string
  ce_timestamp_ms :: int

record DeleteOptions =
  do_trash :: bool
  do_sync :: bool

record BatchTransferItem =
  bi_source :: string
  bi_target :: string

record BatchTransferFailure =
  bf_source :: string
  bf_target :: string
  bf_message :: string
  bf_code :: "ErrorCode option"

record BatchTransferResult =
  br_ok :: "BatchTransferItem list"
  br_failures :: "BatchTransferFailure list"

record ImageFile =
  im_path :: "string option"
  im_size :: "nat option"
  im_created_at :: "nat option"
  im_modified_at :: "nat option"
  im_width :: "nat option"
  im_height :: "nat option"
  im_orientation :: "nat option"
  im_media_id :: "nat option"
  im_album_id :: "nat option"
  im_mime_type :: "string option"
  im_thumbnail :: "bytes option"
  im_album_name :: "string option"
  im_date_taken :: "nat option"
  im_latitude :: "string option"
  im_longitude :: "string option"
  im_mini_thumb_magic :: "string option"
  im_title :: "string option"
  im_thumbnail_error :: bool
  im_starred :: bool

record ImageAlbum =
  ia_path :: "string option"
  ia_album_id :: "nat option"
  ia_name :: "string option"
  ia_cover_image :: "ImageFile option"

record VideoFile =
  vf_path :: "string option"
  vf_size :: "nat option"
  vf_created_at :: "nat option"
  vf_modified_at :: "nat option"
  vf_width :: "nat option"
  vf_height :: "nat option"
  vf_orientation :: "nat option"
  vf_media_id :: "nat option"
  vf_album_id :: "nat option"
  vf_mime_type :: "string option"
  vf_thumbnail :: "bytes option"
  vf_thumbnail_error :: bool
  vf_duration :: "f64 option"

record VideoAlbum =
  va_path :: "string option"
  va_album_id :: "nat option"
  va_name :: "string option"

record AudioFile =
  af_path :: "string option"
  af_size :: "nat option"
  af_created_at :: "nat option"
  af_modified_at :: "nat option"
  af_media_id :: "nat option"
  af_album_id :: "nat option"
  af_title :: "string option"
  af_mime_type :: "string option"
  af_artist_id :: "nat option"
  af_artist :: "string option"
  af_composer :: "string option"
  af_genre :: "nat option"
  af_comment :: "string option"
  af_copyright :: "string option"
  af_audio_codec :: "string option"
  af_track :: "nat option"
  af_duration :: "f64 option"

record AudioAlbum =
  aa_path :: "string option"
  aa_album_id :: "nat option"
  aa_name :: "string option"
  aa_artist_id :: "nat option"
  aa_artist :: "string option"
  aa_year :: "nat option"
  aa_thumbnail :: "bytes option"
  aa_thumbnail_error :: bool

record PhotoLibrary =
  pl_images :: "ImageFile list"
  pl_albums :: "ImageAlbum list"
  pl_camera_album_id :: "nat option"

record VideoLibrary =
  vl_videos :: "VideoFile list"
  vl_albums :: "VideoAlbum list"

record AudioLibrary =
  al_tracks :: "AudioFile list"
  al_albums :: "AudioAlbum list"

record SyncConfig =
  sc_device_uuid :: string
  sc_phone_root :: string
  sc_local_root :: string
  sc_pc_id :: string

record SyncFileRecord =
  fr_size :: nat
  fr_checksum :: "string option"
  fr_ext_data :: "string option"
  fr_modified_at :: "nat option"
  fr_local_path :: string
  fr_local_sha256 :: "string option"

record SyncSnapshot =
  sn_files :: "(string, SyncFileRecord) btree"

record SyncDiff =
  sd_added :: "string list"
  sd_info_modified :: "string list"
  sd_deleted :: "string list"
  sd_conflicts :: "string list"

record PhotoSyncResult =
  pr_is_first :: "bool option"
  pr_files :: "RemoteFile list"
  pr_is_success :: "bool option"

datatype TransferDirection = Download | Upload

record TransferProgress =
  tp_direction :: TransferDirection
  tp_transferred :: nat
  tp_total :: nat

end
