(* ===== verification/Events.thy ===== *)
theory Events
  imports Domain
begin

text \<open>
  Phone-initiated events: the types and filters of \<open>handshaker-core/src/events.rs\<close> and the
  classification of a push body in \<open>event_decode.rs\<close>. The messages of
  \<open>proto/smartsync.proto\<close> are records of the fields the code reads. The decoders prost
  generates, gzip and the division of an \<open>f64\<close> by 1000 are the fields of \<open>codec\<close>, an
  argument of the definitions; no theorem assumes anything of them.
\<close>

section \<open>Messages\<close>

record SspFile =
  xf_path :: "string option"
  xf_file_size :: "nat option"
  xf_created_timestamp :: "nat option"
  xf_modified_timestamp :: "nat option"
  xf_is_directory :: "bool option"
  xf_checksum :: "string option"
  xf_ext_data :: "string option"
  xf_is_trash :: "bool option"
  xf_id :: "nat option"
  xf_succeed :: "bool option"
  xf_error_code :: "int option"

record SspImageFile =
  xi_path :: "string option"
  xi_file_size :: "nat option"
  xi_created_timestamp :: "nat option"
  xi_modified_timestamp :: "nat option"
  xi_width :: "nat option"
  xi_height :: "nat option"
  xi_orientation :: "nat option"
  xi_media_id :: "nat option"
  xi_album_id :: "nat option"
  xi_mime_type :: "string option"
  xi_thumbnail :: "bytes option"
  xi_album_name :: "string option"
  xi_date_taken :: "nat option"
  xi_latitude :: "string option"
  xi_longitude :: "string option"
  xi_mini_thumb_magic :: "string option"
  xi_title :: "string option"
  xi_get_thumbnail_error :: "bool option"
  xi_starred :: "bool option"

record SspVideoFile =
  xv_path :: "string option"
  xv_file_size :: "nat option"
  xv_created_timestamp :: "nat option"
  xv_modified_timestamp :: "nat option"
  xv_width :: "nat option"
  xv_height :: "nat option"
  xv_orientation :: "nat option"
  xv_media_id :: "nat option"
  xv_album_id :: "nat option"
  xv_mime_type :: "string option"
  xv_thumbnail :: "bytes option"
  xv_get_thumbnail_error :: "bool option"
  xv_duration :: "f64 option"

record SspAudioFile =
  xa_path :: "string option"
  xa_file_size :: "nat option"
  xa_created_timestamp :: "nat option"
  xa_modified_timestamp :: "nat option"
  xa_media_id :: "nat option"
  xa_album_id :: "nat option"
  xa_title :: "string option"
  xa_mime_type :: "string option"
  xa_artist_id :: "nat option"
  xa_artist :: "string option"
  xa_composer :: "string option"
  xa_genre :: "nat option"
  xa_comment :: "string option"
  xa_copyright :: "string option"
  xa_audio_codec :: "string option"
  xa_track :: "nat option"
  xa_duration :: "f64 option"

record SspAudioAlbum =
  xb_album_path :: "string option"
  xb_album_id :: "nat option"
  xb_album_name :: "string option"
  xb_artist_id :: "nat option"
  xb_artist :: "string option"
  xb_year :: "nat option"
  xb_thumbnail :: "bytes option"
  xb_get_thumbnail_error :: "bool option"

record SspGetDeviceInfoResponse =
  xd_apk_version :: "string option"
  xd_apk_version_name :: "string option"
  xd_phone_model :: "string option"
  xd_disk_size :: "nat option"
  xd_battery_percentage :: "nat option"
  xd_phone_name :: "string option"
  xd_used_disk_size :: "nat option"
  xd_root_path :: "string option"
  xd_product_brand :: "string option"
  xd_product_manufacturer :: "string option"
  xd_smartisan_version :: "string option"
  xd_phone_locked :: "bool option"
  xd_external_storage_path :: "string option"
  xd_phone_id :: "string option"

record SspClipboard =
  xc_content :: "bytes option"
  xc_mstimestamp :: "int option"

record SspPhotoLibraryChange =
  xp_added_image :: "SspImageFile list"
  xp_deleted_image :: "SspImageFile list"

record SspVideoLibraryChange =
  xw_added_video :: "SspVideoFile list"
  xw_deleted_video :: "SspVideoFile list"
  xw_updated_video :: "SspVideoFile list"

record SspAudioLibraryChange =
  xu_added_audio :: "SspAudioFile list"
  xu_deleted_audio :: "SspAudioFile list"
  xu_added_album :: "SspAudioAlbum list"

record SspFileEvent =
  xe_file :: "SspFile option"
  xe_event :: "int option"

record SspFileChangeItem =
  xg_file :: "SspFile option"
  xg_status :: "int option"

record SspPhotoSyncResponse =
  xs_is_first :: "bool option"
  xs_files :: "SspFile list"
  xs_is_success :: "bool option"

record SspCancelRequest =
  xk_type :: "int option"
  xk_session_id :: "nat option"
  xk_error_code :: "int option"

section \<open>Events\<close>

datatype EventKind =
    KDeviceInfoChanged | KClipboardChanged | KMediaLibraryChanged | KDirectoryChanged
  | KFileChanged | KPhotoSyncChanged | KSyncMonitorChanged | KRequestCancelled | KUnknown

datatype MediaKind = Photo | Video | Audio

datatype FileEventKind =
    FCreate | FDelete | FCloseWrite | FMovedFrom | FMovedTo | FDeleteSelf | FMoveSelf
  | FDirectoryChanged | FUnknown

datatype FileChangeStatus =
    SNone | SAdded | SDeleted | SModified | SInfoModified | SFileAndInfoModified | SUnknown

datatype UnknownEventReason = UnknownRequestType | DecodeFailed | MissingTypeAmbiguous

record MediaItem =
  mi_media_id :: "nat option"
  mi_album_id :: "nat option"
  mi_path :: "string option"
  mi_size :: "nat option"
  mi_created_at :: "nat option"
  mi_modified_at :: "nat option"
  mi_width :: "nat option"
  mi_height :: "nat option"
  mi_orientation :: "nat option"
  mi_mime_type :: "string option"
  mi_title :: "string option"
  mi_album_name :: "string option"
  mi_duration :: "f64 option"
  mi_artist :: "string option"

record MediaAlbum =
  ma_album_id :: "nat option"
  ma_path :: "string option"
  ma_name :: "string option"
  ma_artist :: "string option"

record MediaLibraryChange =
  mc_kind :: MediaKind
  mc_added :: "MediaItem list"
  mc_deleted :: "MediaItem list"
  mc_updated :: "MediaItem list"
  mc_albums :: "MediaAlbum list"

record FileEvent =
  fe_file :: "RemoteFile option"
  fe_kind :: FileEventKind

record FileChange =
  fc_file :: "RemoteFile option"
  fc_status :: FileChangeStatus

record PhotoSyncChange =
  ps_is_first :: "bool option"
  ps_files :: "RemoteFile list"
  ps_is_success :: "bool option"

record UnknownEvent =
  ue_sid :: u32
  ue_request_type :: "int option"
  ue_payload_len :: nat
  ue_reason :: UnknownEventReason

datatype ClientEvent =
    DeviceInfoChanged DeviceInfo
  | ClipboardChanged "ClipboardEntry list"
  | MediaLibraryChanged MediaLibraryChange
  | DirectoryChanged "FileEvent list"
  | FileChanged "FileChange list"
  | PhotoSyncChanged PhotoSyncChange
  | SyncMonitorChanged "bool option"
  | RequestCancelled CancellationInfo
  | UnknownClientEvent UnknownEvent

fun event_kind :: "ClientEvent \<Rightarrow> EventKind" where
  "event_kind (DeviceInfoChanged _) = KDeviceInfoChanged"
| "event_kind (ClipboardChanged _) = KClipboardChanged"
| "event_kind (MediaLibraryChanged _) = KMediaLibraryChanged"
| "event_kind (DirectoryChanged _) = KDirectoryChanged"
| "event_kind (FileChanged _) = KFileChanged"
| "event_kind (PhotoSyncChanged _) = KPhotoSyncChanged"
| "event_kind (SyncMonitorChanged _) = KSyncMonitorChanged"
| "event_kind (RequestCancelled _) = KRequestCancelled"
| "event_kind (UnknownClientEvent _) = KUnknown"

text \<open>\<open>EventFilter\<close>: \<open>None\<close> accepts every kind.\<close>

type_synonym EventFilter = "EventKind list option"

definition filter_accepts :: "EventFilter \<Rightarrow> EventKind \<Rightarrow> bool" where
  "filter_accepts flt kind = (case flt of None \<Rightarrow> True | Some kinds \<Rightarrow> kind \<in> set kinds)"

section \<open>Subscriptions\<close>

datatype EventStreamError = StreamLagged nat | StreamClosed

text \<open>What the broadcast receiver answers to successive calls.\<close>

datatype broadcast_item = Got ClientEvent | LaggedBy nat | SenderGone | NothingReady

record EventSubscription =
  es_filter :: EventFilter
  es_closed :: bool

text \<open>\<open>recv\<close> waits, so the answers it sees never include \<open>NothingReady\<close>; \<open>None\<close> says that it is
  still waiting when the given answers are used up. The second component is what the receiver
  still holds.\<close>

fun recv_loop ::
  "EventFilter \<Rightarrow> broadcast_item list
   \<Rightarrow> (EventStreamError + ClientEvent) option \<times> broadcast_item list" where
  "recv_loop flt [] = (None, [])"
| "recv_loop flt (Got event # rest) =
     (if filter_accepts flt (event_kind event) then (Some (Inr event), rest)
      else recv_loop flt rest)"
| "recv_loop flt (LaggedBy missed # rest) = (Some (Inl (StreamLagged missed)), rest)"
| "recv_loop flt (SenderGone # rest) = (Some (Inl StreamClosed), SenderGone # rest)"
| "recv_loop flt (NothingReady # rest) = recv_loop flt rest"

definition subscription_recv ::
  "EventSubscription \<Rightarrow> broadcast_item list
   \<Rightarrow> (EventStreamError + ClientEvent) option \<times> broadcast_item list" where
  "subscription_recv sub items =
     (if es_closed sub then (Some (Inl StreamClosed), items) else recv_loop (es_filter sub) items)"

fun try_recv_loop ::
  "EventFilter \<Rightarrow> broadcast_item list
   \<Rightarrow> (EventStreamError + ClientEvent option) \<times> broadcast_item list" where
  "try_recv_loop flt [] = (Inr None, [])"
| "try_recv_loop flt (Got event # rest) =
     (if filter_accepts flt (event_kind event) then (Inr (Some event), rest)
      else try_recv_loop flt rest)"
| "try_recv_loop flt (NothingReady # rest) = (Inr None, rest)"
| "try_recv_loop flt (LaggedBy missed # rest) = (Inl (StreamLagged missed), rest)"
| "try_recv_loop flt (SenderGone # rest) = (Inl StreamClosed, SenderGone # rest)"

definition subscription_try_recv ::
  "EventSubscription \<Rightarrow> broadcast_item list
   \<Rightarrow> (EventStreamError + ClientEvent option) \<times> broadcast_item list" where
  "subscription_try_recv sub items =
     (if es_closed sub then (Inl StreamClosed, items) else try_recv_loop (es_filter sub) items)"

definition subscription_close :: "EventSubscription \<Rightarrow> EventSubscription" where
  "subscription_close sub = sub\<lparr>es_closed := True\<rparr>"

section \<open>Decoding\<close>

record codec =
  cd_request_type :: "bytes \<Rightarrow> int option option"
  cd_device_info :: "bytes \<Rightarrow> SspGetDeviceInfoResponse option"
  cd_clipboard :: "bytes \<Rightarrow> SspClipboard list option"
  cd_photo :: "bytes \<Rightarrow> SspPhotoLibraryChange option"
  cd_video :: "bytes \<Rightarrow> SspVideoLibraryChange option"
  cd_audio :: "bytes \<Rightarrow> SspAudioLibraryChange option"
  cd_folder :: "bytes \<Rightarrow> SspFileEvent list option"
  cd_file_change :: "bytes \<Rightarrow> SspFileChangeItem list option"
  cd_photo_sync :: "bytes \<Rightarrow> SspPhotoSyncResponse option"
  cd_sync_monitor :: "bytes \<Rightarrow> bool option option"
  cd_cancel :: "bytes \<Rightarrow> SspCancelRequest option"
  cd_gunzip :: "bytes \<Rightarrow> string option"
  cd_div_1000 :: "f64 \<Rightarrow> f64"

definition the_or :: "'a \<Rightarrow> 'a option \<Rightarrow> 'a" where
  "the_or d x = (case x of None \<Rightarrow> d | Some v \<Rightarrow> v)"

text \<open>\<open>SspRequestType::try_from\<close> accepts the declared discriminants.\<close>

definition known_request_type :: "int \<Rightarrow> bool" where
  "known_request_type v \<longleftrightarrow> 1 \<le> v \<and> v \<le> 41"

definition GET_DEVICE_INFO_REQUEST :: int where
  "GET_DEVICE_INFO_REQUEST = 2"
definition PHOTO_LIB_CHANGE :: int where
  "PHOTO_LIB_CHANGE = 20"
definition AUDIO_LIB_CHANGE :: int where
  "AUDIO_LIB_CHANGE = 21"
definition VIDEO_LIB_CHANGE :: int where
  "VIDEO_LIB_CHANGE = 22"
definition MONITOR_FOLDER_RESPONSE :: int where
  "MONITOR_FOLDER_RESPONSE = 25"
definition CLIPBOARD_CHANGE :: int where
  "CLIPBOARD_CHANGE = 30"
definition CANCEL_REQUEST :: int where
  "CANCEL_REQUEST = 36"
definition PHOTO_SYNC_REQUEST :: int where
  "PHOTO_SYNC_REQUEST = 37"
definition FILE_CHANGE :: int where
  "FILE_CHANGE = 38"
definition SYNC_MONITOR_REQUEST :: int where
  "SYNC_MONITOR_REQUEST = 39"

lemmas request_type_values =
  GET_DEVICE_INFO_REQUEST_def PHOTO_LIB_CHANGE_def AUDIO_LIB_CHANGE_def VIDEO_LIB_CHANGE_def
  MONITOR_FOLDER_RESPONSE_def CLIPBOARD_CHANGE_def CANCEL_REQUEST_def PHOTO_SYNC_REQUEST_def
  FILE_CHANGE_def SYNC_MONITOR_REQUEST_def

definition decode_cancel :: "codec \<Rightarrow> bytes \<Rightarrow> SspCancelRequest option" where
  "decode_cancel cd body =
     (case cd_cancel cd body of
        None \<Rightarrow> None
      | Some request \<Rightarrow>
          if xk_session_id request \<noteq> None \<and> xk_type request = Some CANCEL_REQUEST
          then Some request else None)"

definition device_info :: "SspGetDeviceInfoResponse \<Rightarrow> string \<Rightarrow> DeviceInfo" where
  "device_info r serial =
     \<lparr>di_serial = serial, di_phone_id = xd_phone_id r, di_name = xd_phone_name r,
      di_model = xd_phone_model r, di_brand = xd_product_brand r,
      di_manufacturer = xd_product_manufacturer r,
      di_smartisan_version = xd_smartisan_version r, di_apk_version = xd_apk_version r,
      di_apk_version_name = None, di_root_path = the_or ''/sdcard'' (xd_root_path r),
      di_external_storage_path = xd_external_storage_path r, di_disk_size = xd_disk_size r,
      di_used_disk_size = xd_used_disk_size r,
      di_battery_percentage = xd_battery_percentage r, di_phone_locked = xd_phone_locked r\<rparr>"

text \<open>One entry that does not decompress makes the whole change undecodable.\<close>

fun clipboard_change :: "codec \<Rightarrow> SspClipboard list \<Rightarrow> ClipboardEntry list option" where
  "clipboard_change cd [] = Some []"
| "clipboard_change cd (clipboard # rest) =
     (case cd_gunzip cd (the_or [] (xc_content clipboard)) of
        None \<Rightarrow> None
      | Some text \<Rightarrow>
          (case clipboard_change cd rest of
             None \<Rightarrow> None
           | Some entries \<Rightarrow>
               Some (\<lparr>ce_text = text, ce_timestamp_ms = the_or 0 (xc_mstimestamp clipboard)\<rparr>
                     # entries)))"

definition photo_item :: "SspImageFile \<Rightarrow> MediaItem" where
  "photo_item i =
     \<lparr>mi_media_id = xi_media_id i, mi_album_id = xi_album_id i, mi_path = xi_path i,
      mi_size = xi_file_size i, mi_created_at = xi_created_timestamp i,
      mi_modified_at = xi_modified_timestamp i, mi_width = xi_width i, mi_height = xi_height i,
      mi_orientation = xi_orientation i, mi_mime_type = xi_mime_type i, mi_title = xi_title i,
      mi_album_name = xi_album_name i, mi_duration = None, mi_artist = None\<rparr>"

definition video_item :: "SspVideoFile \<Rightarrow> MediaItem" where
  "video_item i =
     \<lparr>mi_media_id = xv_media_id i, mi_album_id = xv_album_id i, mi_path = xv_path i,
      mi_size = xv_file_size i, mi_created_at = xv_created_timestamp i,
      mi_modified_at = xv_modified_timestamp i, mi_width = xv_width i, mi_height = xv_height i,
      mi_orientation = xv_orientation i, mi_mime_type = xv_mime_type i, mi_title = None,
      mi_album_name = None, mi_duration = xv_duration i, mi_artist = None\<rparr>"

definition audio_item :: "codec \<Rightarrow> SspAudioFile \<Rightarrow> MediaItem" where
  "audio_item cd i =
     \<lparr>mi_media_id = xa_media_id i, mi_album_id = xa_album_id i, mi_path = xa_path i,
      mi_size = xa_file_size i, mi_created_at = xa_created_timestamp i,
      mi_modified_at = xa_modified_timestamp i, mi_width = None, mi_height = None,
      mi_orientation = None, mi_mime_type = xa_mime_type i, mi_title = xa_title i,
      mi_album_name = None, mi_duration = map_option (cd_div_1000 cd) (xa_duration i),
      mi_artist = xa_artist i\<rparr>"

definition audio_album :: "SspAudioAlbum \<Rightarrow> MediaAlbum" where
  "audio_album a =
     \<lparr>ma_album_id = xb_album_id a, ma_path = xb_album_path a, ma_name = xb_album_name a,
      ma_artist = xb_artist a\<rparr>"

definition photo_change :: "SspPhotoLibraryChange \<Rightarrow> MediaLibraryChange" where
  "photo_change c =
     \<lparr>mc_kind = Photo, mc_added = map photo_item (xp_added_image c),
      mc_deleted = map photo_item (xp_deleted_image c), mc_updated = [], mc_albums = []\<rparr>"

definition video_change :: "SspVideoLibraryChange \<Rightarrow> MediaLibraryChange" where
  "video_change c =
     \<lparr>mc_kind = Video, mc_added = map video_item (xw_added_video c),
      mc_deleted = map video_item (xw_deleted_video c),
      mc_updated = map video_item (xw_updated_video c), mc_albums = []\<rparr>"

definition audio_change :: "codec \<Rightarrow> SspAudioLibraryChange \<Rightarrow> MediaLibraryChange" where
  "audio_change cd c =
     \<lparr>mc_kind = Audio, mc_added = map (audio_item cd) (xu_added_audio c), mc_deleted = [],
      mc_updated = [], mc_albums = map audio_album (xu_added_album c)\<rparr>"

definition remote_file :: "SspFile \<Rightarrow> RemoteFile" where
  "remote_file f =
     \<lparr>rf_path = the_or [] (xf_path f), rf_size = the_or 0 (xf_file_size f),
      rf_created_at = xf_created_timestamp f, rf_modified_at = xf_modified_timestamp f,
      rf_is_directory = the_or False (xf_is_directory f), rf_checksum = xf_checksum f,
      rf_is_trash = xf_is_trash f, rf_id = xf_id f, rf_ext_data = xf_ext_data f\<rparr>"

definition file_event_kind :: "int \<Rightarrow> FileEventKind option" where
  "file_event_kind v =
     (if v = 1 then Some FCreate else if v = 2 then Some FDelete
      else if v = 3 then Some FCloseWrite else if v = 4 then Some FMovedFrom
      else if v = 5 then Some FMovedTo else if v = 6 then Some FDeleteSelf
      else if v = 7 then Some FMoveSelf else if v = 8 then Some FDirectoryChanged
      else None)"

definition file_change_status :: "int \<Rightarrow> FileChangeStatus option" where
  "file_change_status v =
     (if v = 0 then Some SNone else if v = 1 then Some SAdded
      else if v = 2 then Some SDeleted else if v = 3 then Some SModified
      else if v = 4 then Some SInfoModified else if v = 5 then Some SFileAndInfoModified
      else None)"

definition directory_change :: "SspFileEvent list \<Rightarrow> FileEvent list" where
  "directory_change =
     map (\<lambda>e. \<lparr>fe_file = map_option remote_file (xe_file e),
               fe_kind = the_or FUnknown (Option.bind (xe_event e) file_event_kind)\<rparr>)"

definition file_change :: "SspFileChangeItem list \<Rightarrow> FileChange list" where
  "file_change =
     map (\<lambda>i. \<lparr>fc_file = map_option remote_file (xg_file i),
               fc_status = the_or SUnknown (Option.bind (xg_status i) file_change_status)\<rparr>)"

definition photo_sync_change :: "SspPhotoSyncResponse \<Rightarrow> PhotoSyncChange" where
  "photo_sync_change c =
     \<lparr>ps_is_first = xs_is_first c, ps_files = map remote_file (xs_files c),
      ps_is_success = xs_is_success c\<rparr>"

text \<open>\<open>infer_event\<close>: the candidates in the order the code tries them. One candidate is the
  event, none or several are not classified.\<close>

definition candidate :: "'a option \<Rightarrow> ('a \<Rightarrow> bool) \<Rightarrow> ('a \<Rightarrow> ClientEvent option) \<Rightarrow> ClientEvent list" where
  "candidate decoded keep event =
     (case decoded of
        None \<Rightarrow> []
      | Some m \<Rightarrow> if keep m then (case event m of None \<Rightarrow> [] | Some e \<Rightarrow> [e]) else [])"

definition infer_candidates :: "codec \<Rightarrow> bytes \<Rightarrow> string \<Rightarrow> ClientEvent list" where
  "infer_candidates cd body serial =
     candidate (cd_device_info cd body)
       (\<lambda>r. xd_phone_id r \<noteq> None \<or> xd_phone_name r \<noteq> None \<or> xd_phone_model r \<noteq> None
          \<or> xd_root_path r \<noteq> None)
       (\<lambda>r. Some (DeviceInfoChanged (device_info r serial)))
     @ candidate (cd_clipboard cd body) (\<lambda>c. c \<noteq> [])
       (\<lambda>c. map_option ClipboardChanged (clipboard_change cd c))
     @ candidate (cd_photo cd body) (\<lambda>c. xp_added_image c \<noteq> [] \<or> xp_deleted_image c \<noteq> [])
       (\<lambda>c. Some (MediaLibraryChanged (photo_change c)))
     @ candidate (cd_video cd body)
       (\<lambda>c. xw_added_video c \<noteq> [] \<or> xw_deleted_video c \<noteq> [] \<or> xw_updated_video c \<noteq> [])
       (\<lambda>c. Some (MediaLibraryChanged (video_change c)))
     @ candidate (cd_audio cd body)
       (\<lambda>c. xu_added_audio c \<noteq> [] \<or> xu_deleted_audio c \<noteq> [] \<or> xu_added_album c \<noteq> [])
       (\<lambda>c. Some (MediaLibraryChanged (audio_change cd c)))
     @ candidate (cd_folder cd body) (\<lambda>c. c \<noteq> []) (\<lambda>c. Some (DirectoryChanged (directory_change c)))
     @ candidate (cd_file_change cd body) (\<lambda>c. c \<noteq> []) (\<lambda>c. Some (FileChanged (file_change c)))
     @ candidate (cd_photo_sync cd body)
       (\<lambda>c. xs_is_first c \<noteq> None \<or> xs_is_success c \<noteq> None \<or> xs_files c \<noteq> [])
       (\<lambda>c. Some (PhotoSyncChanged (photo_sync_change c)))
     @ candidate (cd_sync_monitor cd body) (\<lambda>c. c \<noteq> None) (\<lambda>c. Some (SyncMonitorChanged c))"

definition infer_event :: "codec \<Rightarrow> bytes \<Rightarrow> string \<Rightarrow> ClientEvent option" where
  "infer_event cd body serial =
     (case infer_candidates cd body serial of [e] \<Rightarrow> Some e | _ \<Rightarrow> None)"

definition typed_event :: "codec \<Rightarrow> int option \<Rightarrow> bytes \<Rightarrow> string \<Rightarrow> ClientEvent option" where
  "typed_event cd known body serial =
     (if known = Some GET_DEVICE_INFO_REQUEST
      then map_option (\<lambda>r. DeviceInfoChanged (device_info r serial)) (cd_device_info cd body)
      else if known = Some PHOTO_LIB_CHANGE
      then map_option (\<lambda>c. MediaLibraryChanged (photo_change c)) (cd_photo cd body)
      else if known = Some VIDEO_LIB_CHANGE
      then map_option (\<lambda>c. MediaLibraryChanged (video_change c)) (cd_video cd body)
      else if known = Some AUDIO_LIB_CHANGE
      then map_option (\<lambda>c. MediaLibraryChanged (audio_change cd c)) (cd_audio cd body)
      else if known = Some MONITOR_FOLDER_RESPONSE
      then map_option (\<lambda>c. DirectoryChanged (directory_change c)) (cd_folder cd body)
      else if known = Some CLIPBOARD_CHANGE
      then Option.bind (cd_clipboard cd body) (\<lambda>c. map_option ClipboardChanged (clipboard_change cd c))
      else if known = Some PHOTO_SYNC_REQUEST
      then map_option (\<lambda>c. PhotoSyncChanged (photo_sync_change c)) (cd_photo_sync cd body)
      else if known = Some FILE_CHANGE
      then map_option (\<lambda>c. FileChanged (file_change c)) (cd_file_change cd body)
      else if known = Some SYNC_MONITOR_REQUEST
      then map_option SyncMonitorChanged (cd_sync_monitor cd body)
      else if known = Some CANCEL_REQUEST then None
      else infer_event cd body serial)"

definition decode_event :: "codec \<Rightarrow> u32 \<Rightarrow> bytes \<Rightarrow> string \<Rightarrow> ClientEvent" where
  "decode_event cd sid body serial =
     (let request_type = Option.bind (cd_request_type cd body) id;
          known = Option.bind request_type (\<lambda>v. if known_request_type v then Some v else None)
      in case typed_event cd known body serial of
           Some event \<Rightarrow> event
         | None \<Rightarrow>
             UnknownClientEvent
               \<lparr>ue_sid = sid, ue_request_type = request_type, ue_payload_len = length body,
                ue_reason = (case request_type of
                               Some v \<Rightarrow> if known_request_type v then DecodeFailed
                                         else UnknownRequestType
                             | None \<Rightarrow> MissingTypeAmbiguous)\<rparr>)"

section \<open>Classification never invents a cancellation and never guesses\<close>

lemma candidate_cases: "candidate d k f = [] \<or> (\<exists>m e. f m = Some e \<and> candidate d k f = [e])"
proof (cases d)
  case (Some m)
  then show ?thesis by (cases "k m"; cases "f m") (auto simp: candidate_def)
qed (simp add: candidate_def)

lemma candidate_mem: "e \<in> set (candidate d k f) \<Longrightarrow> \<exists>m. f m = Some e"
  using candidate_cases[of d k f] by force

lemma infer_not_cancelled: "infer_event cd body serial \<noteq> Some (RequestCancelled info)"
proof
  assume "infer_event cd body serial = Some (RequestCancelled info)"
  then have mem: "RequestCancelled info \<in> set (infer_candidates cd body serial)"
    by (auto simp: infer_event_def split: list.splits)
  then show False
    unfolding infer_candidates_def set_append Un_iff
    by (elim disjE) (drule candidate_mem, force)+
qed

lemma typed_not_cancelled: "typed_event cd known body serial \<noteq> Some (RequestCancelled info)"
  by (auto simp: typed_event_def infer_not_cancelled Option.bind_eq_Some_conv)


text \<open>A codec on which only the clipboard shape fits.\<close>

definition clipboard_only :: codec where
  "clipboard_only =
     \<lparr>cd_request_type = (\<lambda>_. Some None), cd_device_info = (\<lambda>_. None),
      cd_clipboard = (\<lambda>b. Some [\<lparr>xc_content = Some b, xc_mstimestamp = Some 5\<rparr>]),
      cd_photo = (\<lambda>_. None), cd_video = (\<lambda>_. None), cd_audio = (\<lambda>_. None),
      cd_folder = (\<lambda>_. None), cd_file_change = (\<lambda>_. None), cd_photo_sync = (\<lambda>_. None),
      cd_sync_monitor = (\<lambda>_. None), cd_cancel = (\<lambda>_. None),
      cd_gunzip = (\<lambda>_. Some ''hi''), cd_div_1000 = id\<rparr>"


text \<open>a push that reports deleted tracks loses them: every audio library change the decoder
  emits has an empty list of deletions, whatever the message said, so a change that only deletes
  is announced as an empty change. (Photo and video changes carry their deletions.)\<close>

theorem audio_deletions_dropped:
  assumes "Option.bind (cd_request_type cd body) id = Some AUDIO_LIB_CHANGE"
    and "cd_audio cd body = Some c"
  shows "\<exists>change. decode_event cd sid body serial = MediaLibraryChanged change \<and>
           mc_kind change = Audio \<and> mc_deleted change = []"
  using assms
  by (simp add: decode_event_def typed_event_def request_type_values known_request_type_def
      audio_change_def)

definition one_deleted_track :: codec where
  "one_deleted_track =
     clipboard_only\<lparr>cd_request_type := (\<lambda>_. Some (Some AUDIO_LIB_CHANGE)),
       cd_audio := (\<lambda>_. Some \<lparr>xu_added_audio = [], xu_deleted_audio =
         [\<lparr>xa_path = Some ''/a.mp3'', xa_file_size = None, xa_created_timestamp = None,
           xa_modified_timestamp = None, xa_media_id = Some 1, xa_album_id = None,
           xa_title = None, xa_mime_type = None, xa_artist_id = None, xa_artist = None,
           xa_composer = None, xa_genre = None, xa_comment = None, xa_copyright = None,
           xa_audio_codec = None, xa_track = None, xa_duration = None\<rparr>], xu_added_album = []\<rparr>)\<rparr>"

theorem audio_deletions_dropped_witness:
  "\<exists>change. decode_event one_deleted_track 7 [] ''s'' = MediaLibraryChanged change \<and>
     mc_kind change = Audio \<and> mc_deleted change = []"
  by (rule audio_deletions_dropped) (simp_all add: one_deleted_track_def)

end
