(* ===== verification/Session.thy ===== *)
theory Session
  imports Envelope Events
begin

text \<open>
  The multiplexed session, \<open>handshaker-core/src/session.rs\<close>. \<open>SessionInner\<close> is the state its
  tasks share; every operation of the code is one function on it and is taken as atomic, so an
  interleaving of the tasks is a sequence of these functions. The bounded channel of a request is an entry of
  \<open>si_channels\<close>, named by a number that is never reused: the \<open>Sender\<close> is the entry of
  \<open>si_pending\<close>, the \<open>Receiver\<close> belongs to the \<open>OpenRequest\<close>. What the environment decides
  (whether a write succeeds or times out, whether a token has fired, the clock) is an argument.
\<close>

section \<open>Constants\<close>

definition REQUEST_CHANNEL_CAPACITY :: nat where
  "REQUEST_CHANNEL_CAPACITY = 64"

definition MAX_UNMATCHED_SIDS :: nat where
  "MAX_UNMATCHED_SIDS = 64"

definition MAX_UNMATCHED_BYTES :: nat where
  "MAX_UNMATCHED_BYTES = 16 * 1024 * 1024"

definition UNMATCHED_TTL :: nat where
  "UNMATCHED_TTL = 30000"

definition UNMATCHED_ENTRY_BYTES :: nat where
  "UNMATCHED_ENTRY_BYTES = MAX_UNMATCHED_BYTES div MAX_UNMATCHED_SIDS"

section \<open>State\<close>

datatype Incoming = IncomingData bytes | IncomingRemoteCancelled CancellationInfo

record channel =
  ch_queue :: "Incoming list"
  ch_receiver_alive :: bool

record SessionInner =
  si_pending :: "u32 \<rightharpoonup> nat"
  si_channels :: "nat \<Rightarrow> channel"
  si_next_channel :: nat
  si_next_sid :: u32
  si_closed :: bool
  si_serial :: string
  si_events :: "ClientEvent list option"
  si_writer_running :: bool
  si_wire :: bytes

datatype phase = PHASE_NORMAL | PHASE_DOWNLOAD_RAW

record OpenRequest =
  rq_sid :: u32
  rq_channel :: nat
  rq_phase :: phase
  rq_completed :: bool

definition session_start :: "string \<Rightarrow> SessionInner" where
  "session_start serial =
     \<lparr>si_pending = Map.empty, si_channels = (\<lambda>_. \<lparr>ch_queue = [], ch_receiver_alive = False\<rparr>),
      si_next_channel = 0, si_next_sid = 0x80001000, si_closed = False, si_serial = serial,
      si_events = Some [], si_writer_running = True, si_wire = []\<rparr>"

section \<open>Events of the session\<close>

definition publish_event :: "ClientEvent \<Rightarrow> SessionInner \<Rightarrow> SessionInner" where
  "publish_event event s = s\<lparr>si_events := map_option (\<lambda>es. es @ [event]) (si_events s)\<rparr>"

definition fail_connection :: "SessionInner \<Rightarrow> SessionInner" where
  "fail_connection s = s\<lparr>si_closed := True, si_pending := Map.empty, si_events := None\<rparr>"

section \<open>Session ids\<close>

definition next_sid :: "SessionInner \<Rightarrow> u32 \<times> SessionInner" where
  "next_sid s = (si_next_sid s + 1, s\<lparr>si_next_sid := si_next_sid s + 1\<rparr>)"

fun allocate_within :: "nat \<Rightarrow> SessionInner \<Rightarrow> u32 core_result \<times> SessionInner" where
  "allocate_within 0 s = (Inl (Protocol ''session.sid_exhausted''), s)"
| "allocate_within (Suc tries) s =
     (let (sid, s1) = next_sid s in
      if si_pending s1 sid = None then (Inr sid, s1) else allocate_within tries s1)"

definition allocate_sid :: "SessionInner \<Rightarrow> u32 core_result \<times> SessionInner" where
  "allocate_sid s = allocate_within 1024 s"

section \<open>Writing\<close>

text \<open>A send either reaches the writer task, which writes one frame, or the request timeout
  passes first.\<close>

datatype send_io = Written write_io | SendTimedOut

text \<open>One iteration of the writer task: a failed write closes the session and ends the task.\<close>

definition writer_step ::
  "write_io \<Rightarrow> u32 \<Rightarrow> u8 \<Rightarrow> bytes \<Rightarrow> SessionInner \<Rightarrow> bytes core_result \<times> SessionInner" where
  "writer_step io sid flag payload s =
     (let (result, wire) = write_upstream io (si_wire s) sid flag payload;
          s1 = s\<lparr>si_wire := wire\<rparr>
      in if is_ok result then (result, s1)
         else (result, s1\<lparr>si_closed := True, si_writer_running := False\<rparr>))"

definition send ::
  "send_io \<Rightarrow> u32 \<Rightarrow> u8 \<Rightarrow> bytes \<Rightarrow> SessionInner \<Rightarrow> unit core_result \<times> SessionInner" where
  "send io sid flag payload s =
     (case io of
        SendTimedOut \<Rightarrow> (Inl (Timeout ''session.send_frame''), fail_connection s)
      | Written w \<Rightarrow>
          if \<not> si_writer_running s
          then (Inl (Transport ''session.writer_closed''), fail_connection s)
          else (case writer_step w sid flag payload s of
                  (Inr _, s1) \<Rightarrow> (Inr (), s1)
                | (Inl e, s1) \<Rightarrow> (Inl e, fail_connection s1)))"

definition cancel :: "send_io \<Rightarrow> u32 \<Rightarrow> SessionInner \<Rightarrow> unit core_result \<times> SessionInner" where
  "cancel io target_sid s =
     (if si_closed s then (Inr (), s)
      else case allocate_sid s of
             (Inl e, s1) \<Rightarrow> (Inl e, s1)
           | (Inr cancel_sid, s1) \<Rightarrow> send io cancel_sid 2 (u32_to_be_bytes target_sid) s1)"

section \<open>Requests\<close>

definition remove_pending :: "u32 \<Rightarrow> SessionInner \<Rightarrow> SessionInner" where
  "remove_pending sid s = s\<lparr>si_pending := (si_pending s)(sid := None)\<rparr>"

definition drop_receiver :: "nat \<Rightarrow> SessionInner \<Rightarrow> SessionInner" where
  "drop_receiver ch s =
     s\<lparr>si_channels := (si_channels s)(ch := (si_channels s ch)\<lparr>ch_receiver_alive := False\<rparr>)\<rparr>"

text \<open>A new channel, its sender in the table under the sid.\<close>

definition register_pending :: "u32 \<Rightarrow> SessionInner \<Rightarrow> nat \<times> SessionInner" where
  "register_pending sid s =
     (let ch = si_next_channel s in
      (ch, s\<lparr>si_pending := (si_pending s)(sid \<mapsto> ch),
             si_channels := (si_channels s)(ch := \<lparr>ch_queue = [], ch_receiver_alive = True\<rparr>),
             si_next_channel := ch + 1\<rparr>))"

text \<open>\<open>open_signed\<close>. \<open>sign\<close> is the session's signature, \<open>cancelled\<close> whether the caller's token
  has fired when it is tested. On an error the receiver is dropped with the request.\<close>

definition open_signed ::
  "(bytes \<Rightarrow> bytes core_result) \<Rightarrow> bool \<Rightarrow> send_io \<Rightarrow> bytes \<Rightarrow> SessionInner
   \<Rightarrow> OpenRequest core_result \<times> SessionInner" where
  "open_signed sign cancelled io payload s =
     (if si_closed s then (Inl (Transport ''client.connection_closed''), s)
      else case allocate_sid s of
        (Inl e, s1) \<Rightarrow> (Inl e, s1)
      | (Inr sid, s1) \<Rightarrow>
          (let (ch, s2) = register_pending sid s1
           in case sign payload of
                Inl e \<Rightarrow> (Inl e, drop_receiver ch s2)
              | Inr signature \<Rightarrow>
                  if cancelled
                  then (Inl (Cancelled \<lparr>ci_sid = sid, ci_origin = Local False,
                               ci_connection_closed = False\<rparr>),
                        drop_receiver ch (remove_pending sid s2))
                  else (case send io sid 1 (signature @ payload) s2 of
                          (Inl e, s3) \<Rightarrow> (Inl e, drop_receiver ch (remove_pending sid s3))
                        | (Inr _, s3) \<Rightarrow>
                            (Inr \<lparr>rq_sid = sid, rq_channel = ch, rq_phase = PHASE_NORMAL,
                                   rq_completed = False\<rparr>, s3))))"

text \<open>\<open>cancel_local\<close> and the cancellation arm of \<open>receive_incoming\<close> do the same.\<close>

definition cancel_local ::
  "send_io \<Rightarrow> bool \<Rightarrow> u32 \<Rightarrow> SessionInner \<Rightarrow> core_error \<times> SessionInner" where
  "cancel_local io close_connection sid s =
     (let s1 = remove_pending sid s;
          s2 = (if close_connection then fail_connection s1 else s1);
          (flag_sent, s3) = (if close_connection then (False, s2)
                             else (case cancel io sid s2 of (r, s3) \<Rightarrow> (is_ok r, s3)))
      in (Cancelled \<lparr>ci_sid = sid, ci_origin = Local flag_sent,
                     ci_connection_closed = close_connection\<rparr>, s3))"

text \<open>\<open>OpenRequest::send\<close>; the boolean is \<open>completed\<close> afterwards.\<close>

definition request_send ::
  "send_io \<Rightarrow> bool \<Rightarrow> u8 \<Rightarrow> bytes \<Rightarrow> OpenRequest \<Rightarrow> SessionInner
   \<Rightarrow> unit core_result \<times> OpenRequest \<times> SessionInner" where
  "request_send io cancelled flag payload rq s =
     (if cancelled
      then (case cancel_local io False (rq_sid rq) s of
              (e, s1) \<Rightarrow> (Inl e, rq\<lparr>rq_completed := True\<rparr>, s1))
      else (case send io (rq_sid rq) flag payload s of (r, s1) \<Rightarrow> (r, rq, s1)))"

definition finish :: "OpenRequest \<Rightarrow> SessionInner \<Rightarrow> SessionInner" where
  "finish rq s = drop_receiver (rq_channel rq) (remove_pending (rq_sid rq) s)"

text \<open>\<open>Drop for OpenRequest\<close>: an unfinished request leaves the table and tells the phone.\<close>

definition drop_request :: "send_io \<Rightarrow> OpenRequest \<Rightarrow> SessionInner \<Rightarrow> SessionInner" where
  "drop_request io rq s =
     (let s1 = drop_receiver (rq_channel rq) s in
      if rq_completed rq then s1
      else snd (cancel io (rq_sid rq) (remove_pending (rq_sid rq) s1)))"

section \<open>Receiving\<close>

text \<open>What wins the race inside \<open>receive_incoming\<close>.\<close>

datatype recv_choice = ChooseCancel send_io | ChooseRecv | ChooseTimeout

text \<open>\<open>None\<close> is still waiting: the queue is empty and its sender is alive.\<close>

definition receive_incoming ::
  "recv_choice \<Rightarrow> bool \<Rightarrow> OpenRequest \<Rightarrow> SessionInner
   \<Rightarrow> (core_error + Incoming) option \<times> SessionInner" where
  "receive_incoming choice close_connection_on_cancel rq s =
     (case choice of
        ChooseTimeout \<Rightarrow> (Some (Inl (Timeout ''session.wait_response'')), s)
      | ChooseCancel io \<Rightarrow>
          (case cancel_local io close_connection_on_cancel (rq_sid rq) s of
             (e, s1) \<Rightarrow> (Some (Inl e), s1))
      | ChooseRecv \<Rightarrow>
          (let c = si_channels s (rq_channel rq) in
           case ch_queue c of
             item # rest \<Rightarrow>
               (Some (Inr item),
                s\<lparr>si_channels := (si_channels s)(rq_channel rq := c\<lparr>ch_queue := rest\<rparr>)\<rparr>)
           | [] \<Rightarrow>
               if si_pending s (rq_sid rq) = Some (rq_channel rq) then (None, s)
               else (Some (Inl (Transport ''session.response_closed'')), s)))"

definition u32_try_from :: "nat \<Rightarrow> u32 option" where
  "u32_try_from n = (if n < 2 ^ 32 then Some (word_of_nat n) else None)"

text \<open>Which request a cancel message is about, and the information it becomes.\<close>

definition remote_cancellation :: "u32 \<Rightarrow> SspCancelRequest \<Rightarrow> CancellationInfo" where
  "remote_cancellation sid c =
     \<lparr>ci_sid = the_or sid (Option.bind (xk_session_id c) u32_try_from),
      ci_origin = Remote (xk_error_code c), ci_connection_closed = False\<rparr>"

text \<open>The loop of \<open>receive_normal\<close> over what \<open>receive_incoming\<close> returns, one item at a time;
  \<open>None\<close> is still waiting.\<close>

fun receive_normal_loop ::
  "codec \<Rightarrow> u32 \<Rightarrow> partial_response \<Rightarrow> (core_error + Incoming) list
   \<Rightarrow> bytes core_result option \<times> (core_error + Incoming) list" where
  "receive_normal_loop cd sid st [] = (None, [])"
| "receive_normal_loop cd sid st (Inl e # rest) = (Some (Inl e), rest)"
| "receive_normal_loop cd sid st (Inr (IncomingRemoteCancelled info) # rest) =
     (Some (Inl (Cancelled info)), rest)"
| "receive_normal_loop cd sid st (Inr (IncomingData chunk) # rest) =
     (case response_push st chunk of
        Inl e \<Rightarrow> (Some (Inl e), rest)
      | Inr (st', None) \<Rightarrow> receive_normal_loop cd sid st' rest
      | Inr (_, Some body) \<Rightarrow>
          (case decode_cancel cd body of
             Some c \<Rightarrow> (Some (Inl (Cancelled (remote_cancellation sid c))), rest)
           | None \<Rightarrow> (Some (Inr body), rest)))"

text \<open>What both receivers do with their result: a cancellation completes the request, any error
  but a cancellation that kept the connection fails the connection.\<close>

definition settle ::
  "'a core_result \<Rightarrow> OpenRequest \<Rightarrow> SessionInner \<Rightarrow> OpenRequest \<times> SessionInner" where
  "settle result rq s =
     (case result of
        Inr _ \<Rightarrow> (rq, s)
      | Inl (Cancelled info) \<Rightarrow>
          (rq\<lparr>rq_completed := True\<rparr>, if ci_connection_closed info then fail_connection s else s)
      | Inl _ \<Rightarrow> (rq, fail_connection s))"

definition receive_normal ::
  "codec \<Rightarrow> (core_error + Incoming) list \<Rightarrow> OpenRequest \<Rightarrow> SessionInner
   \<Rightarrow> bytes core_result option \<times> OpenRequest \<times> SessionInner" where
  "receive_normal cd items rq s =
     (if rq_phase rq = PHASE_DOWNLOAD_RAW
      then (Some (Inl (Protocol ''session.raw_after_download'')), rq, s)
      else (case fst (receive_normal_loop cd (rq_sid rq) ([], None) items) of
              None \<Rightarrow> (None, rq, s)
            | Some result \<Rightarrow> (Some result, settle result rq s)))"

section \<open>The reader\<close>

type_synonym unmatched = "(u32, NormalAccumulator) btree"

definition unmatched_total :: "unmatched \<Rightarrow> nat" where
  "unmatched_total m = sum_list (map (\<lambda>(_, acc). length (na_bytes acc)) m)"

definition reap_idle :: "nat \<Rightarrow> unmatched \<Rightarrow> unmatched" where
  "reap_idle now m = filter (\<lambda>(_, acc). now - na_last_seen acc < UNMATCHED_TTL) m"

text \<open>Delivery to a pending request: to a dropped receiver it removes the entry; a queue that
  stays full for the send timeout loses the chunk.\<close>

definition deliver :: "u32 \<Rightarrow> nat \<Rightarrow> bytes \<Rightarrow> SessionInner \<Rightarrow> SessionInner" where
  "deliver sid ch chunk s =
     (let c = si_channels s ch in
      if \<not> ch_receiver_alive c then remove_pending sid s
      else if length (ch_queue c) < REQUEST_CHANNEL_CAPACITY
      then s\<lparr>si_channels := (si_channels s)(ch := c\<lparr>ch_queue := ch_queue c @ [IncomingData chunk]\<rparr>)\<rparr>
      else s)"

text \<open>A complete push body: a cancel message for a pending request is delivered to it and removes
  it from the table; anything else is published.\<close>

definition dispatch_push :: "codec \<Rightarrow> u32 \<Rightarrow> bytes \<Rightarrow> SessionInner \<Rightarrow> SessionInner" where
  "dispatch_push cd sid body s =
     (case decode_cancel cd body of
        None \<Rightarrow> publish_event (decode_event cd sid body (si_serial s)) s
      | Some c \<Rightarrow>
          (let info = remote_cancellation sid c; target_sid = ci_sid info in
           case si_pending s target_sid of
             None \<Rightarrow> publish_event (RequestCancelled info) s
           | Some ch \<Rightarrow>
               (let s1 = remove_pending target_sid s; q = si_channels s1 ch in
                if ch_receiver_alive q \<and> length (ch_queue q) < REQUEST_CHANNEL_CAPACITY
                then s1\<lparr>si_channels := (si_channels s1)
                          (ch := q\<lparr>ch_queue := ch_queue q @ [IncomingRemoteCancelled info]\<rparr>)\<rparr>
                else s1)))"

definition buffer_push ::
  "codec \<Rightarrow> nat \<Rightarrow> u32 \<Rightarrow> bytes \<Rightarrow> unmatched \<Rightarrow> SessionInner \<Rightarrow> unmatched \<times> SessionInner" where
  "buffer_push cd now sid chunk m s =
     (let acc = (the_or (accumulator_new now) (bt_get m sid))\<lparr>na_last_seen := now\<rparr> in
      if length (na_bytes acc) + length chunk > UNMATCHED_ENTRY_BYTES
      then (bt_remove sid m, s)
      else (case push_accumulator acc chunk of
              (Inr (Some body), _) \<Rightarrow> (bt_remove sid m, dispatch_push cd sid body s)
            | (Inr None, acc') \<Rightarrow> (bt_insert sid acc' m, s)
            | (Inl e, _) \<Rightarrow> (bt_remove sid m, s)))"

definition reader_step ::
  "codec \<Rightarrow> nat \<Rightarrow> u32 \<times> bytes \<Rightarrow> unmatched \<times> SessionInner \<Rightarrow> unmatched \<times> SessionInner" where
  "reader_step cd now frame st =
     (let (sid, chunk) = frame; (m, s) = st in
      case si_pending s sid of
        Some ch \<Rightarrow> (m, deliver sid ch chunk s)
      | None \<Rightarrow>
          if bt_get m sid \<noteq> None then buffer_push cd now sid chunk m s
          else (let m1 = reap_idle now m in
                if length m1 \<ge> MAX_UNMATCHED_SIDS
                   \<or> unmatched_total m1 + length chunk > MAX_UNMATCHED_BYTES
                then (m1, s)
                else buffer_push cd now sid chunk m1 s))"

text \<open>The frames a byte stream holds before the read that fails.\<close>

function read_frames :: "bytes \<Rightarrow> (u32 \<times> bytes) list \<times> core_error" where
  "read_frames stream =
     (case read_downstream stream of
        Inl e \<Rightarrow> ([], e)
      | Inr ((sid, chunk, header), rest) \<Rightarrow>
          (case read_frames rest of (fs, e) \<Rightarrow> ((sid, chunk) # fs, e)))"
  by pat_completeness auto
termination
  by (relation "measure length") (auto dest: read_downstream_shorter)

declare read_frames.simps [simp del]

text \<open>The reader task on a whole stream, the clock standing at \<open>now i\<close> when frame \<open>i\<close> is
  handled: it ends by failing the connection.\<close>

definition reader_run ::
  "codec \<Rightarrow> (nat \<Rightarrow> nat) \<Rightarrow> bytes \<Rightarrow> SessionInner \<Rightarrow> SessionInner" where
  "reader_run cd now stream s =
     (let fs = fst (read_frames stream) in
      fail_connection
        (snd (fold (\<lambda>(i, f). reader_step cd (now i) f) (enumerate 0 fs) ([], s))))"

section \<open>Heartbeat and close\<close>

text \<open>One tick of the heartbeat; the boolean says whether the task goes on.\<close>

definition heartbeat_tick ::
  "codec \<Rightarrow> (bytes \<Rightarrow> bytes core_result) \<Rightarrow> send_io \<Rightarrow> bytes \<Rightarrow> (core_error + Incoming) list
   \<Rightarrow> SessionInner \<Rightarrow> bool \<times> SessionInner" where
  "heartbeat_tick cd sign io payload items s =
     (if si_closed s then (False, s)
      else case open_signed sign False io payload s of
        (Inl e, s1) \<Rightarrow> (False, s1\<lparr>si_closed := True\<rparr>)
      | (Inr rq, s1) \<Rightarrow>
          (case receive_normal cd items rq s1 of
             (None, rq1, s2) \<Rightarrow> (True, s2)
           | (Some (Inl e), rq1, s2) \<Rightarrow> (False, (finish rq1 s2)\<lparr>si_closed := True\<rparr>)
           | (Some (Inr _), rq1, s2) \<Rightarrow> (True, finish rq1 s2)))"

text \<open>\<open>Session::close\<close>: the first close of an open session sends the quit request.\<close>

definition close_session_inner ::
  "(bytes \<Rightarrow> bytes core_result) \<Rightarrow> send_io \<Rightarrow> bytes \<Rightarrow> SessionInner
   \<Rightarrow> unit core_result \<times> SessionInner" where
  "close_session_inner sign io quit s =
     (let s1 = s\<lparr>si_closed := True\<rparr> in
      if si_closed s then (Inr (), s1)
      else case sign quit of
             Inl e \<Rightarrow> (Inl e, s1)
           | Inr signature \<Rightarrow>
               (let (sid, s2) = next_sid s1 in send io sid 1 (signature @ quit) s2))"

end
