(* ===== verification/SessionFacts.thy ===== *)
theory SessionFacts
  imports Session Machines
begin

text \<open>
  What the session guarantees: bounds on what the reader buffers for unknown sids, reassembly
  and dispatch of pushes, routing of chunks to their requests, allocation of session ids, and
  the life of a connection from its start to its failure.
\<close>

section \<open>Buffering of unmatched sids\<close>

lemma entry_bytes_value: "UNMATCHED_ENTRY_BYTES = 262144"
  by (simp add: UNMATCHED_ENTRY_BYTES_def MAX_UNMATCHED_BYTES_def MAX_UNMATCHED_SIDS_def)

definition entry_ok :: "NormalAccumulator \<Rightarrow> bool" where
  "entry_ok acc \<longleftrightarrow> accumulator_wf acc \<and> length (na_bytes acc) \<le> UNMATCHED_ENTRY_BYTES"

definition unmatched_ok :: "unmatched \<Rightarrow> bool" where
  "unmatched_ok m \<longleftrightarrow>
     bt_ok m \<and> length m \<le> MAX_UNMATCHED_SIDS \<and> (\<forall>(sid, acc) \<in> set m. entry_ok acc)"

lemma accumulator_wf_last_seen [simp]: "accumulator_wf (acc\<lparr>na_last_seen := t\<rparr>) = accumulator_wf acc"
  by (simp add: accumulator_wf_def)

lemma accumulator_new_wf [simp]: "accumulator_wf (accumulator_new now)"
  by (simp add: accumulator_wf_def accumulator_new_def declared_total_def envelope_verdict_def)

lemma accumulator_new_bytes [simp]: "na_bytes (accumulator_new now) = []"
  by (simp add: accumulator_new_def)

lemma push_accumulator_verdict:
  assumes "accumulator_wf acc"
  shows "envelope_verdict MAX_PUSH_MESSAGE (na_bytes acc @ c) = NeedMore \<Longrightarrow>
      push_accumulator acc c =
        (Inr None, acc\<lparr>na_bytes := na_bytes acc @ c, na_total := declared_total (na_bytes acc @ c)\<rparr>)"
    and "envelope_verdict MAX_PUSH_MESSAGE (na_bytes acc @ c) = Complete body \<Longrightarrow>
      fst (push_accumulator acc c) = Inr (Some body)"
    and "envelope_verdict MAX_PUSH_MESSAGE (na_bytes acc @ c) = Reject \<Longrightarrow>
      \<exists>e. fst (push_accumulator acc c) = Inl e"
  using accumulator_push_reacts[OF assms, of c]
  by (auto simp: reacts_laws accumulator_push_def split: prod.splits sum.splits)

text \<open>The entry a sid has, or the one it gets.\<close>

definition entry_of :: "nat \<Rightarrow> unmatched \<Rightarrow> u32 \<Rightarrow> NormalAccumulator" where
  "entry_of now m sid = (the_or (accumulator_new now) (bt_get m sid))\<lparr>na_last_seen := now\<rparr>"

lemma entry_of_ok: "unmatched_ok m \<Longrightarrow> entry_ok (entry_of now m sid)"
  by (auto simp: entry_of_def the_or_def unmatched_ok_def entry_ok_def bt_get_iff
      split: option.splits)

lemma buffer_push_cases:
  fixes cd :: codec and now :: nat and sid :: u32 and chunk :: bytes and m :: unmatched
    and s :: SessionInner
  assumes "unmatched_ok m"
  defines "bs \<equiv> na_bytes (entry_of now m sid) @ chunk"
  obtains (dropped) "length bs > UNMATCHED_ENTRY_BYTES \<or> envelope_verdict MAX_PUSH_MESSAGE bs = Reject"
      "buffer_push cd now sid chunk m s = (bt_remove sid m, s)"
  | (kept) "length bs \<le> UNMATCHED_ENTRY_BYTES" "envelope_verdict MAX_PUSH_MESSAGE bs = NeedMore"
      "buffer_push cd now sid chunk m s =
        (bt_insert sid ((entry_of now m sid)\<lparr>na_bytes := bs, na_total := declared_total bs\<rparr>) m, s)"
  | (complete) body where "length bs \<le> UNMATCHED_ENTRY_BYTES"
      "envelope_verdict MAX_PUSH_MESSAGE bs = Complete body"
      "buffer_push cd now sid chunk m s = (bt_remove sid m, dispatch_push cd sid body s)"
proof -
  have wf: "accumulator_wf (entry_of now m sid)"
    using entry_of_ok[OF assms(1)] by (simp add: entry_ok_def)
  note v = push_accumulator_verdict[OF wf, of chunk, folded bs_def]
  show thesis
  proof (cases "length bs > UNMATCHED_ENTRY_BYTES")
    case True
    then show ?thesis
      using dropped by (simp add: buffer_push_def bs_def entry_of_def[symmetric])
  next
    case False
    then have len: "\<not> length (na_bytes (entry_of now m sid)) + length chunk > UNMATCHED_ENTRY_BYTES"
      by (simp add: bs_def)
    show ?thesis
    proof (cases "envelope_verdict MAX_PUSH_MESSAGE bs")
      case NeedMore
      then show ?thesis
        using kept False v(1) len
        by (simp add: buffer_push_def entry_of_def[symmetric] bs_def Let_def)
    next
      case (Complete body)
      then show ?thesis
        using complete False v(2) len
        by (cases "push_accumulator (entry_of now m sid) chunk")
           (simp add: buffer_push_def entry_of_def[symmetric])
    next
      case Reject
      then show ?thesis
        using dropped v(3) len
        by (cases "push_accumulator (entry_of now m sid) chunk")
           (auto simp: buffer_push_def entry_of_def[symmetric])
    qed
  qed
qed

lemma bt_length: "bt_ok m \<Longrightarrow> length m = card (set (bt_keys m))"
  using bt_distinct[of m] distinct_card[of "bt_keys m"] by (simp add: bt_keys_def)

lemma bt_length_insert:
  "bt_ok m \<Longrightarrow> length (bt_insert k v m) = (if bt_get m k = None then Suc (length m) else length m)"
  by (simp add: bt_length bt_get_None_iff card_insert_if)

lemma bt_remove_subset: "set (bt_remove k m) \<subseteq> set m"
  by (auto simp: bt_remove_def)

lemma bt_length_remove: "length (bt_remove k m) \<le> length m"
  by (simp add: bt_remove_def)

lemma unmatched_ok_filter: "unmatched_ok m \<Longrightarrow> unmatched_ok (filter P m)"
proof -
  assume ok: "unmatched_ok m"
  then have "bt_ok (filter P m)"
    by (induction m) (auto simp: unmatched_ok_def bt_ok_def bt_keys_def)
  then show ?thesis
    using ok le_trans[OF length_filter_le, of m MAX_UNMATCHED_SIDS P]
    by (auto simp: unmatched_ok_def)
qed

lemma unmatched_ok_remove: "unmatched_ok m \<Longrightarrow> unmatched_ok (bt_remove sid m)"
  by (simp add: bt_remove_def unmatched_ok_filter)

lemma unmatched_ok_reap: "unmatched_ok m \<Longrightarrow> unmatched_ok (reap_idle now m)"
  by (simp add: reap_idle_def unmatched_ok_filter)

lemma unmatched_ok_insert:
  assumes "unmatched_ok m" "entry_ok acc" "bt_get m sid \<noteq> None \<or> length m < MAX_UNMATCHED_SIDS"
  shows "unmatched_ok (bt_insert sid acc m)"
proof -
  have ok: "bt_ok m" and len: "length m \<le> MAX_UNMATCHED_SIDS"
    and ent: "\<And>k a. (k, a) \<in> set m \<Longrightarrow> entry_ok a"
    using assms(1) by (auto simp: unmatched_ok_def)
  have "entry_ok a" if "(k, a) \<in> set (bt_insert sid acc m)" for k a
  proof -
    have "bt_get (bt_insert sid acc m) k = Some a"
      using that ok by (simp add: bt_get_iff del: bt_get_insert)
    then show ?thesis using assms(2) ent ok by (auto simp: bt_get_iff split: if_splits)
  qed
  moreover have "length (bt_insert sid acc m) \<le> MAX_UNMATCHED_SIDS"
    using assms(3) len ok by (auto simp: bt_length_insert)
  ultimately show ?thesis using ok by (auto simp: unmatched_ok_def)
qed

lemma buffer_push_ok:
  assumes "unmatched_ok m" "bt_get m sid \<noteq> None \<or> length m < MAX_UNMATCHED_SIDS"
  shows "unmatched_ok (fst (buffer_push cd now sid chunk m s))"
  using assms(1)
proof (cases rule: buffer_push_cases[where cd = cd and now = now and sid = sid and chunk = chunk and s = s])
  case kept
  have "entry_ok ((entry_of now m sid)\<lparr>na_bytes := na_bytes (entry_of now m sid) @ chunk,
      na_total := declared_total (na_bytes (entry_of now m sid) @ chunk)\<rparr>)"
    using kept by (simp add: entry_ok_def accumulator_wf_def)
  then show ?thesis using kept unmatched_ok_insert[OF assms(1) _ assms(2)] by simp
qed (simp_all add: assms(1) unmatched_ok_remove)

lemma reader_step_ok:
  assumes "unmatched_ok (fst st)"
  shows "unmatched_ok (fst (reader_step cd now frame st))"
  using assms
  by (auto simp: reader_step_def buffer_push_ok unmatched_ok_reap Let_def
      split: prod.splits option.splits)

lemma reader_steps_ok:
  "unmatched_ok (fst st) \<Longrightarrow> unmatched_ok (fst (fold (\<lambda>(now, f). reader_step cd now f) fs st))"
proof (induction fs arbitrary: st)
  case (Cons f fs)
  then show ?case using reader_step_ok[of st] by (cases f) simp
qed simp

lemma unmatched_total_bound:
  assumes "unmatched_ok m"
  shows "unmatched_total m \<le> length m * UNMATCHED_ENTRY_BYTES"
  unfolding unmatched_total_def
  using assms by (intro sum_list_le_count) (auto simp: unmatched_ok_def entry_ok_def)

section \<open>Pushes are reassembled and dispatched once\<close>

text \<open>The chunks of one push, each with the time it is handled.\<close>

abbreviation feed_sid ::
  "codec \<Rightarrow> u32 \<Rightarrow> (nat \<times> bytes) list \<Rightarrow> unmatched \<times> SessionInner \<Rightarrow> unmatched \<times> SessionInner" where
  "feed_sid cd sid cs \<equiv> fold (\<lambda>(now, chunk). reader_step cd now (sid, chunk)) cs"

lemma room_for_chunk:
  assumes "unmatched_ok m" "length m < MAX_UNMATCHED_SIDS" "length chunk \<le> MAX_DOWNSTREAM_CHUNK"
  shows "unmatched_total m + length chunk \<le> MAX_UNMATCHED_BYTES"
proof -
  have "unmatched_total m \<le> length m * 262144"
    using unmatched_total_bound[OF assms(1)] by (simp add: entry_bytes_value)
  also have "\<dots> \<le> 63 * 262144" using assms(2) by (simp add: MAX_UNMATCHED_SIDS_def)
  finally show ?thesis
    using assms(3) by (simp add: MAX_DOWNSTREAM_CHUNK_def MAX_UNMATCHED_BYTES_def)
qed

lemma bt_remove_absent: "bt_get m k = None \<Longrightarrow> bt_remove k m = m"
  by (force simp: bt_remove_def bt_get_None_iff bt_keys_def filter_id_conv)

lemma bt_remove_insert:
  "bt_remove k (bt_insert k v m) = bt_remove k m"
  by (induction k v m rule: bt_insert.induct) (auto simp: bt_remove_def)

lemma entry_of_Some: "bt_get m sid = Some acc \<Longrightarrow> na_bytes (entry_of now m sid) = na_bytes acc"
  by (simp add: entry_of_def the_or_def)

text \<open>An entry that is already open keeps growing until its message is complete.\<close>

lemma feed_open_entry:
  assumes "unmatched_ok m" "bt_get m sid = Some acc" "si_pending s sid = None"
    and "na_bytes acc @ concat (map snd cs) @ c = envelope body" "c \<noteq> []"
    and "length (envelope body) \<le> UNMATCHED_ENTRY_BYTES" "length body \<le> MAX_PUSH_MESSAGE"
  shows "feed_sid cd sid (cs @ [(now, c)]) (m, s) = (bt_remove sid m, dispatch_push cd sid body s)"
  using assms
proof (induction cs arbitrary: m acc)
  case Nil
  have bs: "na_bytes (entry_of now m sid) @ c = envelope body"
    using Nil.prems by (simp add: entry_of_Some)
  have v: "envelope_verdict MAX_PUSH_MESSAGE (envelope body) = Complete body"
    using Nil.prems(7) limits_bounded(1) by (subst verdict_Complete_iff) auto
  have "buffer_push cd now sid c m s = (bt_remove sid m, dispatch_push cd sid body s)"
    using Nil.prems(1)
    by (cases rule: buffer_push_cases[where cd = cd and now = now and sid = sid and chunk = c and s = s])
       (use bs v Nil.prems(6) in auto)
  then show ?case using Nil.prems(2,3) by (simp add: reader_step_def)
next
  case (Cons d cs)
  obtain t chunk where d: "d = (t, chunk)" by (cases d)
  let ?bs = "na_bytes (entry_of t m sid) @ chunk"
  let ?acc = "(entry_of t m sid)\<lparr>na_bytes := ?bs, na_total := declared_total ?bs\<rparr>"
  have bs: "?bs @ (concat (map snd cs) @ c) = envelope body"
    using Cons.prems(2,4) d by (simp add: entry_of_Some)
  have v: "envelope_verdict MAX_PUSH_MESSAGE ?bs = NeedMore"
    using verdict_strict_prefix[OF _ Cons.prems(7) bs] Cons.prems(5) limits_bounded(1) by simp
  have "length ?bs \<le> length (envelope body)" using bs by (metis length_append le_add1)
  then have len: "length ?bs \<le> UNMATCHED_ENTRY_BYTES" using Cons.prems(6) by linarith
  have step: "buffer_push cd t sid chunk m s = (bt_insert sid ?acc m, s)"
    using Cons.prems(1)
    by (cases rule: buffer_push_cases[where cd = cd and now = t and sid = sid and chunk = chunk and s = s])
       (use v len in auto)
  have "unmatched_ok (bt_insert sid ?acc m)"
    using buffer_push_ok[OF Cons.prems(1), of sid cd t chunk s] Cons.prems(2) step by simp
  then have "feed_sid cd sid (cs @ [(now, c)]) (bt_insert sid ?acc m, s) =
      (bt_remove sid (bt_insert sid ?acc m), dispatch_push cd sid body s)"
    using Cons.IH[of "bt_insert sid ?acc m" ?acc] Cons.prems(3,5,6,7) bs by simp
  moreover have "reader_step cd t (sid, chunk) (m, s) = (bt_insert sid ?acc m, s)"
    using step Cons.prems(2,3) by (simp add: reader_step_def)
  ultimately show ?case by (simp add: d bt_remove_insert)
qed

lemma reap_idle_absent: "bt_get m sid = None \<Longrightarrow> bt_get (reap_idle t m) sid = None"
  by (auto simp: bt_get_None_iff reap_idle_def bt_keys_def)

lemma fresh_step:
  assumes "unmatched_ok m" "bt_get m sid = None" "si_pending s sid = None"
    and "length (reap_idle t m) < MAX_UNMATCHED_SIDS" "length chunk \<le> MAX_DOWNSTREAM_CHUNK"
  shows "reader_step cd t (sid, chunk) (m, s) = buffer_push cd t sid chunk (reap_idle t m) s"
proof -
  have "unmatched_total (reap_idle t m) + length chunk \<le> MAX_UNMATCHED_BYTES"
    using room_for_chunk[OF unmatched_ok_reap[OF assms(1)] assms(4,5)] .
  with assms show ?thesis by (simp add: reader_step_def Let_def)
qed

lemma fresh_entry: "bt_get m sid = None \<Longrightarrow> na_bytes (entry_of t (reap_idle t m) sid) = []"
  by (simp add: entry_of_def the_or_def reap_idle_absent)

lemma feed_fresh_entry:
  assumes "unmatched_ok m" "bt_get m sid = None" "si_pending s sid = None"
    and "length (reap_idle (fst d) m) < MAX_UNMATCHED_SIDS" "length (snd d) \<le> MAX_DOWNSTREAM_CHUNK"
    and "concat (map snd (d # cs)) = envelope body" "snd (last (d # cs)) \<noteq> []"
    and "length (envelope body) \<le> UNMATCHED_ENTRY_BYTES" "length body \<le> MAX_PUSH_MESSAGE"
  shows "feed_sid cd sid (d # cs) (m, s) = (reap_idle (fst d) m, dispatch_push cd sid body s)"
proof -
  obtain t chunk where d: "d = (t, chunk)" by (cases d)
  let ?m = "reap_idle t m"
  have absent: "bt_get ?m sid = None" using reap_idle_absent[OF assms(2)] .
  have ok: "unmatched_ok ?m" using unmatched_ok_reap[OF assms(1)] .
  have first: "reader_step cd t (sid, chunk) (m, s) = buffer_push cd t sid chunk ?m s"
    using fresh_step[OF assms(1-3)] assms(4,5) d by simp
  show ?thesis
  proof (cases cs rule: rev_cases)
    case Nil
    have v: "envelope_verdict MAX_PUSH_MESSAGE (envelope body) = Complete body"
      using assms(9) limits_bounded(1) by (subst verdict_Complete_iff) auto
    have "buffer_push cd t sid chunk ?m s = (bt_remove sid ?m, dispatch_push cd sid body s)"
      using ok
      by (cases rule: buffer_push_cases[where cd = cd and now = t and sid = sid and chunk = chunk and s = s])
         (use v assms(6,8) d Nil fresh_entry[OF assms(2)] in auto)
    then show ?thesis using first d Nil bt_remove_absent[OF absent] by simp
  next
    case (snoc cs' e)
    obtain now c where e: "e = (now, c)" by (cases e)
    have all: "chunk @ (concat (map snd cs') @ c) = envelope body" "c \<noteq> []"
      using assms(6,7) d snoc e by auto
    have v: "envelope_verdict MAX_PUSH_MESSAGE chunk = NeedMore"
      using verdict_strict_prefix[OF _ assms(9) all(1)] all(2) limits_bounded(1) by simp
    have "length chunk \<le> length (envelope body)" using all(1) by (metis length_append le_add1)
    then have len: "length chunk \<le> UNMATCHED_ENTRY_BYTES" using assms(8) by linarith
    let ?acc = "(entry_of t ?m sid)\<lparr>na_bytes := chunk, na_total := declared_total chunk\<rparr>"
    have step: "buffer_push cd t sid chunk ?m s = (bt_insert sid ?acc ?m, s)"
      using ok
      by (cases rule: buffer_push_cases[where cd = cd and now = t and sid = sid and chunk = chunk and s = s])
         (use v len fresh_entry[OF assms(2)] in auto)
    have "unmatched_ok (bt_insert sid ?acc ?m)"
      using buffer_push_ok[OF ok, of sid cd t chunk s] assms(4) d step by simp
    then have "feed_sid cd sid (cs' @ [(now, c)]) (bt_insert sid ?acc ?m, s) =
        (bt_remove sid (bt_insert sid ?acc ?m), dispatch_push cd sid body s)"
      using feed_open_entry[of "bt_insert sid ?acc ?m" sid ?acc s cs' c body] all assms(3,8,9) by simp
    then show ?thesis
      using first step d snoc e bt_remove_absent[OF absent] by (simp add: bt_remove_insert)
  qed
qed

section \<open>Pushes beyond the share of one sid\<close>

lemma buffer_push_over:
  assumes "unmatched_ok m"
    and "length (na_bytes (entry_of now m sid) @ chunk) > UNMATCHED_ENTRY_BYTES"
  shows "buffer_push cd now sid chunk m s = (bt_remove sid m, s)"
  using assms(2) by (simp add: buffer_push_def entry_of_def[symmetric] Let_def)

lemma buffer_push_prefix:
  assumes "unmatched_ok m" "na_bytes (entry_of now m sid) @ chunk = bs"
    and "bs @ tail_bytes = envelope body" "tail_bytes \<noteq> []"
    and "length bs \<le> UNMATCHED_ENTRY_BYTES" "length body \<le> MAX_PUSH_MESSAGE"
  shows "\<exists>acc. buffer_push cd now sid chunk m s = (bt_insert sid acc m, s) \<and> na_bytes acc = bs"
proof -
  have "envelope_verdict MAX_PUSH_MESSAGE bs = NeedMore"
    using verdict_strict_prefix[OF _ assms(6,3,4)] limits_bounded(1) by simp
  then show ?thesis
    using assms(1)
    by (cases rule: buffer_push_cases[OF assms(1), where cd = cd and now = now and sid = sid and chunk = chunk and s = s])
       (use assms(2,5) in auto)
qed

lemma feed_open_oversize:
  assumes "unmatched_ok m" "bt_get m sid = Some acc" "si_pending s sid = None"
    and "(na_bytes acc @ concat (map snd ds)) @ tail_bytes = envelope body"
    and "length body \<le> MAX_PUSH_MESSAGE"
    and "length (na_bytes acc @ concat (map snd ds)) > UNMATCHED_ENTRY_BYTES"
    and "length (na_bytes acc) \<le> UNMATCHED_ENTRY_BYTES"
  shows "\<exists>a d b. ds = a @ d # b \<and> feed_sid cd sid (a @ [d]) (m, s) = (bt_remove sid m, s)"
  using assms
proof (induction ds arbitrary: m acc)
  case Nil
  then show ?case by simp
next
  case (Cons d ds)
  obtain t chunk where d: "d = (t, chunk)" by (cases d)
  have bytes: "na_bytes (entry_of t m sid) = na_bytes acc"
    using Cons.prems(2) by (simp add: entry_of_Some)
  have rs: "reader_step cd t (sid, chunk) (m, s) = buffer_push cd t sid chunk m s"
    using Cons.prems(2,3) by (simp add: reader_step_def)
  show ?case
  proof (cases "length (na_bytes acc @ chunk) > UNMATCHED_ENTRY_BYTES")
    case True
    then show ?thesis
      using buffer_push_over[OF Cons.prems(1), of t sid chunk] bytes rs d
      by (intro exI[of _ "[]"] exI[of _ d] exI[of _ ds]) simp
  next
    case False
    then have le: "length (na_bytes acc @ chunk) \<le> UNMATCHED_ENTRY_BYTES" by simp
    have "length (na_bytes acc @ concat (map snd (d # ds))) =
        length (na_bytes acc @ chunk) + length (concat (map snd ds))" by (simp add: d)
    then have "length (concat (map snd ds)) \<noteq> 0" using Cons.prems(6) False by linarith
    then have ne: "concat (map snd ds) @ tail_bytes \<noteq> []" by force
    obtain acc' where step: "buffer_push cd t sid chunk m s = (bt_insert sid acc' m, s)"
      and acc': "na_bytes acc' = na_bytes acc @ chunk"
      using buffer_push_prefix[OF Cons.prems(1) _ _ ne le Cons.prems(5)] bytes Cons.prems(4) d
      by fastforce
    have "unmatched_ok (bt_insert sid acc' m)"
      using buffer_push_ok[OF Cons.prems(1), of sid cd t chunk s] Cons.prems(2) step by simp
    then obtain a e b where "ds = a @ e # b"
      "feed_sid cd sid (a @ [e]) (bt_insert sid acc' m, s) = (bt_remove sid (bt_insert sid acc' m), s)"
      using Cons.IH[of "bt_insert sid acc' m" acc'] Cons.prems(3,4,5,6) acc' le d by auto
    then show ?thesis
      using rs step d by (intro exI[of _ "d # a"] exI[of _ e] exI[of _ b]) (simp add: bt_remove_insert)
  qed
qed

section \<open>Session ids\<close>

lemma next_sid_fields [simp]:
  "fst (next_sid s) = si_next_sid s + 1"
  "si_pending (snd (next_sid s)) = si_pending s"
  "si_next_sid (snd (next_sid s)) = si_next_sid s + 1"
  by (simp_all add: next_sid_def)

lemma allocate_within_fresh:
  "allocate_within n s = (Inr sid, s') \<Longrightarrow>
     si_pending s sid = None \<and> (\<exists>nx. s' = s\<lparr>si_next_sid := nx\<rparr>)"
proof (induction n arbitrary: s)
  case (Suc n)
  then show ?case
    using Suc.IH[of "s\<lparr>si_next_sid := si_next_sid s + 1\<rparr>"]
    by (fastforce simp: next_sid_def Let_def split: if_splits)
qed simp

lemma allocate_within_fails:
  "allocate_within n s = (Inl e, s') \<Longrightarrow>
     e = Protocol ''session.sid_exhausted'' \<and>
     (\<forall>i \<in> {1..n}. si_pending s (si_next_sid s + word_of_nat i) \<noteq> None)"
proof (induction n arbitrary: s)
  case 0
  then show ?case by simp
next
  case (Suc n)
  let ?s = "s\<lparr>si_next_sid := si_next_sid s + 1\<rparr>"
  have taken: "si_pending s (si_next_sid s + 1) \<noteq> None" and rec: "allocate_within n ?s = (Inl e, s')"
    using Suc.prems by (auto simp: next_sid_def Let_def split: if_splits)
  have "si_pending s (si_next_sid s + word_of_nat i) \<noteq> None" if i: "i \<in> {1..Suc n}" for i
  proof (cases "i = 1")
    case True
    then show ?thesis using taken by simp
  next
    case False
    then have "i - 1 \<in> {1..n}" using i by auto
    then have "si_pending s (si_next_sid s + 1 + word_of_nat (i - 1)) \<noteq> None"
      using Suc.IH[OF rec] by auto
    moreover have "si_next_sid s + 1 + word_of_nat (i - 1) = si_next_sid s + word_of_nat i"
      using False i by (cases i) (auto simp: algebra_simps)
    ultimately show ?thesis by metis
  qed
  then show ?case using Suc.IH[OF rec] by blast
qed

lemma sids_distinct: "n \<le> 2 ^ 32 - 1 \<Longrightarrow> inj_on (\<lambda>i. base + word_of_nat i :: u32) {1..n}"
  by (auto simp: inj_on_def word_of_nat_eq_iff take_bit_nat_eq_self)

lemma allocate_succeeds:
  assumes "card (dom (si_pending s)) < n" "n \<le> 2 ^ 32 - 1"
  shows "\<exists>sid s'. allocate_within n s = (Inr sid, s')"
proof (rule ccontr)
  assume none: "\<nexists>sid s'. allocate_within n s = (Inr sid, s')"
  obtain r s' where "allocate_within n s = (r, s')" by (cases "allocate_within n s")
  with none obtain e where "allocate_within n s = (Inl e, s')" by (cases r) auto
  from allocate_within_fails[OF this]
  have "(\<lambda>i. si_next_sid s + word_of_nat i) ` {1..n} \<subseteq> dom (si_pending s)" by auto
  moreover have "finite (dom (si_pending s))" by (rule finite_subset[OF subset_UNIV]) simp
  ultimately have "card ((\<lambda>i. si_next_sid s + word_of_nat i) ` {1..n}) \<le> card (dom (si_pending s))"
    by (intro card_mono) auto
  then show False using card_image[OF sids_distinct[OF assms(2), of "si_next_sid s"]] assms(1) by simp
qed

section \<open>Responses\<close>

lemma receive_normal_loop_feed:
  "fst (receive_normal_loop cd sid st (map (Inr \<circ> IncomingData) cs)) =
     (case feed response_push st cs of
        Inl e \<Rightarrow> Some (Inl e)
      | Inr (Inl _) \<Rightarrow> None
      | Inr (Inr (body, rest)) \<Rightarrow>
          Some (case decode_cancel cd body of
                  Some c \<Rightarrow> Inl (Cancelled (remote_cancellation sid c))
                | None \<Rightarrow> Inr body))"
proof (induction cs arbitrary: st)
  case (Cons c cs)
  show ?case
  proof (cases "response_push st c")
    case (Inr p)
    obtain st' r where p: "p = (st', r)" by (cases p)
    show ?thesis using Inr p Cons.IH[of st'] by (cases r) (auto split: option.splits)
  qed simp
qed simp

lemma deliver_all:
  assumes "si_pending s sid = Some ch" "ch_receiver_alive (si_channels s ch)"
    and "length (ch_queue (si_channels s ch)) + length cs \<le> REQUEST_CHANNEL_CAPACITY"
  shows "\<exists>s'. feed_sid cd sid cs (m, s) = (m, s') \<and>
     ch_queue (si_channels s' ch) = ch_queue (si_channels s ch) @ map (IncomingData \<circ> snd) cs \<and>
     (\<forall>c. c \<noteq> ch \<longrightarrow> si_channels s' c = si_channels s c) \<and> si_pending s' = si_pending s"
  using assms
proof (induction cs arbitrary: s)
  case Nil
  then show ?case by simp
next
  case (Cons d cs)
  let ?q = "si_channels s ch"
  let ?s = "s\<lparr>si_channels := (si_channels s)(ch := ?q\<lparr>ch_queue := ch_queue ?q @ [IncomingData (snd d)]\<rparr>)\<rparr>"
  have "reader_step cd (fst d) (sid, snd d) (m, s) = (m, ?s)"
    using Cons.prems by (simp add: reader_step_def deliver_def Let_def)
  moreover obtain s' where "feed_sid cd sid cs (m, ?s) = (m, s')"
    "ch_queue (si_channels s' ch) = ch_queue (si_channels ?s ch) @ map (IncomingData \<circ> snd) cs"
    "\<forall>c. c \<noteq> ch \<longrightarrow> si_channels s' c = si_channels ?s c" "si_pending s' = si_pending ?s"
    using Cons.IH[of ?s] Cons.prems by auto
  ultimately show ?case by (cases d) auto
qed

section \<open>The life of a session\<close>

text \<open>Everything the tasks of a session can do to its state, with any answers of the
  environment, in any order.\<close>

inductive session_step ::
  "codec \<Rightarrow> (bytes \<Rightarrow> bytes core_result) \<Rightarrow> unmatched \<times> SessionInner \<Rightarrow> unmatched \<times> SessionInner \<Rightarrow> bool"
  for cd sign where
  opens: "open_signed sign cancelled io payload s = (r, s') \<Longrightarrow> session_step cd sign (m, s) (m, s')"
| sends: "request_send io cancelled flag payload rq s = (r, rq', s') \<Longrightarrow>
    session_step cd sign (m, s) (m, s')"
| receives: "receive_incoming choice close rq s = (r, s') \<Longrightarrow> session_step cd sign (m, s) (m, s')"
| settles: "settle (r :: bytes core_result) rq s = (rq', s') \<Longrightarrow> session_step cd sign (m, s) (m, s')"
| finishes: "session_step cd sign (m, s) (m, finish rq s)"
| drops: "session_step cd sign (m, s) (m, drop_request io rq s)"
| reads: "session_step cd sign (m, s) (reader_step cd now frame (m, s))"
| reader_ends: "session_step cd sign (m, s) (m, fail_connection s)"
| beats: "heartbeat_tick cd sign io payload items s = (go, s') \<Longrightarrow> session_step cd sign (m, s) (m, s')"
| closes: "close_session_inner sign io quit s = (r, s') \<Longrightarrow> session_step cd sign (m, s) (m, s')"

abbreviation session_reachable ::
  "codec \<Rightarrow> (bytes \<Rightarrow> bytes core_result) \<Rightarrow> string \<Rightarrow> unmatched \<times> SessionInner \<Rightarrow> bool" where
  "session_reachable cd sign serial \<equiv> reach ((=) ([], session_start serial)) (session_step cd sign)"

text \<open>A sequence of encoded frames, and what the state keeps: channels of different sids are
  different and were handed out, the wire holds whole frames while the writer runs, a stopped
  writer means a closed session, and a session without an event bus is closed.\<close>

inductive framed :: "bytes \<Rightarrow> bool" where
  framed_Nil: "framed []"
| framed_snoc: "framed w \<Longrightarrow> encode_upstream sid flag payload = Inr f \<Longrightarrow> framed (w @ f)"

definition session_inv :: "SessionInner \<Rightarrow> bool" where
  "session_inv s \<longleftrightarrow>
     inj_on (si_pending s) (dom (si_pending s)) \<and>
     (\<forall>sid ch. si_pending s sid = Some ch \<longrightarrow> ch < si_next_channel s) \<and>
     (si_writer_running s \<longrightarrow> framed (si_wire s)) \<and>
     (\<not> si_writer_running s \<longrightarrow> si_closed s) \<and>
     (si_events s = None \<longrightarrow> si_closed s)"

text \<open>The relation every operation keeps between the state before and after.\<close>

definition session_le :: "SessionInner \<Rightarrow> SessionInner \<Rightarrow> bool" where
  "session_le s s' \<longleftrightarrow>
     (session_inv s \<longrightarrow> session_inv s') \<and> (si_closed s \<longrightarrow> si_closed s') \<and>
     (\<exists>w. si_wire s' = si_wire s @ w) \<and>
     (si_closed s \<longrightarrow> (\<forall>sid ch. si_pending s' sid = Some ch \<longrightarrow> si_pending s sid = Some ch))"

lemma session_le_refl [simp, intro]: "session_le s s"
  by (simp add: session_le_def)

lemma session_le_trans: "session_le s t \<Longrightarrow> session_le t u \<Longrightarrow> session_le s u"
  by (auto simp: session_le_def)

lemma le_remove_pending [simp]: "session_le s (remove_pending sid s)"
  by (auto simp: session_le_def session_inv_def remove_pending_def inj_on_def split: if_splits)

lemma le_fail_connection [simp]: "session_le s (fail_connection s)"
  by (auto simp: session_le_def session_inv_def fail_connection_def)

lemma le_channels [simp]: "session_le s (s\<lparr>si_channels := c\<rparr>)"
  by (auto simp: session_le_def session_inv_def)

lemma le_drop_receiver [simp]: "session_le s (drop_receiver ch s)"
  by (simp add: drop_receiver_def)

lemma le_drop_remove: "session_le s (drop_receiver ch (remove_pending sid s))"
  by (rule session_le_trans[OF le_remove_pending le_drop_receiver])

lemma le_next_sid [simp]: "session_le s (s\<lparr>si_next_sid := n\<rparr>)"
  by (auto simp: session_le_def session_inv_def)

lemma le_publish [simp]: "session_le s (publish_event e s)"
  by (auto simp: session_le_def session_inv_def publish_event_def)

lemma le_closed [simp]: "session_le s (s\<lparr>si_closed := True\<rparr>)"
  by (auto simp: session_le_def session_inv_def)

lemma le_writer_step: "writer_step io sid flag payload s = (r, s') \<Longrightarrow> session_le s s'"
proof (cases "encode_upstream sid flag payload")
  case (Inr f)
  assume "writer_step io sid flag payload s = (r, s')"
  then show ?thesis
    using framed_snoc[OF _ Inr]
    by (cases io) (auto simp: writer_step_def write_upstream_def session_le_def session_inv_def Inr)
qed (auto simp: writer_step_def write_upstream_def session_le_def session_inv_def)

lemma le_send: "send io sid flag payload s = (r, s') \<Longrightarrow> session_le s s'"
  by (auto simp: send_def split: send_io.splits if_splits sum.splits prod.splits
      intro: le_writer_step session_le_trans[OF le_writer_step])

lemma le_allocate: "allocate_sid s = (r, s') \<Longrightarrow> session_le s s' \<and> si_closed s' = si_closed s"
proof -
  have "allocate_within n s = (r, s') \<Longrightarrow> session_le s s' \<and> si_closed s' = si_closed s" for n
  proof (induction n arbitrary: s)
    case (Suc n)
    then show ?case
      using Suc.IH[of "s\<lparr>si_next_sid := si_next_sid s + 1\<rparr>"]
      by (auto simp: next_sid_def Let_def split: if_splits
          intro: session_le_trans[OF le_next_sid])
  qed auto
  then show "allocate_sid s = (r, s') \<Longrightarrow> ?thesis" by (simp add: allocate_sid_def)
qed

lemma le_cancel: "cancel io sid s = (r, s') \<Longrightarrow> session_le s s'"
  by (auto simp: cancel_def split: if_splits prod.splits sum.splits
      dest!: le_allocate le_send intro: session_le_trans)

lemma le_cancel_local: "cancel_local io close sid s = (e, s') \<Longrightarrow> session_le s s'"
  by (auto simp: cancel_local_def Let_def split: if_splits prod.splits
      dest!: le_cancel intro: session_le_trans[OF le_remove_pending le_fail_connection]
        session_le_trans[OF le_remove_pending])

lemma inj_pending_update:
  assumes "inj_on m (dom m)" "\<And>k. m k \<noteq> Some c"
  shows "inj_on (m(sid \<mapsto> c)) (dom (m(sid \<mapsto> c)))"
  unfolding inj_on_def
proof (intro ballI impI)
  fix x y
  assume "x \<in> dom (m(sid \<mapsto> c))" "y \<in> dom (m(sid \<mapsto> c))" "(m(sid \<mapsto> c)) x = (m(sid \<mapsto> c)) y"
  then show "x = y"
    using assms inj_onD[OF assms(1), of x y] assms(2)[of x] assms(2)[of y]
    by (cases "x = sid"; cases "y = sid") auto
qed

lemma le_register_pending:
  assumes "register_pending sid s = (ch, s')" "\<not> si_closed s"
  shows "session_le s s'"
proof -
  have s': "s' = s\<lparr>si_pending := (si_pending s)(sid \<mapsto> ch),
      si_channels := (si_channels s)(ch := \<lparr>ch_queue = [], ch_receiver_alive = True\<rparr>),
      si_next_channel := ch + 1\<rparr>" and ch: "ch = si_next_channel s"
    using assms(1) by (auto simp: register_pending_def Let_def)
  have "session_inv s'" if inv: "session_inv s"
  proof -
    have "\<And>k. si_pending s k \<noteq> Some ch" using inv by (auto simp: session_inv_def ch)
    then show ?thesis
      using inv inj_pending_update[of "si_pending s" ch sid]
      by (simp add: session_inv_def s' ch less_Suc_eq)
  qed
  then show ?thesis using assms(2) by (auto simp: session_le_def s')
qed

lemma le_open_signed:
  assumes "open_signed sign cancelled io payload s = (r, s')"
  shows "session_le s s'"
proof (cases "si_closed s")
  case True
  then show ?thesis using assms by (simp add: open_signed_def)
next
  case False
  obtain a s1 where al: "allocate_sid s = (a, s1)" by (cases "allocate_sid s")
  note le1 = le_allocate[OF al]
  show ?thesis
  proof (cases a)
    case (Inl e)
    then show ?thesis using assms al False le1 by (simp add: open_signed_def)
  next
    case (Inr sid)
    obtain ch s2 where reg: "register_pending sid s1 = (ch, s2)" by (cases "register_pending sid s1")
    have "session_le s2 s'"
      using assms al False Inr reg
      by (auto simp: open_signed_def split: sum.splits if_splits prod.splits dest!: le_send
          intro: le_drop_remove session_le_trans[OF _ le_drop_remove])
    then show ?thesis
      using le1 le_register_pending[OF reg] False session_le_trans by blast
  qed
qed

lemma le_receive_incoming: "receive_incoming choice close rq s = (r, s') \<Longrightarrow> session_le s s'"
  by (auto simp: receive_incoming_def Let_def split: recv_choice.splits list.splits if_splits prod.splits
      dest!: le_cancel_local)

lemma le_settle: "settle r rq s = (rq', s') \<Longrightarrow> session_le s s'"
  by (cases r) (auto simp: settle_def split: core_error.splits if_splits)

lemma le_request_send: "request_send io cancelled flag payload rq s = (r, rq', s') \<Longrightarrow> session_le s s'"
  by (auto simp: request_send_def split: if_splits prod.splits dest!: le_cancel_local le_send)

lemma le_finish [simp]: "session_le s (finish rq s)"
  unfolding finish_def by (rule le_drop_remove)

lemma le_drop_request: "session_le s (drop_request io rq s)"
proof -
  obtain r s' where c: "cancel io (rq_sid rq) (remove_pending (rq_sid rq) (drop_receiver (rq_channel rq) s)) = (r, s')"
    by fastforce
  show ?thesis
    using le_cancel[OF c] c session_le_trans[OF le_drop_receiver le_remove_pending]
    by (auto simp: drop_request_def Let_def intro: session_le_trans)
qed

lemma le_deliver [simp]: "session_le s (deliver sid ch chunk s)"
  by (simp add: deliver_def Let_def)

lemma le_dispatch [simp]: "session_le s (dispatch_push cd sid body s)"
  by (auto simp: dispatch_push_def Let_def split: option.splits
      intro: session_le_trans[OF le_remove_pending le_channels])

lemma le_reader_step: "session_le s (snd (reader_step cd now frame (m, s)))"
  by (auto simp: reader_step_def buffer_push_def Let_def
      split: prod.splits option.splits sum.splits)

lemma le_receive_normal: "receive_normal cd items rq s = (r, rq', s') \<Longrightarrow> session_le s s'"
  by (auto simp: receive_normal_def split: if_splits option.splits dest!: le_settle)

lemma le_heartbeat: "heartbeat_tick cd sign io payload items s = (go, s') \<Longrightarrow> session_le s s'"
  by (auto simp: heartbeat_tick_def split: if_splits prod.splits sum.splits option.splits
      dest!: le_open_signed le_receive_normal
      intro: session_le_trans session_le_trans[OF _ le_closed] session_le_trans[OF _ le_finish])

lemma le_close: "close_session_inner sign io quit s = (r, s') \<Longrightarrow> session_le s s'"
  by (auto simp: close_session_inner_def next_sid_def Let_def split: if_splits sum.splits prod.splits
      dest!: le_send intro: session_le_trans[OF le_closed] session_le_trans[OF session_le_trans[OF le_closed le_next_sid]])

lemmas session_op_le =
  le_open_signed le_request_send le_receive_incoming le_settle le_drop_request le_heartbeat le_close

lemma session_step_le:
  assumes "session_step cd sign st st'"
  shows "session_le (snd st) (snd st') \<and> (unmatched_ok (fst st) \<longrightarrow> unmatched_ok (fst st'))"
  using assms
proof (cases rule: session_step.cases)
  case (reads m s now frame)
  then show ?thesis using le_reader_step[of s cd now frame m] reader_step_ok[of "(m, s)"] by simp
qed (auto intro: session_op_le)

lemma session_start_inv: "session_inv (session_start serial)"
  by (simp add: session_inv_def session_start_def framed_Nil)

interpretation sessions: preserved_invariant "(=) ([], session_start serial)" "session_step cd sign"
    "\<lambda>st. session_inv (snd st) \<and> unmatched_ok (fst st)"
proof
  show "session_inv (snd st) \<and> unmatched_ok (fst st)" if "([], session_start serial) = st" for st
    using that session_start_inv by (auto simp: unmatched_ok_def bt_ok_def bt_keys_def)
qed (use session_step_le in \<open>auto simp: session_le_def\<close>)

section \<open>Properties\<close>


definition answered_session :: SessionInner where
  "answered_session =
     (session_start ''s'')\<lparr>si_pending := [5 \<mapsto> 0],
       si_channels := (\<lambda>_. \<lparr>ch_queue = [], ch_receiver_alive = True\<rparr>), si_next_channel := 1\<rparr>"

definition answered_request :: OpenRequest where
  "answered_request = \<lparr>rq_sid = 5, rq_channel = 0, rq_phase = PHASE_NORMAL, rq_completed = False\<rparr>"


text \<open>C2: a push is dispatched exactly once and whole. Any cutting of a push body into chunks of a
  sid that is neither pending nor buffered, whose prefixed form fits the 256 KiB share of one
  sid, ends with exactly the dispatch of that body and with no trace left in the buffer, however
  full the buffer is, as long as one of its 64 places is free after idle entries are reaped.\<close>

theorem push_reassembled:
  assumes "unmatched_ok m" "bt_get m sid = None" "si_pending s sid = None"
    and "length (reap_idle (fst d) m) < MAX_UNMATCHED_SIDS"
    and "length (snd d) \<le> MAX_DOWNSTREAM_CHUNK"
    and "concat (map snd (d # cs)) = envelope body" "snd (last (d # cs)) \<noteq> []"
    and "length body + 8 \<le> UNMATCHED_ENTRY_BYTES"
  shows "feed_sid cd sid (d # cs) (m, s) = (reap_idle (fst d) m, dispatch_push cd sid body s)"
proof (rule feed_fresh_entry[OF assms(1-7)])
  show "length (envelope body) \<le> UNMATCHED_ENTRY_BYTES" using assms(8) by simp
  show "length body \<le> MAX_PUSH_MESSAGE"
    using assms(8) by (simp add: entry_bytes_value MAX_PUSH_MESSAGE_def)
qed

theorem push_reassembled_witness:
  "feed_sid clipboard_only 9 [(3, to_be 8 2), (4, [1, 2])] ([], session_start ''s'') =
     ([], dispatch_push clipboard_only 9 [1, 2] (session_start ''s''))"
  using push_reassembled[of "[]" 9 "session_start ''s''" "(3, to_be 8 2)" "[(4, [1, 2])]" "[1, 2]" clipboard_only]
  by (simp add: unmatched_ok_def bt_ok_def bt_keys_def bt_get_def session_start_def reap_idle_def
      MAX_UNMATCHED_SIDS_def MAX_DOWNSTREAM_CHUNK_def envelope_def entry_bytes_value
      numeral_2_eq_2)

text \<open>the advertised limit of a push is 4 MiB, but a push whose prefixed form exceeds 256 KiB is
  never delivered: once the chunks of such a push outgrow the share of one sid the whole entry is
  dropped and nothing is published for it.\<close>

theorem large_push_dropped:
  assumes "unmatched_ok m" "bt_get m sid = Some acc" "si_pending s sid = None"
    and "(na_bytes acc @ concat (map snd ds)) @ rest = envelope body"
    and "length body \<le> MAX_PUSH_MESSAGE"
    and "length (na_bytes acc @ concat (map snd ds)) > UNMATCHED_ENTRY_BYTES"
  shows "\<exists>a d b. ds = a @ d # b \<and> feed_sid cd sid (a @ [d]) (m, s) = (bt_remove sid m, s)"
proof (rule feed_open_oversize[OF assms])
  show "length (na_bytes acc) \<le> UNMATCHED_ENTRY_BYTES"
    using assms(1,2) by (auto simp: unmatched_ok_def entry_ok_def bt_get_iff)
qed

definition half_read_push :: NormalAccumulator where
  "half_read_push = \<lparr>na_bytes = to_be 8 300000, na_total = Some 300000, na_last_seen = 0\<rparr>"

lemma half_read_push_ok: "unmatched_ok [(9, half_read_push)]"
proof -
  have "(300000::nat) < usize_bound" by (simp add: usize_bound_def)
  then show ?thesis
    by (simp add: unmatched_ok_def bt_ok_def bt_keys_def MAX_UNMATCHED_SIDS_def entry_ok_def
        half_read_push_def entry_bytes_value accumulator_wf_def declared_total_def
        envelope_verdict_def MAX_PUSH_MESSAGE_def)
qed

theorem large_push_dropped_witness:
  "\<exists>a d b. [(1, replicate 262140 0)] = a @ d # b \<and>
     feed_sid clipboard_only 9 (a @ [d]) ([(9, half_read_push)], session_start ''s'') =
       (bt_remove 9 [(9, half_read_push)], session_start ''s'')"
proof (rule large_push_dropped[OF half_read_push_ok])
  show "bt_get [(9, half_read_push)] 9 = Some half_read_push" by (simp add: bt_get_def)
  show "si_pending (session_start ''s'') 9 = None" by (simp add: session_start_def)
  show "(na_bytes half_read_push @ concat (map snd [(1 :: nat, replicate 262140 0)])) @ replicate 37860 0
      = envelope (replicate 300000 0)"
    by (simp add: half_read_push_def envelope_def replicate_add[symmetric])
  show "length (replicate 300000 (0 :: byte)) \<le> MAX_PUSH_MESSAGE"
    by (simp add: MAX_PUSH_MESSAGE_def)
  show "length (na_bytes half_read_push @ concat (map snd [(1 :: nat, replicate 262140 0)]))
      > UNMATCHED_ENTRY_BYTES"
    by (simp add: half_read_push_def entry_bytes_value)
qed

text \<open>C3: memory for unknown sids is bounded. In every state a session can reach, whatever frames
  the phone sends and however the tasks interleave, the reader buffers at most 64 unmatched
  sids, at most 256 KiB for each and at most 16 MiB in all.\<close>

theorem unmatched_bounded:
  assumes "session_reachable cd sign serial (m, s)"
  shows "length m \<le> MAX_UNMATCHED_SIDS \<and>
     list_all (\<lambda>(sid, acc). length (na_bytes acc) \<le> UNMATCHED_ENTRY_BYTES) m \<and>
     unmatched_total m \<le> MAX_UNMATCHED_BYTES"
proof -
  have ok: "unmatched_ok m" using sessions.inv_reach[OF assms] by simp
  then have "unmatched_total m \<le> MAX_UNMATCHED_SIDS * UNMATCHED_ENTRY_BYTES"
    using unmatched_total_bound[OF ok]
    by (meson le_trans mult_le_mono1 unmatched_ok_def)
  also have "\<dots> \<le> MAX_UNMATCHED_BYTES"
    by (simp add: entry_bytes_value MAX_UNMATCHED_SIDS_def MAX_UNMATCHED_BYTES_def)
  finally show ?thesis
    using ok by (auto simp: unmatched_ok_def entry_ok_def list_all_iff)
qed

theorem unmatched_bounded_witness:
  "unmatched_total [(7, \<lparr>na_bytes = [1, 2], na_total = None, na_last_seen = 0\<rparr>)] \<le> MAX_UNMATCHED_BYTES"
proof -
  have step: "reader_step clipboard_only 0 (7, [1, 2]) ([], session_start ''s'') =
      ([(7, \<lparr>na_bytes = [1, 2], na_total = None, na_last_seen = 0\<rparr>)], session_start ''s'')"
    by (simp add: reader_step_def session_start_def bt_get_def reap_idle_def unmatched_total_def
        MAX_UNMATCHED_SIDS_def MAX_UNMATCHED_BYTES_def buffer_push_def the_or_def
        accumulator_new_def UNMATCHED_ENTRY_BYTES_def push_accumulator_def accumulator_total_def
        MAX_PUSH_MESSAGE_def)
  have "session_reachable clipboard_only Inr ''s''
      (reader_step clipboard_only 0 (7, [1, 2]) ([], session_start ''s''))"
    by (rule reach_step, rule reach_start, rule refl, rule session_step.reads)
  then show ?thesis using unmatched_bounded unfolding step by blast
qed



text \<open>a session id is never handed out twice at the same time: \<open>allocate_sid\<close> returns an id that is
  not pending and changes nothing but the counter, it does so whenever fewer than 1024 requests
  are pending, across the wrap-around of the 32-bit counter, and otherwise its only error is
  exhaustion.\<close>

theorem allocate_sid_fresh:
  "case allocate_sid s of
     (Inr sid, s') \<Rightarrow> si_pending s sid = None \<and> s' = s\<lparr>si_next_sid := si_next_sid s'\<rparr>
   | (Inl e, s') \<Rightarrow> 1024 \<le> card (dom (si_pending s)) \<and> e = Protocol ''session.sid_exhausted''"
proof (cases "allocate_sid s")
  case (Pair r s')
  show ?thesis
  proof (cases r)
    case (Inl e)
    then have "\<not> card (dom (si_pending s)) < 1024"
      using Pair allocate_succeeds[of s 1024] by (auto simp: allocate_sid_def)
    then show ?thesis
      using allocate_within_fails[of 1024 s e s'] Pair Inl by (simp add: allocate_sid_def)
  next
    case (Inr sid)
    then show ?thesis
      using allocate_within_fresh[of 1024 s sid s'] Pair by (auto simp: allocate_sid_def)
  qed
qed

end
