(* ===== verification/Download.thy ===== *)
theory Download
  imports Session
begin

text \<open>
  Raw file downloads, \<open>OpenRequest::receive_raw_to\<close> and \<open>DownloadDiscriminator\<close> of
  \<open>handshaker-core/src/session.rs\<close>. File bytes arrive without an envelope on the sid of the
  request, so a chunk that looks like a length-prefixed message is held back until it is clear
  whether it can be file data. The local file is the list of the bytes written to it; whether a
  write or the final flush succeeds, and MD5, are arguments.
\<close>

section \<open>Telling file data from messages\<close>

record DownloadDiscriminator =
  dd_candidate :: bytes
  dd_expected :: "nat option"

definition discriminator_default :: DownloadDiscriminator where
  "discriminator_default = \<lparr>dd_candidate = [], dd_expected = None\<rparr>"

definition take_candidate :: "DownloadDiscriminator \<Rightarrow> bytes \<times> DownloadDiscriminator" where
  "take_candidate d = (dd_candidate d, discriminator_default)"

text \<open>The length a candidate of at least eight bytes declares, if it can be a message here.\<close>

definition plausible_message :: "bytes \<Rightarrow> nat \<Rightarrow> nat option" where
  "plausible_message cand remaining =
     (case checked_add_usize (from_be (take 8 cand)) 8 of
        Some expected \<Rightarrow>
          if expected \<le> remaining \<and> 8 \<le> expected \<and> expected \<le> MAX_PUSH_MESSAGE + 8
          then Some expected else None
      | None \<Rightarrow> None)"

definition discriminator_push ::
  "DownloadDiscriminator \<Rightarrow> bytes \<Rightarrow> nat \<Rightarrow> bytes option core_result \<times> DownloadDiscriminator" where
  "discriminator_push d chunk remaining =
     (let cand = dd_candidate d @ chunk;
          d1 = d\<lparr>dd_candidate := cand\<rparr>;
          release = (case take_candidate d1 of (c, d2) \<Rightarrow> (Inr (Some c), d2));
          judge = (\<lambda>expected d2.
            if length cand < expected then (Inr None, d2)
            else if length cand > expected then release
            else (Inl (Protocol ''session.download_ambiguous''), d2))
      in if dd_expected d = None \<and> length cand < 8 \<and> length cand \<ge> remaining
         then release
         else if dd_expected d = None \<and> length cand \<ge> 8
         then (case plausible_message cand remaining of
                 Some expected \<Rightarrow> judge expected (d1\<lparr>dd_expected := Some expected\<rparr>)
               | None \<Rightarrow> release)
         else (case dd_expected d of
                 None \<Rightarrow> (Inr None, d1)
               | Some expected \<Rightarrow> judge expected d1))"

section \<open>Receiving a file\<close>

record raw_state =
  rs_received :: nat
  rs_written :: bytes
  rs_disc :: DownloadDiscriminator
  rs_progress :: "nat list"

definition raw_start :: raw_state where
  "raw_start = \<lparr>rs_received = 0, rs_written = [], rs_disc = discriminator_default, rs_progress = []\<rparr>"

definition raw_timeout :: "core_error \<Rightarrow> core_error" where
  "raw_timeout e = (case e of Timeout _ \<Rightarrow> Timeout ''session.receive_file_chunk'' | other \<Rightarrow> other)"

text \<open>One chunk released by the discriminator: counted, written, reported.\<close>

definition write_chunk ::
  "bool \<Rightarrow> nat \<Rightarrow> bytes \<Rightarrow> raw_state \<Rightarrow> core_error option \<times> raw_state" where
  "write_chunk write_ok tot chunk st =
     (case checked_add_usize (rs_received st) (length chunk) of
        None \<Rightarrow> (Some (Protocol ''session.download_count_overflow''), st)
      | Some next_received \<Rightarrow>
          if next_received > tot then (Some (Protocol ''session.download_too_long''), st)
          else if \<not> write_ok then (Some (LocalIo ''session.write_download_failed''), st)
          else (None, st\<lparr>rs_received := next_received, rs_written := rs_written st @ chunk,
                         rs_progress := rs_progress st @ [next_received]\<rparr>))"

text \<open>The loop over what arrives; each item carries whether a write at that point succeeds.
  The first component is \<open>None\<close> while the loop still waits.\<close>

fun receive_raw_loop ::
  "nat \<Rightarrow> raw_state \<Rightarrow> ((core_error + Incoming) \<times> bool) list
   \<Rightarrow> unit core_result option \<times> raw_state" where
  "receive_raw_loop tot st [] =
     (if rs_received st < tot then (None, st) else (Some (Inr ()), st))"
| "receive_raw_loop tot st ((item, write_ok) # rest) =
     (if \<not> rs_received st < tot then (Some (Inr ()), st)
      else (case item of
              Inl e \<Rightarrow> (Some (Inl (raw_timeout e)), st)
            | Inr (IncomingRemoteCancelled info) \<Rightarrow> (Some (Inl (Cancelled info)), st)
            | Inr (IncomingData chunk) \<Rightarrow>
                (case discriminator_push (rs_disc st) chunk (tot - rs_received st) of
                   (Inl e, d) \<Rightarrow> (Some (Inl e), st\<lparr>rs_disc := d\<rparr>)
                 | (Inr None, d) \<Rightarrow> receive_raw_loop tot (st\<lparr>rs_disc := d\<rparr>) rest
                 | (Inr (Some released), d) \<Rightarrow>
                     (case write_chunk write_ok tot released (st\<lparr>rs_disc := d\<rparr>) of
                        (Some e, st1) \<Rightarrow> (Some (Inl e), st1)
                      | (None, st1) \<Rightarrow> receive_raw_loop tot st1 rest))))"

text \<open>\<open>receive_raw_to\<close>: the request enters its raw phase for good; the result is the hex digest.\<close>

definition receive_raw_to ::
  "(bytes \<Rightarrow> string) \<Rightarrow> bool \<Rightarrow> nat \<Rightarrow> ((core_error + Incoming) \<times> bool) list \<Rightarrow> OpenRequest
   \<Rightarrow> SessionInner \<Rightarrow> string core_result option \<times> raw_state \<times> OpenRequest \<times> SessionInner" where
  "receive_raw_to md5_hex flush_ok tot items rq s =
     (let rq1 = rq\<lparr>rq_phase := PHASE_DOWNLOAD_RAW\<rparr> in
      case receive_raw_loop tot raw_start items of
        (None, st) \<Rightarrow> (None, st, rq1, s)
      | (Some r, st) \<Rightarrow>
          (let result = (case r of
                           Inl e \<Rightarrow> Inl e
                         | Inr _ \<Rightarrow> if flush_ok then Inr (md5_hex (rs_written st))
                                   else Inl (LocalIo ''session.flush_download_failed''))
           in (Some result, st, settle result rq1 s)))"

section \<open>The discriminator neither loses nor keeps bytes it cannot need\<close>

definition disc_ok :: "DownloadDiscriminator \<Rightarrow> nat \<Rightarrow> bool" where
  "disc_ok d remaining \<longleftrightarrow>
     (case dd_expected d of
        None \<Rightarrow> length (dd_candidate d) < 8 \<and> length (dd_candidate d) < remaining
      | Some e \<Rightarrow> 8 \<le> length (dd_candidate d) \<and> length (dd_candidate d) < e \<and> e \<le> remaining)"

lemma disc_default_ok [simp]: "0 < remaining \<Longrightarrow> disc_ok discriminator_default remaining"
  by (simp add: disc_ok_def discriminator_default_def)

lemma plausible_bound: "plausible_message c remaining = Some e \<Longrightarrow> e \<le> remaining"
  by (auto simp: plausible_message_def split: option.splits if_splits)

lemma discriminator_push_cases:
  assumes "disc_ok d remaining"
  obtains (hold) d' where "discriminator_push d chunk remaining = (Inr None, d')"
      "dd_candidate d' = dd_candidate d @ chunk" "disc_ok d' remaining"
  | (release) "discriminator_push d chunk remaining =
        (Inr (Some (dd_candidate d @ chunk)), discriminator_default)"
  | (ambiguous) d' where "discriminator_push d chunk remaining =
        (Inl (Protocol ''session.download_ambiguous''), d')"
      "plausible_message (dd_candidate d @ chunk) remaining = Some (length (dd_candidate d @ chunk))
       \<or> dd_expected d = Some (length (dd_candidate d @ chunk))"
proof -
  let ?c = "dd_candidate d @ chunk"
  show thesis
  proof (cases "dd_expected d")
    case None
    show thesis
    proof (cases "length ?c < 8")
      case True
      then show thesis
        using None hold release assms
        by (cases "length ?c \<ge> remaining")
           (auto simp: discriminator_push_def take_candidate_def disc_ok_def Let_def)
    next
      case False
      show thesis
      proof (cases "plausible_message ?c remaining")
        case None
        then show thesis
          using False \<open>dd_expected d = None\<close> release
          by (auto simp: discriminator_push_def take_candidate_def Let_def)
      next
        case (Some e)
        consider "length ?c < e" | "length ?c > e" | "length ?c = e" by linarith
        then show thesis
          using False \<open>dd_expected d = None\<close> Some hold release ambiguous plausible_bound[OF Some]
          by cases (auto simp: discriminator_push_def take_candidate_def disc_ok_def Let_def)
      qed
    qed
  next
    case (Some e)
    consider "length ?c < e" | "length ?c > e" | "length ?c = e" by linarith
    then show thesis
      using Some hold release ambiguous assms
      by cases (auto simp: discriminator_push_def take_candidate_def disc_ok_def Let_def)
  qed
qed

lemma disc_ok_pending: "disc_ok d remaining \<Longrightarrow> length (dd_candidate d) < remaining"
  by (auto simp: disc_ok_def split: option.splits)

section \<open>The loop conserves the file\<close>

definition raw_inv :: "nat \<Rightarrow> raw_state \<Rightarrow> bool" where
  "raw_inv tot st \<longleftrightarrow>
     tot < usize_bound \<and> rs_received st = length (rs_written st) \<and> rs_received st \<le> tot \<and>
     (if rs_received st < tot then disc_ok (rs_disc st) (tot - rs_received st)
      else rs_disc st = discriminator_default) \<and>
     sorted (rs_progress st) \<and> (\<forall>p \<in> set (rs_progress st). p \<le> rs_received st)"

text \<open>Everything received so far: the file and what is held back.\<close>

definition raw_seen :: "raw_state \<Rightarrow> bytes" where
  "raw_seen st = rs_written st @ dd_candidate (rs_disc st)"

lemma raw_start_inv: "tot < usize_bound \<Longrightarrow> raw_inv tot raw_start"
  by (simp add: raw_inv_def raw_start_def)

lemma raw_start_seen [simp]: "raw_seen raw_start = []"
  by (simp add: raw_seen_def raw_start_def discriminator_default_def)

abbreviation data_items :: "(bytes \<times> bool) list \<Rightarrow> ((core_error + Incoming) \<times> bool) list" where
  "data_items \<equiv> map (\<lambda>(c, w). (Inr (IncomingData c), w))"

lemma write_chunk_ok:
  assumes "raw_inv tot st" "rs_received st < tot" "rs_received st + length c \<le> tot"
  shows "write_chunk True tot c (st\<lparr>rs_disc := discriminator_default\<rparr>) =
     (None, st\<lparr>rs_disc := discriminator_default, rs_received := rs_received st + length c,
        rs_written := rs_written st @ c,
        rs_progress := rs_progress st @ [rs_received st + length c]\<rparr>)"
  using assms by (simp add: write_chunk_def checked_add_usize_def raw_inv_def)

lemma write_chunk_result:
  "write_chunk w tot c st = (None, st') \<Longrightarrow>
     w \<and> rs_received st + length c \<le> tot \<and>
     st' = st\<lparr>rs_received := rs_received st + length c, rs_written := rs_written st @ c,
              rs_progress := rs_progress st @ [rs_received st + length c]\<rparr>"
  by (auto simp: write_chunk_def split: option.splits if_splits)

lemma raw_inv_written:
  assumes "raw_inv tot st" "rs_received st < tot" "rs_received st + length c \<le> tot"
  shows "raw_inv tot (st\<lparr>rs_disc := discriminator_default, rs_received := rs_received st + length c,
      rs_written := rs_written st @ c, rs_progress := rs_progress st @ [rs_received st + length c]\<rparr>)"
  using assms by (auto simp: raw_inv_def sorted_append)

lemma raw_inv_hold:
  assumes "raw_inv tot st" "rs_received st < tot" "disc_ok d (tot - rs_received st)"
  shows "raw_inv tot (st\<lparr>rs_disc := d\<rparr>)"
  using assms by (auto simp: raw_inv_def)

lemma raw_disc: "raw_inv tot st \<Longrightarrow> rs_received st < tot \<Longrightarrow> disc_ok (rs_disc st) (tot - rs_received st)"
  by (auto simp: raw_inv_def)

lemma receive_raw_loop_sound:
  assumes "raw_inv tot st" "receive_raw_loop tot st items = (Some (Inr ()), st')"
  shows "\<exists>used rest. items = data_items used @ rest \<and> raw_inv tot st' \<and>
     rs_received st' = tot \<and> rs_written st' = raw_seen st @ concat (map fst used)"
  using assms
proof (induction tot st items rule: receive_raw_loop.induct)
  case (1 tot st)
  then show ?case
    by (auto simp: raw_inv_def raw_seen_def discriminator_default_def split: if_splits)
next
  case (2 tot st item w rest)
  show ?case
  proof (cases "rs_received st < tot")
    case False
    then have "st' = st" "rs_received st = tot" "raw_seen st = rs_written st"
      using "2.prems" by (auto simp: raw_inv_def raw_seen_def discriminator_default_def)
    then show ?thesis
      using "2.prems"(1) by (intro exI[of _ "[]"] exI[of _ "(item, w) # rest"]) simp
  next
    case True
    then obtain chunk where item: "item = Inr (IncomingData chunk)"
      using "2.prems"(2) by (auto split: sum.splits Incoming.splits)
    let ?c = "dd_candidate (rs_disc st) @ chunk"
    from raw_disc[OF "2.prems"(1) True] show ?thesis
    proof (cases rule: discriminator_push_cases[where chunk = chunk])
      case (hold d')
      let ?st = "st\<lparr>rs_disc := d'\<rparr>"
      have "receive_raw_loop tot ?st rest = (Some (Inr ()), st')"
        using "2.prems"(2) True item hold by simp
      then obtain used rest' where "rest = data_items used @ rest'" "raw_inv tot st'"
        "rs_received st' = tot" "rs_written st' = raw_seen ?st @ concat (map fst used)"
        using "2.IH"(1)[of "IncomingData chunk" chunk "Inr None" d' None] True item hold
          raw_inv_hold[OF "2.prems"(1) True hold(3)] by auto
      then show ?thesis
        using item hold by (intro exI[of _ "(chunk, w) # used"] exI[of _ rest']) (simp add: raw_seen_def)
    next
      case release
      obtain e st1 where wc: "write_chunk w tot ?c (st\<lparr>rs_disc := discriminator_default\<rparr>) = (e, st1)"
        by (cases "write_chunk w tot ?c (st\<lparr>rs_disc := discriminator_default\<rparr>)")
      have e: "e = None" and run: "receive_raw_loop tot st1 rest = (Some (Inr ()), st')"
        using "2.prems"(2) True item release wc by (auto split: option.splits)
      note st1 = write_chunk_result[OF wc[unfolded e]]
      have inv1: "raw_inv tot st1"
        using raw_inv_written[OF "2.prems"(1) True, of ?c] st1 by simp
      obtain used rest' where "rest = data_items used @ rest'" "raw_inv tot st'"
        "rs_received st' = tot" "rs_written st' = raw_seen st1 @ concat (map fst used)"
        using "2.IH"(2)[of "IncomingData chunk" chunk "Inr (Some ?c)" discriminator_default "Some ?c" ?c e st1]
          True item release wc e run inv1 by auto
      then show ?thesis
        using item st1 by (intro exI[of _ "(chunk, w) # used"] exI[of _ rest'])
          (simp add: raw_seen_def discriminator_default_def)
    next
      case ambiguous
      then show ?thesis using "2.prems"(2) True item by simp
    qed
  qed
qed

text \<open>Chunks that arrive while every write succeeds: the loop waits only while bytes are missing,
  and a file that fits is rejected only as ambiguous.\<close>

lemma receive_raw_loop_progress:
  assumes "raw_inv tot st" "length (raw_seen st @ concat cs) \<le> tot"
    and "receive_raw_loop tot st (map (\<lambda>c. (Inr (IncomingData c), True)) cs) = (r, st')"
  shows "(r = None \<longrightarrow> length (raw_seen st @ concat cs) < tot) \<and>
     (\<forall>e. r = Some (Inl e) \<longrightarrow> e = Protocol ''session.download_ambiguous'')"
  using assms
proof (induction cs arbitrary: st)
  case Nil
  have "rs_received st < tot \<Longrightarrow> length (dd_candidate (rs_disc st)) < tot - rs_received st"
    using disc_ok_pending raw_disc[OF Nil.prems(1)] by blast
  moreover have "rs_received st = length (rs_written st)"
    using Nil.prems(1) unfolding raw_inv_def by blast
  ultimately have "rs_received st < tot \<Longrightarrow> length (raw_seen st) < tot"
    by (simp add: raw_seen_def less_diff_conv)
  then show ?case using Nil.prems(3) by (auto split: if_splits)
next
  case (Cons c cs)
  show ?case
  proof (cases "rs_received st < tot")
    case False
    then show ?thesis using Cons.prems(3) by auto
  next
    case True
    let ?c = "dd_candidate (rs_disc st) @ c"
    have fits: "rs_received st + length ?c \<le> tot"
      using Cons.prems(1,2) by (simp add: raw_seen_def raw_inv_def)
    from raw_disc[OF Cons.prems(1) True] show ?thesis
    proof (cases rule: discriminator_push_cases[where chunk = c])
      case (hold d')
      have "raw_seen (st\<lparr>rs_disc := d'\<rparr>) = raw_seen st @ c" using hold by (simp add: raw_seen_def)
      then show ?thesis
        using Cons.IH[OF raw_inv_hold[OF Cons.prems(1) True hold(3)]] Cons.prems(2,3) True hold
        by (simp add: add.assoc)
    next
      case release
      let ?st = "st\<lparr>rs_disc := discriminator_default, rs_received := rs_received st + length ?c,
          rs_written := rs_written st @ ?c, rs_progress := rs_progress st @ [rs_received st + length ?c]\<rparr>"
      have seen: "raw_seen ?st = raw_seen st @ c" by (simp add: raw_seen_def discriminator_default_def)
      have "receive_raw_loop tot ?st (map (\<lambda>c. (Inr (IncomingData c), True)) cs) = (r, st')"
        using Cons.prems(3) True release write_chunk_ok[OF Cons.prems(1) True fits] by simp
      then show ?thesis
        using Cons.IH[OF raw_inv_written[OF Cons.prems(1) True fits]] Cons.prems(2) seen
        by (simp add: add.assoc)
    next
      case ambiguous
      then show ?thesis using Cons.prems(3) True by auto
    qed
  qed
qed

section \<open>Properties\<close>

lemma receive_raw_exact:
  assumes "tot < usize_bound"
    and "receive_raw_to md5_hex flush_ok tot items rq s = (Some (Inr digest), st, rq', s')"
  shows "\<exists>used rest. items = data_items used @ rest \<and> rs_written st = concat (map fst used) \<and>
     length (rs_written st) = tot \<and> digest = md5_hex (rs_written st) \<and>
     sorted (rs_progress st) \<and> list_all (\<lambda>p. p \<le> tot) (rs_progress st) \<and> s' = s"
proof -
  have loop: "receive_raw_loop tot raw_start items = (Some (Inr ()), st)"
    and digest: "digest = md5_hex (rs_written st)" and s': "s' = s"
    using assms(2)
    by (auto simp: receive_raw_to_def settle_def Let_def split: option.splits prod.splits sum.splits if_splits)
  obtain used rest where "items = data_items used @ rest" "raw_inv tot st" "rs_received st = tot"
    "rs_written st = raw_seen raw_start @ concat (map fst used)"
    using receive_raw_loop_sound[OF raw_start_inv[OF assms(1)] loop] by blast
  then show ?thesis using digest s' by (auto simp: raw_inv_def list_all_iff)
qed

text \<open>C6: a download that succeeds is the file the phone sent. If \<open>receive_raw_to\<close> returns a digest,
  the bytes written are exactly the data of the items it consumed, in order, without loss or
  duplication, there are exactly as many as announced, the digest is that of those bytes, the
  progress reports never decrease or exceed the size, and the session is untouched.\<close>

theorem download_exact:
  assumes "tot < usize_bound"
    and "receive_raw_to md5_hex flush_ok tot items rq s = (Some (Inr digest), st, rq', s')"
  shows "\<exists>used rest. items = data_items used @ rest \<and> rs_written st = concat (map fst used) \<and>
     length (rs_written st) = tot \<and> digest = md5_hex (rs_written st) \<and>
     sorted (rs_progress st) \<and> list_all (\<lambda>p. p \<le> tot) (rs_progress st) \<and> s' = s"
  by (rule receive_raw_exact[OF assms])

definition idle_request :: OpenRequest where
  "idle_request = \<lparr>rq_sid = 5, rq_channel = 0, rq_phase = PHASE_NORMAL, rq_completed = False\<rparr>"

theorem download_exact_witness:
  "\<exists>used rest. [(Inr (IncomingData [1, 2]), True), (Inr (IncomingData [3]), True)] = data_items used @ rest \<and>
     [1, 2, 3] = concat (map fst used) \<and> length [1, 2, 3 :: byte] = 3 \<and> ''d'' = ''d'' \<and>
     sorted [3 :: nat] \<and> list_all (\<lambda>p. p \<le> 3) [3 :: nat] \<and> session_start ''s'' = session_start ''s''"
proof -
  have "receive_raw_to (\<lambda>_. ''d'') True 3
      [(Inr (IncomingData [1, 2]), True), (Inr (IncomingData [3]), True)] idle_request (session_start ''s'') =
     (Some (Inr ''d''), \<lparr>rs_received = 3, rs_written = [1, 2, 3], rs_disc = discriminator_default,
        rs_progress = [3]\<rparr>, idle_request\<lparr>rq_phase := PHASE_DOWNLOAD_RAW\<rparr>, session_start ''s'')"
    by (simp add: receive_raw_to_def raw_start_def discriminator_default_def discriminator_push_def
        take_candidate_def write_chunk_def checked_add_usize_def usize_bound_def settle_def Let_def)
  from download_exact[OF _ this] show ?thesis by (simp add: usize_bound_def)
qed

text \<open>C7: a download never hangs on bytes that have arrived. When the data chunks make up exactly
  the announced size and every write succeeds, however the phone cut them, \<open>receive_raw_to\<close>
  returns: with the digest of the whole file, or, when a chunk boundary coincides with the end of
  what reads as a complete message, with the error that the data are ambiguous.\<close>

theorem download_complete:
  assumes "length (concat cs) = tot" "tot < usize_bound"
  shows "\<exists>st rq' s'.
     receive_raw_to md5_hex True tot (map (\<lambda>c. (Inr (IncomingData c), True)) cs) rq s =
       (Some (Inr (md5_hex (concat cs))), st, rq', s') \<and> rs_written st = concat cs \<or>
     receive_raw_to md5_hex True tot (map (\<lambda>c. (Inr (IncomingData c), True)) cs) rq s =
       (Some (Inl (Protocol ''session.download_ambiguous'')), st, rq', s')"
proof -
  let ?items = "map (\<lambda>c. (Inr (IncomingData c), True)) cs :: ((core_error + Incoming) \<times> bool) list"
  obtain r st where loop: "receive_raw_loop tot raw_start ?items = (r, st)" by fastforce
  note inv = raw_start_inv[OF assms(2)]
  have prog: "r \<noteq> None" "r = Some (Inl e) \<Longrightarrow> e = Protocol ''session.download_ambiguous''" for e
    using receive_raw_loop_progress[OF inv _ loop] assms(1) by auto
  show ?thesis
  proof (cases r)
    case (Some res)
    show ?thesis
    proof (cases res)
      case (Inl e)
      then show ?thesis using loop Some prog(2) by (simp add: receive_raw_to_def settle_def)
    next
      case (Inr u)
      have loop': "receive_raw_loop tot raw_start ?items = (Some (Inr ()), st)"
        using loop Some Inr by simp
      obtain used rest where split: "?items = data_items used @ rest"
        and w: "rs_written st = concat (map fst used)" and len: "length (rs_written st) = tot"
        using receive_raw_loop_sound[OF inv loop'] by (auto simp: raw_inv_def)
      have "cs = map fst used @ drop (length used) cs"
        using arg_cong[OF split, of "\<lambda>xs. map (\<lambda>x. case fst x of Inr (IncomingData c) \<Rightarrow> c) xs"]
        by (simp add: comp_def case_prod_unfold)
      then have "concat cs = rs_written st @ concat (drop (length used) cs)"
        using w by (metis concat_append)
      then have "concat cs = rs_written st" using len assms(1) by simp
      then show ?thesis using loop Some Inr by (simp add: receive_raw_to_def settle_def)
    qed
  qed (use prog in simp)
qed

theorem download_complete_witness:
  "\<exists>st rq' s'.
     receive_raw_to (\<lambda>b. if b = [1, 2, 3] then ''ok'' else ''bad'') True 3
         (map (\<lambda>c. (Inr (IncomingData c), True)) [[1, 2], [3]]) idle_request (session_start ''s'') =
       (Some (Inr ''ok''), st, rq', s') \<and> rs_written st = [1, 2, 3] \<or>
     receive_raw_to (\<lambda>b. if b = [1, 2, 3] then ''ok'' else ''bad'') True 3
         (map (\<lambda>c. (Inr (IncomingData c), True)) [[1, 2], [3]]) idle_request (session_start ''s'') =
       (Some (Inl (Protocol ''session.download_ambiguous'')), st, rq', s')"
  using download_complete[of "[[1, 2], [3]]" 3 "\<lambda>b. if b = [1, 2, 3] then ''ok'' else ''bad''"
      idle_request "session_start ''s''"]
  by (simp add: usize_bound_def)

end
