(* ===== verification/MediaMerge.thy ===== *)
theory MediaMerge
  imports Events
begin

text \<open>
  Incremental merging of media-library changes into snapshots,
  \<open>handshaker-core/src/media_merge.rs\<close>. The three libraries are updated by three copies of
  the same code; the loops they share (find the first match, update it in place, or push) are
  \<open>update_first\<close> and \<open>upsert_into\<close>. The locale \<open>merged_library\<close> states what the per-kind
  functions promise, its lemmas are proved once and interpreted for photos, videos and audio.
\<close>

section \<open>Keys\<close>

datatype MediaKey = KeyId nat | KeyPath string

definition item_key :: "MediaItem \<Rightarrow> MediaKey option" where
  "item_key item =
     (case mi_media_id item of
        Some i \<Rightarrow> Some (KeyId i)
      | None \<Rightarrow> map_option KeyPath (mi_path item))"

fun image_matches :: "ImageFile \<Rightarrow> MediaKey \<Rightarrow> bool" where
  "image_matches img (KeyId i) = (im_media_id img = Some i)"
| "image_matches img (KeyPath p) = (im_path img = Some p)"

fun video_matches :: "VideoFile \<Rightarrow> MediaKey \<Rightarrow> bool" where
  "video_matches video (KeyId i) = (vf_media_id video = Some i)"
| "video_matches video (KeyPath p) = (vf_path video = Some p)"

fun audio_matches :: "AudioFile \<Rightarrow> MediaKey \<Rightarrow> bool" where
  "audio_matches audio (KeyId i) = (af_media_id audio = Some i)"
| "audio_matches audio (KeyPath p) = (af_path audio = Some p)"

definition ensure_kind :: "MediaKind \<Rightarrow> MediaKind \<Rightarrow> unit core_result" where
  "ensure_kind library_kind change_kind =
     (if library_kind \<noteq> change_kind then Inl (Protocol ''media.change_kind_mismatch'') else Inr ())"

section \<open>The shared loops\<close>

fun update_first :: "('a \<Rightarrow> bool) \<Rightarrow> ('a \<Rightarrow> 'a) \<Rightarrow> 'a list \<Rightarrow> 'a list" where
  "update_first P f [] = []"
| "update_first P f (x # xs) = (if P x then f x # xs else x # update_first P f xs)"

definition upsert_into ::
  "('a \<Rightarrow> MediaKey \<Rightarrow> bool) \<Rightarrow> ('a \<Rightarrow> MediaItem \<Rightarrow> 'a) \<Rightarrow> (MediaItem \<Rightarrow> 'a) \<Rightarrow> MediaItem
   \<Rightarrow> 'a list \<Rightarrow> 'a list" where
  "upsert_into matches overlap fresh item xs =
     (case item_key item of
        Some key \<Rightarrow> if list_ex (\<lambda>x. matches x key) xs
                    then update_first (\<lambda>x. matches x key) (\<lambda>x. overlap x item) xs
                    else xs @ [fresh item]
      | None \<Rightarrow> xs @ [fresh item])"

definition remove_from ::
  "('a \<Rightarrow> MediaKey \<Rightarrow> bool) \<Rightarrow> MediaItem \<Rightarrow> 'a list \<Rightarrow> 'a list" where
  "remove_from matches item xs =
     (case item_key item of
        None \<Rightarrow> xs
      | Some key \<Rightarrow> filter (\<lambda>x. \<not> matches x key) xs)"

text \<open>\<open>if item.f.is_some() { x.f = item.f }\<close>\<close>

definition overlay :: "'a option \<Rightarrow> 'a option \<Rightarrow> 'a option" where
  "overlay new old = (case new of None \<Rightarrow> old | Some v \<Rightarrow> Some v)"

lemma overlay_simps [simp]:
  "overlay None x = x" "overlay (Some v) x = Some v" "overlay a (overlay a x) = overlay a x"
  "overlay a a = a"
  by (cases a; simp add: overlay_def)+

section \<open>Photos\<close>

definition apply_image_overlap :: "ImageFile \<Rightarrow> MediaItem \<Rightarrow> ImageFile" where
  "apply_image_overlap img item =
     img\<lparr>im_media_id := overlay (mi_media_id item) (im_media_id img),
       im_album_id := overlay (mi_album_id item) (im_album_id img),
       im_path := overlay (mi_path item) (im_path img),
       im_size := overlay (mi_size item) (im_size img),
       im_created_at := overlay (mi_created_at item) (im_created_at img),
       im_modified_at := overlay (mi_modified_at item) (im_modified_at img),
       im_width := overlay (mi_width item) (im_width img),
       im_height := overlay (mi_height item) (im_height img),
       im_orientation := overlay (mi_orientation item) (im_orientation img),
       im_mime_type := overlay (mi_mime_type item) (im_mime_type img),
       im_title := overlay (mi_title item) (im_title img),
       im_album_name := overlay (mi_album_name item) (im_album_name img)\<rparr>"

definition image_from_item :: "MediaItem \<Rightarrow> ImageFile" where
  "image_from_item item =
     \<lparr>im_path = mi_path item, im_size = mi_size item, im_created_at = mi_created_at item,
      im_modified_at = mi_modified_at item, im_width = mi_width item, im_height = mi_height item,
      im_orientation = mi_orientation item, im_media_id = mi_media_id item,
      im_album_id = mi_album_id item, im_mime_type = mi_mime_type item, im_thumbnail = None,
      im_album_name = mi_album_name item, im_date_taken = None, im_latitude = None,
      im_longitude = None, im_mini_thumb_magic = None, im_title = mi_title item,
      im_thumbnail_error = False, im_starred = False\<rparr>"

definition upsert_photo :: "MediaItem \<Rightarrow> PhotoLibrary \<Rightarrow> PhotoLibrary" where
  "upsert_photo item library =
     library\<lparr>pl_images :=
       upsert_into image_matches apply_image_overlap image_from_item item (pl_images library)\<rparr>"

definition remove_photo :: "MediaItem \<Rightarrow> PhotoLibrary \<Rightarrow> PhotoLibrary" where
  "remove_photo item library =
     library\<lparr>pl_images := remove_from image_matches item (pl_images library)\<rparr>"

definition apply_photo :: "PhotoLibrary \<Rightarrow> MediaLibraryChange \<Rightarrow> PhotoLibrary core_result" where
  "apply_photo library change =
     and_then (ensure_kind Photo (mc_kind change)) (\<lambda>_.
       Inr (fold remove_photo (mc_deleted change)
              (fold upsert_photo (mc_updated change)
                 (fold upsert_photo (mc_added change) library))))"

section \<open>Videos\<close>

definition apply_video_overlap :: "VideoFile \<Rightarrow> MediaItem \<Rightarrow> VideoFile" where
  "apply_video_overlap video item =
     video\<lparr>vf_media_id := overlay (mi_media_id item) (vf_media_id video),
       vf_album_id := overlay (mi_album_id item) (vf_album_id video),
       vf_path := overlay (mi_path item) (vf_path video),
       vf_size := overlay (mi_size item) (vf_size video),
       vf_created_at := overlay (mi_created_at item) (vf_created_at video),
       vf_modified_at := overlay (mi_modified_at item) (vf_modified_at video),
       vf_width := overlay (mi_width item) (vf_width video),
       vf_height := overlay (mi_height item) (vf_height video),
       vf_orientation := overlay (mi_orientation item) (vf_orientation video),
       vf_mime_type := overlay (mi_mime_type item) (vf_mime_type video),
       vf_duration := overlay (mi_duration item) (vf_duration video)\<rparr>"

definition video_from_item :: "MediaItem \<Rightarrow> VideoFile" where
  "video_from_item item =
     \<lparr>vf_path = mi_path item, vf_size = mi_size item, vf_created_at = mi_created_at item,
      vf_modified_at = mi_modified_at item, vf_width = mi_width item, vf_height = mi_height item,
      vf_orientation = mi_orientation item, vf_media_id = mi_media_id item,
      vf_album_id = mi_album_id item, vf_mime_type = mi_mime_type item, vf_thumbnail = None,
      vf_thumbnail_error = False, vf_duration = mi_duration item\<rparr>"

definition upsert_video :: "MediaItem \<Rightarrow> VideoLibrary \<Rightarrow> VideoLibrary" where
  "upsert_video item library =
     library\<lparr>vl_videos :=
       upsert_into video_matches apply_video_overlap video_from_item item (vl_videos library)\<rparr>"

definition remove_video :: "MediaItem \<Rightarrow> VideoLibrary \<Rightarrow> VideoLibrary" where
  "remove_video item library =
     library\<lparr>vl_videos := remove_from video_matches item (vl_videos library)\<rparr>"

definition apply_video :: "VideoLibrary \<Rightarrow> MediaLibraryChange \<Rightarrow> VideoLibrary core_result" where
  "apply_video library change =
     and_then (ensure_kind Video (mc_kind change)) (\<lambda>_.
       Inr (fold remove_video (mc_deleted change)
              (fold upsert_video (mc_updated change)
                 (fold upsert_video (mc_added change) library))))"

section \<open>Audio\<close>

definition apply_audio_overlap :: "AudioFile \<Rightarrow> MediaItem \<Rightarrow> AudioFile" where
  "apply_audio_overlap audio item =
     audio\<lparr>af_media_id := overlay (mi_media_id item) (af_media_id audio),
       af_album_id := overlay (mi_album_id item) (af_album_id audio),
       af_path := overlay (mi_path item) (af_path audio),
       af_size := overlay (mi_size item) (af_size audio),
       af_created_at := overlay (mi_created_at item) (af_created_at audio),
       af_modified_at := overlay (mi_modified_at item) (af_modified_at audio),
       af_mime_type := overlay (mi_mime_type item) (af_mime_type audio),
       af_title := overlay (mi_title item) (af_title audio),
       af_duration := overlay (mi_duration item) (af_duration audio),
       af_artist := overlay (mi_artist item) (af_artist audio)\<rparr>"

definition audio_from_item :: "MediaItem \<Rightarrow> AudioFile" where
  "audio_from_item item =
     \<lparr>af_path = mi_path item, af_size = mi_size item, af_created_at = mi_created_at item,
      af_modified_at = mi_modified_at item, af_media_id = mi_media_id item,
      af_album_id = mi_album_id item, af_title = mi_title item, af_mime_type = mi_mime_type item,
      af_artist_id = None, af_artist = mi_artist item, af_composer = None, af_genre = None,
      af_comment = None, af_copyright = None, af_audio_codec = None, af_track = None,
      af_duration = mi_duration item\<rparr>"

definition upsert_audio :: "MediaItem \<Rightarrow> AudioLibrary \<Rightarrow> AudioLibrary" where
  "upsert_audio item library =
     library\<lparr>al_tracks :=
       upsert_into audio_matches apply_audio_overlap audio_from_item item (al_tracks library)\<rparr>"

definition remove_audio :: "MediaItem \<Rightarrow> AudioLibrary \<Rightarrow> AudioLibrary" where
  "remove_audio item library =
     library\<lparr>al_tracks := remove_from audio_matches item (al_tracks library)\<rparr>"

definition apply_audio :: "AudioLibrary \<Rightarrow> MediaLibraryChange \<Rightarrow> AudioLibrary core_result" where
  "apply_audio library change =
     and_then (ensure_kind Audio (mc_kind change)) (\<lambda>_.
       Inr (fold remove_audio (mc_deleted change)
              (fold upsert_audio (mc_updated change)
                 (fold upsert_audio (mc_added change) library))))"

section \<open>What merging promises\<close>

locale merged_library =
  fixes matches :: "'a \<Rightarrow> MediaKey \<Rightarrow> bool"
    and overlap :: "'a \<Rightarrow> MediaItem \<Rightarrow> 'a"
    and fresh :: "MediaItem \<Rightarrow> 'a"
    and media_id :: "'a \<Rightarrow> nat option"
    and kept :: "'a \<Rightarrow> 's"
  assumes matches_id: "matches x (KeyId i) \<longleftrightarrow> media_id x = Some i"
    and overlap_matches: "item_key item = Some k \<Longrightarrow> matches x k \<Longrightarrow> matches (overlap x item) k"
    and fresh_matches: "item_key item = Some k \<Longrightarrow> matches (fresh item) k"
    and overlap_twice: "overlap (overlap x item) item = overlap x item"
    and overlap_fresh: "overlap (fresh item) item = fresh item"
    and overlap_id: "media_id (overlap x item) = overlay (mi_media_id item) (media_id x)"
    and fresh_id: "media_id (fresh item) = mi_media_id item"
    and overlap_kept: "kept (overlap x item) = kept x"
begin

abbreviation upsert :: "MediaItem \<Rightarrow> 'a list \<Rightarrow> 'a list" where
  "upsert \<equiv> upsert_into matches overlap fresh"

abbreviation remove :: "MediaItem \<Rightarrow> 'a list \<Rightarrow> 'a list" where
  "remove \<equiv> remove_from matches"

lemma upsert_present: "item_key item = Some k \<Longrightarrow> \<exists>x \<in> set (upsert item xs). matches x k"
proof (induction xs)
  case Nil
  then show ?case by (simp add: upsert_into_def fresh_matches)
next
  case (Cons x xs)
  then show ?case
    by (auto simp: upsert_into_def overlap_matches fresh_matches list_ex_iff split: if_splits)
qed

lemma update_first_twice:
  "item_key item = Some k \<Longrightarrow>
   update_first (\<lambda>x. matches x k) (\<lambda>x. overlap x item)
     (update_first (\<lambda>x. matches x k) (\<lambda>x. overlap x item) xs) =
   update_first (\<lambda>x. matches x k) (\<lambda>x. overlap x item) xs"
  by (induction xs) (auto simp: overlap_matches overlap_twice)

lemma update_first_snoc:
  "\<not> list_ex P xs \<Longrightarrow> P y \<Longrightarrow> update_first P f (xs @ [y]) = xs @ [f y]"
  by (induction xs) auto

lemma upsert_twice:
  assumes k: "item_key item = Some k"
  shows "upsert item (upsert item xs) = upsert item xs"
proof (cases "list_ex (\<lambda>x. matches x k) xs")
  case True
  have "list_ex (\<lambda>x. matches x k) (upsert item xs)"
    using upsert_present[OF k, of xs] by (auto simp: list_ex_iff)
  then show ?thesis
    using True k update_first_twice[OF k, of xs] by (simp add: upsert_into_def)
next
  case False
  have "list_ex (\<lambda>x. matches x k) (xs @ [fresh item])" by (simp add: fresh_matches[OF k])
  then show ?thesis
    using False k by (simp add: upsert_into_def update_first_snoc fresh_matches overlap_fresh)
qed

lemma remove_absent: "item_key item = Some k \<Longrightarrow> x \<in> set (remove item xs) \<Longrightarrow> \<not> matches x k"
  by (simp add: remove_from_def)

lemma remove_upsert:
  assumes "item_key item = Some k"
  shows "remove item (upsert item xs) = remove item xs"
proof -
  have "filter (\<lambda>x. \<not> matches x k) (update_first (\<lambda>x. matches x k) (\<lambda>x. overlap x item) xs) =
      filter (\<lambda>x. \<not> matches x k) xs"
    by (induction xs) (auto simp: overlap_matches[OF assms])
  then show ?thesis using assms by (simp add: remove_from_def upsert_into_def fresh_matches)
qed

text \<open>The media ids of a snapshot stay distinct.\<close>

definition ids_distinct :: "'a list \<Rightarrow> bool" where
  "ids_distinct xs \<longleftrightarrow> distinct (map media_id (filter (\<lambda>x. media_id x \<noteq> None) xs))"

lemma ids_distinct_Cons:
  "ids_distinct (x # xs) \<longleftrightarrow>
     ids_distinct xs \<and> (media_id x \<noteq> None \<longrightarrow> (\<forall>y \<in> set xs. media_id y \<noteq> media_id x))"
  by (force simp: ids_distinct_def)

lemma ids_distinct_snoc:
  "ids_distinct (xs @ [x]) \<longleftrightarrow>
     ids_distinct xs \<and> (media_id x \<noteq> None \<longrightarrow> (\<forall>y \<in> set xs. media_id y \<noteq> media_id x))"
  by (force simp: ids_distinct_def)

lemma update_first_ids:
  assumes "item_key item = Some k"
  shows "map media_id (update_first (\<lambda>x. matches x k) (\<lambda>x. overlap x item) xs) = map media_id xs"
proof (induction xs)
  case (Cons x xs)
  have "media_id (overlap x item) = media_id x" if "matches x k"
    using assms that matches_id by (auto simp: overlap_id item_key_def overlay_def split: option.splits)
  with Cons show ?case by simp
qed simp

lemma ids_distinct_map: "map media_id xs = map media_id ys \<Longrightarrow> ids_distinct xs = ids_distinct ys"
proof -
  have "map media_id (filter (\<lambda>x. media_id x \<noteq> None) zs) = filter (\<lambda>i. i \<noteq> None) (map media_id zs)" for zs
    by (induction zs) auto
  then show "map media_id xs = map media_id ys \<Longrightarrow> ?thesis" by (simp add: ids_distinct_def)
qed

lemma upsert_ids:
  assumes "ids_distinct xs"
  shows "ids_distinct (upsert item xs)"
proof (cases "item_key item")
  case None
  then show ?thesis
    using assms by (auto simp: upsert_into_def ids_distinct_snoc fresh_id item_key_def split: option.splits)
next
  case (Some k)
  show ?thesis
  proof (cases "list_ex (\<lambda>x. matches x k) xs")
    case True
    then show ?thesis
      using assms Some ids_distinct_map[OF update_first_ids[OF Some, of xs]]
      by (simp add: upsert_into_def)
  next
    case False
    have "media_id y \<noteq> mi_media_id item" if "mi_media_id item \<noteq> None" "y \<in> set xs" for y
      using False Some that matches_id by (auto simp: item_key_def list_ex_iff split: option.splits)
    then show ?thesis
      using assms Some False by (simp add: upsert_into_def ids_distinct_snoc fresh_id)
  qed
qed

lemma remove_ids: "ids_distinct xs \<Longrightarrow> ids_distinct (remove item xs)"
  by (induction xs) (auto simp: remove_from_def ids_distinct_Cons split: option.splits)

lemma update_first_kept:
  "map kept (update_first P (\<lambda>x. overlap x item) xs) = map kept xs"
  by (induction xs) (auto simp: overlap_kept)

lemma upsert_kept: "\<exists>new. length new \<le> 1 \<and> map kept (upsert item xs) = map kept xs @ new"
  by (auto simp: upsert_into_def update_first_kept split: option.splits)

lemma merge_ids:
  "ids_distinct xs \<Longrightarrow> ids_distinct (fold remove ds (fold upsert us (fold upsert as xs)))"
proof -
  have u: "ids_distinct ys \<Longrightarrow> ids_distinct (fold upsert is ys)" for "is" ys
    by (induction "is" arbitrary: ys) (auto simp: upsert_ids)
  have r: "ids_distinct ys \<Longrightarrow> ids_distinct (fold remove is ys)" for "is" ys
    by (induction "is" arbitrary: ys) (auto simp: remove_ids)
  show "ids_distinct xs \<Longrightarrow> ?thesis" by (intro r u)
qed

lemma fold_remove_subset: "set (fold remove ds xs) \<subseteq> set xs"
  by (induction ds arbitrary: xs) (fastforce simp: remove_from_def split: option.splits)+

lemma fold_remove_absent:
  "item \<in> set ds \<Longrightarrow> item_key item = Some k \<Longrightarrow> x \<in> set (fold remove ds xs) \<Longrightarrow> \<not> matches x k"
proof (induction ds arbitrary: xs)
  case (Cons d ds)
  show ?case
  proof (cases "item = d")
    case True
    have "x \<in> set (remove item xs)"
      using Cons.prems(3) fold_remove_subset[of ds "remove item xs"] True by auto
    then show ?thesis using remove_absent[OF Cons.prems(2)] by blast
  next
    case False
    then show ?thesis using Cons by simp
  qed
qed simp

end

section \<open>The three libraries\<close>

interpretation photos: merged_library image_matches apply_image_overlap image_from_item im_media_id
  "\<lambda>i. (im_thumbnail i, im_date_taken i, im_latitude i, im_longitude i, im_mini_thumb_magic i,
        im_thumbnail_error i, im_starred i)"
proof unfold_locales
  fix item k x
  show "item_key item = Some k \<Longrightarrow> image_matches x k \<Longrightarrow> image_matches (apply_image_overlap x item) k"
    by (cases k) (auto simp: item_key_def apply_image_overlap_def split: option.splits)
  show "item_key item = Some k \<Longrightarrow> image_matches (image_from_item item) k"
    by (cases k) (auto simp: item_key_def image_from_item_def split: option.splits)
qed (simp_all add: apply_image_overlap_def image_from_item_def)

interpretation videos: merged_library video_matches apply_video_overlap video_from_item vf_media_id
  "\<lambda>v. (vf_thumbnail v, vf_thumbnail_error v)"
proof unfold_locales
  fix item k x
  show "item_key item = Some k \<Longrightarrow> video_matches x k \<Longrightarrow> video_matches (apply_video_overlap x item) k"
    by (cases k) (auto simp: item_key_def apply_video_overlap_def split: option.splits)
  show "item_key item = Some k \<Longrightarrow> video_matches (video_from_item item) k"
    by (cases k) (auto simp: item_key_def video_from_item_def split: option.splits)
qed (simp_all add: apply_video_overlap_def video_from_item_def)

interpretation tracks: merged_library audio_matches apply_audio_overlap audio_from_item af_media_id
  "\<lambda>a. (af_artist_id a, af_composer a, af_genre a, af_comment a, af_copyright a, af_audio_codec a,
        af_track a)"
proof unfold_locales
  fix item k x
  show "item_key item = Some k \<Longrightarrow> audio_matches x k \<Longrightarrow> audio_matches (apply_audio_overlap x item) k"
    by (cases k) (auto simp: item_key_def apply_audio_overlap_def split: option.splits)
  show "item_key item = Some k \<Longrightarrow> audio_matches (audio_from_item item) k"
    by (cases k) (auto simp: item_key_def audio_from_item_def split: option.splits)
qed (simp_all add: apply_audio_overlap_def audio_from_item_def)

lemma fold_photo:
  "pl_images (fold upsert_photo as lib) =
     fold (upsert_into image_matches apply_image_overlap image_from_item) as (pl_images lib)"
  "pl_images (fold remove_photo as lib) = fold (remove_from image_matches) as (pl_images lib)"
  "pl_albums (fold upsert_photo as lib) = pl_albums lib"
  "pl_albums (fold remove_photo as lib) = pl_albums lib"
  by (induction as arbitrary: lib) (simp_all add: upsert_photo_def remove_photo_def)

lemma fold_video:
  "vl_videos (fold upsert_video as vlib) =
     fold (upsert_into video_matches apply_video_overlap video_from_item) as (vl_videos vlib)"
  "vl_videos (fold remove_video as vlib) = fold (remove_from video_matches) as (vl_videos vlib)"
  by (induction as arbitrary: vlib) (simp_all add: upsert_video_def remove_video_def)

lemma fold_audio:
  "al_tracks (fold upsert_audio as alib) =
     fold (upsert_into audio_matches apply_audio_overlap audio_from_item) as (al_tracks alib)"
  "al_tracks (fold remove_audio as alib) = fold (remove_from audio_matches) as (al_tracks alib)"
  by (induction as arbitrary: alib) (simp_all add: upsert_audio_def remove_audio_def)

text \<open>Merging a change keeps a photo snapshot consistent. Applying a photo change to a snapshot
  whose media ids are distinct succeeds, the ids stay distinct, no entry matches the key of a
  deleted item any more, and the albums are untouched; a change of another kind is refused with
  a protocol error.\<close>

lemma apply_photo_consistent:
  assumes "distinct (map im_media_id (filter (\<lambda>i. im_media_id i \<noteq> None) (pl_images lib)))"
  shows "case apply_photo lib change of
     Inl e \<Rightarrow> mc_kind change \<noteq> Photo \<and> e = Protocol ''media.change_kind_mismatch''
   | Inr lib' \<Rightarrow> mc_kind change = Photo \<and>
       distinct (map im_media_id (filter (\<lambda>i. im_media_id i \<noteq> None) (pl_images lib'))) \<and>
       (\<forall>item \<in> set (mc_deleted change). \<forall>k. item_key item = Some k \<longrightarrow>
          (\<forall>i \<in> set (pl_images lib'). \<not> image_matches i k)) \<and>
       pl_albums lib' = pl_albums lib"
proof (cases "mc_kind change = Photo")
  case False
  then show ?thesis by (auto simp: apply_photo_def ensure_kind_def)
next
  case True
  let ?lib = "fold remove_photo (mc_deleted change)
      (fold upsert_photo (mc_updated change) (fold upsert_photo (mc_added change) lib))"
  have "photos.ids_distinct (pl_images ?lib)"
    using photos.merge_ids assms by (simp add: fold_photo photos.ids_distinct_def)
  moreover have "\<not> image_matches i k"
    if "item \<in> set (mc_deleted change)" "item_key item = Some k" "i \<in> set (pl_images ?lib)" for item k i
    using photos.fold_remove_absent[OF that(1,2)] that(3) by (simp add: fold_photo)
  ultimately show ?thesis
    using True by (auto simp: apply_photo_def ensure_kind_def fold_photo photos.ids_distinct_def)
qed

definition plain_item :: "nat \<Rightarrow> string \<Rightarrow> MediaItem" where
  "plain_item i p =
     \<lparr>mi_media_id = Some i, mi_album_id = None, mi_path = Some p, mi_size = None,
      mi_created_at = None, mi_modified_at = None, mi_width = None, mi_height = None,
      mi_orientation = None, mi_mime_type = None, mi_title = None, mi_album_name = None,
      mi_duration = None, mi_artist = None\<rparr>"

lemma apply_photo_consistent_witness:
  "distinct (map im_media_id (filter (\<lambda>i. im_media_id i \<noteq> None) [image_from_item (plain_item 2 ''b'')]))"
proof -
  define lib where "lib = \<lparr>pl_images = [image_from_item (plain_item 1 ''a'')], pl_albums = [],
      pl_camera_album_id = None\<rparr>"
  define change where "change = \<lparr>mc_kind = Photo, mc_added = [plain_item 2 ''b''],
      mc_deleted = [plain_item 1 ''a''], mc_updated = [], mc_albums = []\<rparr>"
  have "apply_photo lib change =
      Inr \<lparr>pl_images = [image_from_item (plain_item 2 ''b'')], pl_albums = [], pl_camera_album_id = None\<rparr>"
    by (simp add: lib_def change_def apply_photo_def ensure_kind_def upsert_photo_def upsert_into_def
        remove_photo_def remove_from_def item_key_def plain_item_def image_from_item_def)
  then show ?thesis using apply_photo_consistent[of lib change] by (simp add: lib_def image_from_item_def)
qed

text \<open>applying the same entry again changes nothing. For photos, videos and audio alike, an
  item that carries a key (a media id or a path) updates the entry it matches or adds one, and a
  second application leaves the library as the first left it; removing it afterwards gives what
  removing it from the original library gives.\<close>

theorem upsert_idempotent:
  assumes "item_key item = Some k"
  shows "upsert_photo item (upsert_photo item lib) = upsert_photo item lib \<and>
     upsert_video item (upsert_video item vlib) = upsert_video item vlib \<and>
     upsert_audio item (upsert_audio item alib) = upsert_audio item alib \<and>
     remove_photo item (upsert_photo item lib) = remove_photo item lib \<and>
     remove_video item (upsert_video item vlib) = remove_video item vlib \<and>
     remove_audio item (upsert_audio item alib) = remove_audio item alib"
  using photos.upsert_twice[OF assms] videos.upsert_twice[OF assms] tracks.upsert_twice[OF assms]
    photos.remove_upsert[OF assms] videos.remove_upsert[OF assms] tracks.remove_upsert[OF assms]
  by (simp add: upsert_photo_def upsert_video_def upsert_audio_def remove_photo_def
      remove_video_def remove_audio_def)

theorem upsert_idempotent_witness:
  "upsert_video (plain_item 1 ''a'') (upsert_video (plain_item 1 ''a'') \<lparr>vl_videos = [], vl_albums = []\<rparr>) =
     upsert_video (plain_item 1 ''a'') \<lparr>vl_videos = [], vl_albums = []\<rparr>"
  using upsert_idempotent[of "plain_item 1 ''a''" "KeyId 1"] by (simp add: item_key_def plain_item_def)

text \<open>a merge never erases what only a full query knows. Upserting an item into a photo
  library keeps every entry at its place and leaves its thumbnail, capture date, coordinates and
  star as they were, and only ever appends one entry.\<close>

theorem upsert_photo_preserves:
  "\<exists>new. length new \<le> 1 \<and> map (\<lambda>i. (im_thumbnail i, im_date_taken i, im_latitude i, im_longitude i,
                   im_mini_thumb_magic i, im_thumbnail_error i, im_starred i))
            (pl_images (upsert_photo item lib)) =
        map (\<lambda>i. (im_thumbnail i, im_date_taken i, im_latitude i, im_longitude i,
                   im_mini_thumb_magic i, im_thumbnail_error i, im_starred i)) (pl_images lib) @ new"
  using photos.upsert_kept by (simp add: upsert_photo_def)

end
