(* ===== verification/Paths.thy ===== *)
theory Paths
  imports Prelude
begin

text \<open>
  The parts of \<open>str\<close> and \<open>std::path\<close> (on Unix) the program uses. A \<open>str\<close> is its UTF-8
  bytes. A path is used through its components, as Rust compares paths: a leading \<open>/\<close> is
  \<open>RootDir\<close>, empty components and inner \<open>.\<close> are dropped, a leading \<open>.\<close> is kept.
\<close>

section \<open>Splitting and joining\<close>

fun split_on :: "char \<Rightarrow> string \<Rightarrow> string list" where
  "split_on c [] = [[]]"
| "split_on c (x # xs) =
     (if x = c then [] # split_on c xs
      else (case split_on c xs of [] \<Rightarrow> [[x]] | y # ys \<Rightarrow> (x # y) # ys))"

fun join_with :: "string \<Rightarrow> string list \<Rightarrow> string" where
  "join_with sep [] = []"
| "join_with sep [x] = x"
| "join_with sep (x # y # ys) = x @ sep @ join_with sep (y # ys)"

lemma split_on_not_Nil [simp]: "split_on c s \<noteq> []"
  by (induction s) (auto split: list.splits)

lemma split_on_no_sep: "p \<in> set (split_on c s) \<Longrightarrow> c \<notin> set p"
  by (induction s arbitrary: p) (auto split: if_splits list.splits)

lemma join_split [simp]: "join_with [c] (split_on c s) = s"
proof (induction s)
  case (Cons x s)
  obtain y ys where y: "split_on c s = y # ys" using split_on_not_Nil by (metis list.exhaust)
  then show ?case using Cons by (cases ys) auto
qed simp

lemma split_on_plain [simp]: "c \<notin> set s \<Longrightarrow> split_on c s = [s]"
  by (induction s) auto

lemma split_on_append: "c \<notin> set s \<Longrightarrow> split_on c (s @ c # rest) = s # split_on c rest"
  by (induction s) auto

lemma split_join:
  "ps \<noteq> [] \<Longrightarrow> (\<And>p. p \<in> set ps \<Longrightarrow> c \<notin> set p) \<Longrightarrow> split_on c (join_with [c] ps) = ps"
proof (induction ps)
  case (Cons p ps)
  then show ?case by (cases ps) (auto simp: split_on_append)
qed simp

definition starts_with :: "string \<Rightarrow> string \<Rightarrow> bool" where
  "starts_with p s \<longleftrightarrow> take (length p) s = p"

definition str_strip_prefix :: "string \<Rightarrow> string \<Rightarrow> string option" where
  "str_strip_prefix p s = (if starts_with p s then Some (drop (length p) s) else None)"

fun trim_start_char :: "char \<Rightarrow> string \<Rightarrow> string" where
  "trim_start_char c [] = []"
| "trim_start_char c (x # xs) = (if x = c then trim_start_char c xs else x # xs)"

text \<open>\<open>trim_end_matches(c)\<close>\<close>

definition trim_end_char :: "char \<Rightarrow> string \<Rightarrow> string" where
  "trim_end_char c s = rev (trim_start_char c (rev s))"

lemma starts_with_iff: "starts_with p s \<longleftrightarrow> (\<exists>r. s = p @ r)"
  by (auto simp: starts_with_def) (metis append_take_drop_id)

lemma str_strip_prefix_Some: "str_strip_prefix p s = Some r \<longleftrightarrow> s = p @ r"
  by (auto simp: str_strip_prefix_def starts_with_def) (metis append_take_drop_id)

lemma trim_start_char_split:
  "\<exists>n. s = replicate n c @ trim_start_char c s \<and> (trim_start_char c s = [] \<or> hd (trim_start_char c s) \<noteq> c)"
proof (induction s)
  case (Cons x s)
  then obtain n where n: "s = replicate n c @ trim_start_char c s"
    "trim_start_char c s = [] \<or> hd (trim_start_char c s) \<noteq> c" by blast
  show ?case
  proof (cases "x = c")
    case True
    then show ?thesis using n by (intro exI[of _ "Suc n"]) auto
  next
    case False
    then show ?thesis by (intro exI[of _ 0]) auto
  qed
qed simp

lemma trim_end_char_split:
  "\<exists>n. s = trim_end_char c s @ replicate n c \<and> (trim_end_char c s = [] \<or> last (trim_end_char c s) \<noteq> c)"
proof -
  obtain n where "rev s = replicate n c @ trim_start_char c (rev s)"
    and "trim_start_char c (rev s) = [] \<or> hd (trim_start_char c (rev s)) \<noteq> c"
    using trim_start_char_split[of "rev s" c] by blast
  then have "s = rev (trim_start_char c (rev s)) @ rev (replicate n c)"
    by (metis rev_append rev_rev_ident)
  then show ?thesis
    using \<open>trim_start_char c (rev s) = [] \<or> _\<close>
    by (intro exI[of _ n]) (auto simp: trim_end_char_def last_rev)
qed

section \<open>Whitespace\<close>

text \<open>\<open>str::trim\<close> removes the code points with the property White\_Space; these are their
  UTF-8 encodings.\<close>

definition whitespace_encodings :: "string list" where
  "whitespace_encodings =
     map (\<lambda>n. [char_of (n :: nat)]) [9, 10, 11, 12, 13, 32]
     @ map (map char_of) ([[0xC2, 0x85], [0xC2, 0xA0], [0xE1, 0x9A, 0x80]]
          @ map (\<lambda>n. [0xE2, 0x80, n]) ([0x80 ..< 0x8B] @ [0xA8, 0xA9, 0xAF])
          @ [[0xE2, 0x81, 0x9F], [0xE3, 0x80, 0x80 :: nat]])"

function trim_start_ws :: "string \<Rightarrow> string" where
  "trim_start_ws s =
     (case find (\<lambda>w. starts_with w s) whitespace_encodings of
        None \<Rightarrow> s
      | Some w \<Rightarrow> if w = [] \<or> s = [] then s else trim_start_ws (drop (length w) s))"
  by pat_completeness auto
termination by (relation "measure length") auto

declare trim_start_ws.simps [simp del]

function trim_end_ws :: "string \<Rightarrow> string" where
  "trim_end_ws s =
     (case find (\<lambda>w. length w \<le> length s \<and> drop (length s - length w) s = w) whitespace_encodings of
        None \<Rightarrow> s
      | Some w \<Rightarrow> if w = [] \<or> s = [] then s else trim_end_ws (take (length s - length w) s))"
  by pat_completeness auto
termination by (relation "measure length") auto

declare trim_end_ws.simps [simp del]

definition trim :: "string \<Rightarrow> string" where
  "trim s = trim_end_ws (trim_start_ws s)"

text \<open>Printable ASCII is no white space; text that starts and ends with it is not trimmed.\<close>

definition graphic :: "char \<Rightarrow> bool" where
  "graphic c \<longleftrightarrow> 32 < (of_char c :: nat) \<and> (of_char c :: nat) < 127"

lemma whitespace_not_graphic:
  "w \<in> set whitespace_encodings \<Longrightarrow> w \<noteq> [] \<and> \<not> graphic (hd w) \<and> \<not> graphic (last w)"
  by (auto simp: whitespace_encodings_def graphic_def)

lemma find_None: "(\<And>w. w \<in> set ws \<Longrightarrow> \<not> P w) \<Longrightarrow> find P ws = None"
  by (induction ws) auto

lemma trim_start_graphic: "s \<noteq> [] \<Longrightarrow> graphic (hd s) \<Longrightarrow> trim_start_ws s = s"
proof -
  assume s: "s \<noteq> []" "graphic (hd s)"
  have "\<not> starts_with w s" if "w \<in> set whitespace_encodings" for w
    using whitespace_not_graphic[OF that] s
    by (cases w; cases s) (auto simp: starts_with_def)
  then have "find (\<lambda>w. starts_with w s) whitespace_encodings = None" by (rule find_None)
  then show ?thesis by (subst trim_start_ws.simps) simp
qed

lemma trim_end_graphic: "s \<noteq> [] \<Longrightarrow> graphic (last s) \<Longrightarrow> trim_end_ws s = s"
proof -
  assume s: "s \<noteq> []" "graphic (last s)"
  have "\<not> (length w \<le> length s \<and> drop (length s - length w) s = w)" if "w \<in> set whitespace_encodings" for w
    using whitespace_not_graphic[OF that] s by (metis append_take_drop_id last_appendR)
  then have "find (\<lambda>w. length w \<le> length s \<and> drop (length s - length w) s = w) whitespace_encodings = None"
    by (rule find_None)
  then show ?thesis by (subst trim_end_ws.simps) simp
qed

lemma trim_graphic: "s \<noteq> [] \<Longrightarrow> graphic (hd s) \<Longrightarrow> graphic (last s) \<Longrightarrow> trim s = s"
  by (simp add: trim_def trim_start_graphic trim_end_graphic)

lemma trim_end_space: "trim_end_ws (s @ '' '') = trim_end_ws s"
proof -
  let ?P = "\<lambda>w. length w \<le> length (s @ '' '') \<and> drop (length (s @ '' '') - length w) (s @ '' '') = w"
  obtain post where enc: "whitespace_encodings = map (\<lambda>n. [char_of (n :: nat)]) [9, 10, 11, 12, 13] @ '' '' # post"
    using char_of_char[of "CHR '' ''", where 'a = nat] by (simp add: whitespace_encodings_def)
  have "find ?P (map (\<lambda>n. [char_of (n :: nat)]) [9, 10, 11, 12, 13]) = None"
    by (rule find_None) (auto dest!: arg_cong[where f = "of_char :: char \<Rightarrow> nat"])
  then have "find ?P whitespace_encodings = Some '' ''"
    unfolding enc by simp
  then show ?thesis by (subst trim_end_ws.simps) simp
qed

section \<open>Path components\<close>

datatype component = RootDir | CurDir | ParentDir | Normal string

type_synonym path = "component list"

definition part_component :: "string \<Rightarrow> component" where
  "part_component p = (if p = ''..'' then ParentDir else Normal p)"

definition components :: "string \<Rightarrow> path" where
  "components s =
     (let parts = split_on (CHR ''/'') s;
          body = map part_component (filter (\<lambda>p. p \<noteq> [] \<and> p \<noteq> ''.'') parts)
      in if starts_with ''/'' s then RootDir # body
         else if hd parts = ''.'' then CurDir # body
         else body)"

definition is_absolute :: "path \<Rightarrow> bool" where
  "is_absolute p \<longleftrightarrow> p \<noteq> [] \<and> hd p = RootDir"

fun is_normal :: "component \<Rightarrow> bool" where
  "is_normal (Normal _) = True"
| "is_normal _ = False"

definition strip_prefix :: "path \<Rightarrow> path \<Rightarrow> path option" where
  "strip_prefix root p = (if take (length root) p = root then Some (drop (length root) p) else None)"

text \<open>\<open>Path::join\<close>: an absolute argument replaces the base.\<close>

definition path_join :: "path \<Rightarrow> path \<Rightarrow> path" where
  "path_join base rel = (if is_absolute rel \<or> base = [] then rel else base @ filter (\<lambda>c. c \<noteq> CurDir) rel)"

lemma strip_prefix_Some: "strip_prefix root p = Some r \<longleftrightarrow> p = root @ r"
  by (auto simp: strip_prefix_def) (metis append_take_drop_id)

lemma path_join_normal: "list_all is_normal r \<Longrightarrow> path_join base r = base @ r"
proof -
  assume n: "list_all is_normal r"
  then have "filter (\<lambda>c. c \<noteq> CurDir) r = r"
    by (auto simp: filter_id_conv list_all_iff)
  moreover have "\<not> is_absolute r" using n by (cases r) (auto simp: is_absolute_def)
  ultimately show ?thesis by (simp add: path_join_def)
qed

lemma is_normal_iff: "is_normal c \<longleftrightarrow> (\<exists>n. c = Normal n)"
  by (cases c) auto

lemma components_normal_clean:
  "Normal n \<in> set (components s) \<Longrightarrow> n \<noteq> [] \<and> n \<noteq> ''.'' \<and> n \<noteq> ''..'' \<and> CHR ''/'' \<notin> set n"
  using split_on_no_sep[of n "CHR ''/''" s]
  by (auto simp: components_def part_component_def Let_def split: if_splits)

section \<open>Display\<close>

fun component_text :: "component \<Rightarrow> string" where
  "component_text RootDir = []"
| "component_text CurDir = ''.''"
| "component_text ParentDir = ''..''"
| "component_text (Normal n) = n"

text \<open>\<open>Path::display\<close>, up to redundant separators.\<close>

definition render :: "path \<Rightarrow> string" where
  "render p = (if p = [RootDir] then ''/'' else join_with ''/'' (map component_text p))"

text \<open>\<open>OsString::push\<close> on the text of a path: the suffix goes to the last component.\<close>

definition append_name :: "path \<Rightarrow> string \<Rightarrow> path" where
  "append_name p sfx =
     (if p = [] \<or> last p = RootDir then p @ [Normal sfx]
      else butlast p @ [Normal (component_text (last p) @ sfx)])"

definition clean_name :: "string \<Rightarrow> bool" where
  "clean_name n \<longleftrightarrow> n \<noteq> [] \<and> n \<noteq> ''.'' \<and> n \<noteq> ''..'' \<and> CHR ''/'' \<notin> set n"

lemma components_render:
  assumes "list_all clean_name names" "names \<noteq> []"
  shows "components (render (RootDir # map Normal names)) = RootDir # map Normal names"
proof -
  have "CHR ''/'' \<notin> set n" if "n \<in> set names" for n
    using assms(1) that by (simp add: list_all_iff clean_name_def)
  then have parts: "split_on (CHR ''/'') (join_with ''/'' ([] # names)) = [] # names"
    by (intro split_join) auto
  have start: "starts_with ''/'' (join_with ''/'' ([] # names))"
    using assms(2) by (cases names) (simp_all add: starts_with_def)
  have body: "map part_component (filter (\<lambda>p. p \<noteq> [] \<and> p \<noteq> ''.'') names) = map Normal names"
    using assms(1) by (induction names) (auto simp: part_component_def clean_name_def)
  have "map component_text (RootDir # map Normal names) = [] # names"
    by (simp add: comp_def)
  then have r: "render (RootDir # map Normal names) = join_with ''/'' ([] # names)"
    using assms(2) by (simp only: render_def) simp
  show ?thesis unfolding r components_def Let_def parts using start body by simp
qed

lemma append_name_normal [simp]:
  "append_name (p @ [Normal n]) sfx = p @ [Normal (n @ sfx)]"
  by (simp add: append_name_def)

lemma append_name_neq: "sfx \<noteq> [] \<Longrightarrow> append_name p sfx \<noteq> p"
proof (cases p rule: rev_cases)
  case (snoc q c)
  then show "sfx \<noteq> [] \<Longrightarrow> ?thesis" by (cases c) (auto simp: append_name_def)
qed (simp add: append_name_def)

end
