(* ===== verification/SyncPlan.thy ===== *)
theory SyncPlan
  imports Events Paths
begin

text \<open>
  Planning of the photo sync, \<open>handshaker-core/src/sync.rs\<close>: the pure diff between the phone and
  the ledger, the conflict check against the disk, and the mapping of a phone path to a local
  one. The ledger is the \<open>BTreeMap\<close> of \<open>Stores\<close>, ordered by phone path. The disk is seen through
  two arguments, whether a path exists and the digest of the file there (an error when it cannot
  be read).
\<close>

section \<open>The diff\<close>

definition diff_empty :: SyncDiff where
  "diff_empty = \<lparr>sd_added = [], sd_info_modified = [], sd_deleted = [], sd_conflicts = []\<rparr>"

definition checksum_changed :: "SyncFileRecord \<Rightarrow> RemoteFile \<Rightarrow> bool" where
  "checksum_changed record file \<longleftrightarrow> fr_checksum record \<noteq> rf_checksum file"

definition metadata_changed :: "SyncFileRecord \<Rightarrow> RemoteFile \<Rightarrow> bool" where
  "metadata_changed record file \<longleftrightarrow>
     fr_ext_data record \<noteq> rf_ext_data file \<or> fr_modified_at record \<noteq> rf_modified_at file"

definition diff_phone_file :: "SyncSnapshot \<Rightarrow> RemoteFile \<Rightarrow> SyncDiff \<Rightarrow> SyncDiff" where
  "diff_phone_file snapshot file diff =
     (if rf_is_directory file then diff
      else case bt_get (sn_files snapshot) (rf_path file) of
             None \<Rightarrow> diff\<lparr>sd_added := sd_added diff @ [rf_path file]\<rparr>
           | Some record \<Rightarrow>
               if checksum_changed record file
               then diff\<lparr>sd_added := sd_added diff @ [rf_path file]\<rparr>
               else if metadata_changed record file
               then diff\<lparr>sd_info_modified := sd_info_modified diff @ [rf_path file]\<rparr>
               else diff)"

definition plan_diff :: "RemoteFile list \<Rightarrow> SyncSnapshot \<Rightarrow> SyncDiff" where
  "plan_diff phone_files snapshot =
     (let diff = fold (diff_phone_file snapshot) phone_files diff_empty
      in diff\<lparr>sd_deleted := filter (\<lambda>path. \<not> list_ex (\<lambda>file. rf_path file = path) phone_files)
                 (bt_keys (sn_files snapshot))\<rparr>)"

section \<open>Conflicts\<close>

definition in_conflict ::
  "(path \<Rightarrow> bool) \<Rightarrow> (path \<Rightarrow> string core_result) \<Rightarrow> SyncSnapshot \<Rightarrow> string \<Rightarrow> bool" where
  "in_conflict exists sha256_file snapshot phone_path =
     (case bt_get (sn_files snapshot) phone_path of
        None \<Rightarrow> False
      | Some record \<Rightarrow>
          (case fr_local_sha256 record of
             None \<Rightarrow> False
           | Some expected \<Rightarrow>
               (let local = components (fr_local_path record) in
                if \<not> exists local then False
                else (case sha256_file local of
                        Inr actual \<Rightarrow> actual \<noteq> expected
                      | Inl _ \<Rightarrow> True))))"

definition check_conflicts ::
  "(path \<Rightarrow> bool) \<Rightarrow> (path \<Rightarrow> string core_result) \<Rightarrow> SyncDiff \<Rightarrow> SyncSnapshot \<Rightarrow> string list" where
  "check_conflicts exists sha256_file diff snapshot =
     fold (\<lambda>phone_path conflicts.
             if in_conflict exists sha256_file snapshot phone_path \<and> phone_path \<notin> set conflicts
             then conflicts @ [phone_path] else conflicts)
          (sd_added diff @ sd_deleted diff) []"

section \<open>Local destinations\<close>

definition local_destination :: "SyncConfig \<Rightarrow> string \<Rightarrow> path core_result" where
  "local_destination config phone_path =
     (case strip_prefix (components (sc_phone_root config)) (components phone_path) of
        None \<Rightarrow> Inl (Protocol ''sync.path_outside_root'')
      | Some rel \<Rightarrow>
          if list_all is_normal rel
          then Inr (path_join (components (sc_local_root config)) rel)
          else Inl (Protocol ''sync.path_outside_root''))"

section \<open>The diff is exact\<close>

definition needs_download :: "SyncSnapshot \<Rightarrow> RemoteFile \<Rightarrow> bool" where
  "needs_download snapshot file \<longleftrightarrow>
     \<not> rf_is_directory file \<and>
     (case bt_get (sn_files snapshot) (rf_path file) of
        None \<Rightarrow> True | Some record \<Rightarrow> checksum_changed record file)"

definition needs_metadata :: "SyncSnapshot \<Rightarrow> RemoteFile \<Rightarrow> bool" where
  "needs_metadata snapshot file \<longleftrightarrow>
     \<not> rf_is_directory file \<and>
     (case bt_get (sn_files snapshot) (rf_path file) of
        None \<Rightarrow> False
      | Some record \<Rightarrow> \<not> checksum_changed record file \<and> metadata_changed record file)"

lemma fold_diff_phone_file:
  "fold (diff_phone_file snapshot) fs d =
     d\<lparr>sd_added := sd_added d @ map rf_path (filter (needs_download snapshot) fs),
       sd_info_modified := sd_info_modified d @ map rf_path (filter (needs_metadata snapshot) fs)\<rparr>"
  by (induction fs arbitrary: d)
     (auto simp: diff_phone_file_def needs_download_def needs_metadata_def split: option.splits)

lemma plan_diff_fields [simp]:
  "sd_added (plan_diff fs snapshot) = map rf_path (filter (needs_download snapshot) fs)"
  "sd_info_modified (plan_diff fs snapshot) = map rf_path (filter (needs_metadata snapshot) fs)"
  "sd_deleted (plan_diff fs snapshot) =
     filter (\<lambda>path. path \<notin> rf_path ` set fs) (bt_keys (sn_files snapshot))"
  "sd_conflicts (plan_diff fs snapshot) = []"
  by (auto simp: plan_diff_def fold_diff_phone_file diff_empty_def Let_def list_ex_iff image_iff
      intro!: filter_cong)

lemma needs_exclusive: "needs_download snapshot file \<Longrightarrow> needs_metadata snapshot file \<Longrightarrow> False"
  by (auto simp: needs_download_def needs_metadata_def split: option.splits)


definition remote :: "string \<Rightarrow> string option \<Rightarrow> RemoteFile" where
  "remote p c =
     \<lparr>rf_path = p, rf_size = 1, rf_created_at = None, rf_modified_at = None,
      rf_is_directory = False, rf_checksum = c, rf_is_trash = None, rf_id = None,
      rf_ext_data = None\<rparr>"

definition row :: "string option \<Rightarrow> string \<Rightarrow> string option \<Rightarrow> SyncFileRecord" where
  "row c local sha =
     \<lparr>fr_size = 1, fr_checksum = c, fr_ext_data = None, fr_modified_at = None,
      fr_local_path = local, fr_local_sha256 = sha\<rparr>"


lemma check_conflicts_fold:
  "distinct acc \<Longrightarrow>
   (let r = fold (\<lambda>p conflicts. if C p \<and> p \<notin> set conflicts then conflicts @ [p] else conflicts) ps acc
    in set r = set acc \<union> {p \<in> set ps. C p} \<and> distinct r)"
  by (induction ps arbitrary: acc) (auto simp: Let_def)

lemma check_conflicts_set:
  "set (check_conflicts ex sha diff snapshot) =
     {p \<in> set (sd_added diff @ sd_deleted diff). in_conflict ex sha snapshot p}"
  "distinct (check_conflicts ex sha diff snapshot)"
  using check_conflicts_fold[of "[]" "in_conflict ex sha snapshot" "sd_added diff @ sd_deleted diff"]
  by (simp_all add: check_conflicts_def Let_def)

text \<open>The conflict check fails closed. For a path a plan would download or delete whose ledger row
  records a digest and whose local file exists, the path is left out of the conflicts exactly
  when the local file could be read and its digest is the recorded one; a file that cannot be
  read is always a conflict. Nothing is reported twice.\<close>

lemma conflicts_fail_closed:
  assumes "p \<in> set (sd_added diff @ sd_deleted diff)"
    and "bt_get (sn_files snapshot) p = Some r" "fr_local_sha256 r = Some expected"
    and "ex (components (fr_local_path r))"
  shows "(p \<notin> set (check_conflicts ex sha256_file diff snapshot) \<longleftrightarrow>
            sha256_file (components (fr_local_path r)) = Inr expected) \<and>
         distinct (check_conflicts ex sha256_file diff snapshot)"
  using assms
  by (auto simp: check_conflicts_set in_conflict_def split: sum.splits)

lemma conflicts_fail_closed_witness:
  "(''/b'' \<notin> set (check_conflicts (\<lambda>_. True) (\<lambda>_. Inl (LocalIo ''sync.local_read_failed''))
        (diff_empty\<lparr>sd_deleted := [''/b'']\<rparr>) \<lparr>sn_files = [(''/b'', row None ''/l/b'' (Some ''h''))]\<rparr>) \<longleftrightarrow>
      (Inl (LocalIo ''sync.local_read_failed'') :: string core_result) = Inr ''h'') \<and>
    distinct (check_conflicts (\<lambda>_. True) (\<lambda>_. Inl (LocalIo ''sync.local_read_failed''))
        (diff_empty\<lparr>sd_deleted := [''/b'']\<rparr>) \<lparr>sn_files = [(''/b'', row None ''/l/b'' (Some ''h''))]\<rparr>)"
  by (rule conflicts_fail_closed[where r = "row None ''/l/b'' (Some ''h'')"])
     (simp_all add: diff_empty_def bt_get_def row_def)

text \<open>A download never leaves the sync root. When \<open>local_destination\<close> accepts a phone path, the
  destination is the local root followed by ordinary file names only (never empty, dot or
  dot-dot, never containing a separator), the same names that follow the phone root in the phone
  path, so two different phone paths never share a destination; every other path is refused.\<close>

lemma local_destination_contained:
  "case local_destination config phone_path of
     Inr d \<Rightarrow> \<exists>names. d = components (sc_local_root config) @ map Normal names \<and>
        components phone_path = components (sc_phone_root config) @ map Normal names \<and>
        list_all (\<lambda>n. n \<noteq> [] \<and> n \<noteq> ''.'' \<and> n \<noteq> ''..'' \<and> CHR ''/'' \<notin> set n) names
   | Inl e \<Rightarrow> e = Protocol ''sync.path_outside_root'' \<and>
        (\<nexists>names. components phone_path = components (sc_phone_root config) @ map Normal names)"
proof (cases "strip_prefix (components (sc_phone_root config)) (components phone_path)")
  case None
  then show ?thesis
    by (auto simp: local_destination_def strip_prefix_def split: if_splits)
next
  case (Some rel)
  then have eq: "components phone_path = components (sc_phone_root config) @ rel"
    by (simp add: strip_prefix_Some)
  show ?thesis
  proof (cases "list_all is_normal rel")
    case True
    then obtain names where names: "rel = map Normal names"
      by (metis is_normal_iff list_all_iff ex_map_conv)
    have "list_all (\<lambda>n. n \<noteq> [] \<and> n \<noteq> ''.'' \<and> n \<noteq> ''..'' \<and> CHR ''/'' \<notin> set n) names"
      using components_normal_clean[of _ phone_path] eq names by (auto simp: list_all_iff)
    then show ?thesis
      using Some True eq names path_join_normal[OF True]
      by (auto simp: local_destination_def)
  next
    case False
    then have "\<nexists>names. rel = map Normal names" by (auto simp: list_all_iff)
    then show ?thesis using Some False eq by (auto simp: local_destination_def)
  qed
qed

end
