(* ===== verification/SyncJournal.thy ===== *)
theory SyncJournal
  imports SyncPlan
begin

text \<open>
  Execution of a sync plan with its write-ahead journal: \<open>handshaker-core/src/sync_journal.rs\<close> and
  the executing half of \<open>sync.rs\<close>. The world is the disk (files and directories by path), the
  saved ledger and the journal. An operation is the list of the effects it has on the world, in
  order, so a crash is a prefix of that list; which system calls succeed, what a download
  delivers, SHA-256 and the random names are arguments. Missing parent directories are created by
  the code before a file is written there and are not tracked.
\<close>

section \<open>The world\<close>

datatype node = FileNode bytes | DirNode

datatype PendingSyncAction =
    PendingDownload string path path SyncFileRecord
  | PendingDelete string path path

datatype journal_file = NoJournal | Journal PendingSyncAction | CorruptJournal

record world =
  w_files :: "path \<rightharpoonup> node"
  w_ledger :: SyncSnapshot
  w_journal :: journal_file

datatype effect =
    WriteFile path bytes
  | RenameFile path path
  | RemoveFile path
  | WriteJournal PendingSyncAction
  | ClearJournal
  | SaveLedger SyncSnapshot

fun apply_effect :: "effect \<Rightarrow> world \<Rightarrow> world" where
  "apply_effect (WriteFile p b) w = w\<lparr>w_files := (w_files w)(p \<mapsto> FileNode b)\<rparr>"
| "apply_effect (RenameFile a b) w =
     (case w_files w a of
        None \<Rightarrow> w
      | Some n \<Rightarrow> w\<lparr>w_files := (w_files w)(a := None, b \<mapsto> n)\<rparr>)"
| "apply_effect (RemoveFile p) w = w\<lparr>w_files := (w_files w)(p := None)\<rparr>"
| "apply_effect (WriteJournal a) w = w\<lparr>w_journal := Journal a\<rparr>"
| "apply_effect ClearJournal w = w\<lparr>w_journal := NoJournal\<rparr>"
| "apply_effect (SaveLedger s) w = w\<lparr>w_ledger := s\<rparr>"

abbreviation run_effects :: "effect list \<Rightarrow> world \<Rightarrow> world" where
  "run_effects \<equiv> fold apply_effect"

definition path_exists :: "world \<Rightarrow> path \<Rightarrow> bool" where
  "path_exists w p \<longleftrightarrow> w_files w p \<noteq> None"

section \<open>Downloads and deletions\<close>

record SyncRunResult =
  sr_downloaded :: "string list"
  sr_deleted :: "string list"
  sr_failures :: "string list"
  sr_conflicts :: "string list"

definition sync_failure :: "string \<Rightarrow> SyncRunResult \<Rightarrow> SyncRunResult" where
  "sync_failure p r = r\<lparr>sr_failures := sr_failures r @ [p]\<rparr>"

text \<open>The environment of one item: what the download delivers, the random part of the temporary
  name, and which of the later steps succeed.\<close>

record item_env =
  ie_content :: "bytes option"
  ie_nonce :: string
  ie_journal_ok :: bool
  ie_rename_ok :: bool
  ie_save_ok :: bool
  ie_remove_ok :: bool
  ie_clear_ok :: bool

definition staged_path :: "path \<Rightarrow> string \<Rightarrow> path" where
  "staged_path destination nonce = append_name destination (''.hs-part.'' @ nonce)"

definition trash_path :: "path \<Rightarrow> string \<Rightarrow> path" where
  "trash_path local nonce = append_name local (''.hs-trash.'' @ nonce)"

definition new_record :: "RemoteFile \<Rightarrow> path \<Rightarrow> string \<Rightarrow> SyncFileRecord" where
  "new_record file destination hash =
     \<lparr>fr_size = rf_size file, fr_checksum = rf_checksum file, fr_ext_data = rf_ext_data file,
      fr_modified_at = rf_modified_at file, fr_local_path = render destination,
      fr_local_sha256 = Some hash\<rparr>"

definition ledger_insert :: "string \<Rightarrow> SyncFileRecord \<Rightarrow> SyncSnapshot \<Rightarrow> SyncSnapshot" where
  "ledger_insert p r s = s\<lparr>sn_files := bt_insert p r (sn_files s)\<rparr>"

definition ledger_remove :: "string \<Rightarrow> SyncSnapshot \<Rightarrow> SyncSnapshot" where
  "ledger_remove p s = s\<lparr>sn_files := bt_remove p (sn_files s)\<rparr>"

type_synonym item_outcome = "core_error option \<times> effect list \<times> SyncSnapshot \<times> SyncRunResult"

definition journaled_download ::
  "(bytes \<Rightarrow> string) \<Rightarrow> item_env \<Rightarrow> string \<Rightarrow> RemoteFile \<Rightarrow> path \<Rightarrow> SyncSnapshot \<Rightarrow> SyncRunResult
   \<Rightarrow> item_outcome" where
  "journaled_download sha256 env remote_path file destination snapshot result =
     (case ie_content env of
        None \<Rightarrow> (None, [], snapshot, sync_failure remote_path result)
      | Some content \<Rightarrow>
          (let part = staged_path destination (ie_nonce env);
               new = new_record file destination (sha256 content);
               action = PendingDownload remote_path destination part new;
               staged = [WriteFile part content]
           in if \<not> ie_journal_ok env
              then (Some (Configuration ''sync.write_failed''), staged @ [RemoveFile part],
                    snapshot, sync_failure remote_path result)
              else if \<not> ie_rename_ok env
              then (None, staged @ [WriteJournal action], snapshot, sync_failure remote_path result)
              else (let updated = ledger_insert remote_path new snapshot;
                        result1 = result\<lparr>sr_downloaded := sr_downloaded result @ [remote_path]\<rparr>;
                        renamed = staged @ [WriteJournal action, RenameFile part destination]
                    in if \<not> ie_save_ok env
                       then (Some (Configuration ''sync.write_failed''), renamed, updated, result1)
                       else if \<not> ie_clear_ok env
                       then (Some (Configuration ''sync.write_failed''),
                             renamed @ [SaveLedger updated], updated, result1)
                       else (None, renamed @ [SaveLedger updated, ClearJournal], updated, result1))))"

definition journaled_delete ::
  "item_env \<Rightarrow> world \<Rightarrow> string \<Rightarrow> path \<Rightarrow> SyncSnapshot \<Rightarrow> SyncRunResult \<Rightarrow> item_outcome" where
  "journaled_delete env w remote_path local snapshot result =
     (let removed = ledger_remove remote_path snapshot in
      case w_files w local of
        None \<Rightarrow>
          if ie_save_ok env then (None, [SaveLedger removed], removed, result)
          else (Some (Configuration ''sync.write_failed''), [], removed, result)
      | Some DirNode \<Rightarrow> (None, [], snapshot, sync_failure remote_path result)
      | Some (FileNode _) \<Rightarrow>
          (let trash = trash_path local (ie_nonce env);
               action = PendingDelete remote_path local trash
           in if \<not> ie_journal_ok env
              then (Some (Configuration ''sync.write_failed''), [], snapshot,
                    sync_failure remote_path result)
              else if \<not> ie_rename_ok env
              then (None, [WriteJournal action], snapshot, sync_failure remote_path result)
              else (let result1 = result\<lparr>sr_deleted := sr_deleted result @ [remote_path]\<rparr>;
                        moved = [WriteJournal action, RenameFile local trash]
                    in if \<not> ie_save_ok env
                       then (Some (Configuration ''sync.write_failed''), moved, removed, result1)
                       else if \<not> ie_remove_ok env
                       then (Some (LocalIo ''sync.delete_failed''),
                             moved @ [SaveLedger removed], removed, result1)
                       else if \<not> ie_clear_ok env
                       then (Some (Configuration ''sync.write_failed''),
                             moved @ [SaveLedger removed, RemoveFile trash], removed, result1)
                       else (None, moved @ [SaveLedger removed, RemoveFile trash, ClearJournal],
                             removed, result1))))"

section \<open>Plans and incremental changes\<close>

record sync_run =
  ru_world :: world
  ru_snapshot :: SyncSnapshot
  ru_result :: SyncRunResult

definition after_item :: "item_outcome \<Rightarrow> world \<Rightarrow> core_error option \<times> sync_run" where
  "after_item outcome w =
     (case outcome of (e, effs, s, r) \<Rightarrow>
        (e, \<lparr>ru_world = run_effects effs w, ru_snapshot = s, ru_result = r\<rparr>))"

text \<open>A \<open>for\<close> loop whose body may return an error with \<open>?\<close>.\<close>

fun item_loop ::
  "(string \<Rightarrow> sync_run \<Rightarrow> core_error option \<times> sync_run) \<Rightarrow> string list \<Rightarrow> sync_run
   \<Rightarrow> core_error option \<times> sync_run" where
  "item_loop body [] run = (None, run)"
| "item_loop body (p # ps) run =
     (case body p run of
        (Some e, run1) \<Rightarrow> (Some e, run1)
      | (None, run1) \<Rightarrow> item_loop body ps run1)"

definition added_item ::
  "(bytes \<Rightarrow> string) \<Rightarrow> (string \<Rightarrow> item_env) \<Rightarrow> SyncConfig \<Rightarrow> RemoteFile list \<Rightarrow> string list
   \<Rightarrow> string \<Rightarrow> sync_run \<Rightarrow> core_error option \<times> sync_run" where
  "added_item sha256 env config phone_files conflicts p run =
     (if p \<in> set conflicts then (None, run)
      else case find (\<lambda>file. rf_path file = p) phone_files of
             None \<Rightarrow> (None, run)
           | Some file \<Rightarrow>
               (case local_destination config p of
                  Inl e \<Rightarrow> (Some e, run)
                | Inr destination \<Rightarrow>
                    after_item (journaled_download sha256 (env p) p file destination
                                  (ru_snapshot run) (ru_result run)) (ru_world run)))"

definition deleted_item ::
  "(string \<Rightarrow> item_env) \<Rightarrow> SyncSnapshot \<Rightarrow> string list \<Rightarrow> string \<Rightarrow> sync_run
   \<Rightarrow> core_error option \<times> sync_run" where
  "deleted_item env snapshot conflicts p run =
     (if p \<in> set conflicts then (None, run)
      else case bt_get (sn_files snapshot) p of
             None \<Rightarrow> (None, run)
           | Some record \<Rightarrow>
               after_item (journaled_delete (env p) (ru_world run) p
                             (components (fr_local_path record)) (ru_snapshot run) (ru_result run))
                 (ru_world run))"

definition update_metadata :: "RemoteFile \<Rightarrow> SyncFileRecord \<Rightarrow> SyncFileRecord" where
  "update_metadata file record =
     record\<lparr>fr_ext_data := rf_ext_data file, fr_modified_at := rf_modified_at file,
            fr_size := rf_size file, fr_checksum := rf_checksum file\<rparr>"

definition refresh_row :: "string \<Rightarrow> RemoteFile \<Rightarrow> SyncSnapshot \<Rightarrow> SyncSnapshot" where
  "refresh_row p file s =
     (case bt_get (sn_files s) p of
        None \<Rightarrow> s
      | Some record \<Rightarrow> ledger_insert p (update_metadata file record) s)"

definition exec_info :: "RemoteFile list \<Rightarrow> string \<Rightarrow> SyncSnapshot \<Rightarrow> SyncSnapshot" where
  "exec_info phone_files p s =
     (case find (\<lambda>file. rf_path file = p) phone_files of
        None \<Rightarrow> s
      | Some file \<Rightarrow> refresh_row p file s)"

definition execute_plan ::
  "(bytes \<Rightarrow> string) \<Rightarrow> (string \<Rightarrow> item_env) \<Rightarrow> bool \<Rightarrow> SyncConfig \<Rightarrow> RemoteFile list \<Rightarrow> SyncDiff
   \<Rightarrow> SyncSnapshot \<Rightarrow> string list \<Rightarrow> world \<Rightarrow> core_error option \<times> sync_run" where
  "execute_plan sha256 env final_save_ok config phone_files diff snapshot conflicts w =
     (let run0 = \<lparr>ru_world = w, ru_snapshot = snapshot,
                  ru_result = \<lparr>sr_downloaded = [], sr_deleted = [], sr_failures = [],
                               sr_conflicts = conflicts\<rparr>\<rparr>
      in case item_loop (added_item sha256 env config phone_files conflicts) (sd_added diff) run0 of
           (Some e, run1) \<Rightarrow> (Some e, run1)
         | (None, run1) \<Rightarrow>
             (case item_loop (deleted_item env snapshot conflicts) (sd_deleted diff) run1 of
                (Some e, run2) \<Rightarrow> (Some e, run2)
              | (None, run2) \<Rightarrow>
                  (let updated = fold (exec_info phone_files) (sd_info_modified diff) (ru_snapshot run2)
                   in if final_save_ok
                      then (None, run2\<lparr>ru_snapshot := updated,
                              ru_world := apply_effect (SaveLedger updated) (ru_world run2)\<rparr>)
                      else (Some (Configuration ''sync.write_failed''),
                            run2\<lparr>ru_snapshot := updated\<rparr>))))"

definition apply_file_change ::
  "(bytes \<Rightarrow> string) \<Rightarrow> item_env \<Rightarrow> SyncConfig \<Rightarrow> FileChange \<Rightarrow> SyncSnapshot \<Rightarrow> world
   \<Rightarrow> core_error option \<times> sync_run" where
  "apply_file_change sha256 env config change snapshot w =
     (let result = \<lparr>sr_downloaded = [], sr_deleted = [], sr_failures = [], sr_conflicts = []\<rparr>;
          run0 = \<lparr>ru_world = w, ru_snapshot = snapshot, ru_result = result\<rparr>
      in case fc_file change of
           None \<Rightarrow> (None, run0)
         | Some file \<Rightarrow>
             if rf_is_directory file then (None, run0)
             else let p = rf_path file in
               (case fc_status change of
                  SDeleted \<Rightarrow>
                    (case bt_get (sn_files snapshot) p of
                       None \<Rightarrow> (None, run0)
                     | Some record \<Rightarrow>
                         after_item (journaled_delete env w p (components (fr_local_path record))
                                       snapshot result) w)
                | s \<Rightarrow>
                    if s = SAdded \<or> s = SModified \<or> s = SFileAndInfoModified
                    then (case local_destination config p of
                            Inl e \<Rightarrow> (Some e, run0)
                          | Inr destination \<Rightarrow>
                              after_item (journaled_download sha256 env p file destination
                                            snapshot result) w)
                    else (None, run0\<lparr>ru_snapshot := refresh_row p file snapshot\<rparr>)))"

section \<open>Recovery\<close>

definition path_is_safe :: "path \<Rightarrow> path \<Rightarrow> bool" where
  "path_is_safe p trusted_root \<longleftrightarrow>
     is_absolute p \<and> is_absolute trusted_root \<and>
     (case strip_prefix trusted_root p of
        None \<Rightarrow> False
      | Some rel \<Rightarrow> rel \<noteq> [] \<and> is_normal (hd rel) \<and> list_all is_normal (tl rel))"

definition journal_path_ok :: "path option \<Rightarrow> path \<Rightarrow> bool" where
  "journal_path_ok trusted_root p =
     (case trusted_root of
        Some root \<Rightarrow> path_is_safe p root
      | None \<Rightarrow> is_absolute p \<and> \<not> list_ex (\<lambda>c. c = ParentDir) p)"

record recover_io =
  rc_read_ok :: bool
  rc_mkdir_ok :: bool
  rc_rename_ok :: bool
  rc_remove_ok :: bool
  rc_save_ok :: bool
  rc_clear_ok :: bool

definition recover_clear ::
  "recover_io \<Rightarrow> effect list \<Rightarrow> SyncSnapshot \<Rightarrow> SyncSnapshot core_result \<times> effect list" where
  "recover_clear io effs s =
     (if rc_clear_ok io then (Inr s, effs @ [ClearJournal])
      else (Inl (Configuration ''sync.write_failed''), effs))"

definition recover_save_clear ::
  "recover_io \<Rightarrow> effect list \<Rightarrow> SyncSnapshot \<Rightarrow> SyncSnapshot core_result \<times> effect list" where
  "recover_save_clear io effs s =
     (if rc_save_ok io then recover_clear io (effs @ [SaveLedger s]) s
      else (Inl (Configuration ''sync.write_failed''), effs))"

fun recover_action ::
  "recover_io \<Rightarrow> world \<Rightarrow> PendingSyncAction \<Rightarrow> SyncSnapshot \<Rightarrow> SyncSnapshot core_result \<times> effect list" where
  "recover_action io w (PendingDownload remote_path final_path staged new) snapshot =
     (let updated = ledger_insert remote_path new snapshot in
      if \<not> path_exists w final_path \<and> path_exists w staged
      then (if \<not> rc_mkdir_ok io then (Inl (LocalIo ''sync.local_dir_failed''), [])
            else if \<not> rc_rename_ok io then (Inl (LocalIo ''sync.rename_failed''), [])
            else recover_save_clear io [RenameFile staged final_path] updated)
      else if path_exists w final_path then recover_save_clear io [] updated
      else recover_clear io [] snapshot)"
| "recover_action io w (PendingDelete remote_path original trash) snapshot =
     (if path_exists w original
      then (if path_exists w trash
            then (if \<not> rc_remove_ok io then (Inl (LocalIo ''sync.delete_failed''), [])
                  else recover_clear io [RemoveFile trash] snapshot)
            else recover_clear io [] snapshot)
      else if path_exists w trash
      then (if \<not> rc_remove_ok io then (Inl (LocalIo ''sync.delete_failed''), [])
            else recover_save_clear io [RemoveFile trash] (ledger_remove remote_path snapshot))
      else recover_save_clear io [] (ledger_remove remote_path snapshot))"

fun action_paths :: "PendingSyncAction \<Rightarrow> path list" where
  "action_paths (PendingDownload _ final_path staged _) = [final_path, staged]"
| "action_paths (PendingDelete _ original trash) = [original, trash]"

definition recover_impl ::
  "recover_io \<Rightarrow> path option \<Rightarrow> world \<Rightarrow> SyncSnapshot \<Rightarrow> SyncSnapshot core_result \<times> effect list" where
  "recover_impl io trusted_root w snapshot =
     (case w_journal w of
        NoJournal \<Rightarrow> (Inr snapshot, [])
      | CorruptJournal \<Rightarrow>
          (Inl (Configuration (if rc_read_ok io then ''sync.parse_failed'' else ''sync.read_failed'')), [])
      | Journal action \<Rightarrow>
          if \<not> rc_read_ok io then (Inl (Configuration ''sync.read_failed''), [])
          else if \<not> list_all (journal_path_ok trusted_root) (action_paths action)
          then (Inl (Configuration ''sync.journal_unsafe''), [])
          else recover_action io w action snapshot)"

end
