(* ===== verification/SyncFacts.thy ===== *)
theory SyncFacts
  imports SyncJournal
begin

text \<open>
  What the journaled sync guarantees: recovery stays inside the trusted root, a deletion and a
  first download interrupted at any point are completed or undone by recovery, and a run without
  failures leaves nothing to do. One case is not covered by the journal: a crash between the
  journal entry and the rename of a file that already exists locally.
\<close>

section \<open>Helpers\<close>

definition recover_all_ok :: recover_io where
  "recover_all_ok = \<lparr>rc_read_ok = True, rc_mkdir_ok = True, rc_rename_ok = True, rc_remove_ok = True,
     rc_save_ok = True, rc_clear_ok = True\<rparr>"

fun effect_paths :: "effect \<Rightarrow> path list" where
  "effect_paths (WriteFile p _) = [p]"
| "effect_paths (RenameFile a b) = [a, b]"
| "effect_paths (RemoveFile p) = [p]"
| "effect_paths _ = []"

lemma apply_effect_frame: "q \<notin> set (effect_paths e) \<Longrightarrow> w_files (apply_effect e w) q = w_files w q"
  by (cases e) (auto split: option.splits)

lemma run_effects_frame:
  "(\<And>e. e \<in> set effs \<Longrightarrow> q \<notin> set (effect_paths e)) \<Longrightarrow> w_files (run_effects effs w) q = w_files w q"
  by (induction effs arbitrary: w) (auto simp: apply_effect_frame)

lemma recover_action_paths:
  assumes "recover_action io w action s = (r, effs)" "e \<in> set effs" "p \<in> set (effect_paths e)"
  shows "p \<in> set (action_paths action)"
  using assms
  by (cases action)
     (auto simp: recover_clear_def recover_save_clear_def Let_def split: if_splits)

lemma bt_insert_twice: "bt_insert k v (bt_insert k v m) = bt_insert k v m"
  by (induction k v m rule: bt_insert.induct) auto

lemma ledger_insert_twice [simp]: "ledger_insert p r (ledger_insert p r s) = ledger_insert p r s"
  by (simp add: ledger_insert_def bt_insert_twice)

lemma ledger_remove_twice [simp]: "ledger_remove p (ledger_remove p s) = ledger_remove p s"
  by (simp add: ledger_remove_def bt_remove_def)

lemma append_name_safe:
  assumes "path_is_safe p root"
  shows "path_is_safe (append_name p sfx) root"
proof -
  obtain rel where rel: "p = root @ rel" "rel \<noteq> []" "list_all is_normal rel" "is_absolute root"
    using assms
    by (auto simp: path_is_safe_def strip_prefix_Some split: option.splits)
       (metis list.pred_inject(2) list.exhaust_sel)
  obtain rel' n where n: "rel = rel' @ [Normal n]"
    using rel(2,3) by (cases rel rule: rev_cases) (auto simp: is_normal_iff)
  then have "append_name p sfx = root @ rel' @ [Normal (n @ sfx)]"
    using rel(1) append_name_normal[of "root @ rel'" n sfx] by simp
  moreover have "list_all is_normal (rel' @ [Normal (n @ sfx)])" using rel(3) n by simp
  moreover have "is_absolute (root @ x)" for x using rel(4) by (simp add: is_absolute_def)
  ultimately show ?thesis
    using rel(4)
    by (auto simp: path_is_safe_def strip_prefix_def list_all_iff hd_append tl_append
        split: list.splits)
qed

section \<open>Recovery is confined\<close>

text \<open>C11: recovery never touches a file outside the trusted root, whatever the journal says. Every
  path that is not a strict descendant of the root keeps its contents through recovery, and a
  journal naming such a path is refused without any effect at all.\<close>

theorem recovery_confined:
  assumes "\<not> path_is_safe q root"
  shows "w_files (run_effects (snd (recover_impl io (Some root) w s)) w) q = w_files w q \<and>
     (\<forall>action. w_journal w = Journal action \<and> q \<in> set (action_paths action) \<longrightarrow>
        snd (recover_impl io (Some root) w s) = [])"
proof (cases "w_journal w")
  case (Journal action)
  show ?thesis
  proof (cases "list_all (journal_path_ok (Some root)) (action_paths action) \<and> rc_read_ok io")
    case True
    obtain r effs where ra: "recover_action io w action s = (r, effs)"
      by (cases "recover_action io w action s")
    then have impl: "recover_impl io (Some root) w s = (r, effs)"
      using True Journal by (simp add: recover_impl_def)
    have "q \<notin> set (action_paths action)"
      using True assms by (auto simp: list_all_iff journal_path_ok_def)
    then show ?thesis
      using impl Journal recover_action_paths[OF ra] run_effects_frame[of effs q w] by auto
  next
    case False
    then show ?thesis using Journal by (auto simp: recover_impl_def)
  qed
qed (auto simp: recover_impl_def)

definition outside_journal :: world where
  "outside_journal =
     \<lparr>w_files = [[RootDir, Normal ''etc''] \<mapsto> FileNode [1]], w_ledger = \<lparr>sn_files = []\<rparr>,
      w_journal = Journal (PendingDelete ''/p'' [RootDir, Normal ''etc''] [RootDir, Normal ''t''])\<rparr>"

theorem recovery_confined_witness:
  "w_files (run_effects (snd (recover_impl recover_all_ok (Some [RootDir, Normal ''photos''])
        outside_journal \<lparr>sn_files = []\<rparr>)) outside_journal) [RootDir, Normal ''etc''] = Some (FileNode [1])"
proof -
  have "\<not> path_is_safe [RootDir, Normal ''etc''] [RootDir, Normal ''photos'']"
    by (simp add: path_is_safe_def strip_prefix_def)
  from recovery_confined[OF this, of recover_all_ok outside_journal "\<lparr>sn_files = []\<rparr>"]
  show ?thesis by (simp add: outside_journal_def)
qed

section \<open>Interrupted operations\<close>

lemma take_5_cases:
  assumes "length xs = 5"
  shows "take k xs = [] \<or> take k xs = take 1 xs \<or> take k xs = take 2 xs \<or>
     take k xs = take 3 xs \<or> take k xs = take 4 xs \<or> take k xs = xs"
proof (cases "k \<ge> 5")
  case False
  then have "k = 0 \<or> k = 1 \<or> k = 2 \<or> k = 3 \<or> k = 4" by linarith
  then show ?thesis by auto
qed (use assms in simp)

definition recovered :: "path \<Rightarrow> world \<Rightarrow> world" where
  "recovered root w = run_effects (snd (recover_impl recover_all_ok (Some root) w (w_ledger w))) w"

lemmas recovery_defs =
  recovered_def recover_impl_def recover_clear_def recover_save_clear_def recover_all_ok_def
  path_exists_def journal_path_ok_def Let_def

lemma delete_interrupted:
  fixes w :: world and k :: nat
  assumes j: "w_journal w = NoJournal" and orig: "w_files w local = Some (FileNode c)"
    and safe: "path_is_safe local root" and trash: "trash = trash_path local nonce"
    and fresh: "w_files w trash = None"
    and effs: "effs = [WriteJournal (PendingDelete p local trash), RenameFile local trash,
        SaveLedger (ledger_remove p (w_ledger w)), RemoveFile trash, ClearJournal]"
  defines "w' \<equiv> recovered root (run_effects (take k effs) w)"
  shows "w_journal w' = NoJournal \<and>
     (w_files w' = w_files w \<and> w_ledger w' = w_ledger w \<or>
      w_files w' = (w_files w)(local := None) \<and> w_ledger w' = ledger_remove p (w_ledger w))"
proof -
  have ne: "trash \<noteq> local" by (simp add: trash trash_path_def append_name_neq)
  have ts: "path_is_safe trash root" using append_name_safe[OF safe] by (simp add: trash trash_path_def)
  have clean: "(w_files w)(local := None, trash := None) = (w_files w)(local := None)"
    using fresh by (auto simp: fun_eq_iff)
  have "length effs = 5" by (simp add: effs)
  from take_5_cases[OF this, of k] show ?thesis
    unfolding w'_def
    using j orig fresh ne ne[symmetric] safe ts clean
    by (elim disjE) (simp_all add: effs recovery_defs numeral_eq_Suc fun_upd_twist)
qed

lemma download_interrupted:
  fixes w :: world and k :: nat
  assumes j: "w_journal w = NoJournal" and absent: "w_files w dest = None"
    and safe: "path_is_safe dest root" and part: "part = staged_path dest nonce"
    and fresh: "w_files w part = None"
    and effs: "effs = [WriteFile part c, WriteJournal (PendingDownload p dest part new),
        RenameFile part dest, SaveLedger (ledger_insert p new (w_ledger w)), ClearJournal]"
  defines "w' \<equiv> recovered root (run_effects (take k effs) w)"
  shows "w_journal w' = NoJournal \<and> (\<forall>q. q \<noteq> dest \<longrightarrow> q \<noteq> part \<longrightarrow> w_files w' q = w_files w q) \<and>
     (w_files w' dest = None \<and> w_ledger w' = w_ledger w \<or>
      w_files w' dest = Some (FileNode c) \<and> w_files w' part = None \<and>
      w_ledger w' = ledger_insert p new (w_ledger w))"
proof -
  have ne: "part \<noteq> dest" by (simp add: part staged_path_def append_name_neq)
  have ps: "path_is_safe part root" using append_name_safe[OF safe] by (simp add: part staged_path_def)
  have "length effs = 5" by (simp add: effs)
  from take_5_cases[OF this, of k] show ?thesis
    unfolding w'_def
    using j absent fresh ne ne[symmetric] safe ps
    by (elim disjE) (simp_all add: effs recovery_defs numeral_eq_Suc)
qed

lemma journaled_delete_success:
  assumes "journaled_delete env w p local s r = (None, effs, s', r')"
    and "sr_failures r' = sr_failures r" "w_files w local = Some (FileNode c)"
  shows "effs = [WriteJournal (PendingDelete p local (trash_path local (ie_nonce env))),
      RenameFile local (trash_path local (ie_nonce env)), SaveLedger (ledger_remove p s),
      RemoveFile (trash_path local (ie_nonce env)), ClearJournal] \<and> s' = ledger_remove p s"
  using assms by (auto simp: journaled_delete_def sync_failure_def Let_def split: if_splits)

lemma journaled_download_success:
  assumes "journaled_download sha env p file dest s r = (None, effs, s', r')"
    and "sr_failures r' = sr_failures r"
  shows "\<exists>c. ie_content env = Some c \<and>
     effs = [WriteFile (staged_path dest (ie_nonce env)) c,
       WriteJournal (PendingDownload p dest (staged_path dest (ie_nonce env)) (new_record file dest (sha c))),
       RenameFile (staged_path dest (ie_nonce env)) dest,
       SaveLedger (ledger_insert p (new_record file dest (sha c)) s), ClearJournal] \<and>
     s' = ledger_insert p (new_record file dest (sha c)) s"
  using assms by (auto simp: journaled_download_def sync_failure_def Let_def split: option.splits if_splits)

text \<open>C9: a deletion is atomic across crashes. Whatever point a deletion is interrupted at, recovery
  of the next run clears the journal, leaves no trash behind, and gives either the world before
  the deletion (file and ledger row both present) or the world after it (both gone); no other
  file changes.\<close>

theorem deletion_crash_safe:
  assumes "journaled_delete env w p local (w_ledger w) r = (None, effs, s', r')"
    and "sr_failures r' = sr_failures r"
    and "w_files w local = Some (FileNode c)" "w_journal w = NoJournal"
    and "path_is_safe local root" "w_files w (trash_path local (ie_nonce env)) = None"
  shows "w_journal (recovered root (run_effects (take k effs) w)) = NoJournal \<and>
     (w_files (recovered root (run_effects (take k effs) w)) = w_files w \<and>
        w_ledger (recovered root (run_effects (take k effs) w)) = w_ledger w \<or>
      w_files (recovered root (run_effects (take k effs) w)) = (w_files w)(local := None) \<and>
        w_ledger (recovered root (run_effects (take k effs) w)) = ledger_remove p (w_ledger w))"
  using journaled_delete_success[OF assms(1-3)]
  by (intro delete_interrupted[OF assms(4,3,5) refl assms(6)]) simp

definition calm_env :: item_env where
  "calm_env = \<lparr>ie_content = Some [7], ie_nonce = ''1'', ie_journal_ok = True, ie_rename_ok = True,
     ie_save_ok = True, ie_remove_ok = True, ie_clear_ok = True\<rparr>"

definition photo :: path where
  "photo = [RootDir, Normal ''p'', Normal ''a'']"

definition synced_world :: world where
  "synced_world =
     \<lparr>w_files = [photo \<mapsto> FileNode [1]],
      w_ledger = \<lparr>sn_files = [(''/r/a'', row (Some ''old'') ''/p/a'' (Some ''h1''))]\<rparr>,
      w_journal = NoJournal\<rparr>"

definition no_result :: SyncRunResult where
  "no_result = \<lparr>sr_downloaded = [], sr_deleted = [], sr_failures = [], sr_conflicts = []\<rparr>"

lemma photo_safe: "path_is_safe photo [RootDir, Normal ''p'']"
  by (simp add: path_is_safe_def photo_def strip_prefix_def is_absolute_def)

theorem deletion_crash_safe_witness:
  "\<exists>effs s' r'. journaled_delete calm_env synced_world ''/r/a'' photo (w_ledger synced_world) no_result
       = (None, effs, s', r') \<and> length effs = 5 \<and>
     w_journal (recovered [RootDir, Normal ''p''] (run_effects (take 2 effs) synced_world)) = NoJournal"
proof -
  obtain effs s' r' where d: "journaled_delete calm_env synced_world ''/r/a'' photo (w_ledger synced_world)
      no_result = (None, effs, s', r')" "sr_failures r' = sr_failures no_result"
    by (simp add: journaled_delete_def synced_world_def calm_env_def Let_def)
  have f: "w_files synced_world photo = Some (FileNode [1])" by (simp add: synced_world_def)
  have "w_files synced_world (trash_path photo (ie_nonce calm_env)) = None"
    by (simp add: synced_world_def trash_path_def append_name_neq)
  with deletion_crash_safe[OF d f _ photo_safe, of 2] journaled_delete_success[OF d f] d(1)
  show ?thesis by (simp add: synced_world_def)
qed

text \<open>C10: a first download is atomic across crashes. Whatever point the download of a file that does
  not exist locally is interrupted at, recovery clears the journal and leaves either no file and
  the old ledger, or the complete new file together with its ledger row, whose digest is that of
  the file; files other than the destination and its staging file never change.\<close>

theorem download_crash_safe:
  assumes "journaled_download sha env p file dest (w_ledger w) r = (None, effs, s', r')"
    and "sr_failures r' = sr_failures r"
    and "w_files w dest = None" "w_journal w = NoJournal"
    and "path_is_safe dest root" "w_files w (staged_path dest (ie_nonce env)) = None"
  shows "\<exists>c w'. ie_content env = Some c \<and> w' = recovered root (run_effects (take k effs) w) \<and>
     w_journal w' = NoJournal \<and>
     (\<forall>q. q \<noteq> dest \<longrightarrow> q \<noteq> staged_path dest (ie_nonce env) \<longrightarrow> w_files w' q = w_files w q) \<and>
     (w_files w' dest = None \<and> w_ledger w' = w_ledger w \<or>
      w_files w' dest = Some (FileNode c) \<and>
      w_ledger w' = ledger_insert p (new_record file dest (sha c)) (w_ledger w))"
proof -
  obtain c where c: "ie_content env = Some c"
    "effs = [WriteFile (staged_path dest (ie_nonce env)) c,
       WriteJournal (PendingDownload p dest (staged_path dest (ie_nonce env)) (new_record file dest (sha c))),
       RenameFile (staged_path dest (ie_nonce env)) dest,
       SaveLedger (ledger_insert p (new_record file dest (sha c)) (w_ledger w)), ClearJournal]"
    using journaled_download_success[OF assms(1,2)] by blast
  then show ?thesis
    using download_interrupted[OF assms(4,3,5) refl assms(6) c(2), of k] by blast
qed

theorem download_crash_safe_witness:
  "\<exists>c w'. ie_content calm_env = Some c \<and>
     w' = recovered [RootDir, Normal ''p''] (run_effects (take 2
            (fst (snd (journaled_download (\<lambda>_. ''h'') calm_env ''/r/a'' (remote ''/r/a'' None) photo
               (w_ledger synced_world) no_result)))) (synced_world\<lparr>w_files := Map.empty\<rparr>)) \<and>
     w_journal w' = NoJournal \<and>
     (w_files w' photo = None \<and> w_ledger w' = w_ledger synced_world \<or>
      w_files w' photo = Some (FileNode c) \<and>
      w_ledger w' = ledger_insert ''/r/a'' (new_record (remote ''/r/a'' None) photo ''h'') (w_ledger synced_world))"
proof -
  let ?w = "synced_world\<lparr>w_files := Map.empty\<rparr>"
  obtain effs s' r' where d: "journaled_download (\<lambda>_. ''h'') calm_env ''/r/a'' (remote ''/r/a'' None) photo
      (w_ledger ?w) no_result = (None, effs, s', r')" "sr_failures r' = sr_failures no_result"
    by (simp add: journaled_download_def calm_env_def Let_def)
  then show ?thesis
    using download_crash_safe[OF d _ _ photo_safe, of 2] by (simp add: synced_world_def) blast
qed

text \<open>A crash while a file that already exists is being replaced corrupts the ledger. After the
  journal entry for the new contents is written and before the rename, recovery finds the
  destination present, takes it for the new file, and records the new checksum and digest while
  the old contents stay on disk and the downloaded file stays behind under its staging name; the
  next plan then finds nothing to download.\<close>

lemma replaced_download_recovers_stale:
  assumes "journaled_download sha env p file dest (w_ledger w) r = (None, effs, s', r')"
    and "sr_failures r' = sr_failures r" "ie_content env = Some c"
    and "w_files w dest = Some (FileNode old)" "old \<noteq> c" "w_journal w = NoJournal"
    and "path_is_safe dest root"
  shows "w_files (recovered root (run_effects (take 2 effs) w)) dest = Some (FileNode old) \<and>
     w_files (recovered root (run_effects (take 2 effs) w)) (staged_path dest (ie_nonce env)) = Some (FileNode c) \<and>
     w_ledger (recovered root (run_effects (take 2 effs) w)) =
       ledger_insert p (new_record file dest (sha c)) (w_ledger w) \<and>
     w_journal (recovered root (run_effects (take 2 effs) w)) = NoJournal \<and>
     (rf_path file = p \<longrightarrow>
        \<not> needs_download (w_ledger (recovered root (run_effects (take 2 effs) w))) file)"
proof -
  have effs: "take 2 effs = [WriteFile (staged_path dest (ie_nonce env)) c,
      WriteJournal (PendingDownload p dest (staged_path dest (ie_nonce env)) (new_record file dest (sha c)))]"
    using journaled_download_success[OF assms(1,2)] assms(3) by auto
  have ne: "staged_path dest (ie_nonce env) \<noteq> dest" by (simp add: staged_path_def append_name_neq)
  have ps: "path_is_safe (staged_path dest (ie_nonce env)) root"
    using append_name_safe[OF assms(7)] by (simp add: staged_path_def)
  show ?thesis
    using assms(4,6,7) ne ne[symmetric] ps
    by (simp add: effs recovery_defs needs_download_def ledger_insert_def checksum_changed_def
        new_record_def)
qed

lemma replaced_download_recovers_stale_witness:
  "\<exists>effs s' r'. journaled_download (\<lambda>_. ''h'') calm_env ''/r/a'' (remote ''/r/a'' None) photo
       (w_ledger synced_world) no_result = (None, effs, s', r') \<and>
     w_files (recovered [RootDir, Normal ''p''] (run_effects (take 2 effs) synced_world)) photo = Some (FileNode [1])"
proof -
  obtain effs s' r' where d: "journaled_download (\<lambda>_. ''h'') calm_env ''/r/a'' (remote ''/r/a'' None) photo
      (w_ledger synced_world) no_result = (None, effs, s', r')" "sr_failures r' = sr_failures no_result"
    by (simp add: journaled_download_def calm_env_def Let_def)
  have f: "w_files synced_world photo = Some (FileNode [1])" by (simp add: synced_world_def)
  show ?thesis
    using replaced_download_recovers_stale[OF d _ f _ _ photo_safe] d(1)
    by (simp add: synced_world_def calm_env_def)
qed

section \<open>A complete run leaves nothing to do\<close>

abbreviation ledger_get :: "SyncSnapshot \<Rightarrow> string \<Rightarrow> SyncFileRecord option" where
  "ledger_get s \<equiv> bt_get (sn_files s)"

lemma ledger_ops [simp]:
  "ledger_get (ledger_insert p r s) q = (if q = p then Some r else ledger_get s q)"
  "ledger_get (ledger_remove p s) q = (if q = p then None else ledger_get s q)"
  "bt_ok (sn_files s) \<Longrightarrow> bt_ok (sn_files (ledger_insert p r s))"
  "bt_ok (sn_files s) \<Longrightarrow> bt_ok (sn_files (ledger_remove p s))"
  by (simp_all add: ledger_insert_def ledger_remove_def)

text \<open>A ledger row that a plan would not touch.\<close>

definition row_current :: "SyncFileRecord \<Rightarrow> RemoteFile \<Rightarrow> bool" where
  "row_current rec file \<longleftrightarrow> \<not> checksum_changed rec file \<and> \<not> metadata_changed rec file"

lemma row_current_new [simp]: "row_current (new_record file dest h) file"
  by (simp add: row_current_def new_record_def checksum_changed_def metadata_changed_def)

lemma row_current_updated [simp]: "row_current (update_metadata file rec) file"
  by (simp add: row_current_def update_metadata_def checksum_changed_def metadata_changed_def)

lemma download_outcome:
  assumes "journaled_download sha env p file dest s r = (e, effs, s', r')"
  shows "(\<exists>xs. sr_failures r' = sr_failures r @ xs) \<and>
     (s' = s \<or> (\<exists>h. s' = ledger_insert p (new_record file dest h) s)) \<and>
     (e = None \<longrightarrow> sr_failures r' = sr_failures r \<longrightarrow> (\<exists>h. s' = ledger_insert p (new_record file dest h) s))"
  using assms
  by (auto simp: journaled_download_def sync_failure_def Let_def split: option.splits if_splits)

lemma delete_outcome:
  assumes "journaled_delete env w p local s r = (e, effs, s', r')"
  shows "(\<exists>xs. sr_failures r' = sr_failures r @ xs) \<and> (s' = s \<or> s' = ledger_remove p s) \<and>
     (e = None \<longrightarrow> sr_failures r' = sr_failures r \<longrightarrow> s' = ledger_remove p s)"
  using assms
  by (auto simp: journaled_delete_def sync_failure_def Let_def split: option.splits if_splits node.splits)

lemma download_good:
  assumes "journaled_download sha env p file dest s r = (None, effs, s', r')"
    and "sr_failures r' = sr_failures r"
  shows "\<exists>rec. ledger_get s' p = Some rec \<and> row_current rec file"
proof -
  obtain h where "s' = ledger_insert p (new_record file dest h) s"
    using download_outcome[OF assms(1)] assms(2) by blast
  then show ?thesis by simp
qed

lemma delete_good:
  assumes "journaled_delete env w p local s r = (None, effs, s', r')"
    and "sr_failures r' = sr_failures r"
  shows "ledger_get s' p = None"
proof -
  have "s' = ledger_remove p s" using delete_outcome[OF assms(1)] assms(2) by blast
  then show ?thesis by simp
qed

text \<open>The contract of the body of a loop over the items of a plan, and what the loop then does:
  \<open>skipped\<close> are the paths it passes over, \<open>good\<close> what it makes of the row of a path it handles
  without a failure.\<close>

locale plan_items =
  fixes body :: "string \<Rightarrow> sync_run \<Rightarrow> core_error option \<times> sync_run"
    and skipped :: "string \<Rightarrow> bool"
    and good :: "string \<Rightarrow> SyncFileRecord option \<Rightarrow> bool"
  assumes failures_grow: "body p run = (e, run') \<Longrightarrow>
      \<exists>xs. sr_failures (ru_result run') = sr_failures (ru_result run) @ xs"
    and keeps_order: "body p run = (e, run') \<Longrightarrow> bt_ok (sn_files (ru_snapshot run)) \<Longrightarrow>
      bt_ok (sn_files (ru_snapshot run'))"
    and frame: "body p run = (e, run') \<Longrightarrow> q \<noteq> p \<or> skipped q \<Longrightarrow>
      ledger_get (ru_snapshot run') q = ledger_get (ru_snapshot run) q"
    and succeeds: "body p run = (None, run') \<Longrightarrow> \<not> skipped p \<Longrightarrow>
      sr_failures (ru_result run') = sr_failures (ru_result run) \<Longrightarrow>
      good p (ledger_get (ru_snapshot run') p)"
begin

lemma loop_failures:
  "item_loop body ps run = (e, run') \<Longrightarrow>
     \<exists>xs. sr_failures (ru_result run') = sr_failures (ru_result run) @ xs"
proof (induction ps arbitrary: run)
  case (Cons p ps)
  obtain e1 run1 where b: "body p run = (e1, run1)" by (cases "body p run")
  show ?case
    using Cons b failures_grow[OF b] by (cases e1) (auto, metis append.assoc)
qed simp

lemma loop_order:
  "item_loop body ps run = (e, run') \<Longrightarrow> bt_ok (sn_files (ru_snapshot run)) \<Longrightarrow>
     bt_ok (sn_files (ru_snapshot run'))"
proof (induction ps arbitrary: run)
  case (Cons p ps)
  obtain e1 run1 where b: "body p run = (e1, run1)" by (cases "body p run")
  show ?case using Cons b keeps_order[OF b] by (cases e1) auto
qed simp

lemma loop_frame:
  "item_loop body ps run = (e, run') \<Longrightarrow> q \<notin> set ps \<or> skipped q \<Longrightarrow>
     ledger_get (ru_snapshot run') q = ledger_get (ru_snapshot run) q"
proof (induction ps arbitrary: run)
  case (Cons p ps)
  obtain e1 run1 where b: "body p run = (e1, run1)" by (cases "body p run")
  have "ledger_get (ru_snapshot run1) q = ledger_get (ru_snapshot run) q"
    using frame[OF b, of q] Cons.prems(2) by auto
  then show ?case using Cons b by (cases e1) auto
qed simp

lemma loop_good:
  assumes "item_loop body ps run = (None, run')" "distinct ps"
    and "sr_failures (ru_result run') = sr_failures (ru_result run)" "p \<in> set ps" "\<not> skipped p"
  shows "good p (ledger_get (ru_snapshot run') p)"
  using assms
proof (induction ps arbitrary: run)
  case (Cons q ps)
  obtain e1 run1 where b: "body q run = (e1, run1)" by (cases "body q run")
  then have e1: "e1 = None" and rest: "item_loop body ps run1 = (None, run')"
    using Cons.prems(1) by (auto split: option.splits)
  have f1: "sr_failures (ru_result run1) = sr_failures (ru_result run)"
    and f2: "sr_failures (ru_result run') = sr_failures (ru_result run1)"
    using failures_grow[OF b] loop_failures[OF rest] Cons.prems(3) by force+
  show ?case
  proof (cases "p = q")
    case True
    then show ?thesis
      using succeeds[OF b[unfolded e1]] f1 Cons.prems(2,5) loop_frame[OF rest, of p] by auto
  next
    case False
    then show ?thesis using Cons.IH[OF rest] Cons.prems(2,4,5) f2 by auto
  qed
qed simp

end

interpretation downloads: plan_items "added_item sha env config files conflicts"
  "\<lambda>p. p \<in> set conflicts \<or> find (\<lambda>f. rf_path f = p) files = None"
  "\<lambda>p row. \<exists>file rec. find (\<lambda>f. rf_path f = p) files = Some file \<and> row = Some rec \<and> row_current rec file"
  for sha env config files conflicts
proof unfold_locales
  fix p run e run' q
  assume b: "added_item sha env config files conflicts p run = (e, run')"
  show "\<exists>xs. sr_failures (ru_result run') = sr_failures (ru_result run) @ xs"
    using b by (auto simp: added_item_def after_item_def dest!: download_outcome
        split: if_splits option.splits sum.splits prod.splits)
  show "bt_ok (sn_files (ru_snapshot run)) \<Longrightarrow> bt_ok (sn_files (ru_snapshot run'))"
    using b by (auto simp: added_item_def after_item_def dest!: download_outcome
        split: if_splits option.splits sum.splits prod.splits)
  show "q \<noteq> p \<or> (q \<in> set conflicts \<or> find (\<lambda>f. rf_path f = q) files = None) \<Longrightarrow>
      ledger_get (ru_snapshot run') q = ledger_get (ru_snapshot run) q"
    using b by (auto simp: added_item_def after_item_def dest!: download_outcome
        split: if_splits option.splits sum.splits prod.splits)
next
  fix p run run'
  assume "added_item sha env config files conflicts p run = (None, run')"
    and "\<not> (p \<in> set conflicts \<or> find (\<lambda>f. rf_path f = p) files = None)"
    and "sr_failures (ru_result run') = sr_failures (ru_result run)"
  then show "\<exists>file rec. find (\<lambda>f. rf_path f = p) files = Some file \<and>
      ledger_get (ru_snapshot run') p = Some rec \<and> row_current rec file"
    by (auto simp: added_item_def after_item_def intro: download_good
        split: if_splits option.splits sum.splits prod.splits)
qed

interpretation deletions: plan_items "deleted_item env snapshot conflicts"
  "\<lambda>p. p \<in> set conflicts \<or> ledger_get snapshot p = None" "\<lambda>p row. row = None"
  for env snapshot conflicts
proof unfold_locales
  fix p run e run' q
  assume b: "deleted_item env snapshot conflicts p run = (e, run')"
  show "\<exists>xs. sr_failures (ru_result run') = sr_failures (ru_result run) @ xs"
    using b by (auto simp: deleted_item_def after_item_def dest!: delete_outcome
        split: if_splits option.splits prod.splits)
  show "bt_ok (sn_files (ru_snapshot run)) \<Longrightarrow> bt_ok (sn_files (ru_snapshot run'))"
    using b by (auto simp: deleted_item_def after_item_def dest!: delete_outcome
        split: if_splits option.splits prod.splits)
  show "q \<noteq> p \<or> (q \<in> set conflicts \<or> ledger_get snapshot q = None) \<Longrightarrow>
      ledger_get (ru_snapshot run') q = ledger_get (ru_snapshot run) q"
    using b by (auto simp: deleted_item_def after_item_def dest!: delete_outcome
        split: if_splits option.splits prod.splits)
next
  fix p run run'
  assume "deleted_item env snapshot conflicts p run = (None, run')"
    and "\<not> (p \<in> set conflicts \<or> ledger_get snapshot p = None)"
    and "sr_failures (ru_result run') = sr_failures (ru_result run)"
  then show "ledger_get (ru_snapshot run') p = None"
    by (auto simp: deleted_item_def after_item_def intro: delete_good
        split: if_splits option.splits prod.splits)
qed

lemma exec_info_row:
  "ledger_get (exec_info files p s) q =
     (if q = p then (case find (\<lambda>f. rf_path f = p) files of
                       None \<Rightarrow> ledger_get s p
                     | Some file \<Rightarrow> map_option (update_metadata file) (ledger_get s p))
      else ledger_get s q)"
  by (auto simp: exec_info_def refresh_row_def split: option.splits)

lemma fold_exec_info_other:
  "q \<notin> set ps \<Longrightarrow> ledger_get (fold (exec_info files) ps s) q = ledger_get s q"
  by (induction ps arbitrary: s) (auto simp: exec_info_row)

lemma fold_exec_info_row:
  assumes "distinct ps" "p \<in> set ps" "find (\<lambda>f. rf_path f = p) files = Some file"
    and "ledger_get s p = Some rec"
  shows "ledger_get (fold (exec_info files) ps s) p = Some (update_metadata file rec)"
  using assms
proof (induction ps arbitrary: s)
  case (Cons q ps)
  show ?case
  proof (cases "p = q")
    case True
    then show ?thesis using Cons.prems fold_exec_info_other[of p ps] by (simp add: exec_info_row)
  next
    case False
    then show ?thesis using Cons by (simp add: exec_info_row)
  qed
qed simp

lemma exec_info_order: "bt_ok (sn_files s) \<Longrightarrow> bt_ok (sn_files (fold (exec_info files) ps s))"
  by (induction ps arbitrary: s) (auto simp: exec_info_def refresh_row_def split: option.splits)

lemma find_path:
  "distinct (map rf_path files) \<Longrightarrow> f \<in> set files \<Longrightarrow> find (\<lambda>g. rf_path g = rf_path f) files = Some f"
  by (induction files) (auto simp: image_iff)

lemma find_path_None: "p \<notin> rf_path ` set files \<Longrightarrow> find (\<lambda>g. rf_path g = p) files = None"
  by (auto simp: find_None_iff)

lemma row_settled:
  assumes "ledger_get s (rf_path f) = Some rec" "row_current rec f"
  shows "\<not> needs_download s f" "\<not> needs_metadata s f"
  using assms by (auto simp: needs_download_def needs_metadata_def row_current_def)

lemma settled_row:
  assumes "\<not> rf_is_directory f" "\<not> needs_download s f" "\<not> needs_metadata s f"
  shows "\<exists>rec. ledger_get s (rf_path f) = Some rec \<and> row_current rec f"
  using assms by (auto simp: needs_download_def needs_metadata_def row_current_def split: option.splits)

text \<open>The three phases of a run that ends without an error.\<close>

lemma execute_plan_phases:
  assumes "execute_plan sha env ok config files diff snapshot conflicts w = (None, run)"
  obtains run0 run1 run2 where
    "ru_snapshot run0 = snapshot" "sr_failures (ru_result run0) = []"
    "item_loop (added_item sha env config files conflicts) (sd_added diff) run0 = (None, run1)"
    "item_loop (deleted_item env snapshot conflicts) (sd_deleted diff) run1 = (None, run2)"
    "ru_snapshot run = fold (exec_info files) (sd_info_modified diff) (ru_snapshot run2)"
    "ru_result run = ru_result run2" "w_ledger (ru_world run) = ru_snapshot run"
proof -
  define run0 where "run0 = \<lparr>ru_world = w, ru_snapshot = snapshot, ru_result =
      \<lparr>sr_downloaded = [], sr_deleted = [], sr_failures = [], sr_conflicts = conflicts\<rparr>\<rparr>"
  obtain e1 run1 where r1:
    "item_loop (added_item sha env config files conflicts) (sd_added diff) run0 = (e1, run1)" by fastforce
  then have e1: "e1 = None"
    using assms by (auto simp: execute_plan_def run0_def[symmetric] Let_def split: option.splits)
  obtain e2 run2 where r2:
    "item_loop (deleted_item env snapshot conflicts) (sd_deleted diff) run1 = (e2, run2)" by fastforce
  then have e2: "e2 = None" and run: "run = run2\<lparr>
      ru_snapshot := fold (exec_info files) (sd_info_modified diff) (ru_snapshot run2),
      ru_world := apply_effect (SaveLedger (fold (exec_info files) (sd_info_modified diff) (ru_snapshot run2)))
        (ru_world run2)\<rparr>"
    using assms r1 e1
    by (auto simp: execute_plan_def run0_def[symmetric] Let_def split: option.splits if_splits)
  show thesis
    using that[of run0 run1 run2] r1 r2 e1 e2 run by (simp add: run0_def)
qed

text \<open>What the phases of a run without failures make of the rows, phase by phase.\<close>

lemma phase_rows:
  assumes dist: "distinct (map rf_path files)" and ok: "bt_ok (sn_files snapshot)"
    and run: "execute_plan sha env fin config files (plan_diff files snapshot) snapshot [] w = (None, run)"
    and clean: "sr_failures (ru_result run) = []"
  obtains s1 s2 where
    "\<And>q. q \<notin> set (sd_added (plan_diff files snapshot)) \<Longrightarrow> ledger_get s1 q = ledger_get snapshot q"
    "\<And>f. f \<in> set files \<Longrightarrow> needs_download snapshot f \<Longrightarrow>
       \<exists>rec. ledger_get s1 (rf_path f) = Some rec \<and> row_current rec f"
    "\<And>q. q \<notin> set (sd_deleted (plan_diff files snapshot)) \<Longrightarrow> ledger_get s2 q = ledger_get s1 q"
    "\<And>q. q \<in> set (sd_deleted (plan_diff files snapshot)) \<Longrightarrow> ledger_get s2 q = None"
    "ru_snapshot run = fold (exec_info files) (sd_info_modified (plan_diff files snapshot)) s2"
    "w_ledger (ru_world run) = ru_snapshot run"
proof -
  let ?diff = "plan_diff files snapshot"
  obtain run0 run1 run2 where p:
    "ru_snapshot run0 = snapshot" "sr_failures (ru_result run0) = []"
    "item_loop (added_item sha env config files []) (sd_added ?diff) run0 = (None, run1)"
    "item_loop (deleted_item env snapshot []) (sd_deleted ?diff) run1 = (None, run2)"
    "ru_snapshot run = fold (exec_info files) (sd_info_modified ?diff) (ru_snapshot run2)"
    "ru_result run = ru_result run2" "w_ledger (ru_world run) = ru_snapshot run"
    using execute_plan_phases[OF run] by blast
  have f1: "sr_failures (ru_result run1) = []" and f2: "sr_failures (ru_result run2) = []"
    using deletions.loop_failures[OF p(4)] p(6) clean by auto
  have da: "distinct (sd_added ?diff)" "distinct (sd_deleted ?diff)"
    using dist bt_distinct[OF ok] by (auto simp: distinct_map inj_on_def)
  have added: "\<exists>rec. ledger_get (ru_snapshot run1) (rf_path f) = Some rec \<and> row_current rec f"
    if "f \<in> set files" "needs_download snapshot f" for f
    using downloads.loop_good[OF p(3) da(1), of "rf_path f"] f1 p(2) find_path[OF dist that(1)] that by auto
  have deleted: "ledger_get (ru_snapshot run2) q = None" if "q \<in> set (sd_deleted ?diff)" for q
  proof (cases "ledger_get snapshot q")
    case None
    then show ?thesis using that by (simp add: bt_get_None_iff)
  next
    case (Some rec)
    then show ?thesis using deletions.loop_good[OF p(4) da(2) _ that] f1 f2 by auto
  qed
  show thesis
    using that[of "ru_snapshot run1" "ru_snapshot run2"] downloads.loop_frame[OF p(3)]
      deletions.loop_frame[OF p(4)] added deleted p(1,5,7) by simp
qed

lemma path_classes:
  assumes "distinct (map rf_path files)" "f \<in> set files"
  shows "rf_path f \<in> set (sd_added (plan_diff files s)) \<longleftrightarrow> needs_download s f"
    and "rf_path f \<in> set (sd_info_modified (plan_diff files s)) \<longleftrightarrow> needs_metadata s f"
    and "rf_path f \<notin> set (sd_deleted (plan_diff files s))"
  using assms by (auto simp: distinct_map dest: inj_onD)

lemma complete_run_present:
  assumes dist: "distinct (map rf_path files)" and ok: "bt_ok (sn_files snapshot)"
    and run: "execute_plan sha env fin config files (plan_diff files snapshot) snapshot [] w = (None, run)"
    and clean: "sr_failures (ru_result run) = []"
    and f: "f \<in> set files" "\<not> rf_is_directory f"
  shows "\<exists>rec. ledger_get (ru_snapshot run) (rf_path f) = Some rec \<and> row_current rec f"
proof -
  note cls = path_classes[OF dist f(1), of snapshot]
  obtain s1 s2 where s: 
    "\<And>q. q \<notin> set (sd_added (plan_diff files snapshot)) \<Longrightarrow> ledger_get s1 q = ledger_get snapshot q"
    "\<And>f. f \<in> set files \<Longrightarrow> needs_download snapshot f \<Longrightarrow>
       \<exists>rec. ledger_get s1 (rf_path f) = Some rec \<and> row_current rec f"
    "\<And>q. q \<notin> set (sd_deleted (plan_diff files snapshot)) \<Longrightarrow> ledger_get s2 q = ledger_get s1 q"
    "ru_snapshot run = fold (exec_info files) (sd_info_modified (plan_diff files snapshot)) s2"
    using phase_rows[OF dist ok run clean] by metis
  have s2: "ledger_get s2 (rf_path f) = ledger_get s1 (rf_path f)" using s(3) cls(3) by blast
  show ?thesis
  proof (cases "needs_metadata snapshot f")
    case True
    then have "ledger_get s2 (rf_path f) = ledger_get snapshot (rf_path f)"
      using s(1) s2 cls(1) needs_exclusive by metis
    moreover obtain rec where "ledger_get snapshot (rf_path f) = Some rec"
      using True by (auto simp: needs_metadata_def split: option.splits)
    moreover have "distinct (sd_info_modified (plan_diff files snapshot))"
      using dist by (auto simp: distinct_map inj_on_def)
    ultimately show ?thesis
      using fold_exec_info_row[OF _ _ find_path[OF dist f(1)]] s(4) cls(2) True by force
  next
    case False
    then have run2: "ledger_get (ru_snapshot run) (rf_path f) = ledger_get s1 (rf_path f)"
      using fold_exec_info_other[of "rf_path f"] s(4) s2 cls(2) by metis
    show ?thesis
    proof (cases "needs_download snapshot f")
      case True
      then show ?thesis using s(2)[OF f(1)] run2 by simp
    next
      case no: False
      then show ?thesis using settled_row[OF f(2) no False] run2 s(1) cls(1) by metis
    qed
  qed
qed

lemma complete_run_absent:
  assumes dist: "distinct (map rf_path files)" and ok: "bt_ok (sn_files snapshot)"
    and run: "execute_plan sha env fin config files (plan_diff files snapshot) snapshot [] w = (None, run)"
    and clean: "sr_failures (ru_result run) = []" and q: "q \<notin> rf_path ` set files"
  shows "ledger_get (ru_snapshot run) q = None \<and> w_ledger (ru_world run) = ru_snapshot run"
proof -
  have n: "q \<notin> set (sd_added (plan_diff files snapshot))"
    "q \<notin> set (sd_info_modified (plan_diff files snapshot))" using q by auto
  have d: "q \<notin> set (sd_deleted (plan_diff files snapshot)) \<Longrightarrow> ledger_get snapshot q = None"
    using q by (auto simp: bt_get_None_iff)
  show ?thesis
    using phase_rows[OF dist ok run clean] fold_exec_info_other[OF n(2)] n(1) d by metis
qed

text \<open>C8: a sync run that ends without failures or conflicts leaves nothing to do. After executing the
  plan for the files the phone listed, planning again for the same files finds nothing to
  download, refresh or delete, and the ledger on disk is the one in memory.\<close>

theorem complete_run_converges:
  assumes "distinct (map rf_path files)" "bt_ok (sn_files snapshot)"
    and "execute_plan sha env fin config files (plan_diff files snapshot) snapshot [] w = (None, run)"
    and "sr_failures (ru_result run) = []"
  shows "plan_diff files (ru_snapshot run) = diff_empty \<and> w_ledger (ru_world run) = ru_snapshot run"
proof -
  note present = complete_run_present[OF assms] and absent = complete_run_absent[OF assms]
  have "\<not> needs_download (ru_snapshot run) f \<and> \<not> needs_metadata (ru_snapshot run) f"
    if "f \<in> set files" for f
  proof (cases "rf_is_directory f")
    case True
    then show ?thesis by (simp add: needs_download_def needs_metadata_def)
  next
    case False
    then show ?thesis using present[OF that False] row_settled by blast
  qed
  moreover have "q \<in> rf_path ` set files" if "q \<in> set (bt_keys (sn_files (ru_snapshot run)))" for q
    using absent[of q] that by (auto simp: bt_get_None_iff)
  ultimately have "plan_diff files (ru_snapshot run) =
      \<lparr>sd_added = [], sd_info_modified = [], sd_deleted = [], sd_conflicts = []\<rparr>"
    by (intro SyncDiff.equality) (auto simp: filter_empty_conv)
  moreover have "w_ledger (ru_world run) = ru_snapshot run"
    using phase_rows[OF assms] by metis
  ultimately show ?thesis by (simp add: diff_empty_def)
qed

definition photo_config :: SyncConfig where
  "photo_config = \<lparr>sc_device_uuid = ''u'', sc_phone_root = ''/r'', sc_local_root = ''/p'', sc_pc_id = ''c''\<rparr>"

theorem complete_run_converges_witness:
  "\<exists>run. execute_plan (\<lambda>_. ''h'') (\<lambda>_. calm_env) True photo_config [remote ''/r/a'' None]
       (plan_diff [remote ''/r/a'' None] \<lparr>sn_files = []\<rparr>) \<lparr>sn_files = []\<rparr> [] synced_world = (None, run) \<and>
     plan_diff [remote ''/r/a'' None] (ru_snapshot run) = diff_empty \<and> w_ledger (ru_world run) = ru_snapshot run"
proof -
  have dest: "local_destination photo_config ''/r/a'' = Inr photo" by code_simp
  have diff: "plan_diff [remote ''/r/a'' None] \<lparr>sn_files = []\<rparr> = diff_empty\<lparr>sd_added := [''/r/a'']\<rparr>"
    by code_simp
  obtain run where run: "execute_plan (\<lambda>_. ''h'') (\<lambda>_. calm_env) True photo_config [remote ''/r/a'' None]
       (plan_diff [remote ''/r/a'' None] \<lparr>sn_files = []\<rparr>) \<lparr>sn_files = []\<rparr> [] synced_world = (None, run)"
    "sr_failures (ru_result run) = []"
    unfolding execute_plan_def diff
    by (simp add: diff_empty_def added_item_def remote_def dest after_item_def
        journaled_download_def calm_env_def Let_def)
  have "distinct (map rf_path [remote ''/r/a'' None])" "bt_ok (sn_files \<lparr>sn_files = []\<rparr>)"
    by (simp_all add: bt_ok_def bt_keys_def)
  from complete_run_converges[OF this run] run(1) show ?thesis by blast
qed

end
