(* ===== verification/Transfers.thy ===== *)
theory Transfers
  imports Errors Stores
begin

text \<open>
  The transfer registry, \<open>handshaker-application/src/transfer.rs\<close>: task states, cancellation,
  bounded history and throttled progress events. The registry is guarded by mutexes, so every
  method is one function of its state. The clock, the set of tasks that have finished and the
  iteration order of the \<open>HashMap\<close> are arguments. A published event is the snapshot it carries.
\<close>

section \<open>State\<close>

datatype TransferState = Queued | Running | Completed | Failed | CancelledState

datatype TransferDirectionDto = DownloadDto | UploadDto

record BatchTransferItemDto =
  bid_source :: string
  bid_target :: string

record TransferFailureDto =
  tfd_source :: string
  tfd_target :: string
  tfd_message :: string

record BatchTransferResultDto =
  brd_ok :: "BatchTransferItemDto list"
  brd_failures :: "TransferFailureDto list"

record TransferSnapshot =
  ts_id :: nat
  ts_session_id :: nat
  ts_direction :: TransferDirectionDto
  ts_source :: string
  ts_destination :: string
  ts_state :: TransferState
  ts_transferred_bytes :: nat
  ts_total_bytes :: "nat option"
  ts_started_at_ms :: "nat option"
  ts_finished_at_ms :: "nat option"
  ts_error :: "PublicError option"
  ts_item_count :: nat
  ts_completed_items :: nat
  ts_failed_items :: nat
  ts_current_item :: "string option"
  ts_batch_result :: "BatchTransferResultDto option"

text \<open>A published task is named by a number.\<close>

datatype TaskPublication = Reserved | Published nat | Finished | Taken

record ProgressThrottle =
  pt_last_emit_ms :: nat
  pt_last_emit_bytes :: nat

record ActiveTransfer =
  at_snapshot :: TransferSnapshot
  at_cancelled :: bool
  at_join :: TaskPublication
  at_throttle :: ProgressThrottle

definition PROGRESS_MIN_INTERVAL_MS :: nat where
  "PROGRESS_MIN_INTERVAL_MS = 100"

definition PROGRESS_MIN_BYTES :: nat where
  "PROGRESS_MIN_BYTES = 256 * 1024"

type_synonym transfers = "(nat, ActiveTransfer) btree"

record TransferRegistry =
  tr_transfers :: transfers
  tr_next_id :: nat
  tr_history_capacity :: nat
  tr_history_ttl :: "nat option"
  tr_events :: "TransferSnapshot list"

definition registry_new :: "nat \<Rightarrow> nat option \<Rightarrow> TransferRegistry" where
  "registry_new history_capacity history_ttl =
     \<lparr>tr_transfers = [], tr_next_id = 1, tr_history_capacity = max history_capacity 1,
      tr_history_ttl = history_ttl, tr_events = []\<rparr>"

definition terminal :: "TransferState \<Rightarrow> bool" where
  "terminal s \<longleftrightarrow> s = Completed \<or> s = Failed \<or> s = CancelledState"

section \<open>Bounded history\<close>

definition can_evict :: "(nat \<Rightarrow> bool) \<Rightarrow> ActiveTransfer \<Rightarrow> bool" where
  "can_evict task_done entry =
     (if ts_finished_at_ms (at_snapshot entry) = None then False
      else case at_join entry of
             Reserved \<Rightarrow> False
           | Finished \<Rightarrow> True
           | Taken \<Rightarrow> True
           | Published task \<Rightarrow> task_done task)"

definition reap_expired :: "(nat \<Rightarrow> bool) \<Rightarrow> nat \<Rightarrow> nat option \<Rightarrow> transfers \<Rightarrow> transfers" where
  "reap_expired task_done now ttl m =
     (case ttl of
        None \<Rightarrow> m
      | Some ttl_ms \<Rightarrow>
          filter (\<lambda>(_, entry).
             if \<not> can_evict task_done entry then True
             else (case ts_finished_at_ms (at_snapshot entry) of
                     Some finished \<Rightarrow> now - finished < ttl_ms
                   | None \<Rightarrow> True)) m)"

text \<open>The first entry with the least finishing time, in the iteration order of the map.\<close>

fun min_finished :: "(nat \<times> nat) list \<Rightarrow> (nat \<times> nat) option" where
  "min_finished [] = None"
| "min_finished ((i, t) # rest) =
     (case min_finished rest of
        None \<Rightarrow> Some (i, t)
      | Some (j, u) \<Rightarrow> if u < t then Some (j, u) else Some (i, t))"

definition oldest_finished ::
  "(nat \<Rightarrow> bool) \<Rightarrow> (transfers \<Rightarrow> transfers) \<Rightarrow> transfers \<Rightarrow> nat option" where
  "oldest_finished task_done iter m =
     map_option fst (min_finished
       (List.map_filter (\<lambda>(i, entry).
          if \<not> can_evict task_done entry then None
          else map_option (\<lambda>t. (i, t)) (ts_finished_at_ms (at_snapshot entry))) (iter m)))"

function reap_capacity ::
  "(nat \<Rightarrow> bool) \<Rightarrow> (transfers \<Rightarrow> transfers) \<Rightarrow> nat \<Rightarrow> transfers \<Rightarrow> transfers" where
  "reap_capacity task_done iter capacity m =
     (if length m \<le> capacity then m
      else case oldest_finished task_done iter m of
             None \<Rightarrow> m
           | Some i \<Rightarrow> if bt_get m i = None then m
                       else reap_capacity task_done iter capacity (bt_remove i m))"
  by pat_completeness auto
termination
proof (relation "measure (\<lambda>(_, _, _, m). length m)", goal_cases)
  case (2 task_done iter capacity m i)
  then have "(i, the (bt_get m i)) \<in> set m"
    by (auto simp: bt_get_def dest: map_of_SomeD)
  then have "length (filter (\<lambda>(k, _). k \<noteq> i) m) < length m"
    by (intro length_filter_less[where x = "(i, the (bt_get m i))"]) auto
  then show ?case by (simp add: bt_remove_def)
qed simp

declare reap_capacity.simps [simp del]

definition reap_locked ::
  "(nat \<Rightarrow> bool) \<Rightarrow> (transfers \<Rightarrow> transfers) \<Rightarrow> nat \<Rightarrow> TransferRegistry \<Rightarrow> TransferRegistry" where
  "reap_locked task_done iter now reg =
     reg\<lparr>tr_transfers := reap_capacity task_done iter (tr_history_capacity reg)
           (reap_expired task_done now (tr_history_ttl reg) (tr_transfers reg))\<rparr>"

section \<open>Operations\<close>

definition snapshot_for ::
  "nat \<Rightarrow> nat \<Rightarrow> TransferDirectionDto \<Rightarrow> string \<Rightarrow> string \<Rightarrow> TransferRegistry
   \<Rightarrow> TransferSnapshot \<times> TransferRegistry" where
  "snapshot_for now session_id direction source destination reg =
     (\<lparr>ts_id = tr_next_id reg, ts_session_id = session_id, ts_direction = direction,
       ts_source = source, ts_destination = destination, ts_state = Queued,
       ts_transferred_bytes = 0, ts_total_bytes = None, ts_started_at_ms = Some now,
       ts_finished_at_ms = None, ts_error = None, ts_item_count = 0, ts_completed_items = 0,
       ts_failed_items = 0, ts_current_item = None, ts_batch_result = None\<rparr>,
      reg\<lparr>tr_next_id := tr_next_id reg + 1\<rparr>)"

definition register ::
  "(nat \<Rightarrow> bool) \<Rightarrow> (transfers \<Rightarrow> transfers) \<Rightarrow> nat \<Rightarrow> TransferSnapshot \<Rightarrow> TransferRegistry \<Rightarrow> TransferRegistry" where
  "register task_done iter now snapshot reg =
     (let entry = \<lparr>at_snapshot = snapshot, at_cancelled = False, at_join = Reserved,
                   at_throttle = \<lparr>pt_last_emit_ms = 0, pt_last_emit_bytes = 0\<rparr>\<rparr>
      in reap_locked task_done iter now
           (reg\<lparr>tr_transfers := bt_insert (ts_id snapshot) entry (tr_transfers reg)\<rparr>))"

definition get_transfer :: "nat \<Rightarrow> TransferRegistry \<Rightarrow> TransferSnapshot app_result" where
  "get_transfer i reg =
     (case bt_get (tr_transfers reg) i of
        None \<Rightarrow> Inl (public_error_new TransferNotFound ''transfer not found'')
      | Some entry \<Rightarrow> Inr (at_snapshot entry))"

definition publish_update :: "TransferSnapshot \<Rightarrow> TransferRegistry \<Rightarrow> TransferRegistry" where
  "publish_update snapshot reg = reg\<lparr>tr_events := tr_events reg @ [snapshot]\<rparr>"

definition update_entry ::
  "nat \<Rightarrow> (ActiveTransfer \<Rightarrow> ActiveTransfer) \<Rightarrow> TransferRegistry \<Rightarrow> TransferRegistry" where
  "update_entry i f reg =
     (case bt_get (tr_transfers reg) i of
        None \<Rightarrow> reg
      | Some entry \<Rightarrow> reg\<lparr>tr_transfers := bt_insert i (f entry) (tr_transfers reg)\<rparr>)"

definition transition_snapshot :: "nat \<Rightarrow> TransferState \<Rightarrow> TransferSnapshot \<Rightarrow> TransferSnapshot" where
  "transition_snapshot now next snapshot =
     (if terminal (ts_state snapshot) then snapshot
      else let s1 = snapshot\<lparr>ts_state := next\<rparr> in
           if terminal next then s1\<lparr>ts_finished_at_ms := Some now\<rparr> else s1)"

definition transition ::
  "nat \<Rightarrow> nat \<Rightarrow> TransferState \<Rightarrow> TransferRegistry \<Rightarrow> TransferSnapshot option \<times> TransferRegistry" where
  "transition now i next reg =
     (case bt_get (tr_transfers reg) i of
        None \<Rightarrow> (None, reg)
      | Some entry \<Rightarrow>
          (let s = transition_snapshot now next (at_snapshot entry)
           in (Some s, update_entry i (\<lambda>e. e\<lparr>at_snapshot := s\<rparr>) reg)))"

text \<open>A transition whose snapshot is published.\<close>

definition transition_published :: "nat \<Rightarrow> nat \<Rightarrow> TransferState \<Rightarrow> TransferRegistry \<Rightarrow> TransferRegistry" where
  "transition_published now i next reg =
     (case transition now i next reg of
        (None, reg1) \<Rightarrow> reg1
      | (Some s, reg1) \<Rightarrow> publish_update s reg1)"

definition cancel_transfer :: "nat \<Rightarrow> nat \<Rightarrow> TransferRegistry \<Rightarrow> unit app_result \<times> TransferRegistry" where
  "cancel_transfer now i reg =
     (case bt_get (tr_transfers reg) i of
        None \<Rightarrow> (Inl (public_error_new TransferNotFound ''transfer not found''), reg)
      | Some _ \<Rightarrow>
          (Inr (), transition_published now i CancelledState
                     (update_entry i (\<lambda>e. e\<lparr>at_cancelled := True\<rparr>) reg)))"

text \<open>One entry of \<open>cancel_for_session\<close>: token, state, then the join handle.\<close>

definition cancel_entry ::
  "nat \<Rightarrow> nat \<times> bool \<Rightarrow> TransferRegistry \<times> nat list \<Rightarrow> TransferRegistry \<times> nat list" where
  "cancel_entry now item st =
     (let (i, was_terminal) = item; (reg, joins) = st;
          reg1 = update_entry i (\<lambda>e. e\<lparr>at_cancelled := True\<rparr>) reg;
          reg2 = (if was_terminal then reg1 else transition_published now i CancelledState reg1)
      in case bt_get (tr_transfers reg2) i of
           None \<Rightarrow> (reg2, joins)
         | Some entry \<Rightarrow>
             (update_entry i (\<lambda>e. e\<lparr>at_join := Taken\<rparr>) reg2,
              case at_join entry of Published task \<Rightarrow> joins @ [task] | _ \<Rightarrow> joins))"

definition cancel_for_session :: "nat \<Rightarrow> nat \<Rightarrow> TransferRegistry \<Rightarrow> TransferRegistry \<times> nat list" where
  "cancel_for_session now session_id reg =
     (let entries = map (\<lambda>(i, e). (i, terminal (ts_state (at_snapshot e))))
                      (filter (\<lambda>(_, e). ts_session_id (at_snapshot e) = session_id) (tr_transfers reg))
      in fold (cancel_entry now) entries (reg, []))"

definition reap :: "(nat \<Rightarrow> bool) \<Rightarrow> TransferRegistry \<Rightarrow> TransferRegistry" where
  "reap task_done reg =
     reg\<lparr>tr_transfers := map (\<lambda>(i, e).
       (i, case at_join e of
             Published task \<Rightarrow> if task_done task then e\<lparr>at_join := Finished\<rparr> else e
           | _ \<Rightarrow> e)) (tr_transfers reg)\<rparr>"

definition throttle_allows ::
  "ProgressThrottle \<Rightarrow> nat \<Rightarrow> nat option \<Rightarrow> bool \<times> ProgressThrottle" where
  "throttle_allows throttle now bytes =
     (let enough_time = (now - pt_last_emit_ms throttle \<ge> PROGRESS_MIN_INTERVAL_MS);
          enough_bytes = (case bytes of
                            Some b \<Rightarrow> b - pt_last_emit_bytes throttle \<ge> PROGRESS_MIN_BYTES
                          | None \<Rightarrow> False)
      in if enough_time \<or> enough_bytes
         then (True, \<lparr>pt_last_emit_ms = now,
                      pt_last_emit_bytes = (case bytes of Some b \<Rightarrow> b
                                            | None \<Rightarrow> pt_last_emit_bytes throttle)\<rparr>)
         else (False, throttle))"

definition throttled_update ::
  "nat \<Rightarrow> nat \<Rightarrow> nat option \<Rightarrow> (TransferSnapshot \<Rightarrow> TransferSnapshot) \<Rightarrow> TransferRegistry \<Rightarrow> TransferRegistry" where
  "throttled_update now i bytes change reg =
     (case bt_get (tr_transfers reg) i of
        None \<Rightarrow> reg
      | Some entry \<Rightarrow>
          (let s1 = change (at_snapshot entry);
               s2 = (if terminal (ts_state s1) then s1 else s1\<lparr>ts_state := Running\<rparr>);
               (emit, throttle) = throttle_allows (at_throttle entry) now bytes;
               reg1 = update_entry i (\<lambda>e. e\<lparr>at_snapshot := s2, at_throttle := throttle\<rparr>) reg
           in if emit then publish_update s2 reg1 else reg1))"

definition set_progress :: "nat \<Rightarrow> nat \<Rightarrow> nat \<Rightarrow> nat \<Rightarrow> TransferRegistry \<Rightarrow> TransferRegistry" where
  "set_progress now i transferred tot reg =
     throttled_update now i (Some transferred)
       (\<lambda>s. s\<lparr>ts_transferred_bytes := transferred, ts_total_bytes := Some tot\<rparr>) reg"

definition set_batch_items ::
  "nat \<Rightarrow> nat \<Rightarrow> nat \<Rightarrow> nat \<Rightarrow> string option \<Rightarrow> TransferRegistry \<Rightarrow> TransferRegistry" where
  "set_batch_items now i completed failed current reg =
     throttled_update now i None
       (\<lambda>s. s\<lparr>ts_completed_items := completed, ts_failed_items := failed,
             ts_current_item := current\<rparr>) reg"

definition set_batch_result :: "nat \<Rightarrow> BatchTransferResultDto \<Rightarrow> TransferRegistry \<Rightarrow> TransferRegistry" where
  "set_batch_result i result reg =
     update_entry i (\<lambda>e. if terminal (ts_state (at_snapshot e)) then e
        else e\<lparr>at_snapshot := (at_snapshot e)\<lparr>ts_batch_result := Some result\<rparr>\<rparr>) reg"

definition set_error :: "nat \<Rightarrow> PublicError \<Rightarrow> TransferRegistry \<Rightarrow> TransferRegistry" where
  "set_error i error reg =
     update_entry i (\<lambda>e. e\<lparr>at_snapshot := (at_snapshot e)\<lparr>ts_error := Some error\<rparr>\<rparr>) reg"

text \<open>The launcher puts the handle of the spawned task into the slot of the entry it registered.\<close>

definition publish_task :: "nat \<Rightarrow> nat \<Rightarrow> TransferRegistry \<Rightarrow> TransferRegistry" where
  "publish_task i task reg = update_entry i (\<lambda>e. e\<lparr>at_join := Published task\<rparr>) reg"

text \<open>The start of a background transfer: a fresh id, registered while nothing runs yet.\<close>

definition start_transfer ::
  "(nat \<Rightarrow> bool) \<Rightarrow> (transfers \<Rightarrow> transfers) \<Rightarrow> nat \<Rightarrow> nat \<Rightarrow> TransferDirectionDto \<Rightarrow> string \<Rightarrow> string
   \<Rightarrow> TransferRegistry \<Rightarrow> TransferRegistry" where
  "start_transfer task_done iter now session_id direction source destination reg =
     (case snapshot_for now session_id direction source destination reg of
        (snapshot, reg1) \<Rightarrow> register task_done iter now snapshot reg1)"


section \<open>Task bodies\<close>

text \<open>
  The registry calls of a background task. The first is made when the task starts. When the core
  call returns, its result decides the rest; \<open>ready\<close> tells whether the session was still
  \<open>Ready\<close>, so that \<open>mark_connection_lost\<close> cancels the other transfers of the session.
\<close>

definition task_running :: "nat \<Rightarrow> nat \<Rightarrow> TransferRegistry \<Rightarrow> TransferRegistry" where
  "task_running now i reg = snd (transition now i Running reg)"

definition publish_current :: "nat \<Rightarrow> TransferRegistry \<Rightarrow> TransferRegistry" where
  "publish_current i reg =
     (case get_transfer i reg of
        Inl _ \<Rightarrow> reg
      | Inr snapshot \<Rightarrow> publish_update snapshot reg)"

definition lost_transfers :: "bool \<Rightarrow> nat \<Rightarrow> nat \<Rightarrow> TransferRegistry \<Rightarrow> TransferRegistry" where
  "lost_transfers ready now session_id reg =
     (if ready then fst (cancel_for_session now session_id reg) else reg)"

definition task_finished ::
  "(core_error \<Rightarrow> string) \<Rightarrow> bool \<Rightarrow> nat \<Rightarrow> nat \<Rightarrow> nat \<Rightarrow> string \<Rightarrow> core_error + nat
   \<Rightarrow> TransferRegistry \<Rightarrow> TransferRegistry" where
  "task_finished display ready now i session_id operation result reg =
     (case result of
        Inr bytes \<Rightarrow> transition_published now i Completed (set_progress now i bytes bytes reg)
      | Inl e \<Rightarrow>
          (let reg1 = (if error_code e = CancelledCode \<or> error_code e = InterruptedCode
                       then snd (transition now i CancelledState reg)
                       else snd (transition now i Failed
                              (set_error i (from_core_error display e operation) reg)));
               reg2 = publish_current i reg1
           in if transfer_closed_the_session e then lost_transfers ready now session_id reg2
              else reg2))"

end
