(* ===== verification/TransferFacts.thy ===== *)
theory TransferFacts
  imports Transfers Machines
begin

text \<open>
  What the transfer registry guarantees whatever the order in which launchers, background tasks,
  callers that cancel and sessions that close take its lock. A step is one operation of the
  registry; \<open>entry_le\<close> is the one-way order of a transfer's life. A task's registry calls
  are separate steps, so other steps may run between them.
\<close>

section \<open>The life of one transfer\<close>

definition rank :: "TransferState \<Rightarrow> nat" where
  "rank s = (case s of Queued \<Rightarrow> 0 | Running \<Rightarrow> 1 | _ \<Rightarrow> 2)"

definition snapshot_le :: "TransferSnapshot \<Rightarrow> TransferSnapshot \<Rightarrow> bool" where
  "snapshot_le s s' \<longleftrightarrow>
     ts_id s' = ts_id s \<and> ts_session_id s' = ts_session_id s \<and> ts_direction s' = ts_direction s \<and>
     ts_source s' = ts_source s \<and> ts_destination s' = ts_destination s \<and>
     ts_started_at_ms s' = ts_started_at_ms s \<and> rank (ts_state s) \<le> rank (ts_state s') \<and>
     (terminal (ts_state s) \<longrightarrow>
        ts_state s' = ts_state s \<and> ts_finished_at_ms s' = ts_finished_at_ms s \<and>
        ts_batch_result s' = ts_batch_result s)"

definition stamped :: "TransferSnapshot \<Rightarrow> bool" where
  "stamped s \<longleftrightarrow> (ts_finished_at_ms s = None) = (\<not> terminal (ts_state s))"

definition entry_le :: "ActiveTransfer \<Rightarrow> ActiveTransfer \<Rightarrow> bool" where
  "entry_le e e' \<longleftrightarrow>
     snapshot_le (at_snapshot e) (at_snapshot e') \<and> (at_cancelled e \<longrightarrow> at_cancelled e') \<and>
     (stamped (at_snapshot e) \<longrightarrow> stamped (at_snapshot e'))"

lemma snapshot_le_refl [simp]: "snapshot_le s s"
  by (simp add: snapshot_le_def)

lemma snapshot_le_trans: "snapshot_le s t \<Longrightarrow> snapshot_le t u \<Longrightarrow> snapshot_le s u"
  by (auto simp: snapshot_le_def)

lemma entry_le_refl [simp]: "entry_le e e"
  by (simp add: entry_le_def)

lemma entry_le_trans: "entry_le e f \<Longrightarrow> entry_le f g \<Longrightarrow> entry_le e g"
  by (auto simp: entry_le_def intro: snapshot_le_trans)

lemma terminal_rank: "terminal s \<longleftrightarrow> rank s = 2"
  by (cases s) (simp_all add: terminal_def rank_def)

lemma terminal_simps [simp]:
  "terminal Completed" "terminal Failed" "terminal CancelledState" "\<not> terminal Queued" "\<not> terminal Running"
  by (simp_all add: terminal_def)

lemma rank_bound [simp]: "rank s \<le> 2"
  by (cases s) (simp_all add: rank_def)

lemma transition_snapshot_le:
  "rank (ts_state s) \<le> rank next \<Longrightarrow> snapshot_le s (transition_snapshot now next s)"
  by (auto simp: snapshot_le_def transition_snapshot_def Let_def)

lemma transition_snapshot_stamped:
  "stamped s \<Longrightarrow> stamped (transition_snapshot now next s)"
  by (auto simp: stamped_def transition_snapshot_def Let_def)

lemma transition_snapshot_terminal:
  "terminal next \<Longrightarrow> terminal (ts_state (transition_snapshot now next s))"
  by (simp add: transition_snapshot_def Let_def)

section \<open>Updates of one entry\<close>

definition registry_le :: "TransferRegistry \<Rightarrow> TransferRegistry \<Rightarrow> bool" where
  "registry_le reg reg' \<longleftrightarrow>
     tr_next_id reg' = tr_next_id reg \<and> tr_history_capacity reg' = tr_history_capacity reg \<and>
     (\<forall>i. case bt_get (tr_transfers reg) i of
            None \<Rightarrow> bt_get (tr_transfers reg') i = None
          | Some e \<Rightarrow> (\<exists>e'. bt_get (tr_transfers reg') i = Some e' \<and> entry_le e e'))"

definition transfers_ok :: "TransferRegistry \<Rightarrow> bool" where
  "transfers_ok reg \<longleftrightarrow> bt_ok (tr_transfers reg) \<and> 1 \<le> tr_history_capacity reg \<and>
     (\<forall>i e. bt_get (tr_transfers reg) i = Some e \<longrightarrow>
        ts_id (at_snapshot e) = i \<and> i < tr_next_id reg \<and> stamped (at_snapshot e))"

lemma registry_le_refl [simp]: "registry_le reg reg"
  by (auto simp: registry_le_def split: option.split)

lemma registry_le_trans:
  assumes "registry_le a b" "registry_le b c" shows "registry_le a c"
  unfolding registry_le_def
proof (intro conjI allI)
  fix i
  show "case bt_get (tr_transfers a) i of None \<Rightarrow> bt_get (tr_transfers c) i = None
        | Some e \<Rightarrow> \<exists>e'. bt_get (tr_transfers c) i = Some e' \<and> entry_le e e'"
    using assms unfolding registry_le_def
    by (auto dest!: spec[of _ i] split: option.splits) (blast intro: entry_le_trans)
qed (use assms in \<open>simp_all add: registry_le_def\<close>)

lemma registry_le_ok:
  assumes le: "registry_le reg reg'" and ok: "transfers_ok reg" and sorted: "bt_ok (tr_transfers reg')"
  shows "transfers_ok reg'"
  unfolding transfers_ok_def
proof (intro conjI allI impI)
  fix i e'
  assume "bt_get (tr_transfers reg') i = Some e'"
  then obtain e where e: "bt_get (tr_transfers reg) i = Some e" "entry_le e e'"
    using le by (auto simp: registry_le_def dest!: spec[of _ i] split: option.splits)
  then have "ts_id (at_snapshot e) = i" "i < tr_next_id reg" "stamped (at_snapshot e)"
    using ok by (auto simp: transfers_ok_def)
  then show "ts_id (at_snapshot e') = i" "i < tr_next_id reg'" "stamped (at_snapshot e')"
    using e le by (auto simp: entry_le_def snapshot_le_def registry_le_def)
qed (use assms in \<open>simp_all add: registry_le_def transfers_ok_def\<close>)

lemma update_entry_get:
  "bt_get (tr_transfers (update_entry i f reg)) j =
     (if j = i then map_option f (bt_get (tr_transfers reg) i) else bt_get (tr_transfers reg) j)"
  by (auto simp: update_entry_def split: option.split)

lemma update_entry_ok [simp]:
  "bt_ok (tr_transfers reg) \<Longrightarrow> bt_ok (tr_transfers (update_entry i f reg))"
  by (auto simp: update_entry_def split: option.split)

lemma update_entry_rest [simp]:
  "tr_next_id (update_entry i f reg) = tr_next_id reg"
  "tr_history_capacity (update_entry i f reg) = tr_history_capacity reg"
  "tr_events (update_entry i f reg) = tr_events reg"
  by (auto simp: update_entry_def split: option.split)

lemma update_entry_le:
  assumes "\<And>e. bt_get (tr_transfers reg) i = Some e \<Longrightarrow> entry_le e (f e)"
  shows "registry_le reg (update_entry i f reg)"
  using assms by (auto simp: registry_le_def update_entry_get split: option.split)

lemma publish_update_le [simp]:
  "registry_le reg (publish_update s reg') = registry_le reg reg'"
  "tr_transfers (publish_update s reg') = tr_transfers reg'"
  "tr_next_id (publish_update s reg') = tr_next_id reg'"
  by (simp_all add: publish_update_def registry_le_def cong: option.case_cong)

section \<open>The operations follow the order\<close>

definition kept :: "TransferRegistry \<Rightarrow> TransferRegistry \<Rightarrow> bool" where
  "kept reg reg' \<longleftrightarrow> registry_le reg reg' \<and> (bt_ok (tr_transfers reg) \<longrightarrow> bt_ok (tr_transfers reg'))"

lemma kept_refl [simp]: "kept reg reg"
  by (simp add: kept_def)

lemma kept_trans: "kept a b \<Longrightarrow> kept b c \<Longrightarrow> kept a c"
  by (auto simp: kept_def intro: registry_le_trans)

lemma kept_ok: "kept reg reg' \<Longrightarrow> transfers_ok reg \<Longrightarrow> transfers_ok reg'"
  by (rule registry_le_ok) (auto simp: kept_def transfers_ok_def)

lemma kept_update:
  assumes "\<And>e. bt_get (tr_transfers reg) i = Some e \<Longrightarrow> entry_le e (f e)"
  shows "kept reg (update_entry i f reg)"
  using update_entry_le[of reg i f] assms by (simp add: kept_def)

lemma kept_publish [simp]: "kept reg (publish_update s reg') = kept reg reg'"
  by (simp add: kept_def)

lemma kept_publish_current [simp]: "kept reg (publish_current i reg') = kept reg reg'"
  by (simp add: publish_current_def split: sum.split)

lemma transition_cases:
  "transition now i next reg =
     (map_option (\<lambda>e. transition_snapshot now next (at_snapshot e)) (bt_get (tr_transfers reg) i),
      update_entry i (\<lambda>e. e\<lparr>at_snapshot := transition_snapshot now next (at_snapshot e)\<rparr>) reg)"
  by (auto simp: transition_def update_entry_def Let_def split: option.split)

lemma kept_transition:
  assumes "next \<noteq> Queued"
    and "next = Running \<or> terminal next"
  shows "kept reg (snd (transition now i next reg))"
proof -
  have "entry_le e (e\<lparr>at_snapshot := transition_snapshot now next (at_snapshot e)\<rparr>)" for e
  proof (cases "terminal (ts_state (at_snapshot e))")
    case True
    then show ?thesis by (simp add: transition_snapshot_def)
  next
    case False
    then have "rank (ts_state (at_snapshot e)) \<le> rank next"
      using assms by (cases "ts_state (at_snapshot e)"; cases "next")
        (simp_all add: rank_def terminal_def)
    then show ?thesis
      by (simp add: entry_le_def transition_snapshot_le transition_snapshot_stamped)
  qed
  then show ?thesis by (simp add: transition_cases kept_update)
qed

lemma kept_transition_published:
  assumes "next = Running \<or> terminal next"
  shows "kept reg (transition_published now i next reg)"
proof -
  have "next \<noteq> Queued" using assms by (auto simp: terminal_def)
  then have "kept reg (snd (transition now i next reg))" using assms by (rule kept_transition)
  then show ?thesis
    by (cases "transition now i next reg") (auto simp: transition_published_def split: option.split)
qed

lemma kept_cancel: "kept reg (snd (cancel_transfer now i reg))"
proof -
  have "kept reg (update_entry i (\<lambda>e. e\<lparr>at_cancelled := True\<rparr>) reg)"
    by (rule kept_update) (simp add: entry_le_def)
  moreover have "kept (update_entry i (\<lambda>e. e\<lparr>at_cancelled := True\<rparr>) reg)
      (transition_published now i CancelledState (update_entry i (\<lambda>e. e\<lparr>at_cancelled := True\<rparr>) reg))"
    by (rule kept_transition_published) (simp add: terminal_def)
  ultimately show ?thesis
    by (auto simp: cancel_transfer_def split: option.split intro: kept_trans)
qed

lemma kept_cancel_entry: "kept (fst st) (fst (cancel_entry now item st))"
proof -
  obtain i was_terminal reg joins where st: "item = (i, was_terminal)" "st = (reg, joins)"
    by (cases item, cases st)
  define reg1 where "reg1 = update_entry i (\<lambda>e. e\<lparr>at_cancelled := True\<rparr>) reg"
  define reg2 where "reg2 = (if was_terminal then reg1 else transition_published now i CancelledState reg1)"
  have "kept reg reg1"
    unfolding reg1_def by (rule kept_update) (simp add: entry_le_def)
  moreover have "kept reg1 reg2"
    unfolding reg2_def by (simp add: kept_transition_published terminal_def)
  moreover have "kept reg2 (update_entry i (\<lambda>e. e\<lparr>at_join := Taken\<rparr>) reg2)"
    by (rule kept_update) (simp add: entry_le_def)
  ultimately have "kept reg reg2" "kept reg (update_entry i (\<lambda>e. e\<lparr>at_join := Taken\<rparr>) reg2)"
    by (blast intro: kept_trans)+
  then show ?thesis
    unfolding st cancel_entry_def Let_def split_conv reg1_def[symmetric] reg2_def[symmetric]
    by (auto split: option.split)
qed

lemma kept_throttled:
  assumes "\<And>s. snapshot_le s (change s)"
    and "\<And>s. ts_state (change s) = ts_state s \<and> ts_finished_at_ms (change s) = ts_finished_at_ms s"
  shows "kept reg (throttled_update now i bytes change reg)"
proof (cases "bt_get (tr_transfers reg) i")
  case None
  then show ?thesis by (simp add: throttled_update_def)
next
  case (Some e)
  define s2 where "s2 = (let s1 = change (at_snapshot e) in
                         if terminal (ts_state s1) then s1 else s1\<lparr>ts_state := Running\<rparr>)"
  have "snapshot_le (at_snapshot e) s2"
    using assms(1)[of "at_snapshot e"] assms(2)[of "at_snapshot e"]
    by (cases "ts_state (at_snapshot e)") (auto simp: s2_def snapshot_le_def rank_def terminal_def)
  moreover have "stamped (at_snapshot e) \<Longrightarrow> stamped s2"
    using assms(2)[of "at_snapshot e"] by (auto simp: s2_def stamped_def terminal_def)
  ultimately have "kept reg (update_entry i (\<lambda>e. e\<lparr>at_snapshot := s2, at_throttle := throttle\<rparr>) reg)"
    for throttle
    using Some by (intro kept_update) (simp add: entry_le_def)
  then show ?thesis
    using Some by (auto simp: throttled_update_def s2_def Let_def split: prod.split)
qed

lemma kept_set_progress: "kept reg (set_progress now i transferred tot reg)"
  unfolding set_progress_def by (rule kept_throttled) (simp_all add: snapshot_le_def)

lemma kept_set_batch_items: "kept reg (set_batch_items now i completed failed current reg)"
  unfolding set_batch_items_def by (rule kept_throttled) (simp_all add: snapshot_le_def)

lemma kept_set_batch_result: "kept reg (set_batch_result i result reg)"
  unfolding set_batch_result_def
  by (rule kept_update) (auto simp: entry_le_def snapshot_le_def stamped_def)

lemma kept_set_error: "kept reg (set_error i error reg)"
  unfolding set_error_def
  by (rule kept_update) (auto simp: entry_le_def snapshot_le_def stamped_def)

lemma kept_publish_task: "kept reg (publish_task i task reg)"
  unfolding publish_task_def by (rule kept_update) (simp add: entry_le_def)


lemma kept_task_running: "kept reg (task_running now i reg)"
  unfolding task_running_def by (rule kept_transition) simp_all

section \<open>Eviction\<close>

lemma can_evict_finished:
  "can_evict task_done e \<Longrightarrow> stamped (at_snapshot e) \<Longrightarrow>
   terminal (ts_state (at_snapshot e)) \<and> at_join e \<noteq> Reserved"
  by (auto simp: can_evict_def stamped_def split: if_splits TaskPublication.splits)

lemma bt_ok_filter: "bt_ok m \<Longrightarrow> bt_ok (filter P m)"
  by (induction m) (auto simp: bt_ok_def bt_keys_def)

lemma bt_get_filter:
  "bt_ok m \<Longrightarrow> bt_get (filter P m) i =
     (case bt_get m i of None \<Rightarrow> None | Some e \<Rightarrow> if P (i, e) then Some e else None)"
proof -
  assume ok: "bt_ok m"
  show ?thesis
  proof (cases "bt_get m i")
    case None
    then have "bt_get (filter P m) i = None" by (auto simp: bt_get_None_iff bt_keys_def)
    then show ?thesis using None by simp
  next
    case (Some e)
    have iff: "bt_get (filter P m) i = Some v \<longleftrightarrow> bt_get m i = Some v \<and> P (i, v)" for v
      using ok by (simp add: bt_get_iff bt_ok_filter)
    show ?thesis
    proof (cases "P (i, e)")
      case True
      then show ?thesis using iff[of e] Some by simp
    next
      case False
      then have "bt_get (filter P m) i \<noteq> Some v" for v using iff[of v] Some by auto
      then have "bt_get (filter P m) i = None" by (meson not_Some_eq)
      then show ?thesis using Some False by simp
    qed
  qed
qed

text \<open>What a reap may do to a map: drop entries that may be evicted, and nothing else.\<close>

definition evicts :: "(nat \<Rightarrow> bool) \<Rightarrow> transfers \<Rightarrow> transfers \<Rightarrow> bool" where
  "evicts task_done m m' \<longleftrightarrow> bt_ok m' \<and>
     (\<forall>i. bt_get m' i = bt_get m i \<or>
          bt_get m' i = None \<and> (\<exists>e. bt_get m i = Some e \<and> can_evict task_done e))"

lemma evicts_refl: "bt_ok m \<Longrightarrow> evicts task_done m m"
  by (simp add: evicts_def)

lemma evicts_trans: "evicts task_done a b \<Longrightarrow> evicts task_done b c \<Longrightarrow> evicts task_done a c"
  unfolding evicts_def by metis

lemma reap_expired_evicts: "bt_ok m \<Longrightarrow> evicts task_done m (reap_expired task_done now ttl m)"
  by (auto simp: reap_expired_def evicts_def bt_ok_filter bt_get_filter split: option.splits if_splits)

lemma min_finished_mem: "min_finished ps = Some p \<Longrightarrow> p \<in> set ps \<and> (\<forall>q\<in>set ps. snd p \<le> snd q)"
proof (induction ps arbitrary: p rule: min_finished.induct)
  case (2 i t rest)
  show ?case
  proof (cases "min_finished rest")
    case None
    then have "rest = []" by (cases rest rule: min_finished.cases) (auto split: option.splits if_splits)
    then show ?thesis using 2(2) by simp
  next
    case (Some q)
    then show ?thesis using 2(1)[OF Some] 2(2) by (cases q) (auto split: if_splits)
  qed
qed simp

lemma min_finished_None: "min_finished ps = None \<longleftrightarrow> ps = []"
  by (cases ps rule: min_finished.cases) (auto split: option.splits if_splits)

definition evictable_at :: "(nat \<Rightarrow> bool) \<Rightarrow> nat \<times> ActiveTransfer \<Rightarrow> (nat \<times> nat) option" where
  "evictable_at task_done = (\<lambda>(i, entry).
     if \<not> can_evict task_done entry then None
     else map_option (\<lambda>t. (i, t)) (ts_finished_at_ms (at_snapshot entry)))"

lemma evictable_at_Some:
  "evictable_at task_done (i, e) = Some p \<longleftrightarrow>
   can_evict task_done e \<and> (\<exists>t. ts_finished_at_ms (at_snapshot e) = Some t \<and> p = (i, t))"
  by (auto simp: evictable_at_def)

lemma map_filter_mem: "p \<in> set (List.map_filter f xs) \<longleftrightarrow> (\<exists>x\<in>set xs. f x = Some p)"
  by (force simp: List.map_filter_def)

lemma oldest_finished_Some:
  assumes "oldest_finished task_done iter m = Some i" "set (iter m) = set m"
  obtains e t where "(i, e) \<in> set m" "can_evict task_done e" "ts_finished_at_ms (at_snapshot e) = Some t"
    "\<And>j e' t'. (j, e') \<in> set m \<Longrightarrow> can_evict task_done e' \<Longrightarrow>
       ts_finished_at_ms (at_snapshot e') = Some t' \<Longrightarrow> t \<le> t'"
proof -
  obtain t where t: "min_finished (List.map_filter (evictable_at task_done) (iter m)) = Some (i, t)"
    using assms(1) by (auto simp: oldest_finished_def evictable_at_def)
  note min = min_finished_mem[OF t]
  from min obtain e where "(i, e) \<in> set m" "can_evict task_done e"
      "ts_finished_at_ms (at_snapshot e) = Some t"
    by (auto simp: map_filter_mem assms(2) evictable_at_Some)
  moreover have "t \<le> t'" if "(j, e') \<in> set m" "can_evict task_done e'"
      "ts_finished_at_ms (at_snapshot e') = Some t'" for j e' t'
  proof -
    have "(j, t') \<in> set (List.map_filter (evictable_at task_done) (iter m))"
      using that by (auto simp: map_filter_mem assms(2) evictable_at_Some intro!: bexI[of _ "(j, e')"])
    then show ?thesis using min by auto
  qed
  ultimately show thesis by (rule that)
qed

lemma oldest_finished_None:
  assumes "oldest_finished task_done iter m = None" "set (iter m) = set m" "(i, e) \<in> set m"
  shows "\<not> can_evict task_done e"
proof
  assume evict: "can_evict task_done e"
  then obtain t where "ts_finished_at_ms (at_snapshot e) = Some t"
    by (auto simp: can_evict_def split: if_splits)
  then have "(i, t) \<in> set (List.map_filter (evictable_at task_done) (iter m))"
    using evict assms(3) assms(2)
    by (auto simp: map_filter_mem evictable_at_Some intro!: bexI[of _ "(i, e)"])
  then show False
    using assms(1) by (auto simp: oldest_finished_def evictable_at_def[symmetric] min_finished_None)
qed

lemma evicts_remove:
  assumes "bt_ok m" "(i, e) \<in> set m" "can_evict task_done e"
  shows "evicts task_done m (bt_remove i m)"
proof -
  have "bt_get m i = Some e" using assms(1,2) by (simp add: bt_get_iff)
  then show ?thesis using assms(1,3) by (auto simp: evicts_def split: option.split)
qed

lemma reap_capacity_evicts:
  assumes "\<And>m. set (iter m) = set m"
  shows "bt_ok m \<Longrightarrow> evicts task_done m (reap_capacity task_done iter capacity m)"
  using assms
proof (induction task_done iter capacity m rule: reap_capacity.induct)
  case (1 task_done iter capacity m)
  show ?case
  proof (cases "length m \<le> capacity \<or> oldest_finished task_done iter m = None")
    case True
    then show ?thesis
      using evicts_refl[OF 1(2)] by (subst reap_capacity.simps) auto
  next
    case False
    then obtain i where i: "oldest_finished task_done iter m = Some i" and "\<not> length m \<le> capacity"
      by auto
    from i obtain e where e: "(i, e) \<in> set m" "can_evict task_done e"
      using oldest_finished_Some 1(3) by metis
    then have "bt_get m i \<noteq> None" using 1(2) by (simp add: bt_get_iff[symmetric])
    then have step: "reap_capacity task_done iter capacity m =
        reap_capacity task_done iter capacity (bt_remove i m)"
      using i False by (subst reap_capacity.simps) auto
    have "evicts task_done (bt_remove i m) (reap_capacity task_done iter capacity (bt_remove i m))"
      using 1 i False \<open>bt_get m i \<noteq> None\<close> by simp
    then show ?thesis
      unfolding step using evicts_remove[OF 1(2) e] by (blast intro: evicts_trans)
  qed
qed

lemma reap_capacity_bound:
  assumes "\<And>m. set (iter m) = set m"
  shows "length (reap_capacity task_done iter capacity m) \<le> capacity \<or>
         (\<forall>(i, e)\<in>set (reap_capacity task_done iter capacity m). \<not> can_evict task_done e)"
  using assms
proof (induction task_done iter capacity m rule: reap_capacity.induct)
  case (1 task_done iter capacity m)
  show ?case
  proof (cases "length m \<le> capacity")
    case True
    then show ?thesis by (simp add: reap_capacity.simps)
  next
    case False
    show ?thesis
    proof (cases "oldest_finished task_done iter m")
      case None
      then show ?thesis
        using oldest_finished_None[OF None 1(2)] False by (auto simp: reap_capacity.simps)
    next
      case (Some i)
      then obtain e where "(i, e) \<in> set m" using oldest_finished_Some 1(2) by metis
      then have "bt_get m i \<noteq> None" unfolding bt_get_None_iff bt_keys_def by force
      then show ?thesis
        using 1 Some False by (auto simp: reap_capacity.simps[of task_done iter capacity m])
    qed
  qed
qed


section \<open>Registration\<close>

lemma evicts_le:
  assumes "evicts task_done m m'" "bt_get m i = Some e"
  shows "bt_get m' i = Some e \<or> bt_get m' i = None \<and> can_evict task_done e"
  using assms unfolding evicts_def by (metis option.inject)

lemma evicts_ok:
  assumes "evicts task_done (tr_transfers reg) m'" "transfers_ok reg"
  shows "transfers_ok (reg\<lparr>tr_transfers := m'\<rparr>)"
proof -
  have "bt_get (tr_transfers reg) i = Some e" if "bt_get m' i = Some e" for i e
    using assms(1) that unfolding evicts_def by (metis option.distinct(1))
  then show ?thesis using assms unfolding transfers_ok_def evicts_def by simp blast
qed

lemma reap_locked_evicts:
  assumes "\<And>m. set (iter m) = set m" "bt_ok (tr_transfers reg)"
  shows "evicts task_done (tr_transfers reg) (tr_transfers (reap_locked task_done iter now reg))"
proof -
  have "evicts task_done (tr_transfers reg) (reap_expired task_done now (tr_history_ttl reg) (tr_transfers reg))"
    using assms(2) by (rule reap_expired_evicts)
  moreover from this have "bt_ok (reap_expired task_done now (tr_history_ttl reg) (tr_transfers reg))"
    by (simp add: evicts_def)
  ultimately show ?thesis
    using reap_capacity_evicts[OF assms(1)] evicts_trans by (fastforce simp: reap_locked_def)
qed

definition registered ::
  "nat \<Rightarrow> nat \<Rightarrow> TransferDirectionDto \<Rightarrow> string \<Rightarrow> string \<Rightarrow> TransferRegistry \<Rightarrow> TransferRegistry" where
  "registered now session_id direction source destination reg =
     (case snapshot_for now session_id direction source destination reg of
        (snapshot, reg1) \<Rightarrow>
          reg1\<lparr>tr_transfers := bt_insert (ts_id snapshot)
             \<lparr>at_snapshot = snapshot, at_cancelled = False, at_join = Reserved,
              at_throttle = \<lparr>pt_last_emit_ms = 0, pt_last_emit_bytes = 0\<rparr>\<rparr> (tr_transfers reg1)\<rparr>)"

lemma start_transfer_registered:
  "start_transfer task_done iter now session_id direction source destination reg =
   reap_locked task_done iter now (registered now session_id direction source destination reg)"
  by (simp add: start_transfer_def registered_def register_def Let_def split: prod.split)

lemma registered_ok:
  assumes "transfers_ok reg"
  shows "transfers_ok (registered now session_id direction source destination reg)"
  using assms
  by (auto simp: registered_def snapshot_for_def transfers_ok_def stamped_def terminal_def
        less_Suc_eq split: if_splits)

lemma registered_get:
  assumes "transfers_ok reg" "bt_get (tr_transfers reg) i = Some e"
  shows "bt_get (tr_transfers (registered now session_id direction source destination reg)) i = Some e"
  using assms by (auto simp: registered_def snapshot_for_def transfers_ok_def)

lemma registered_new:
  "bt_get (tr_transfers (registered now session_id direction source destination reg)) (tr_next_id reg) =
     Some \<lparr>at_snapshot = fst (snapshot_for now session_id direction source destination reg),
           at_cancelled = False, at_join = Reserved,
           at_throttle = \<lparr>pt_last_emit_ms = 0, pt_last_emit_bytes = 0\<rparr>\<rparr>"
  by (simp add: registered_def snapshot_for_def)

lemma start_transfer_ok:
  assumes "transfers_ok reg" "\<And>m. set (iter m) = set m"
  shows "transfers_ok (start_transfer task_done iter now session_id direction source destination reg)"
proof -
  let ?reg = "registered now session_id direction source destination reg"
  have "transfers_ok ?reg" using assms(1) by (rule registered_ok)
  moreover have "evicts task_done (tr_transfers ?reg) (tr_transfers (reap_locked task_done iter now ?reg))"
    using assms(2) \<open>transfers_ok ?reg\<close> by (intro reap_locked_evicts) (auto simp: transfers_ok_def)
  ultimately show ?thesis
    using evicts_ok by (fastforce simp: start_transfer_registered reap_locked_def)
qed

lemma start_transfer_get:
  assumes "transfers_ok reg" "\<And>m. set (iter m) = set m" "bt_get (tr_transfers reg) i = Some e"
    and reg': "reg' = start_transfer task_done iter now session_id direction source destination reg"
  shows "bt_get (tr_transfers reg') i = Some e \<or>
         bt_get (tr_transfers reg') i = None \<and> can_evict task_done e"
proof -
  let ?reg = "registered now session_id direction source destination reg"
  have ok: "transfers_ok ?reg" using assms(1) by (rule registered_ok)
  have "evicts task_done (tr_transfers ?reg) (tr_transfers reg')"
    unfolding reg' start_transfer_registered
    using assms(2) ok by (intro reap_locked_evicts) (auto simp: transfers_ok_def)
  then show ?thesis using evicts_le registered_get[OF assms(1,3)] by blast
qed

lemma start_transfer_next [simp]:
  "tr_next_id (start_transfer task_done iter now session_id direction source destination reg) =
   tr_next_id reg + 1"
  by (simp add: start_transfer_registered reap_locked_def registered_def snapshot_for_def)

section \<open>Steps\<close>

inductive transfer_step :: "TransferRegistry \<Rightarrow> TransferRegistry \<Rightarrow> bool" where
  step_start: "(\<And>m. set (iter m) = set m) \<Longrightarrow>
     transfer_step reg (start_transfer task_done iter now session_id direction source destination reg)"
| step_publish_task: "transfer_step reg (publish_task i task reg)"
| step_running: "transfer_step reg (task_running now i reg)"
| step_progress: "transfer_step reg (set_progress now i transferred tot reg)"
| step_items: "transfer_step reg (set_batch_items now i completed failed current reg)"
| step_batch_result: "transfer_step reg (set_batch_result i result reg)"
| step_error: "transfer_step reg (set_error i error reg)"
| step_terminal: "terminal next \<Longrightarrow> transfer_step reg (transition_published now i next reg)"
| step_silent: "terminal next \<Longrightarrow> transfer_step reg (snd (transition now i next reg))"
| step_publish: "transfer_step reg (publish_current i reg)"
| step_cancel: "transfer_step reg (snd (cancel_transfer now i reg))"
| step_cancel_entry: "transfer_step reg (fst (cancel_entry now item (reg, joins)))"
| step_reap: "transfer_step reg (reap task_done reg)"

definition new_registry :: "TransferRegistry \<Rightarrow> bool" where
  "new_registry reg \<longleftrightarrow> (\<exists>capacity ttl. reg = registry_new capacity ttl)"

abbreviation transfer_reachable :: "TransferRegistry \<Rightarrow> bool" where
  "transfer_reachable \<equiv> reach new_registry transfer_step"

lemmas registry_step = reach_step[where start = new_registry and step = transfer_step]

lemma reachable_new: "transfer_reachable (registry_new capacity ttl)"
  by (rule reach_start) (auto simp: new_registry_def)

lemma kept_reap: "kept reg (reap task_done reg)"
proof -
  let ?f = "\<lambda>e. case at_join e of
             Published task \<Rightarrow> if task_done task then e\<lparr>at_join := Finished\<rparr> else e | _ \<Rightarrow> e"
  have get: "bt_get (map (\<lambda>(i, e). (i, ?f e)) m) i = map_option ?f (bt_get m i)" for m i
    by (induction m) (auto simp: bt_get_def split: TaskPublication.split)
  have keys: "bt_keys (map (\<lambda>(i, e). (i, ?f e)) m) = bt_keys m" for m :: transfers
    by (induction m) (auto simp: bt_keys_def)
  have "entry_le e (?f e)" for e
    by (simp add: entry_le_def split: TaskPublication.split)
  then show ?thesis
    by (auto simp: kept_def registry_le_def reap_def get bt_ok_def keys split: option.split)
qed

text \<open>
  What one step may do: a present transfer moves forward, or it is gone and had finished; an id
  that was handed out and is not there any more never comes back.
\<close>

definition follows :: "TransferRegistry \<Rightarrow> TransferRegistry \<Rightarrow> bool" where
  "follows reg reg' \<longleftrightarrow> tr_next_id reg \<le> tr_next_id reg' \<and>
     (\<forall>i. i < tr_next_id reg \<longrightarrow>
        (case bt_get (tr_transfers reg) i of
           None \<Rightarrow> bt_get (tr_transfers reg') i = None
         | Some e \<Rightarrow> (\<exists>e'. bt_get (tr_transfers reg') i = Some e' \<and> entry_le e e') \<or>
             bt_get (tr_transfers reg') i = None \<and> terminal (ts_state (at_snapshot e)) \<and>
             at_join e \<noteq> Reserved))"

lemma followsD:
  assumes "follows reg reg'" "i < tr_next_id reg"
  shows "bt_get (tr_transfers reg) i = None \<Longrightarrow> bt_get (tr_transfers reg') i = None"
    and "bt_get (tr_transfers reg) i = Some e \<Longrightarrow>
      (\<exists>e'. bt_get (tr_transfers reg') i = Some e' \<and> entry_le e e') \<or>
      bt_get (tr_transfers reg') i = None \<and> terminal (ts_state (at_snapshot e)) \<and> at_join e \<noteq> Reserved"
  using assms unfolding follows_def by force+

lemma kept_follows: "kept reg reg' \<Longrightarrow> follows reg reg'"
  unfolding kept_def follows_def registry_le_def by (simp add: option.case_eq_if)

lemma start_follows:
  assumes ok: "transfers_ok reg" and iter: "\<And>m. set (iter m) = set m"
  shows "follows reg (start_transfer task_done iter now session_id direction source destination reg)"
proof -
  let ?reg = "registered now session_id direction source destination reg"
  let ?reg' = "start_transfer task_done iter now session_id direction source destination reg"
  have okr: "transfers_ok ?reg" using ok by (rule registered_ok)
  have evicts: "evicts task_done (tr_transfers ?reg) (tr_transfers ?reg')"
    unfolding start_transfer_registered
    using iter okr by (intro reap_locked_evicts) (auto simp: transfers_ok_def)
  have absent: "bt_get (tr_transfers ?reg') i = None"
    if "i < tr_next_id reg" "bt_get (tr_transfers reg) i = None" for i
  proof -
    have "bt_get (tr_transfers ?reg) i = None"
      using that by (simp add: registered_def snapshot_for_def)
    then show ?thesis using evicts unfolding evicts_def by (metis)
  qed
  have present: "bt_get (tr_transfers ?reg') i = Some e \<or>
      bt_get (tr_transfers ?reg') i = None \<and> terminal (ts_state (at_snapshot e)) \<and> at_join e \<noteq> Reserved"
    if "bt_get (tr_transfers reg) i = Some e" for i e
  proof -
    have "stamped (at_snapshot e)" using ok that by (auto simp: transfers_ok_def)
    then show ?thesis using start_transfer_get[OF ok iter that refl] can_evict_finished by blast
  qed
  show ?thesis
    unfolding follows_def
  proof (intro conjI allI impI)
    fix i
    assume "i < tr_next_id reg"
    then show "case bt_get (tr_transfers reg) i of None \<Rightarrow> bt_get (tr_transfers ?reg') i = None
      | Some e \<Rightarrow> (\<exists>e'. bt_get (tr_transfers ?reg') i = Some e' \<and> entry_le e e') \<or>
          bt_get (tr_transfers ?reg') i = None \<and> terminal (ts_state (at_snapshot e)) \<and> at_join e \<noteq> Reserved"
      using absent[of i] present[of i] by (cases "bt_get (tr_transfers reg) i") auto
  qed simp
qed

lemma kept_terminal: "terminal next \<Longrightarrow> kept reg (snd (transition now i next reg))"
  by (rule kept_transition) (auto simp: terminal_def)

lemma transfer_step_kept:
  assumes "transfer_step reg reg'"
    and "\<nexists>task_done iter now session_id direction source destination. (\<forall>m. set (iter m) = set m) \<and>
           reg' = start_transfer task_done iter now session_id direction source destination reg"
  shows "kept reg reg'"
  using assms
proof (cases rule: transfer_step.cases)
  case (step_start iter task_done now session_id direction source destination)
  then show ?thesis using assms(2) by blast
next
  case (step_cancel_entry now item joins)
  then show ?thesis using kept_cancel_entry[of "(reg, joins)" now item] by simp
qed (simp_all add: kept_publish_task kept_task_running kept_set_progress kept_set_batch_items
       kept_set_batch_result kept_set_error kept_transition_published kept_terminal
       kept_cancel kept_reap)

lemma transfer_step_follows:
  assumes "transfer_step reg reg'" "transfers_ok reg"
  shows "follows reg reg' \<and> transfers_ok reg'"
proof (cases "\<exists>task_done iter now session_id direction source destination. (\<forall>m. set (iter m) = set m) \<and>
           reg' = start_transfer task_done iter now session_id direction source destination reg")
  case True
  then show ?thesis using assms(2) start_follows start_transfer_ok by blast
next
  case False
  then have "kept reg reg'" using assms(1) transfer_step_kept by blast
  then show ?thesis using assms(2) kept_follows kept_ok by blast
qed

interpretation registries: preserved_invariant new_registry transfer_step transfers_ok
proof
  show "transfers_ok reg" if "new_registry reg" for reg
    using that by (auto simp: new_registry_def registry_new_def transfers_ok_def bt_ok_def bt_keys_def bt_get_def)
qed (use transfer_step_follows in blast)

lemma transfer_steps_follow:
  assumes "transfer_step\<^sup>*\<^sup>* reg reg'" "transfers_ok reg" "bt_get (tr_transfers reg) i = Some e"
  shows "transfers_ok reg' \<and> i < tr_next_id reg' \<and>
    (\<exists>e'. entry_le e e' \<and> (bt_get (tr_transfers reg') i = Some e' \<or>
       bt_get (tr_transfers reg') i = None \<and> terminal (ts_state (at_snapshot e')) \<and> at_join e' \<noteq> Reserved))"
  using assms(1)
proof (induction rule: rtranclp_induct)
  case base
  then show ?case using assms(2,3) by (auto simp: transfers_ok_def intro!: exI[of _ e])
next
  case (step reg1 reg2)
  then have ok: "transfers_ok reg1" and i: "i < tr_next_id reg1" by blast+
  from step.hyps(2) ok have follows: "follows reg1 reg2" and ok2: "transfers_ok reg2"
    using transfer_step_follows by blast+
  from step.IH obtain e1 where e1: "entry_le e e1" and cases:
    "bt_get (tr_transfers reg1) i = Some e1 \<or>
     bt_get (tr_transfers reg1) i = None \<and> terminal (ts_state (at_snapshot e1)) \<and> at_join e1 \<noteq> Reserved"
    by blast
  from cases have "\<exists>e'. entry_le e e' \<and> (bt_get (tr_transfers reg2) i = Some e' \<or>
       bt_get (tr_transfers reg2) i = None \<and> terminal (ts_state (at_snapshot e')) \<and> at_join e' \<noteq> Reserved)"
  proof
    assume "bt_get (tr_transfers reg1) i = Some e1"
    from followsD(2)[OF follows i this] show ?thesis using e1 entry_le_trans by blast
  next
    assume "bt_get (tr_transfers reg1) i = None \<and> terminal (ts_state (at_snapshot e1)) \<and> at_join e1 \<noteq> Reserved"
    then show ?thesis using followsD(1)[OF follows i] e1 by blast
  qed
  moreover have "i < tr_next_id reg2" using follows i by (simp add: follows_def)
  ultimately show ?case using ok2 by blast
qed


section \<open>Session close\<close>

lemma cancel_entry_get_other:
  "j \<noteq> i \<Longrightarrow> bt_get (tr_transfers (fst (cancel_entry now (i, t) (reg, joins)))) j = bt_get (tr_transfers reg) j"
  by (auto simp: cancel_entry_def Let_def transition_published_def transition_cases update_entry_get
      split: option.split prod.split)

definition cancelled_entry :: "nat \<Rightarrow> bool \<Rightarrow> ActiveTransfer \<Rightarrow> ActiveTransfer" where
  "cancelled_entry now was_terminal e =
     e\<lparr>at_cancelled := True, at_join := Taken,
       at_snapshot := (if was_terminal then at_snapshot e
                       else transition_snapshot now CancelledState (at_snapshot e))\<rparr>"

definition handle_of :: "ActiveTransfer \<Rightarrow> nat list" where
  "handle_of e = (case at_join e of Published task \<Rightarrow> [task] | _ \<Rightarrow> [])"

lemma cancel_entry_get:
  assumes "bt_get (tr_transfers reg) i = Some e"
  shows "bt_get (tr_transfers (fst (cancel_entry now (i, t) (reg, joins)))) i = Some (cancelled_entry now t e)"
    and "snd (cancel_entry now (i, t) (reg, joins)) = joins @ handle_of e"
  using assms
  by (auto simp: cancel_entry_def Let_def transition_published_def transition_cases update_entry_get
      cancelled_entry_def handle_of_def split: option.split prod.split TaskPublication.split)

lemma cancel_entries_get:
  assumes "distinct (map fst items)"
    "\<And>i t. (i, t) \<in> set items \<Longrightarrow> \<exists>e. bt_get (tr_transfers reg) i = Some e"
  shows "bt_get (tr_transfers (fst (fold (cancel_entry now) items (reg, joins)))) j =
      (case map_of items j of
         None \<Rightarrow> bt_get (tr_transfers reg) j
       | Some t \<Rightarrow> map_option (cancelled_entry now t) (bt_get (tr_transfers reg) j))"
    and "snd (fold (cancel_entry now) items (reg, joins)) =
      joins @ concat (map (\<lambda>(i, t). handle_of (the (bt_get (tr_transfers reg) i))) items)"
proof -
  have "bt_get (tr_transfers (fst (fold (cancel_entry now) items (reg, joins)))) j =
      (case map_of items j of
         None \<Rightarrow> bt_get (tr_transfers reg) j
       | Some t \<Rightarrow> map_option (cancelled_entry now t) (bt_get (tr_transfers reg) j)) \<and>
     snd (fold (cancel_entry now) items (reg, joins)) =
      joins @ concat (map (\<lambda>(i, t). handle_of (the (bt_get (tr_transfers reg) i))) items)"
    using assms
  proof (induction items arbitrary: reg joins)
    case Nil
    then show ?case by simp
  next
    case (Cons item items)
    obtain i t where item: "item = (i, t)" by (cases item)
    obtain e where e: "bt_get (tr_transfers reg) i = Some e" using Cons.prems(2) item by auto
    obtain reg1 joins1 where r1: "cancel_entry now (i, t) (reg, joins) = (reg1, joins1)"
      by (cases "cancel_entry now (i, t) (reg, joins)")
    have same: "k \<noteq> i \<Longrightarrow> bt_get (tr_transfers reg1) k = bt_get (tr_transfers reg) k" for k
      using cancel_entry_get_other[of k i now t reg joins] r1 by simp
    have hit: "bt_get (tr_transfers reg1) i = Some (cancelled_entry now t e)" "joins1 = joins @ handle_of e"
      using cancel_entry_get[OF e, of now t joins] r1 by simp_all
    have fresh: "k \<noteq> i" if "(k, u) \<in> set items" for k u
      using Cons.prems(1) item that by (force simp: image_iff)
    have IH: "bt_get (tr_transfers (fst (fold (cancel_entry now) items (reg1, joins1)))) j =
      (case map_of items j of
         None \<Rightarrow> bt_get (tr_transfers reg1) j
       | Some t \<Rightarrow> map_option (cancelled_entry now t) (bt_get (tr_transfers reg1) j)) \<and>
     snd (fold (cancel_entry now) items (reg1, joins1)) =
      joins1 @ concat (map (\<lambda>(i, t). handle_of (the (bt_get (tr_transfers reg1) i))) items)"
    proof (rule Cons.IH)
      show "distinct (map fst items)" using Cons.prems(1) by simp
      show "\<exists>e. bt_get (tr_transfers reg1) k = Some e" if "(k, u) \<in> set items" for k u
        using same[OF fresh[OF that]] Cons.prems(2)[of k u] that item by auto
    qed
    have handles: "map (\<lambda>(i, t). handle_of (the (bt_get (tr_transfers reg1) i))) items =
        map (\<lambda>(i, t). handle_of (the (bt_get (tr_transfers reg) i))) items"
      using same fresh by (intro map_cong) auto
    have none: "map_of items i = None" using Cons.prems(1) item by (simp add: map_of_eq_None_iff)
    show ?case
      using IH handles hit e none same[of j] item r1 by (cases "j = i") (auto split: option.split)
  qed
  then show "bt_get (tr_transfers (fst (fold (cancel_entry now) items (reg, joins)))) j =
      (case map_of items j of
         None \<Rightarrow> bt_get (tr_transfers reg) j
       | Some t \<Rightarrow> map_option (cancelled_entry now t) (bt_get (tr_transfers reg) j))"
    "snd (fold (cancel_entry now) items (reg, joins)) =
      joins @ concat (map (\<lambda>(i, t). handle_of (the (bt_get (tr_transfers reg) i))) items)"
    by blast+
qed


definition session_items :: "nat \<Rightarrow> TransferRegistry \<Rightarrow> (nat \<times> bool) list" where
  "session_items session_id reg = map (\<lambda>(i, e). (i, terminal (ts_state (at_snapshot e))))
     (filter (\<lambda>(_, e). ts_session_id (at_snapshot e) = session_id) (tr_transfers reg))"

lemma cancel_for_session_items:
  "cancel_for_session now session_id reg = fold (cancel_entry now) (session_items session_id reg) (reg, [])"
  by (simp add: cancel_for_session_def session_items_def)

lemma session_items_mem:
  assumes "transfers_ok reg"
  shows "(i, t) \<in> set (session_items session_id reg) \<longleftrightarrow>
    (\<exists>e. bt_get (tr_transfers reg) i = Some e \<and> ts_session_id (at_snapshot e) = session_id \<and>
         t = terminal (ts_state (at_snapshot e)))"
  using assms by (auto simp: session_items_def transfers_ok_def bt_get_iff)

lemma session_items_distinct:
  assumes "transfers_ok reg" shows "distinct (map fst (session_items session_id reg))"
proof -
  have "map fst (session_items session_id reg) =
      bt_keys (filter (\<lambda>(_, e). ts_session_id (at_snapshot e) = session_id) (tr_transfers reg))"
    by (auto simp: session_items_def bt_keys_def)
  then show ?thesis
    using assms by (simp add: transfers_ok_def bt_distinct bt_ok_filter)
qed

lemma cancel_for_session_get:
  assumes "transfers_ok reg" "bt_get (tr_transfers reg) i = Some e"
  shows "bt_get (tr_transfers (fst (cancel_for_session now session_id reg))) i =
    Some (if ts_session_id (at_snapshot e) = session_id
          then cancelled_entry now (terminal (ts_state (at_snapshot e))) e else e)"
proof -
  have items: "map_of (session_items session_id reg) i =
      (if ts_session_id (at_snapshot e) = session_id then Some (terminal (ts_state (at_snapshot e))) else None)"
    using assms session_items_mem[OF assms(1)] session_items_distinct[OF assms(1)]
    by (auto simp: map_of_eq_None_iff)
  have "\<exists>e. bt_get (tr_transfers reg) j = Some e" if "(j, t) \<in> set (session_items session_id reg)" for j t
    using that session_items_mem[OF assms(1)] by blast
  from cancel_entries_get(1)[OF session_items_distinct[OF assms(1)] this]
  show ?thesis using items assms(2) by (simp add: cancel_for_session_items)
qed

lemma cancel_for_session_handles:
  assumes "transfers_ok reg"
  shows "task \<in> set (snd (cancel_for_session now session_id reg)) \<longleftrightarrow>
    (\<exists>i e. bt_get (tr_transfers reg) i = Some e \<and> ts_session_id (at_snapshot e) = session_id \<and>
           at_join e = Published task)"
proof -
  have "\<exists>e. bt_get (tr_transfers reg) j = Some e" if "(j, t) \<in> set (session_items session_id reg)" for j t
    using that session_items_mem[OF assms] by blast
  from cancel_entries_get(2)[OF session_items_distinct[OF assms] this]
  have "snd (cancel_for_session now session_id reg) =
      concat (map (\<lambda>(i, t). handle_of (the (bt_get (tr_transfers reg) i))) (session_items session_id reg))"
    by (simp add: cancel_for_session_items)
  moreover have "task \<in> set (handle_of e) \<longleftrightarrow> at_join e = Published task" for e
    by (auto simp: handle_of_def split: TaskPublication.split)
  ultimately have "task \<in> set (snd (cancel_for_session now session_id reg)) \<longleftrightarrow>
      (\<exists>i t. (i, t) \<in> set (session_items session_id reg) \<and>
             at_join (the (bt_get (tr_transfers reg) i)) = Published task)"
    by auto
  then show ?thesis unfolding session_items_mem[OF assms] by force
qed

lemma kept_cancel_entries: "kept (fst st) (fst (fold (cancel_entry now) items st))"
proof (induction items arbitrary: st)
  case (Cons item items)
  then show ?case using kept_cancel_entry[of st now item] kept_trans by fastforce
qed simp

lemma kept_lost: "kept reg (lost_transfers ready now session_id reg)"
  using kept_cancel_entries[of "(reg, [])"]
  by (simp add: lost_transfers_def cancel_for_session_items)

section \<open>Throttling\<close>

text \<open>The throttle over a run of progress callbacks \<open>(now, bytes)\<close>: how many it lets through.\<close>

fun emitted :: "ProgressThrottle \<Rightarrow> (nat \<times> nat) list \<Rightarrow> nat" where
  "emitted throttle [] = 0"
| "emitted throttle ((now, bytes) # calls) =
     (case throttle_allows throttle now (Some bytes) of
        (True, throttle') \<Rightarrow> Suc (emitted throttle' calls)
      | (False, throttle') \<Rightarrow> emitted throttle' calls)"

fun advancing :: "nat \<Rightarrow> nat \<Rightarrow> (nat \<times> nat) list \<Rightarrow> bool" where
  "advancing t b [] = True"
| "advancing t b ((now, bytes) # calls) = (t \<le> now \<and> b \<le> bytes \<and> advancing now bytes calls)"

lemma budget_step:
  assumes "(t0::nat) \<le> t1" "b0 \<le> b1" "t1 \<le> T" "b1 \<le> B" "d > 0" "c > 0"
    "t1 - t0 \<ge> d \<or> b1 - b0 \<ge> c"
  shows "Suc ((T - t1) div d + (B - b1) div c) \<le> (T - t0) div d + (B - b0) div c"
proof -
  have step: "Suc ((X - y) div e) \<le> (X - x) div e" if "y - x \<ge> e" "x \<le> y" "y \<le> X" "e > 0" for X x y e :: nat
  proof -
    have "Suc ((X - y) div e) = (X - y + e) div e" using that(4) div_add_self2[of e "X - y"] by simp
    also have "\<dots> \<le> (X - x) div e" using that by (intro div_le_mono) linarith
    finally show ?thesis .
  qed
  have mono: "(X - y) div e \<le> (X - x) div e" if "x \<le> y" for X x y e :: nat
    using that by (intro div_le_mono) linarith
  from assms(7) show ?thesis
  proof
    assume "t1 - t0 \<ge> d"
    then show ?thesis using step[of d t1 t0 T] mono[of b0 b1 B c] assms by simp
  next
    assume "b1 - b0 \<ge> c"
    then show ?thesis using step[of c b1 b0 B] mono[of t0 t1 T d] assms by simp
  qed
qed

lemma advancing_last:
  "advancing t b calls \<Longrightarrow> calls \<noteq> [] \<Longrightarrow> t \<le> fst (last calls) \<and> b \<le> snd (last calls)"
proof (induction calls arbitrary: t b)
  case (Cons call calls)
  then show ?case by (cases call, cases "calls = []") fastforce+
qed simp

lemma emitted_budget:
  assumes "advancing t b calls" "calls \<noteq> []" "pt_last_emit_ms throttle \<le> t" "pt_last_emit_bytes throttle \<le> b"
  shows "emitted throttle calls \<le>
     (fst (last calls) - pt_last_emit_ms throttle) div PROGRESS_MIN_INTERVAL_MS +
     (snd (last calls) - pt_last_emit_bytes throttle) div PROGRESS_MIN_BYTES"
  using assms
proof (induction calls arbitrary: t b throttle)
  case (Cons call calls)
  obtain now bytes where call: "call = (now, bytes)" by (cases call)
  have adv: "t \<le> now" "b \<le> bytes" "advancing now bytes calls" using Cons.prems(1) call by auto
  show ?case
  proof (cases "now - pt_last_emit_ms throttle \<ge> PROGRESS_MIN_INTERVAL_MS \<or>
                bytes - pt_last_emit_bytes throttle \<ge> PROGRESS_MIN_BYTES")
    case True
    let ?th = "\<lparr>pt_last_emit_ms = now, pt_last_emit_bytes = bytes\<rparr>"
    have "emitted throttle (call # calls) = Suc (emitted ?th calls)"
      using True call by (auto simp: throttle_allows_def Let_def)
    moreover have "emitted ?th calls \<le>
        (fst (last (call # calls)) - now) div PROGRESS_MIN_INTERVAL_MS +
        (snd (last (call # calls)) - bytes) div PROGRESS_MIN_BYTES"
      using Cons.IH[OF adv(3), of ?th] by (cases "calls = []") simp_all
    moreover have "now \<le> fst (last (call # calls))" "bytes \<le> snd (last (call # calls))"
      using advancing_last[OF adv(3)] call by (cases "calls = []"; simp)+
    ultimately show ?thesis
      using budget_step[of "pt_last_emit_ms throttle" now "pt_last_emit_bytes throttle" bytes
          "fst (last (call # calls))" "snd (last (call # calls))" PROGRESS_MIN_INTERVAL_MS PROGRESS_MIN_BYTES]
        True adv Cons.prems(3,4) by (simp add: PROGRESS_MIN_INTERVAL_MS_def PROGRESS_MIN_BYTES_def)
  next
    case False
    then have "emitted throttle (call # calls) = emitted throttle calls"
      using call by (auto simp: throttle_allows_def Let_def)
    then show ?thesis
      using Cons.IH[OF adv(3), of throttle] Cons.prems adv by (cases "calls = []") simp_all
  qed
qed simp


section \<open>Properties\<close>

text \<open>A registry of capacity one, with one finished transfer of session 7 and one that runs.\<close>

definition sample_registry :: TransferRegistry where
  "sample_registry =
     publish_task 2 20 (start_transfer (\<lambda>_. False) id 50 7 UploadDto ''c'' ''d''
       (transition_published 40 1 Completed (task_running 20 1 (publish_task 1 10
         (start_transfer (\<lambda>_. False) id 10 7 DownloadDto ''a'' ''b'' (registry_new 1 None))))))"

lemma sample_reachable: "transfer_reachable sample_registry"
proof -
  have id: "\<And>m. set (id m) = set m" by simp
  show ?thesis
    unfolding sample_registry_def
    by (intro registry_step[OF _ step_publish_task] registry_step[OF _ step_start[OF id]]
        registry_step[OF _ step_terminal] registry_step[OF _ step_running] reachable_new)
       (simp add: terminal_def)
qed

lemmas sample_eval = sample_registry_def registry_new_def start_transfer_def snapshot_for_def
  register_def reap_locked_def reap_expired_def reap_capacity.simps oldest_finished_def
  can_evict_def publish_task_def task_running_def transition_published_def transition_def
  transition_snapshot_def publish_update_def update_entry_def bt_get_def bt_remove_def
  terminal_def List.map_filter_def cancel_for_session_def cancel_entry_def get_transfer_def Let_def

lemma sample_transfers:
  "bt_get (tr_transfers sample_registry) 2 =
     Some \<lparr>at_snapshot = \<lparr>ts_id = 2, ts_session_id = 7, ts_direction = UploadDto, ts_source = ''c'',
       ts_destination = ''d'', ts_state = Queued, ts_transferred_bytes = 0, ts_total_bytes = None,
       ts_started_at_ms = Some 50, ts_finished_at_ms = None, ts_error = None, ts_item_count = 0,
       ts_completed_items = 0, ts_failed_items = 0, ts_current_item = None, ts_batch_result = None\<rparr>,
       at_cancelled = False, at_join = Published 20,
       at_throttle = \<lparr>pt_last_emit_ms = 0, pt_last_emit_bytes = 0\<rparr>\<rparr>"
  "bt_get (tr_transfers sample_registry) 1 \<noteq> None"
  by (simp_all add: sample_eval)

text \<open>C16 Whatever launchers, tasks, cancellations and closing sessions do afterwards, a transfer
  only moves forward: its identity and start never change, its state never goes back, a terminal
  state keeps its kind, its finishing time and its batch result, and a requested cancellation is
  never withdrawn. The entry leaves the history only after it reached a terminal state and its
  task slot was filled; its id is never given to another transfer.\<close>

theorem transfer_history:
  assumes "transfer_reachable reg" "bt_get (tr_transfers reg) i = Some e" "transfer_step\<^sup>*\<^sup>* reg reg'"
  shows "\<exists>e'. snapshot_le (at_snapshot e) (at_snapshot e') \<and> (at_cancelled e \<longrightarrow> at_cancelled e') \<and>
     (bt_get (tr_transfers reg') i = Some e' \<or>
      bt_get (tr_transfers reg') i = None \<and> terminal (ts_state (at_snapshot e')) \<and> at_join e' \<noteq> Reserved)"
  using transfer_steps_follow[OF assms(3) registries.inv_reach[OF assms(1)] assms(2)]
  unfolding entry_le_def by blast

theorem transfer_history_witness:
  "\<exists>e'. ts_id (at_snapshot e') = 2 \<and> ts_source (at_snapshot e') = ''c'' \<and>
     bt_get (tr_transfers (task_running 60 2 sample_registry)) 2 = Some e'"
proof -
  have step: "transfer_step\<^sup>*\<^sup>* sample_registry (task_running 60 2 sample_registry)"
    by (rule r_into_rtranclp, rule step_running)
  have "bt_get (tr_transfers (task_running 60 2 sample_registry)) 2 \<noteq> None"
    by (simp add: sample_eval)
  with transfer_history[OF sample_reachable sample_transfers(1) step]
  show ?thesis by (auto simp: snapshot_le_def)
qed

lemma start_transfer_facts:
  assumes "transfer_reachable reg" "\<And>m. set (iter m) = set m"
    and reg': "reg' = start_transfer task_done iter now session_id direction source destination reg"
  shows "bt_get (tr_transfers reg) (tr_next_id reg) = None"
    and "\<exists>e. bt_get (tr_transfers reg') (tr_next_id reg) = Some e \<and> ts_state (at_snapshot e) = Queued \<and>
             at_join e = Reserved \<and> ts_session_id (at_snapshot e) = session_id"
    and "\<And>i e. bt_get (tr_transfers reg) i = Some e \<Longrightarrow>
           \<not> terminal (ts_state (at_snapshot e)) \<or> at_join e = Reserved \<or>
           (\<exists>task. at_join e = Published task \<and> \<not> task_done task) \<Longrightarrow>
           bt_get (tr_transfers reg') i = Some e"
    and "length (tr_transfers reg') \<le> tr_history_capacity reg \<or>
         (\<forall>(i, e)\<in>set (tr_transfers reg'). \<not> can_evict task_done e)"
proof -
  have ok: "transfers_ok reg" using assms(1) by (rule registries.inv_reach)
  then have okr: "transfers_ok (registered now session_id direction source destination reg)"
    by (rule registered_ok)
  show "bt_get (tr_transfers reg) (tr_next_id reg) = None"
    using ok by (cases "bt_get (tr_transfers reg) (tr_next_id reg)") (auto simp: transfers_ok_def)
  have evicts: "evicts task_done (tr_transfers (registered now session_id direction source destination reg))
      (tr_transfers reg')"
    unfolding reg' start_transfer_registered
    using assms(2) okr by (intro reap_locked_evicts) (auto simp: transfers_ok_def)
  from evicts_le[OF evicts registered_new] show "\<exists>e. bt_get (tr_transfers reg') (tr_next_id reg) = Some e \<and>
      ts_state (at_snapshot e) = Queued \<and> at_join e = Reserved \<and> ts_session_id (at_snapshot e) = session_id"
    by (auto simp: can_evict_def snapshot_for_def)
  show "bt_get (tr_transfers reg') i = Some e"
    if "bt_get (tr_transfers reg) i = Some e"
      "\<not> terminal (ts_state (at_snapshot e)) \<or> at_join e = Reserved \<or>
       (\<exists>task. at_join e = Published task \<and> \<not> task_done task)" for i e
  proof -
    have "stamped (at_snapshot e)" using ok that(1) by (auto simp: transfers_ok_def)
    then have "\<not> can_evict task_done e"
      using that(2) by (auto simp: can_evict_def stamped_def split: TaskPublication.split)
    then show ?thesis using start_transfer_get[OF ok assms(2) that(1) reg'] by blast
  qed
  show "length (tr_transfers reg') \<le> tr_history_capacity reg \<or>
         (\<forall>(i, e)\<in>set (tr_transfers reg'). \<not> can_evict task_done e)"
    using reap_capacity_bound[OF assms(2)]
    by (simp add: reg' start_transfer_registered reap_locked_def registered_def snapshot_for_def)
qed



lemma cancel_for_session_facts:
  assumes "transfer_reachable reg" "cancel_for_session now session_id reg = (reg', joins)"
  shows "\<And>i e. bt_get (tr_transfers reg) i = Some e \<Longrightarrow> ts_session_id (at_snapshot e) \<noteq> session_id \<Longrightarrow>
           bt_get (tr_transfers reg') i = Some e"
    and "\<And>i e. bt_get (tr_transfers reg) i = Some e \<Longrightarrow> ts_session_id (at_snapshot e) = session_id \<Longrightarrow>
           \<exists>e'. bt_get (tr_transfers reg') i = Some e' \<and> at_cancelled e' \<and> at_join e' = Taken \<and>
                ts_state (at_snapshot e') =
                  (if terminal (ts_state (at_snapshot e)) then ts_state (at_snapshot e) else CancelledState)"
    and "task \<in> set joins \<longleftrightarrow>
         (\<exists>i e. bt_get (tr_transfers reg) i = Some e \<and> ts_session_id (at_snapshot e) = session_id \<and>
                at_join e = Published task)"
proof -
  have ok: "transfers_ok reg" using assms(1) by (rule registries.inv_reach)
  have reg': "reg' = fst (cancel_for_session now session_id reg)"
    and joins: "joins = snd (cancel_for_session now session_id reg)" using assms(2) by simp_all
  show "bt_get (tr_transfers reg') i = Some e"
    if "bt_get (tr_transfers reg) i = Some e" "ts_session_id (at_snapshot e) \<noteq> session_id" for i e
    using cancel_for_session_get[OF ok that(1)] that(2) by (simp add: reg')
  show "\<exists>e'. bt_get (tr_transfers reg') i = Some e' \<and> at_cancelled e' \<and> at_join e' = Taken \<and>
      ts_state (at_snapshot e') =
        (if terminal (ts_state (at_snapshot e)) then ts_state (at_snapshot e) else CancelledState)"
    if "bt_get (tr_transfers reg) i = Some e" "ts_session_id (at_snapshot e) = session_id" for i e
    using cancel_for_session_get[OF ok that(1)] that(2)
    by (simp add: reg' cancelled_entry_def transition_snapshot_def Let_def)
  show "task \<in> set joins \<longleftrightarrow>
         (\<exists>i e. bt_get (tr_transfers reg) i = Some e \<and> ts_session_id (at_snapshot e) = session_id \<and>
                at_join e = Published task)"
    unfolding joins by (rule cancel_for_session_handles[OF ok])
qed

text \<open>Closing a session cancels each of its transfers and no other one: the token is set, the
  state is terminal, the task slot is taken, and the handles handed back for joining are exactly
  those of the tasks that were published for this session, finished in the snapshot or not.\<close>

lemma cancel_for_session_complete:
  assumes "transfer_reachable reg" "cancel_for_session now session_id reg = (reg', joins)"
  shows "(\<forall>i e. bt_get (tr_transfers reg) i = Some e \<longrightarrow>
      (if ts_session_id (at_snapshot e) \<noteq> session_id then bt_get (tr_transfers reg') i = Some e
       else \<exists>e'. bt_get (tr_transfers reg') i = Some e' \<and> at_cancelled e' \<and> at_join e' = Taken \<and>
              ts_state (at_snapshot e') =
                (if terminal (ts_state (at_snapshot e)) then ts_state (at_snapshot e) else CancelledState))) \<and>
    (\<forall>task. task \<in> set joins \<longleftrightarrow>
      (\<exists>i e. bt_get (tr_transfers reg) i = Some e \<and> ts_session_id (at_snapshot e) = session_id \<and>
             at_join e = Published task))"
  using cancel_for_session_facts[OF assms] by auto

lemma cancel_for_session_complete_witness:
  "20 \<in> set (snd (cancel_for_session 70 7 sample_registry)) \<and>
   (\<exists>e'. bt_get (tr_transfers (fst (cancel_for_session 70 7 sample_registry))) 2 = Some e' \<and>
      at_cancelled e' \<and> ts_state (at_snapshot e') = CancelledState)"
proof -
  have eq: "cancel_for_session 70 7 sample_registry =
      (fst (cancel_for_session 70 7 sample_registry), snd (cancel_for_session 70 7 sample_registry))"
    by simp
  note complete = cancel_for_session_complete[OF sample_reachable eq]
  have "20 \<in> set (snd (cancel_for_session 70 7 sample_registry))"
    using complete sample_transfers(1) by fastforce
  moreover have "\<exists>e'. bt_get (tr_transfers (fst (cancel_for_session 70 7 sample_registry))) 2 = Some e' \<and>
      at_cancelled e' \<and> ts_state (at_snapshot e') = CancelledState"
    using conjunct1[OF complete, rule_format, OF sample_transfers(1)] by (auto simp: terminal_def)
  ultimately show ?thesis by blast
qed

lemma transition_get:
  assumes "bt_get (tr_transfers reg) i = Some e"
  shows "bt_get (tr_transfers (snd (transition now i next reg))) i =
     Some (e\<lparr>at_snapshot := transition_snapshot now next (at_snapshot e)\<rparr>)"
  using assms by (simp add: transition_cases update_entry_get)

lemma transition_published_transfers:
  "tr_transfers (transition_published now i next reg) = tr_transfers (snd (transition now i next reg))"
  by (cases "transition now i next reg") (simp add: transition_published_def split: option.split)

lemma publish_current_transfers [simp]: "tr_transfers (publish_current i reg) = tr_transfers reg"
  by (simp add: publish_current_def split: sum.split)

lemma kept_state:
  assumes "kept reg reg'" "bt_get (tr_transfers reg) i = Some e"
  obtains e' where "bt_get (tr_transfers reg') i = Some e'" "entry_le e e'"
  using assms by (auto simp: kept_def registry_le_def dest!: spec[of _ i])

lemma entry_le_terminal:
  "entry_le e e' \<Longrightarrow> terminal (ts_state (at_snapshot e)) \<Longrightarrow> ts_state (at_snapshot e') = ts_state (at_snapshot e)"
  by (simp add: entry_le_def snapshot_le_def)

text \<open>A terminal transition decides the state, and nothing afterwards changes it.\<close>

lemma terminal_transition_decides:
  assumes "bt_get (tr_transfers reg) i = Some e" "kept reg reg1" "terminal next"
    and "kept (snd (transition now i next reg1)) reg2"
    and "\<And>e1. bt_get (tr_transfers reg1) i = Some e1 \<Longrightarrow>
           terminal (ts_state (at_snapshot e1)) = terminal (ts_state (at_snapshot e))"
  shows "\<exists>e'. bt_get (tr_transfers reg2) i = Some e' \<and>
     ts_state (at_snapshot e') =
       (if terminal (ts_state (at_snapshot e)) then ts_state (at_snapshot e) else next)"
proof -
  obtain e1 where e1: "bt_get (tr_transfers reg1) i = Some e1" "entry_le e e1"
    using kept_state[OF assms(2,1)] .
  let ?e = "e1\<lparr>at_snapshot := transition_snapshot now next (at_snapshot e1)\<rparr>"
  obtain e2 where e2: "bt_get (tr_transfers reg2) i = Some e2" "entry_le ?e e2"
    using kept_state[OF assms(4) transition_get[OF e1(1)]] .
  have "terminal (ts_state (at_snapshot ?e))"
    using assms(3) by (simp add: transition_snapshot_terminal)
  then have "ts_state (at_snapshot e2) = ts_state (at_snapshot ?e)"
    using entry_le_terminal[OF e2(2)] by simp
  then show ?thesis
    using e2(1) entry_le_terminal[OF e1(2)] assms(5)[OF e1(1)]
    by (auto simp: transition_snapshot_def Let_def)
qed

lemma set_progress_terminal:
  assumes "bt_get (tr_transfers reg) i = Some e" "bt_get (tr_transfers (set_progress now i x y reg)) i = Some e1"
  shows "terminal (ts_state (at_snapshot e1)) = terminal (ts_state (at_snapshot e))"
  using assms
  by (auto simp: set_progress_def throttled_update_def update_entry_get Let_def terminal_def
      split: prod.splits if_splits)

lemma set_error_terminal:
  assumes "bt_get (tr_transfers reg) i = Some e" "bt_get (tr_transfers (set_error i err reg)) i = Some e1"
  shows "terminal (ts_state (at_snapshot e1)) = terminal (ts_state (at_snapshot e))"
  using assms by (auto simp: set_error_def update_entry_get)

lemma kept_lost_if: "kept reg (if c then lost_transfers ready now session_id (publish_current i reg) else publish_current i reg)"
  using kept_trans[OF _ kept_lost, of reg "publish_current i reg"] by simp

text \<open>The result of the core call decides the final state of the transfer, and only if no
  cancellation was first: \<open>Completed\<close> for a result, \<open>Cancelled\<close> for a cancelled or
  interrupted request, \<open>Failed\<close> for any other error; an entry that was already terminal keeps
  its state, also when the failure closes the session and cancels its other transfers.\<close>

lemma task_outcome:
  assumes "bt_get (tr_transfers reg) i = Some e"
  shows "\<exists>e'. bt_get (tr_transfers (task_finished display ready now i session_id operation result reg)) i = Some e' \<and>
     ts_state (at_snapshot e') =
       (if terminal (ts_state (at_snapshot e)) then ts_state (at_snapshot e)
        else case result of
               Inr _ \<Rightarrow> Completed
             | Inl err \<Rightarrow> if error_code err = CancelledCode \<or> error_code err = InterruptedCode
                           then CancelledState else Failed)"
proof (cases result)
  case (Inr bytes)
  let ?reg1 = "set_progress now i bytes bytes reg"
  have "kept (snd (transition now i Completed ?reg1)) (transition_published now i Completed ?reg1)"
    by (cases "transition now i Completed ?reg1") (simp add: transition_published_def split: option.split)
  from terminal_transition_decides[OF assms kept_set_progress terminal_simps(1) this
      set_progress_terminal[OF assms, of now bytes bytes]]
  show ?thesis using Inr by (auto simp: task_finished_def)
next
  case (Inl err)
  show ?thesis
  proof (cases "error_code err = CancelledCode \<or> error_code err = InterruptedCode")
    case True
    have "terminal (ts_state (at_snapshot e1)) = terminal (ts_state (at_snapshot e))"
      if "bt_get (tr_transfers reg) i = Some e1" for e1 using that assms by simp
    from terminal_transition_decides[OF assms kept_refl terminal_simps(3)
        kept_lost_if[where c = "transfer_closed_the_session err"] this]
    show ?thesis using Inl True by (auto simp: task_finished_def Let_def)
  next
    case False
    let ?error = "from_core_error display err operation"
    from terminal_transition_decides[OF assms kept_set_error[of reg i ?error] terminal_simps(2)
        kept_lost_if[where c = "transfer_closed_the_session err"] set_error_terminal[OF assms]]
    show ?thesis using Inl False by (auto simp: task_finished_def Let_def)
  qed
qed

lemma task_outcome_witness:
  "\<exists>e'. bt_get (tr_transfers (task_finished (\<lambda>_. []) True 80 2 7 ''upload'' (Inl (Transport []))
       sample_registry)) 2 = Some e' \<and> ts_state (at_snapshot e') = Failed"
  using task_outcome[OF sample_transfers(1), of "\<lambda>_. []" True 80 7 "''upload''" "Inl (Transport [])"]
  by (simp add: terminal_def)

lemma emitted_from_any:
  assumes "advancing t b calls" "calls \<noteq> []"
  shows "emitted throttle calls \<le>
     1 + ((fst (last calls) - t) div PROGRESS_MIN_INTERVAL_MS + (snd (last calls) - b) div PROGRESS_MIN_BYTES)"
  using assms
proof (induction calls arbitrary: t b throttle)
  case (Cons call calls)
  obtain now bytes where call: "call = (now, bytes)" by (cases call)
  have adv: "t \<le> now" "b \<le> bytes" "advancing now bytes calls" using Cons.prems(1) call by auto
  let ?budget = "\<lambda>x y. (fst (last (call # calls)) - x) div PROGRESS_MIN_INTERVAL_MS +
                        (snd (last (call # calls)) - y) div PROGRESS_MIN_BYTES"
  have mono: "?budget now bytes \<le> ?budget t b"
    using adv by (intro add_mono div_le_mono diff_le_mono2)
  obtain emit throttle' where allow: "throttle_allows throttle now (Some bytes) = (emit, throttle')"
    by (cases "throttle_allows throttle now (Some bytes)")
  show ?case
  proof (cases emit)
    case True
    then have th: "pt_last_emit_ms throttle' = now" "pt_last_emit_bytes throttle' = bytes"
      using allow by (auto simp: throttle_allows_def Let_def split: if_splits)
    have "emitted throttle' calls \<le> ?budget now bytes"
    proof (cases "calls = []")
      case False
      then show ?thesis using emitted_budget[OF adv(3), of throttle'] th by simp
    qed simp
    then show ?thesis using mono True call allow by simp
  next
    case False
    have "emitted throttle' calls \<le> 1 + ?budget now bytes"
    proof (cases "calls = []")
      case False
      then show ?thesis using Cons.IH[OF adv(3), of throttle'] by simp
    qed simp
    then show ?thesis using mono False call allow by simp
  qed
qed simp

text \<open>However fast a transfer reports progress, the events it emits over a run of callbacks at
  advancing times with growing byte counts are bounded, whatever the throttle held before: one,
  plus one per 100 ms elapsed, plus one per 256 KiB transferred.\<close>

lemma progress_events_bounded:
  assumes "advancing t b calls" "calls \<noteq> []"
  shows "emitted throttle calls \<le>
     1 + (fst (last calls) - t) div PROGRESS_MIN_INTERVAL_MS + (snd (last calls) - b) div PROGRESS_MIN_BYTES"
  using emitted_from_any[OF assms, of throttle] by simp

lemma progress_events_bounded_witness:
  "emitted \<lparr>pt_last_emit_ms = 0, pt_last_emit_bytes = 0\<rparr>
     [(1000, 10), (1050, 20), (1090, 300000), (1150, 300001)] \<le> 1 + 1 + 1"
  using progress_events_bounded[of 1000 10 "[(1000, 10), (1050, 20), (1090, 300000), (1150, 300001)]"
      "\<lparr>pt_last_emit_ms = 0, pt_last_emit_bytes = 0\<rparr>"]
  by (simp add: PROGRESS_MIN_INTERVAL_MS_def PROGRESS_MIN_BYTES_def)

text \<open>A session that closes between the registration of a transfer and the publication of its
  task turns the reserved slot into a taken one: no handle is returned for joining, the transfer
  counts as finished, and the next registration over capacity drops the entry although its task
  is only about to start.\<close>

theorem reserved_slot_lost:
  "\<exists>reg e. transfer_reachable reg \<and> bt_get (tr_transfers reg) 1 = Some e \<and> at_join e = Reserved \<and>
     (case cancel_for_session 20 7 reg of (reg1, joins) \<Rightarrow>
        joins = [] \<and>
        bt_get (tr_transfers (start_transfer (\<lambda>_. False) id 30 8 UploadDto [] [] reg1)) 1 = None \<and>
        bt_get (tr_transfers (publish_task 1 10
          (start_transfer (\<lambda>_. False) id 30 8 UploadDto [] [] reg1))) 1 = None)"
proof -
  let ?reg = "start_transfer (\<lambda>_. False) id 10 7 DownloadDto ''a'' ''b'' (registry_new 1 None)"
  have "transfer_reachable ?reg"
    by (intro registry_step[OF _ step_start] reachable_new) simp
  then show ?thesis
    by (intro exI[of _ ?reg] exI[of _ "the (bt_get (tr_transfers ?reg) 1)"]) (simp add: sample_eval)
qed

end
