(* ===== verification/FilePlan.thy ===== *)
theory FilePlan
  imports Paths Errors Domain Stores
begin

text \<open>
  Remote path resolution and the preflight of file operations:
  \<open>resolve_remote_path\<close>, \<open>normalize_remote_path\<close>, \<open>plan_download\<close>,
  \<open>plan_upload\<close> and their helpers of \<open>handshaker-application/src/runtime.rs\<close>, with the
  data of \<open>file_plan.rs\<close>. A stat request to the phone and the metadata of the local file system
  are arguments.
\<close>

section \<open>Remote paths\<close>

fun push_component :: "string list \<Rightarrow> string \<Rightarrow> string list" where
  "push_component parts component =
     (if component = [] \<or> component = ''.'' then parts
      else if component = ''..'' then butlast parts
      else parts @ [component])"

definition normalize_remote_path :: "string \<Rightarrow> string" where
  "normalize_remote_path p =
     ''/'' @ join_with ''/'' (foldl push_component [] (split_on (CHR ''/'') p))"

definition resolve_remote_path :: "string \<Rightarrow> string \<Rightarrow> string" where
  "resolve_remote_path root p =
     (let trimmed = trim p in
      if trimmed = [] \<or> trimmed = ''.'' then root
      else if starts_with ''/'' trimmed then
        (case str_strip_prefix ''/sdcard'' trimmed of
           Some rest \<Rightarrow> if rest = [] \<or> starts_with ''/'' rest
                         then normalize_remote_path (root @ rest)
                         else normalize_remote_path trimmed
         | None \<Rightarrow> normalize_remote_path trimmed)
      else
        let normalized = normalize_remote_path (root @ ''/'' @ trimmed) in
        if root = ''/'' \<or> root = [] then normalized
        else if normalized = root \<or> starts_with (root @ ''/'') normalized then normalized
        else root)"

section \<open>Plans\<close>

datatype FilePlanDirection = UploadPlan | DownloadPlan

datatype FileConflictKind =
    DestinationExists | DestinationTypeMismatch | RecursiveRequired | DuplicateDestination
  | SourceMissing | LocalPermissionDeniedConflict

record FilePlanConflict =
  fc_kind :: FileConflictKind
  fc_source :: string
  fc_destination :: string
  fc_message :: string
  fc_overridable :: bool

record FilePlanItem =
  fi_source :: string
  fi_destination :: string
  fi_is_directory :: bool
  fi_size :: "nat option"

record FileOperationPlan =
  fp_direction :: FilePlanDirection
  fp_session_id :: nat
  fp_items :: "FilePlanItem list"
  fp_conflicts :: "FilePlanConflict list"
  fp_file_count :: nat
  fp_directory_count :: nat
  fp_total_bytes :: "nat option"
  fp_requires_recursive :: bool
  fp_executable :: bool

record PlanDownloadRequest =
  pd_session_id :: nat
  pd_remote_sources :: "string list"
  pd_local_destination :: string
  pd_recursive :: bool
  pd_overwrite :: bool

record PlanUploadRequest =
  pu_session_id :: nat
  pu_local_sources :: "string list"
  pu_remote_destination :: string
  pu_recursive :: bool
  pu_overwrite :: bool

record FileEntryDto =
  fe_path :: string
  fe_size :: nat
  fe_created_at_ms :: "nat option"
  fe_modified_at_ms :: "nat option"
  fe_is_directory :: bool
  fe_checksum :: "string option"
  fe_is_trash :: "bool option"
  fe_media_id :: "nat option"

definition remote_file_to_dto :: "RemoteFile \<Rightarrow> FileEntryDto" where
  "remote_file_to_dto file =
     \<lparr>fe_path = rf_path file, fe_size = rf_size file, fe_created_at_ms = rf_created_at file,
      fe_modified_at_ms = rf_modified_at file, fe_is_directory = rf_is_directory file,
      fe_checksum = rf_checksum file, fe_is_trash = rf_is_trash file, fe_media_id = rf_id file\<rparr>"

text \<open>\<open>stat_file\<close>: the path is resolved against the root of the device, then the client is asked.\<close>

type_synonym client_stat = "string \<Rightarrow> RemoteFile option app_result"

definition stat_file :: "client_stat \<Rightarrow> string \<Rightarrow> string \<Rightarrow> FileEntryDto option app_result" where
  "stat_file stat root p =
     and_then (stat (resolve_remote_path root p)) (\<lambda>file. Inr (map_option remote_file_to_dto file))"

text \<open>\<open>std::fs::metadata\<close>: what a local path names, if anything can be said of it.\<close>

datatype local_meta = LocalFile nat | LocalDir | LocalOther nat

datatype meta_error = MetaNotFound | MetaDenied | MetaOther string

fun meta_is_dir :: "local_meta \<Rightarrow> bool" where
  "meta_is_dir LocalDir = True"
| "meta_is_dir _ = False"

fun meta_len :: "local_meta \<Rightarrow> nat" where
  "meta_len (LocalFile n) = n"
| "meta_len (LocalOther n) = n"
| "meta_len LocalDir = 0"

definition is_executable_with :: "FileOperationPlan \<Rightarrow> bool \<Rightarrow> bool" where
  "is_executable_with plan overwrite =
     list_all (\<lambda>conflict. if \<not> fc_overridable conflict then False
                          else case fc_kind conflict of
                                 DestinationExists \<Rightarrow> overwrite
                               | _ \<Rightarrow> True) (fp_conflicts plan)"

text \<open>\<open>Path::file_name\<close> and \<open>PathBuf::join\<close> with a plain name, on the text of a path.\<close>

definition file_name :: "string \<Rightarrow> string option" where
  "file_name s = (case components s of
                    [] \<Rightarrow> None
                  | cs \<Rightarrow> (case last cs of Normal n \<Rightarrow> Some n | _ \<Rightarrow> None))"

definition join_name :: "string \<Rightarrow> string \<Rightarrow> string" where
  "join_name base name =
     (if base = [] \<or> last base = CHR ''/'' then base @ name else base @ ''/'' @ name)"

definition usable_name :: "string option \<Rightarrow> bool" where
  "usable_name name = (case name of
                         Some n \<Rightarrow> n \<noteq> ''.'' \<and> n \<noteq> ''..'' \<and> n \<noteq> []
                       | None \<Rightarrow> False)"

definition mismatch :: "string \<Rightarrow> string \<Rightarrow> string \<Rightarrow> FilePlanConflict" where
  "mismatch source destination message =
     \<lparr>fc_kind = DestinationTypeMismatch, fc_source = source, fc_destination = destination,
      fc_message = message, fc_overridable = False\<rparr>"

section \<open>Download preflight\<close>

type_synonym conflicts = "FilePlanConflict list"

definition resolve_local_download_destination ::
  "(string \<Rightarrow> meta_error + local_meta) \<Rightarrow> string \<Rightarrow> FileEntryDto \<Rightarrow> nat \<Rightarrow> conflicts
   \<Rightarrow> string option \<times> conflicts" where
  "resolve_local_download_destination metadata destination remote source_count conflicts =
     (if \<not> usable_name (file_name (fe_path remote))
      then (None, conflicts @ [mismatch (fe_path remote) destination
                                 ''remote path has no usable file name''])
      else
        let base = the (file_name (fe_path remote));
            is_dir = (case metadata destination of Inr m \<Rightarrow> meta_is_dir m | Inl _ \<Rightarrow> False)
        in if source_count > 1 then
             (if is_dir then (Some (join_name destination base), conflicts)
              else (None, conflicts @ [mismatch (fe_path remote) destination
                      ''multi-source download requires an existing destination directory'']))
           else if is_dir then (Some (join_name destination base), conflicts)
           else (Some destination, conflicts))"

definition inspect_local_destination ::
  "(string \<Rightarrow> meta_error + local_meta) \<Rightarrow> string \<Rightarrow> bool \<Rightarrow> bool \<Rightarrow> conflicts \<Rightarrow> conflicts" where
  "inspect_local_destination metadata destination remote_is_directory overwrite conflicts =
     (case metadata destination of
        Inl _ \<Rightarrow> conflicts
      | Inr m \<Rightarrow>
          if meta_is_dir m \<noteq> remote_is_directory
          then conflicts @ [mismatch destination destination
                              ''destination type does not match the source'']
          else (case m of
                  LocalFile _ \<Rightarrow>
                    conflicts @ [\<lparr>fc_kind = DestinationExists, fc_source = destination,
                      fc_destination = destination, fc_message = ''destination already exists'',
                      fc_overridable = overwrite\<rparr>]
                | _ \<Rightarrow> conflicts))"

fun append_duplicates :: "(string \<rightharpoonup> string) \<Rightarrow> FilePlanItem list \<Rightarrow> conflicts \<Rightarrow> conflicts" where
  "append_duplicates seen [] conflicts = conflicts"
| "append_duplicates seen (item # items) conflicts =
     append_duplicates (seen(fi_destination item \<mapsto> fi_source item)) items
       (case seen (fi_destination item) of
          None \<Rightarrow> conflicts
        | Some previous \<Rightarrow>
            conflicts @ [\<lparr>fc_kind = DuplicateDestination, fc_source = fi_source item,
              fc_destination = fi_destination item,
              fc_message = ''multiple sources map to the same destination ('' @ previous @ '' and ''
                           @ fi_source item @ '')'',
              fc_overridable = False\<rparr>])"

definition append_duplicate_destination_conflicts ::
  "FilePlanItem list \<Rightarrow> conflicts \<Rightarrow> conflicts" where
  "append_duplicate_destination_conflicts items conflicts = append_duplicates Map.empty items conflicts"

definition finalize_file_plan ::
  "FilePlanDirection \<Rightarrow> nat \<Rightarrow> FilePlanItem list \<Rightarrow> conflicts \<Rightarrow> bool \<Rightarrow> FileOperationPlan" where
  "finalize_file_plan direction session_id items conflicts requires_recursive =
     (let file_count = length (filter (\<lambda>item. \<not> fi_is_directory item) items);
          sum = foldl saturating_add_u64 0 (List.map_filter fi_size items)
      in \<lparr>fp_direction = direction, fp_session_id = session_id, fp_items = items,
          fp_conflicts = conflicts, fp_file_count = file_count,
          fp_directory_count = length (filter fi_is_directory items),
          fp_total_bytes = (if file_count > 0 then Some sum else None),
          fp_requires_recursive = requires_recursive,
          fp_executable = list_all fc_overridable conflicts\<rparr>)"

text \<open>The state of the preflight loop: items, conflicts, whether a directory was refused.\<close>

type_synonym preflight = "FilePlanItem list \<times> conflicts \<times> bool"

definition recursive_required :: "string \<Rightarrow> string \<Rightarrow> string \<Rightarrow> FilePlanConflict" where
  "recursive_required source destination message =
     \<lparr>fc_kind = RecursiveRequired, fc_source = source, fc_destination = destination,
      fc_message = message, fc_overridable = True\<rparr>"

definition missing_source :: "string \<Rightarrow> string \<Rightarrow> string \<Rightarrow> FilePlanConflict" where
  "missing_source source destination message =
     \<lparr>fc_kind = SourceMissing, fc_source = source, fc_destination = destination,
      fc_message = message, fc_overridable = False\<rparr>"

definition plan_download_source ::
  "client_stat \<Rightarrow> (string \<Rightarrow> meta_error + local_meta) \<Rightarrow> string
   \<Rightarrow> PlanDownloadRequest \<Rightarrow> string \<Rightarrow> preflight \<Rightarrow> preflight app_result" where
  "plan_download_source stat metadata root request raw_source st =
     (let (items, conflicts, requires_recursive) = st;
          source = resolve_remote_path root raw_source;
          local = pd_local_destination request
      in and_then (stat_file stat root source) (\<lambda>found.
           case found of
             None \<Rightarrow> Inr (items,
               conflicts @ [missing_source source local ''remote source does not exist''],
               requires_recursive)
           | Some remote \<Rightarrow>
               (let refused = fe_is_directory remote \<and> \<not> pd_recursive request;
                    conflicts1 = (if refused
                      then conflicts @ [recursive_required source local
                             ''directory download requires recursive mode'']
                      else conflicts);
                    (destination, conflicts2) = resolve_local_download_destination metadata local
                      remote (length (pd_remote_sources request)) conflicts1
                in case destination of
                     None \<Rightarrow> Inr (items, conflicts2, requires_recursive \<or> refused)
                   | Some dest \<Rightarrow>
                       Inr (items @ [\<lparr>fi_source = source, fi_destination = dest,
                              fi_is_directory = fe_is_directory remote,
                              fi_size = (if fe_is_directory remote then None
                                         else Some (fe_size remote))\<rparr>],
                            inspect_local_destination metadata dest (fe_is_directory remote)
                              (pd_overwrite request) conflicts2,
                            requires_recursive \<or> refused))))"

fun plan_sources ::
  "(string \<Rightarrow> preflight \<Rightarrow> preflight app_result) \<Rightarrow> string list \<Rightarrow> preflight \<Rightarrow> preflight app_result" where
  "plan_sources step [] st = Inr st"
| "plan_sources step (raw # raws) st = and_then (step raw st) (plan_sources step raws)"

definition plan_download ::
  "client_stat \<Rightarrow> (string \<Rightarrow> meta_error + local_meta) \<Rightarrow> string
   \<Rightarrow> PlanDownloadRequest \<Rightarrow> FileOperationPlan app_result" where
  "plan_download stat metadata root request =
     and_then (plan_sources (plan_download_source stat metadata root request)
                 (pd_remote_sources request) ([], [], False))
       (\<lambda>(items, conflicts, requires_recursive).
          Inr (finalize_file_plan DownloadPlan (pd_session_id request) items
                 (append_duplicate_destination_conflicts items conflicts) requires_recursive))"

section \<open>Upload preflight\<close>

definition resolve_remote_upload_destination ::
  "string \<Rightarrow> string \<Rightarrow> nat \<Rightarrow> FileEntryDto option \<Rightarrow> conflicts \<Rightarrow> string option \<times> conflicts" where
  "resolve_remote_upload_destination destination source source_count destination_stat conflicts =
     (if \<not> usable_name (file_name source)
      then (None, conflicts @ [mismatch source destination ''local source has no usable file name''])
      else
        let base = the (file_name source);
            is_dir = (case destination_stat of Some existing \<Rightarrow> fe_is_directory existing | None \<Rightarrow> False)
        in if source_count > 1 then
             (if is_dir then (Some (destination @ ''/'' @ base), conflicts)
              else (None, conflicts @ [mismatch source destination
                      ''multi-source upload requires an existing remote directory'']))
           else if is_dir then (Some (destination @ ''/'' @ base), conflicts)
           else (Some destination, conflicts))"

definition append_remote_destination_conflict ::
  "string \<Rightarrow> string \<Rightarrow> bool \<Rightarrow> FileEntryDto \<Rightarrow> bool \<Rightarrow> conflicts \<Rightarrow> conflicts" where
  "append_remote_destination_conflict source destination is_directory existing overwrite conflicts =
     (if fe_is_directory existing \<noteq> is_directory
      then conflicts @ [mismatch source destination
                          ''remote destination type does not match the source'']
      else if \<not> fe_is_directory existing
      then conflicts @ [\<lparr>fc_kind = DestinationExists, fc_source = source,
             fc_destination = destination, fc_message = ''remote destination already exists'',
             fc_overridable = overwrite\<rparr>]
      else conflicts)"

definition stat_optional ::
  "client_stat \<Rightarrow> string \<Rightarrow> string \<Rightarrow> FileEntryDto option app_result" where
  "stat_optional stat root p =
     (case stat_file stat root p of
        Inr file \<Rightarrow> Inr file
      | Inl error \<Rightarrow> if pe_code error = RemotePathNotFound then Inr None else Inl error)"

definition map_local_plan_error :: "string \<Rightarrow> string \<Rightarrow> PublicError" where
  "map_local_plan_error error source =
     (with_operation (public_error_new LocalPermissionDenied (''cannot inspect local source '' @ source))
        ''plan_upload'')\<lparr>pe_detail := Some error\<rparr>"

definition plan_upload_source ::
  "client_stat \<Rightarrow> (string \<Rightarrow> meta_error + local_meta)
   \<Rightarrow> string \<Rightarrow> PlanUploadRequest \<Rightarrow> string \<Rightarrow> FileEntryDto option \<Rightarrow> string \<Rightarrow> preflight \<Rightarrow> preflight app_result" where
  "plan_upload_source stat metadata root request remote_destination destination_stat raw_source st =
     (let (items, conflicts, requires_recursive) = st in
      case metadata raw_source of
        Inl MetaNotFound \<Rightarrow> Inr (items,
          conflicts @ [missing_source raw_source remote_destination ''local source does not exist''],
          requires_recursive)
      | Inl MetaDenied \<Rightarrow> Inr (items,
          conflicts @ [\<lparr>fc_kind = LocalPermissionDeniedConflict, fc_source = raw_source,
            fc_destination = remote_destination, fc_message = ''local source is not readable'',
            fc_overridable = False\<rparr>],
          requires_recursive)
      | Inl (MetaOther error) \<Rightarrow> Inl (map_local_plan_error error raw_source)
      | Inr m \<Rightarrow>
          (let is_directory = meta_is_dir m;
               refused = is_directory \<and> \<not> pu_recursive request;
               conflicts1 = (if refused
                 then conflicts @ [recursive_required raw_source remote_destination
                        ''directory upload requires recursive mode'']
                 else conflicts);
               (destination, conflicts2) = resolve_remote_upload_destination remote_destination
                 raw_source (length (pu_local_sources request)) destination_stat conflicts1
           in case destination of
                None \<Rightarrow> Inr (items, conflicts2, requires_recursive \<or> refused)
              | Some dest \<Rightarrow>
                  and_then (stat_optional stat root dest) (\<lambda>found.
                    Inr (items @ [\<lparr>fi_source = raw_source, fi_destination = dest,
                           fi_is_directory = is_directory,
                           fi_size = (if is_directory then None else Some (meta_len m))\<rparr>],
                         (case found of
                            None \<Rightarrow> conflicts2
                          | Some existing \<Rightarrow> append_remote_destination_conflict raw_source dest
                              is_directory existing (pu_overwrite request) conflicts2),
                         requires_recursive \<or> refused))))"

definition plan_upload ::
  "client_stat \<Rightarrow> (string \<Rightarrow> meta_error + local_meta) \<Rightarrow> string
   \<Rightarrow> PlanUploadRequest \<Rightarrow> FileOperationPlan app_result" where
  "plan_upload stat metadata root request =
     (let remote_destination = resolve_remote_path root (pu_remote_destination request) in
      and_then (stat_optional stat root remote_destination) (\<lambda>destination_stat.
      and_then (plan_sources (plan_upload_source stat metadata root request remote_destination destination_stat)
                  (pu_local_sources request) ([], [], False))
        (\<lambda>(items, conflicts, requires_recursive).
           Inr (finalize_file_plan UploadPlan (pu_session_id request) items
                  (append_duplicate_destination_conflicts items conflicts) requires_recursive))))"


section \<open>Canonical remote paths\<close>

lemma push_component_clean:
  assumes "list_all clean_name parts" "CHR ''/'' \<notin> set c"
  shows "list_all clean_name (push_component parts c)"
  using assms by (auto simp: clean_name_def list_all_iff dest: in_set_butlastD)

lemma foldl_push_clean:
  "list_all clean_name acc \<Longrightarrow> (\<And>c. c \<in> set cs \<Longrightarrow> CHR ''/'' \<notin> set c) \<Longrightarrow>
   list_all clean_name (foldl push_component acc cs)"
proof (induction cs arbitrary: acc)
  case (Cons c cs)
  then show ?case using push_component_clean[of acc c] by simp
qed simp

lemma foldl_push_id:
  "list_all clean_name cs \<Longrightarrow> foldl push_component acc cs = acc @ cs"
  by (induction cs arbitrary: acc) (auto simp: clean_name_def)

definition remote_parts :: "string \<Rightarrow> string list" where
  "remote_parts p = foldl push_component [] (split_on (CHR ''/'') p)"

lemma remote_parts_clean [simp]: "list_all clean_name (remote_parts p)"
  unfolding remote_parts_def by (rule foldl_push_clean) (auto dest: split_on_no_sep)

lemma normalize_parts: "normalize_remote_path p = CHR ''/'' # join_with ''/'' (remote_parts p)"
  by (simp add: normalize_remote_path_def remote_parts_def)

lemma split_join_clean:
  assumes "list_all clean_name ps"
  shows "foldl push_component acc (split_on (CHR ''/'') (join_with ''/'' ps)) = acc @ ps"
proof (cases "ps = []")
  case False
  then have "split_on (CHR ''/'') (join_with ''/'' ps) = ps"
    using assms by (intro split_join) (auto simp: list_all_iff clean_name_def)
  then show ?thesis using assms by (simp add: foldl_push_id)
qed simp

lemma remote_parts_canonical:
  assumes "list_all clean_name ps"
  shows "remote_parts (CHR ''/'' # join_with ''/'' ps) = ps"
  using split_join_clean[OF assms, of "[]"] by (simp add: remote_parts_def)

lemma normalize_idempotent: "normalize_remote_path (normalize_remote_path p) = normalize_remote_path p"
  unfolding normalize_parts by (simp add: remote_parts_canonical)

lemma join_with_Cons: "xs \<noteq> [] \<Longrightarrow> join_with sep (x # xs) = x @ sep @ join_with sep xs"
  by (cases xs) simp_all

lemma join_with_append:
  "xs \<noteq> [] \<Longrightarrow> ys \<noteq> [] \<Longrightarrow> join_with sep (xs @ ys) = join_with sep xs @ sep @ join_with sep ys"
proof (induction xs)
  case (Cons x xs)
  then show ?case by (cases "xs = []") (simp_all add: join_with_Cons)
qed simp

lemma split_on_middle: "split_on c (p @ c # q) = split_on c p @ split_on c q"
  by (induction p) (auto split: list.splits)

lemma remote_parts_append:
  "remote_parts (p @ CHR ''/'' # q) = foldl push_component (remote_parts p) (split_on (CHR ''/'') q)"
  by (simp add: remote_parts_def split_on_middle)

text \<open>A canonical path starts with a canonical root if and only if its names start with the root's.\<close>

lemma starts_with_parts:
  assumes "starts_with (root @ ''/'') p" "normalize_remote_path root = root" "normalize_remote_path p = p"
  shows "\<exists>names. names \<noteq> [] \<and> remote_parts p = remote_parts root @ names"
proof -
  let ?s = "CHR ''/''"
  obtain q where q: "p = root @ ?s # q"
    using assms(1) by (auto simp: starts_with_def) (metis append_Cons append_assoc append_take_drop_id append_Nil)
  have root: "root = ?s # join_with [?s] (remote_parts root)"
    and p: "p = ?s # join_with [?s] (remote_parts p)"
    using assms(2,3) normalize_parts[of root] normalize_parts[of p] by simp_all
  have split: "split_on ?s (?s # join_with [?s] ps) = [] # (if ps = [] then [[]] else ps)"
    if "list_all clean_name ps" for ps
    using that split_join[of ps ?s] by (auto simp: list_all_iff clean_name_def)
  have ps: "remote_parts p \<noteq> []"
  proof
    assume "remote_parts p = []"
    then have "p = [?s]" using p by simp
    then show False using q root by (cases root) simp_all
  qed
  have "[] # remote_parts p = split_on ?s p"
    using split[of "remote_parts p"] ps p by simp
  also have "\<dots> = split_on ?s root @ split_on ?s q" unfolding q by (rule split_on_middle)
  also have "split_on ?s root = [] # (if remote_parts root = [] then [[]] else remote_parts root)"
    using split[of "remote_parts root"] root by simp
  finally have eq: "remote_parts p = (if remote_parts root = [] then [[]] else remote_parts root) @ split_on ?s q"
    by simp
  have "remote_parts root \<noteq> []"
  proof
    assume "remote_parts root = []"
    then have "[] \<in> set (remote_parts p)" using eq by simp
    then show False using remote_parts_clean[of p] by (auto simp: list_all_iff clean_name_def)
  qed
  then show ?thesis using eq by auto
qed

lemma resolve_canonical:
  assumes "normalize_remote_path root = root"
  shows "normalize_remote_path (resolve_remote_path root p) = resolve_remote_path root p"
  using assms
  by (auto simp: resolve_remote_path_def Let_def normalize_idempotent split: option.split)

text \<open>With the canonical root of a device, resolution always yields a canonical absolute path,
  without empty, dot or dot-dot names; and a relative path can never leave the root, whatever
  dot-dot components it carries: the names of the result continue the names of the root.\<close>

lemma resolve_remote_path_contained:
  assumes "root = ''/'' @ join_with ''/'' root_names" "list_all clean_name root_names" "root_names \<noteq> []"
  shows "\<exists>names. list_all clean_name names \<and>
    resolve_remote_path root p = ''/'' @ join_with ''/'' names \<and>
    (\<not> starts_with ''/'' (trim p) \<longrightarrow> (\<exists>rest. names = root_names @ rest))"
proof -
  let ?r = "resolve_remote_path root p"
  have parts: "remote_parts root = root_names"
    using remote_parts_canonical[OF assms(2)] assms(1) by simp
  then have root: "normalize_remote_path root = root" using assms(1) by (simp add: normalize_parts)
  have canonical: "normalize_remote_path ?r = ?r" by (rule resolve_canonical[OF root])
  obtain n ns where "root_names = n # ns" "n \<noteq> []"
    using assms(2,3) by (cases root_names) (auto simp: clean_name_def)
  then have "root \<noteq> ''/''" "root \<noteq> []"
    using assms(1) by (cases ns; simp)+
  then have "?r = root \<or> starts_with (root @ ''/'') ?r" if "\<not> starts_with ''/'' (trim p)"
    using that by (auto simp: resolve_remote_path_def Let_def)
  then have "\<exists>rest. remote_parts ?r = root_names @ rest" if "\<not> starts_with ''/'' (trim p)"
    using that parts starts_with_parts[OF _ root canonical] by auto
  then show ?thesis
    using canonical by (intro exI[of _ "remote_parts ?r"]) (auto simp: normalize_parts)
qed

lemma resolve_remote_path_contained_witness:
  "resolve_remote_path ''/storage/0'' ''DCIM/../../../etc'' = ''/storage/0'' \<and>
   (\<exists>names. list_all clean_name names \<and>
      resolve_remote_path ''/storage/0'' ''DCIM/./a/..'' = ''/'' @ join_with ''/'' names)"
proof -
  have "resolve_remote_path ''/storage/0'' ''DCIM/../../../etc'' = ''/storage/0''"
    by (simp add: resolve_remote_path_def trim_graphic graphic_def normalize_remote_path_def starts_with_def)
  then show ?thesis
    using resolve_remote_path_contained[of "''/storage/0''" "[''storage'', ''0'']" "''DCIM/./a/..''"]
    by (auto simp: clean_name_def)
qed

section \<open>The preflight loop\<close>

definition resolved_by :: "bool \<Rightarrow> FilePlanConflict \<Rightarrow> bool" where
  "resolved_by overwrite conflict \<longleftrightarrow>
     fc_overridable conflict \<and> (fc_kind conflict = DestinationExists \<longrightarrow> overwrite)"

lemma is_executable_with_iff:
  "is_executable_with plan overwrite \<longleftrightarrow> list_all (resolved_by overwrite) (fp_conflicts plan)"
proof -
  have "(if \<not> fc_overridable c then False else case fc_kind c of DestinationExists \<Rightarrow> overwrite | _ \<Rightarrow> True) =
      resolved_by overwrite c" for c
    by (cases "fc_kind c") (simp_all add: resolved_by_def)
  then show ?thesis by (simp add: is_executable_with_def)
qed

text \<open>
  What both loops rely on: a source only appends conflicts, and when all of them are resolved it
  appended exactly one item, which is good for that source.
\<close>

locale preflight_loop =
  fixes step :: "string \<Rightarrow> preflight \<Rightarrow> preflight app_result"
    and good :: "bool \<Rightarrow> string \<Rightarrow> FilePlanItem \<Rightarrow> bool"
  assumes step_law: "step raw (items, conflicts, recursive) = Inr (items', conflicts', recursive') \<Longrightarrow>
    \<exists>new. conflicts' = conflicts @ new \<and>
      (list_all (resolved_by overwrite) new \<longrightarrow> (\<exists>item. items' = items @ [item] \<and> good overwrite raw item))"
begin

lemma sources_law:
  "plan_sources step raws (items, conflicts, recursive) = Inr (items', conflicts', recursive') \<Longrightarrow>
   \<exists>new. conflicts' = conflicts @ new \<and>
     (list_all (resolved_by overwrite) new \<longrightarrow>
        (\<exists>added. items' = items @ added \<and> list_all2 (good overwrite) raws added))"
proof (induction raws arbitrary: items conflicts recursive)
  case Nil
  then show ?case by simp
next
  case (Cons raw raws)
  from Cons.prems obtain items1 conflicts1 recursive1
    where one: "step raw (items, conflicts, recursive) = Inr (items1, conflicts1, recursive1)"
      and rest: "plan_sources step raws (items1, conflicts1, recursive1) = Inr (items', conflicts', recursive')"
    by (cases "step raw (items, conflicts, recursive)") (auto simp: and_then_def)
  obtain new1 where new1: "conflicts1 = conflicts @ new1"
    "list_all (resolved_by overwrite) new1 \<Longrightarrow> \<exists>item. items1 = items @ [item] \<and> good overwrite raw item"
    using step_law[OF one, of overwrite] by blast
  obtain new2 where new2: "conflicts' = conflicts1 @ new2"
    "list_all (resolved_by overwrite) new2 \<Longrightarrow>
       \<exists>added. items' = items1 @ added \<and> list_all2 (good overwrite) raws added"
    using Cons.IH[OF rest] by blast
  have "\<exists>added. items' = items @ added \<and> list_all2 (good overwrite) (raw # raws) added"
    if "list_all (resolved_by overwrite) (new1 @ new2)"
  proof -
    from that obtain item added where "items1 = items @ [item]" "good overwrite raw item"
      "items' = items1 @ added" "list_all2 (good overwrite) raws added"
      using new1(2) new2(2) by auto
    then show ?thesis by (intro exI[of _ "item # added"]) simp
  qed
  then show ?case using new1(1) new2(1) by (intro exI[of _ "new1 @ new2"]) simp
qed

lemma executable_plan:
  assumes "plan_sources step raws ([], [], False) = Inr (items, conflicts, recursive)"
    "list_all (resolved_by overwrite) conflicts"
  shows "list_all2 (good overwrite) raws items"
  using sources_law[OF assms(1), of overwrite] assms(2) by auto

end

text \<open>An item may be written: nothing is there, or the same kind of thing and overwriting was asked for.\<close>

definition local_free :: "(string \<Rightarrow> meta_error + local_meta) \<Rightarrow> bool \<Rightarrow> FilePlanItem \<Rightarrow> bool" where
  "local_free metadata overwrite item =
     (case metadata (fi_destination item) of
        Inl _ \<Rightarrow> True
      | Inr m \<Rightarrow> meta_is_dir m = fi_is_directory item \<and>
                 (case m of LocalFile _ \<Rightarrow> overwrite | _ \<Rightarrow> True))"

definition download_good ::
  "client_stat \<Rightarrow> (string \<Rightarrow> meta_error + local_meta) \<Rightarrow> string \<Rightarrow> PlanDownloadRequest
   \<Rightarrow> bool \<Rightarrow> string \<Rightarrow> FilePlanItem \<Rightarrow> bool" where
  "download_good stat metadata root request overwrite raw item \<longleftrightarrow>
     fi_source item = resolve_remote_path root raw \<and>
     (\<exists>remote name. stat_file stat root (fi_source item) = Inr (Some remote) \<and>
        fi_is_directory item = fe_is_directory remote \<and> file_name (fe_path remote) = Some name \<and>
        clean_name name \<and>
        (fi_destination item = join_name (pd_local_destination request) name \<or>
         fi_destination item = pd_local_destination request \<and> length (pd_remote_sources request) \<le> 1)) \<and>
     local_free metadata (overwrite \<and> pd_overwrite request) item"

lemma file_name_clean: "file_name s = Some n \<Longrightarrow> clean_name n"
proof -
  assume n: "file_name s = Some n"
  then have "Normal n \<in> set (components s)"
    by (auto simp: file_name_def split: list.splits component.splits if_splits)
       (metis last_in_set list.distinct(1) list.set_intros(1))+
  then show ?thesis using components_normal_clean by (auto simp: clean_name_def)
qed

lemma usable_file_name:
  "usable_name (file_name s) \<Longrightarrow> \<exists>n. file_name s = Some n \<and> clean_name n"
  by (cases "file_name s") (auto simp: usable_name_def file_name_clean)

lemma not_resolved [simp]: "\<not> resolved_by overwrite (mismatch a b c)"
  "\<not> resolved_by overwrite (missing_source a b c)"
  by (simp_all add: resolved_by_def mismatch_def missing_source_def)

lemma recursive_resolved [simp]: "resolved_by overwrite (recursive_required a b c)"
  by (simp add: resolved_by_def recursive_required_def)

lemma resolve_download_law:
  assumes "resolve_local_download_destination metadata destination remote n conflicts = (dest, conflicts')"
  shows "\<exists>new. conflicts' = conflicts @ new \<and> (list_all (resolved_by overwrite) new \<longrightarrow>
     (\<exists>d name. dest = Some d \<and> file_name (fe_path remote) = Some name \<and> clean_name name \<and>
        (d = join_name destination name \<or> d = destination \<and> n \<le> 1)))"
  using assms usable_file_name[of "fe_path remote"]
  by (auto simp: resolve_local_download_destination_def Let_def split: if_splits)

lemma inspect_law:
  assumes "fi_destination item = dest" "fi_is_directory item = is_dir"
  shows "\<exists>new. inspect_local_destination metadata dest is_dir request_overwrite conflicts = conflicts @ new \<and>
     (list_all (resolved_by overwrite) new \<longrightarrow> local_free metadata (overwrite \<and> request_overwrite) item)"
  using assms
  by (auto simp: inspect_local_destination_def local_free_def resolved_by_def mismatch_def
      split: sum.split local_meta.split)

lemma plan_download_step:
  assumes "plan_download_source stat metadata root request raw (items, conflicts, recursive) =
      Inr (items', conflicts', recursive')"
  shows "\<exists>new. conflicts' = conflicts @ new \<and>
      (list_all (resolved_by overwrite) new \<longrightarrow>
         (\<exists>item. items' = items @ [item] \<and> download_good stat metadata root request overwrite raw item))"
proof -
  let ?source = "resolve_remote_path root raw" and ?local = "pd_local_destination request"
  obtain found where found: "stat_file stat root ?source = Inr found"
    using assms by (cases "stat_file stat root ?source") (auto simp: plan_download_source_def Let_def and_then_def)
  show ?thesis
  proof (cases found)
    case None
    then show ?thesis using assms found by (auto simp: plan_download_source_def Let_def and_then_def)
  next
    case (Some remote)
    let ?refused = "if fe_is_directory remote \<and> \<not> pd_recursive request
      then [recursive_required ?source ?local ''directory download requires recursive mode''] else []"
    obtain dest conflicts2 where r: "resolve_local_download_destination metadata ?local remote
        (length (pd_remote_sources request)) (conflicts @ ?refused) = (dest, conflicts2)"
      by (cases "resolve_local_download_destination metadata ?local remote
        (length (pd_remote_sources request)) (conflicts @ ?refused)")
    obtain new where new: "conflicts2 = conflicts @ ?refused @ new"
      "list_all (resolved_by overwrite) new \<longrightarrow>
       (\<exists>d name. dest = Some d \<and> file_name (fe_path remote) = Some name \<and> clean_name name \<and>
          (d = join_name ?local name \<or> d = ?local \<and> length (pd_remote_sources request) \<le> 1))"
      using resolve_download_law[OF r, of overwrite] by auto
    have refused: "(if fe_is_directory remote \<and> \<not> pd_recursive request
        then conflicts @ [recursive_required ?source ?local ''directory download requires recursive mode'']
        else conflicts) = conflicts @ ?refused" by simp
    show ?thesis
    proof (cases dest)
      case None
      then have "conflicts' = conflicts @ ?refused @ new" "\<not> list_all (resolved_by overwrite) new"
        using assms found Some r new
        by (auto simp: plan_download_source_def Let_def and_then_def simp del: if_split cong: if_cong
            simp: refused)
      then show ?thesis by (intro exI[of _ "?refused @ new"]) auto
    next
      case (Some d)
      let ?item = "\<lparr>fi_source = ?source, fi_destination = d, fi_is_directory = fe_is_directory remote,
        fi_size = (if fe_is_directory remote then None else Some (fe_size remote))\<rparr>"
      obtain new' where new': "inspect_local_destination metadata d (fe_is_directory remote)
          (pd_overwrite request) conflicts2 = conflicts2 @ new'"
        "list_all (resolved_by overwrite) new' \<longrightarrow> local_free metadata (overwrite \<and> pd_overwrite request) ?item"
        using inspect_law[of ?item d "fe_is_directory remote" metadata "pd_overwrite request" conflicts2 overwrite]
        by auto
      have eq: "items' = items @ [?item]" "conflicts' = conflicts2 @ new'"
        using assms found \<open>found = Some remote\<close> r Some new'(1) unfolding plan_download_source_def Let_def
        by (auto simp: and_then_def refused simp del: if_split)
      show ?thesis
        using eq new new' found \<open>found = Some remote\<close> Some
        by (intro exI[of _ "?refused @ new @ new'"]) (auto simp: download_good_def)
    qed
  qed
qed


interpretation downloads_preflight: preflight_loop "plan_download_source stat metadata root request"
    "download_good stat metadata root request"
  for stat metadata root request
  by unfold_locales (rule plan_download_step)

definition remote_free :: "client_stat \<Rightarrow> string \<Rightarrow> bool \<Rightarrow> FilePlanItem \<Rightarrow> bool" where
  "remote_free stat root overwrite item =
     (case stat_optional stat root (fi_destination item) of
        Inl _ \<Rightarrow> False
      | Inr None \<Rightarrow> True
      | Inr (Some existing) \<Rightarrow> fe_is_directory existing = fi_is_directory item \<and>
                              (fe_is_directory existing \<or> overwrite))"

definition upload_good ::
  "client_stat \<Rightarrow> (string \<Rightarrow> meta_error + local_meta) \<Rightarrow> string \<Rightarrow> PlanUploadRequest \<Rightarrow> string
   \<Rightarrow> bool \<Rightarrow> string \<Rightarrow> FilePlanItem \<Rightarrow> bool" where
  "upload_good stat metadata root request remote_destination overwrite raw item \<longleftrightarrow>
     fi_source item = raw \<and>
     (\<exists>m name. metadata raw = Inr m \<and> fi_is_directory item = meta_is_dir m \<and>
        file_name raw = Some name \<and> clean_name name \<and>
        (fi_destination item = remote_destination @ ''/'' @ name \<or>
         fi_destination item = remote_destination \<and> length (pu_local_sources request) \<le> 1)) \<and>
     remote_free stat root (overwrite \<and> pu_overwrite request) item"

lemma resolve_upload_law:
  assumes "resolve_remote_upload_destination destination source n st conflicts = (dest, conflicts')"
  shows "\<exists>new. conflicts' = conflicts @ new \<and> (list_all (resolved_by overwrite) new \<longrightarrow>
     (\<exists>d name. dest = Some d \<and> file_name source = Some name \<and> clean_name name \<and>
        (d = destination @ ''/'' @ name \<or> d = destination \<and> n \<le> 1)))"
  using assms usable_file_name[of source]
  by (auto simp: resolve_remote_upload_destination_def Let_def split: if_splits)

lemma append_remote_law:
  assumes "fi_destination item = dest" "fi_is_directory item = is_dir"
    "stat_optional stat root dest = Inr found"
  shows "\<exists>new. (case found of None \<Rightarrow> conflicts | Some existing \<Rightarrow>
       append_remote_destination_conflict source dest is_dir existing request_overwrite conflicts) = conflicts @ new \<and>
     (list_all (resolved_by overwrite) new \<longrightarrow> remote_free stat root (overwrite \<and> request_overwrite) item)"
  using assms
  by (auto simp: append_remote_destination_conflict_def remote_free_def resolved_by_def mismatch_def
      split: option.split)

lemma plan_upload_step:
  assumes "plan_upload_source stat metadata root request remote_destination st raw (items, conflicts, recursive) =
      Inr (items', conflicts', recursive')"
  shows "\<exists>new. conflicts' = conflicts @ new \<and>
      (list_all (resolved_by overwrite) new \<longrightarrow>
         (\<exists>item. items' = items @ [item] \<and>
                 upload_good stat metadata root request remote_destination overwrite raw item))"
proof (cases "metadata raw")
  case (Inl e)
  then show ?thesis
    using assms by (cases e) (auto simp: plan_upload_source_def Let_def resolved_by_def missing_source_def)
next
  case (Inr m)
  let ?refused = "if meta_is_dir m \<and> \<not> pu_recursive request
    then [recursive_required raw remote_destination ''directory upload requires recursive mode''] else []"
  obtain dest conflicts2 where r: "resolve_remote_upload_destination remote_destination raw
      (length (pu_local_sources request)) st (conflicts @ ?refused) = (dest, conflicts2)"
    by (cases "resolve_remote_upload_destination remote_destination raw
      (length (pu_local_sources request)) st (conflicts @ ?refused)")
  obtain new where new: "conflicts2 = conflicts @ ?refused @ new"
    "list_all (resolved_by overwrite) new \<longrightarrow>
     (\<exists>d name. dest = Some d \<and> file_name raw = Some name \<and> clean_name name \<and>
        (d = remote_destination @ ''/'' @ name \<or> d = remote_destination \<and> length (pu_local_sources request) \<le> 1))"
    using resolve_upload_law[OF r, of overwrite] by auto
  have refused: "(if meta_is_dir m \<and> \<not> pu_recursive request
      then conflicts @ [recursive_required raw remote_destination ''directory upload requires recursive mode'']
      else conflicts) = conflicts @ ?refused" by simp
  show ?thesis
  proof (cases dest)
    case None
    then have "conflicts' = conflicts @ ?refused @ new" "\<not> list_all (resolved_by overwrite) new"
      using assms Inr r new unfolding plan_upload_source_def Let_def
      by (auto simp: refused simp del: if_split)
    then show ?thesis by (intro exI[of _ "?refused @ new"]) auto
  next
    case (Some d)
    let ?item = "\<lparr>fi_source = raw, fi_destination = d, fi_is_directory = meta_is_dir m,
      fi_size = (if meta_is_dir m then None else Some (meta_len m))\<rparr>"
    obtain found where found: "stat_optional stat root d = Inr found"
      using assms Inr r Some unfolding plan_upload_source_def Let_def
      by (cases "stat_optional stat root d") (auto simp: refused and_then_def simp del: if_split)
    obtain new' where new': "(case found of None \<Rightarrow> conflicts2 | Some existing \<Rightarrow>
        append_remote_destination_conflict raw d (meta_is_dir m) existing (pu_overwrite request) conflicts2) =
        conflicts2 @ new'"
      "list_all (resolved_by overwrite) new' \<longrightarrow> remote_free stat root (overwrite \<and> pu_overwrite request) ?item"
      using append_remote_law[of ?item d "meta_is_dir m" stat root found conflicts2 raw "pu_overwrite request" overwrite]
        found by auto
    have eq: "items' = items @ [?item]" "conflicts' = conflicts2 @ new'"
      using assms Inr r Some found new'(1) unfolding plan_upload_source_def Let_def
      by (auto simp: refused and_then_def simp del: if_split)
    show ?thesis
      using eq new new' Inr Some
      by (intro exI[of _ "?refused @ new @ new'"]) (auto simp: upload_good_def)
  qed
qed

interpretation uploads_preflight:
  preflight_loop "plan_upload_source stat metadata root request remote_destination st"
    "upload_good stat metadata root request remote_destination"
  for stat metadata root request remote_destination st
  by unfold_locales (rule plan_upload_step)

lemma append_duplicates_law:
  "\<exists>new. append_duplicates seen items conflicts = conflicts @ new \<and>
     (list_all (resolved_by overwrite) new \<longrightarrow>
        distinct (map fi_destination items) \<and> (\<forall>item\<in>set items. seen (fi_destination item) = None))"
proof (induction items arbitrary: seen conflicts)
  case Nil
  then show ?case by simp
next
  case (Cons item items)
  let ?seen = "seen(fi_destination item \<mapsto> fi_source item)"
  show ?case
  proof (cases "seen (fi_destination item)")
    case None
    obtain new where "append_duplicates ?seen items conflicts = conflicts @ new"
      "list_all (resolved_by overwrite) new \<longrightarrow>
        distinct (map fi_destination items) \<and> (\<forall>item\<in>set items. ?seen (fi_destination item) = None)"
      using Cons.IH by blast
    then show ?thesis
      using None by (intro exI[of _ new]) (auto simp: image_iff split: if_splits)
  next
    case (Some previous)
    let ?c = "\<lparr>fc_kind = DuplicateDestination, fc_source = fi_source item,
        fc_destination = fi_destination item,
        fc_message = ''multiple sources map to the same destination ('' @ previous @ '' and ''
                     @ fi_source item @ '')'', fc_overridable = False\<rparr>"
    obtain new where "append_duplicates ?seen items (conflicts @ [?c]) = (conflicts @ [?c]) @ new"
      using Cons.IH by blast
    then show ?thesis
      using Some by (intro exI[of _ "?c # new"]) (simp add: resolved_by_def)
  qed
qed

lemma finalize_simps [simp]:
  "fp_items (finalize_file_plan dir sid items conflicts rec) = items"
  "fp_conflicts (finalize_file_plan dir sid items conflicts rec) = conflicts"
  by (simp_all add: finalize_file_plan_def Let_def)



text \<open>A phone with one photo and one directory, and a computer whose \<open>/out\<close> is a directory.\<close>

definition sample_file :: "string \<Rightarrow> bool \<Rightarrow> RemoteFile" where
  "sample_file p is_dir =
     \<lparr>rf_path = p, rf_size = 5, rf_created_at = None, rf_modified_at = None, rf_is_directory = is_dir,
      rf_checksum = None, rf_is_trash = None, rf_id = None, rf_ext_data = None\<rparr>"

definition sample_stat :: client_stat where
  "sample_stat p = Inr (if p = ''/r/a'' then Some (sample_file ''/r/a'' False)
                        else if p = ''/r/d'' then Some (sample_file ''/r/d'' True) else None)"

definition sample_metadata :: "string \<Rightarrow> meta_error + local_meta" where
  "sample_metadata p = (if p = ''/out'' then Inr LocalDir
                        else if p = ''/out/a'' then Inr (LocalFile 3) else Inl MetaNotFound)"

definition sample_download :: PlanDownloadRequest where
  "sample_download = \<lparr>pd_session_id = 1, pd_remote_sources = [''a'', ''/r/d''],
     pd_local_destination = ''/out'', pd_recursive = True, pd_overwrite = True\<rparr>"

lemma sample_paths:
  "resolve_remote_path ''/r'' ''a'' = ''/r/a''" "resolve_remote_path ''/r'' ''/r/a'' = ''/r/a''"
  "resolve_remote_path ''/r'' ''/r/d'' = ''/r/d''" "resolve_remote_path ''/r'' ''/r/a /'' = ''/r/a ''"
  "resolve_remote_path ''/r'' ''d'' = ''/r/d''" "resolve_remote_path ''/r'' ''/r/d/a'' = ''/r/d/a''"
  "file_name ''/r/a'' = Some ''a''" "file_name ''/r/d'' = Some ''d''" "file_name ''/out/a'' = Some ''a''"
  by (simp_all add: resolve_remote_path_def trim_graphic graphic_def normalize_remote_path_def
      starts_with_def str_strip_prefix_def file_name_def components_def part_component_def)

lemma sample_trailing_space: "resolve_remote_path ''/r'' ''/r/a '' = ''/r/a''"
proof -
  have "trim ''/r/a '' = ''/r/a''"
    using trim_end_space[of "''/r/a''"] by (simp add: trim_def trim_start_graphic trim_end_graphic graphic_def)
  then show ?thesis
    by (simp add: resolve_remote_path_def normalize_remote_path_def starts_with_def str_strip_prefix_def)
qed

lemmas sample_plan_eval = plan_download_def plan_download_source_def plan_upload_def plan_upload_source_def
  sample_paths sample_trailing_space stat_file_def stat_optional_def sample_stat_def sample_file_def
  sample_metadata_def remote_file_to_dto_def resolve_local_download_destination_def
  resolve_remote_upload_destination_def append_remote_destination_conflict_def usable_name_def
  join_name_def inspect_local_destination_def append_duplicate_destination_conflicts_def
  is_executable_with_iff resolved_by_def recursive_required_def and_then_def Let_def


text \<open>An upload plan that may be executed is safe in the same way: one item per local source, in
  order, each of the kind found on disk; no two items share a destination; with several sources
  every destination is a plain name under the resolved remote directory; and what exists on the
  phone at a destination has the same kind, a file only if overwriting was chosen twice.\<close>

lemma plan_upload_safe:
  assumes "plan_upload stat metadata root request = Inr plan" "is_executable_with plan overwrite"
  shows "list_all2 (upload_good stat metadata root request
        (resolve_remote_path root (pu_remote_destination request)) overwrite)
      (pu_local_sources request) (fp_items plan) \<and>
    distinct (map fi_destination (fp_items plan))"
proof -
  let ?remote = "resolve_remote_path root (pu_remote_destination request)"
  obtain st where st: "stat_optional stat root ?remote = Inr st"
    using assms(1) by (cases "stat_optional stat root ?remote") (auto simp: plan_upload_def and_then_def Let_def)
  let ?step = "plan_upload_source stat metadata root request ?remote st"
  obtain items conflicts rec where loop:
      "plan_sources ?step (pu_local_sources request) ([], [], False) = Inr (items, conflicts, rec)"
    and plan: "plan = finalize_file_plan UploadPlan (pu_session_id request) items
        (append_duplicate_destination_conflicts items conflicts) rec"
    using assms(1) st by (cases "plan_sources ?step (pu_local_sources request) ([], [], False)")
      (auto simp: plan_upload_def and_then_def Let_def)
  obtain new where new: "append_duplicates Map.empty items conflicts = conflicts @ new"
    "list_all (resolved_by overwrite) new \<longrightarrow> distinct (map fi_destination items)"
    using append_duplicates_law[of Map.empty items conflicts overwrite] by blast
  have "list_all (resolved_by overwrite) (conflicts @ new)"
    using assms(2) new(1) by (simp add: is_executable_with_iff plan append_duplicate_destination_conflicts_def)
  then show ?thesis
    using uploads_preflight.executable_plan[OF loop] new(2) by (simp add: plan)
qed

definition sample_upload :: PlanUploadRequest where
  "sample_upload = \<lparr>pu_session_id = 1, pu_local_sources = [''/out/a''], pu_remote_destination = ''d'',
     pu_recursive = False, pu_overwrite = False\<rparr>"

lemma plan_upload_safe_witness:
  "\<exists>plan. plan_upload sample_stat sample_metadata ''/r'' sample_upload = Inr plan \<and>
     is_executable_with plan False \<and> distinct (map fi_destination (fp_items plan)) \<and>
     map fi_destination (fp_items plan) = [''/r/d/a'']"
proof -
  obtain plan where plan: "plan_upload sample_stat sample_metadata ''/r'' sample_upload = Inr plan"
     "is_executable_with plan False" "map fi_destination (fp_items plan) = [''/r/d/a'']"
    by (simp add: sample_plan_eval sample_upload_def)
  show ?thesis
    using conjunct2[OF plan_upload_safe[OF plan(1,2)]] plan by (intro exI[of _ plan] conjI)
qed

lemma saturating_fold:
  "acc \<le> usize_bound - 1 \<Longrightarrow> foldl saturating_add_u64 acc xs = min (acc + sum_list xs) (usize_bound - 1)"
  by (induction xs arbitrary: acc) (auto simp: saturating_add_u64_def min_def)

text \<open>The counters of a plan agree with its items: every item is counted once, as a file or as a
  directory, and the announced size is the sum of the known sizes, saturating at the largest
  64-bit number instead of wrapping, and absent exactly when no file is planned.\<close>

theorem plan_totals:
  "fp_file_count (finalize_file_plan dir sid items conflicts rec) +
     fp_directory_count (finalize_file_plan dir sid items conflicts rec) = length items \<and>
   fp_total_bytes (finalize_file_plan dir sid items conflicts rec) =
     (if list_all fi_is_directory items then None
      else Some (min (sum_list (List.map_filter fi_size items)) (usize_bound - 1)))"
proof -
  have "length (filter (\<lambda>item. \<not> fi_is_directory item) items) + length (filter fi_is_directory items) = length items"
    using sum_length_filter_compl[of fi_is_directory items] by simp
  moreover have "length (filter (\<lambda>item. \<not> fi_is_directory item) items) > 0 \<longleftrightarrow> \<not> list_all fi_is_directory items"
    by (auto simp: list_all_iff filter_empty_conv)
  ultimately show ?thesis
    by (simp add: finalize_file_plan_def Let_def saturating_fold)
qed

text \<open>The preflight of a download may look at another file than the plan transfers: the source is
  resolved by \<open>plan_download\<close> and once more by \<open>stat_file\<close>, and resolution is not idempotent
  for a name that ends in white space. The plan below is executable although the path it names does
  not exist on the phone.\<close>

theorem preflight_stats_other_path:
  "\<exists>plan. plan_download sample_stat sample_metadata ''/r''
       (sample_download\<lparr>pd_remote_sources := [''/r/a /'']\<rparr>) = Inr plan \<and>
     is_executable_with plan True \<and> map fi_source (fp_items plan) = [''/r/a ''] \<and>
     sample_stat ''/r/a '' = Inr None"
  by (simp add: sample_plan_eval sample_download_def)

end
