(* ===== verification/PlainCodec.thy ===== *)
theory PlainCodec
  imports Prelude
begin

text \<open>
  A plain byte encoding of numbers, texts, options, pairs and lists. The JSON and protobuf codecs
  are third-party code and arguments of the model; what is assumed of them is that they read back
  what they wrote. This theory shows that such codecs exist for the types that are stored.
\<close>

definition reads_back :: "('a \<Rightarrow> bytes) \<Rightarrow> (bytes \<Rightarrow> ('a \<times> bytes) option) \<Rightarrow> bool" where
  "reads_back put get \<longleftrightarrow> (\<forall>x rest. get (put x @ rest) = Some (x, rest))"

lemma reads_backD: "reads_back put get \<Longrightarrow> get (put x @ rest) = Some (x, rest)"
  by (simp add: reads_back_def)

fun put_nat :: "nat \<Rightarrow> bytes" where
  "put_nat 0 = [0]"
| "put_nat (Suc n) = 1 # put_nat n"

fun get_nat :: "bytes \<Rightarrow> (nat \<times> bytes) option" where
  "get_nat [] = None"
| "get_nat (b # bs) = (if b = 0 then Some (0, bs) else map_option (\<lambda>(n, rest). (Suc n, rest)) (get_nat bs))"

definition put_string :: "string \<Rightarrow> bytes" where
  "put_string s = put_nat (length s) @ map (\<lambda>c. word_of_nat (of_char c)) s"

definition get_string :: "bytes \<Rightarrow> (string \<times> bytes) option" where
  "get_string bs = (case get_nat bs of
     None \<Rightarrow> None | Some (n, rest) \<Rightarrow> Some (map (\<lambda>b. char_of (unat b)) (take n rest), drop n rest))"

fun put_opt :: "('a \<Rightarrow> bytes) \<Rightarrow> 'a option \<Rightarrow> bytes" where
  "put_opt put None = [0]"
| "put_opt put (Some x) = 1 # put x"

fun get_opt :: "(bytes \<Rightarrow> ('a \<times> bytes) option) \<Rightarrow> bytes \<Rightarrow> ('a option \<times> bytes) option" where
  "get_opt get [] = None"
| "get_opt get (b # bs) = (if b = 0 then Some (None, bs) else map_option (\<lambda>(x, rest). (Some x, rest)) (get bs))"

definition put_pair :: "('a \<Rightarrow> bytes) \<Rightarrow> ('b \<Rightarrow> bytes) \<Rightarrow> 'a \<times> 'b \<Rightarrow> bytes" where
  "put_pair p q xy = p (fst xy) @ q (snd xy)"

definition get_pair ::
  "(bytes \<Rightarrow> ('a \<times> bytes) option) \<Rightarrow> (bytes \<Rightarrow> ('b \<times> bytes) option) \<Rightarrow> bytes \<Rightarrow> (('a \<times> 'b) \<times> bytes) option" where
  "get_pair p q bs = (case p bs of
     None \<Rightarrow> None | Some (x, r1) \<Rightarrow> (case q r1 of None \<Rightarrow> None | Some (y, r2) \<Rightarrow> Some ((x, y), r2)))"

definition put_list :: "('a \<Rightarrow> bytes) \<Rightarrow> 'a list \<Rightarrow> bytes" where
  "put_list put xs = put_nat (length xs) @ concat (map put xs)"

fun get_many :: "(bytes \<Rightarrow> ('a \<times> bytes) option) \<Rightarrow> nat \<Rightarrow> bytes \<Rightarrow> ('a list \<times> bytes) option" where
  "get_many get 0 bs = Some ([], bs)"
| "get_many get (Suc n) bs = (case get bs of
     None \<Rightarrow> None
   | Some (x, r1) \<Rightarrow> map_option (\<lambda>(xs, r2). (x # xs, r2)) (get_many get n r1))"

definition get_list :: "(bytes \<Rightarrow> ('a \<times> bytes) option) \<Rightarrow> bytes \<Rightarrow> ('a list \<times> bytes) option" where
  "get_list get bs = (case get_nat bs of None \<Rightarrow> None | Some (n, rest) \<Rightarrow> get_many get n rest)"

named_theorems codec_intros "plain encodings read back"

lemma codec_nat [codec_intros]: "reads_back put_nat get_nat"
proof -
  have "get_nat (put_nat n @ rest) = Some (n, rest)" for n rest
    by (induction n) auto
  then show ?thesis by (simp add: reads_back_def)
qed

lemma unat_of_char [simp]: "unat (word_of_nat (of_char c) :: byte) = of_char c"
proof -
  have "(of_char c :: nat) < 256" by simp
  then show ?thesis by (simp add: unat_of_nat take_bit_nat_eq_self)
qed

lemma codec_string [codec_intros]: "reads_back put_string get_string"
  using reads_backD[OF codec_nat]
  by (simp add: reads_back_def put_string_def get_string_def comp_def)

lemma codec_opt [codec_intros]: "reads_back p g \<Longrightarrow> reads_back (put_opt p) (get_opt g)"
proof -
  assume "reads_back p g"
  then have "get_opt g (put_opt p x @ rest) = Some (x, rest)" for x rest
    by (cases x) (simp_all add: reads_backD)
  then show ?thesis by (simp add: reads_back_def)
qed

lemma codec_pair [codec_intros]:
  "reads_back p g \<Longrightarrow> reads_back q h \<Longrightarrow> reads_back (put_pair p q) (get_pair g h)"
  by (simp add: reads_back_def put_pair_def get_pair_def)

lemma codec_list [codec_intros]: "reads_back p g \<Longrightarrow> reads_back (put_list p) (get_list g)"
proof -
  assume r: "reads_back p g"
  have "get_many g (length xs) (concat (map p xs) @ rest) = Some (xs, rest)" for xs rest
    by (induction xs) (simp_all add: reads_backD[OF r])
  then show ?thesis
    by (simp add: reads_back_def put_list_def get_list_def reads_backD[OF codec_nat])
qed

text \<open>A whole value, through an isomorphism with a tuple of fields.\<close>

lemma codec_whole:
  assumes "reads_back p g" "\<And>x. from_fields (to_fields x) = x"
  shows "map_option (\<lambda>(t, _). from_fields t) (g (p (to_fields x))) = Some x"
  using reads_backD[OF assms(1), of "to_fields x" "[]"] assms(2) by simp

end
