(* ===== verification/TrustStore.thy ===== *)
theory TrustStore
  imports Errors Stores Domain PlainCodec
begin

text \<open>
  The persistent state of the host, \<open>handshaker-core/src/state.rs\<close>: one JSON file with the host
  uuid and the trust records. The file is its bytes; the JSON codec, the base64 codec, the clock,
  the fresh uuid and the outcomes of the file operations are arguments. Permission bits are not
  modelled, only that setting them may fail.
\<close>

record TrustRecord =
  tr_device_name :: "string option"
  tr_derived_key :: string
  tr_updated_at :: nat

record State =
  st_schema_version :: nat
  st_host_uuid :: string
  st_trust :: "(string, TrustRecord) btree"

record state_codec =
  to_json :: "State \<Rightarrow> bytes"
  from_json :: "bytes \<Rightarrow> State option"

text \<open>How the operations on the state file go: the directory, opening, how many bytes are written
  before an error (all of them if none), \<open>fsync\<close>, the permissions before reading and after
  writing, reading.\<close>

record state_io =
  so_directory_ok :: bool
  so_open_ok :: bool
  so_write_error :: "nat option"
  so_sync_ok :: bool
  so_permissions_ok :: bool
  so_read_permissions_ok :: bool
  so_read_ok :: bool

type_synonym state_file = "bytes option"

definition save :: "state_codec \<Rightarrow> state_io \<Rightarrow> State \<Rightarrow> state_file \<Rightarrow> unit core_result \<times> state_file" where
  "save codec io st file =
     (let bs = to_json codec st in
      if \<not> so_directory_ok io then (Inl (Configuration ''state.create_failed''), file)
      else if \<not> so_open_ok io then (Inl (Configuration ''state.write_failed''), file)
      else case so_write_error io of
             Some n \<Rightarrow> (Inl (Configuration ''state.write_failed''), Some (take n bs))
           | None \<Rightarrow>
               if \<not> so_sync_ok io then (Inl (Configuration ''state.sync_failed''), Some bs)
               else if \<not> so_permissions_ok io
               then (Inl (Configuration ''state.permission_failed''), Some bs)
               else (Inr (), Some bs))"

definition load_or_create ::
  "state_codec \<Rightarrow> state_io \<Rightarrow> string \<Rightarrow> state_file \<Rightarrow> State core_result \<times> state_file" where
  "load_or_create codec io new_uuid file =
     (case file of
        Some bs \<Rightarrow>
          (if \<not> so_read_permissions_ok io then (Inl (Configuration ''state.permission_failed''), file)
           else if \<not> so_read_ok io then (Inl (Configuration ''state.read_failed''), file)
           else case from_json codec bs of
                  None \<Rightarrow> (Inl (Configuration ''state.parse_failed''), file)
                | Some st \<Rightarrow>
                    if st_schema_version st \<noteq> 1
                    then (Inl (Configuration ''state.version_unsupported''), file)
                    else (Inr st, file))
      | None \<Rightarrow>
          (let st = \<lparr>st_schema_version = 1, st_host_uuid = new_uuid, st_trust = []\<rparr> in
           case save codec io st file of
             (Inl e, file') \<Rightarrow> (Inl e, file')
           | (Inr _, file') \<Rightarrow> (Inr st, file')))"

definition upsert_trust ::
  "state_codec \<Rightarrow> (bytes \<Rightarrow> string) \<Rightarrow> state_io \<Rightarrow> state_io \<Rightarrow> string \<Rightarrow> nat \<Rightarrow> string \<Rightarrow> string option \<Rightarrow> bytes
   \<Rightarrow> state_file \<Rightarrow> unit core_result \<times> state_file" where
  "upsert_trust codec base64 io_load io_save new_uuid now device_uuid device_name derived_key file =
     (case load_or_create codec io_load new_uuid file of
        (Inl e, file1) \<Rightarrow> (Inl e, file1)
      | (Inr st, file1) \<Rightarrow>
          save codec io_save
            (st\<lparr>st_trust := bt_insert device_uuid
                  \<lparr>tr_device_name = device_name, tr_derived_key = base64 derived_key,
                   tr_updated_at = now\<rparr> (st_trust st)\<rparr>) file1)"

definition remove_trust ::
  "state_codec \<Rightarrow> state_io \<Rightarrow> state_io \<Rightarrow> string \<Rightarrow> string \<Rightarrow> state_file \<Rightarrow> bool core_result \<times> state_file" where
  "remove_trust codec io_load io_save new_uuid device_uuid file =
     (case load_or_create codec io_load new_uuid file of
        (Inl e, file1) \<Rightarrow> (Inl e, file1)
      | (Inr st, file1) \<Rightarrow>
          (if bt_get (st_trust st) device_uuid = None then (Inr False, file1)
           else case save codec io_save (st\<lparr>st_trust := bt_remove device_uuid (st_trust st)\<rparr>) file1 of
                  (Inl e, file2) \<Rightarrow> (Inl e, file2)
                | (Inr _, file2) \<Rightarrow> (Inr True, file2)))"

definition list_trusted_devices ::
  "state_codec \<Rightarrow> state_io \<Rightarrow> string \<Rightarrow> state_file \<Rightarrow> TrustRecordInfo list core_result \<times> state_file" where
  "list_trusted_devices codec io new_uuid file =
     (case load_or_create codec io new_uuid file of
        (Inl e, file1) \<Rightarrow> (Inl e, file1)
      | (Inr st, file1) \<Rightarrow>
          (Inr (map (\<lambda>(uuid, rec). \<lparr>ti_device_uuid = uuid, ti_device_name = tr_device_name rec,
                                    ti_updated_at = tr_updated_at rec\<rparr>) (st_trust st)), file1))"

section \<open>The abstract store\<close>

text \<open>
  What the file stands for: a host identity and a finite map of trusted devices, or nothing yet.
  A codec is faithful when a state it wrote is read back.
\<close>

definition faithful :: "state_codec \<Rightarrow> bool" where
  "faithful codec \<longleftrightarrow> (\<forall>st. from_json codec (to_json codec st) = Some st)"

definition all_ok :: "state_io \<Rightarrow> bool" where
  "all_ok io \<longleftrightarrow> so_directory_ok io \<and> so_open_ok io \<and> so_write_error io = None \<and> so_sync_ok io \<and>
     so_permissions_ok io \<and> so_read_permissions_ok io \<and> so_read_ok io"

record host =
  ho_uuid :: string
  ho_trust :: "string \<rightharpoonup> TrustRecord"

definition abs_state :: "State \<Rightarrow> host" where
  "abs_state st = \<lparr>ho_uuid = st_host_uuid st, ho_trust = bt_get (st_trust st)\<rparr>"

definition stores :: "state_codec \<Rightarrow> state_file \<Rightarrow> string \<Rightarrow> host \<Rightarrow> bool" where
  "stores codec file new_uuid h \<longleftrightarrow>
     (case file of
        None \<Rightarrow> h = \<lparr>ho_uuid = new_uuid, ho_trust = Map.empty\<rparr>
      | Some bs \<Rightarrow> (\<exists>st. from_json codec bs = Some st \<and> st_schema_version st = 1 \<and>
                        bt_ok (st_trust st) \<and> h = abs_state st))"

lemma save_ok: "all_ok io \<Longrightarrow> save codec io st file = (Inr (), Some (to_json codec st))"
  by (simp add: all_ok_def save_def Let_def)

lemma load_stores:
  assumes "faithful codec" "all_ok io" "stores codec file new_uuid h"
  shows "\<exists>st file'. load_or_create codec io new_uuid file = (Inr st, file') \<and> abs_state st = h \<and>
     st_schema_version st = 1 \<and> bt_ok (st_trust st) \<and> stores codec file' new_uuid h"
proof (cases "file")
  case None
  then show ?thesis
    using assms by (auto simp: load_or_create_def Let_def save_ok stores_def abs_state_def faithful_def
        bt_get_def bt_ok_def bt_keys_def fun_eq_iff)
next
  case (Some bs)
  then show ?thesis
    using assms by (auto simp: load_or_create_def stores_def all_ok_def)
qed

lemma stores_json:
  "faithful codec \<Longrightarrow> st_schema_version st = 1 \<Longrightarrow> bt_ok (st_trust st) \<Longrightarrow>
   stores codec (Some (to_json codec st)) new_uuid (abs_state st)"
  by (simp add: stores_def faithful_def)

text \<open>C19 The trust store refines a map of devices: as long as the file operations succeed, loading
  returns the stored host, remembering a device updates exactly its entry, forgetting removes
  exactly its entry and tells whether there was one, and the identity of the host never changes.\<close>

theorem trust_store_refines:
  assumes "faithful codec" "all_ok io" "all_ok io'" "stores codec file new_uuid h"
  shows "(\<exists>st file'. load_or_create codec io new_uuid file = (Inr st, file') \<and> abs_state st = h \<and>
            stores codec file' new_uuid h) \<and>
    (\<exists>file'. upsert_trust codec base64 io io' new_uuid now uuid name key file = (Inr (), file') \<and>
       stores codec file' new_uuid (h\<lparr>ho_trust := (ho_trust h)(uuid \<mapsto>
         \<lparr>tr_device_name = name, tr_derived_key = base64 key, tr_updated_at = now\<rparr>)\<rparr>)) \<and>
    (\<exists>file'. remove_trust codec io io' new_uuid uuid file = (Inr (uuid \<in> dom (ho_trust h)), file') \<and>
       stores codec file' new_uuid (h\<lparr>ho_trust := (ho_trust h)(uuid := None)\<rparr>))"
proof (intro conjI)
  obtain st file' where load: "load_or_create codec io new_uuid file = (Inr st, file')"
    and st: "abs_state st = h" "st_schema_version st = 1" "bt_ok (st_trust st)"
    and file': "stores codec file' new_uuid h"
    using load_stores[OF assms(1,2,4)] by blast
  show "\<exists>st file'. load_or_create codec io new_uuid file = (Inr st, file') \<and> abs_state st = h \<and>
      stores codec file' new_uuid h"
    using load st file' by blast
  let ?rec = "\<lparr>tr_device_name = name, tr_derived_key = base64 key, tr_updated_at = now\<rparr>"
  let ?up = "st\<lparr>st_trust := bt_insert uuid ?rec (st_trust st)\<rparr>"
  have "upsert_trust codec base64 io io' new_uuid now uuid name key file = (Inr (), Some (to_json codec ?up))"
    using load assms(3) by (simp add: upsert_trust_def save_ok)
  moreover have "abs_state ?up = h\<lparr>ho_trust := (ho_trust h)(uuid \<mapsto> ?rec)\<rparr>"
    using st(1) by (auto simp: abs_state_def fun_eq_iff)
  ultimately show "\<exists>file'. upsert_trust codec base64 io io' new_uuid now uuid name key file = (Inr (), file') \<and>
       stores codec file' new_uuid (h\<lparr>ho_trust := (ho_trust h)(uuid \<mapsto> ?rec)\<rparr>)"
    using stores_json[OF assms(1), of ?up new_uuid] st by auto
  let ?del = "st\<lparr>st_trust := bt_remove uuid (st_trust st)\<rparr>"
  have del: "abs_state ?del = h\<lparr>ho_trust := (ho_trust h)(uuid := None)\<rparr>"
    using st(1) by (auto simp: abs_state_def fun_eq_iff)
  show "\<exists>file'. remove_trust codec io io' new_uuid uuid file = (Inr (uuid \<in> dom (ho_trust h)), file') \<and>
       stores codec file' new_uuid (h\<lparr>ho_trust := (ho_trust h)(uuid := None)\<rparr>)"
  proof (cases "bt_get (st_trust st) uuid")
    case None
    then have "h\<lparr>ho_trust := (ho_trust h)(uuid := None)\<rparr> = h"
      using st(1) by (auto simp: abs_state_def fun_upd_idem)
    moreover have "uuid \<notin> dom (ho_trust h)" using None st(1) by (auto simp: abs_state_def)
    ultimately show ?thesis using None load file' by (auto simp: remove_trust_def)
  next
    case (Some rec)
    then have "uuid \<in> dom (ho_trust h)" using st(1) by (auto simp: abs_state_def)
    then show ?thesis
      using Some load assms(3) del stores_json[OF assms(1), of ?del new_uuid] st
      by (auto simp: remove_trust_def save_ok)
  qed
qed

section \<open>An example of a codec\<close>

text \<open>A plain encoding of states, field after field, which shows that a faithful codec exists.\<close>

definition state_fields :: "State \<Rightarrow> nat \<times> string \<times> (string \<times> string option \<times> string \<times> nat) list" where
  "state_fields st = (st_schema_version st, st_host_uuid st,
     map (\<lambda>(uuid, rec). (uuid, tr_device_name rec, tr_derived_key rec, tr_updated_at rec)) (st_trust st))"

definition fields_state :: "nat \<times> string \<times> (string \<times> string option \<times> string \<times> nat) list \<Rightarrow> State" where
  "fields_state t = (case t of (version, uuid, entries) \<Rightarrow>
     \<lparr>st_schema_version = version, st_host_uuid = uuid,
      st_trust = map (\<lambda>(uuid, name, key, at). (uuid,
        \<lparr>tr_device_name = name, tr_derived_key = key, tr_updated_at = at\<rparr>)) entries\<rparr>)"

definition plain_codec :: state_codec where
  "plain_codec = \<lparr>
     to_json = (\<lambda>st. put_pair put_nat (put_pair put_string (put_list (put_pair put_string
        (put_pair (put_opt put_string) (put_pair put_string put_nat))))) (state_fields st)),
     from_json = (\<lambda>bs. map_option (\<lambda>(t, _). fields_state t)
        (get_pair get_nat (get_pair get_string (get_list (get_pair get_string
          (get_pair (get_opt get_string) (get_pair get_string get_nat))))) bs))\<rparr>"

lemma fields_state_inverse: "fields_state (state_fields st) = st"
proof -
  have rec: "\<lparr>tr_device_name = tr_device_name r, tr_derived_key = tr_derived_key r, tr_updated_at = tr_updated_at r\<rparr> = r"
    for r :: TrustRecord by (cases r) simp
  show ?thesis by (cases st) (simp add: fields_state_def state_fields_def comp_def split_def rec)
qed

lemma plain_codec_faithful: "faithful plain_codec"
  unfolding faithful_def plain_codec_def state_codec.simps
  by (intro allI codec_whole fields_state_inverse codec_intros)

definition good_io :: state_io where
  "good_io = \<lparr>so_directory_ok = True, so_open_ok = True, so_write_error = None, so_sync_ok = True,
     so_permissions_ok = True, so_read_permissions_ok = True, so_read_ok = True\<rparr>"

lemma good_io_ok [simp]: "all_ok good_io"
  by (simp add: all_ok_def good_io_def)

lemma fresh_stores [simp]: "stores codec None uuid \<lparr>ho_uuid = uuid, ho_trust = Map.empty\<rparr>"
  by (simp add: stores_def)

theorem trust_store_refines_witness:
  "\<exists>file'. upsert_trust plain_codec (\<lambda>_. ''a2V5'') good_io good_io ''host'' 7 ''phone'' None [1] None = (Inr (), file') \<and>
     stores plain_codec file' ''host'' \<lparr>ho_uuid = ''host'', ho_trust = [''phone'' \<mapsto>
         \<lparr>tr_device_name = None, tr_derived_key = ''a2V5'', tr_updated_at = 7\<rparr>]\<rparr>"
  using trust_store_refines[OF plain_codec_faithful good_io_ok good_io_ok fresh_stores[of _ "''host''"],
      of "\<lambda>_. ''a2V5''" 7 "''phone''" None "[1]"]
  by simp

text \<open>The state file is rewritten in place: a write that fails before its end leaves a truncated
  file, and unless that prefix happens to be a state, every later load fails and nothing the store
  offers repairs it; the host identity and all trust records are lost.\<close>

theorem interrupted_save_loses_state:
  assumes "so_directory_ok io" "so_open_ok io" "so_write_error io = Some n"
    and "from_json codec (take n (to_json codec st)) = None"
  shows "\<exists>file'. save codec io st (Some old) = (Inl (Configuration ''state.write_failed''), file') \<and>
    (\<forall>io2 new_uuid. \<exists>e. load_or_create codec io2 new_uuid file' = (Inl e, file')) \<and>
    (\<forall>io2 io3 new_uuid uuid. \<exists>e. remove_trust codec io2 io3 new_uuid uuid file' = (Inl e, file')) \<and>
    (\<forall>base64 io2 io3 new_uuid now uuid name key. \<exists>e.
       upsert_trust codec base64 io2 io3 new_uuid now uuid name key file' = (Inl e, file'))"
proof -
  let ?file = "Some (take n (to_json codec st))"
  have load: "\<exists>e. load_or_create codec io2 new_uuid ?file = (Inl e, ?file)" for io2 new_uuid
    using assms(4) by (auto simp: load_or_create_def)
  have "\<exists>e. remove_trust codec io2 io3 new_uuid uuid ?file = (Inl e, ?file)" for io2 io3 new_uuid uuid
    using load[of io2 new_uuid] by (auto simp: remove_trust_def)
  moreover have "\<exists>e. upsert_trust codec base64 io2 io3 new_uuid now uuid name key ?file = (Inl e, ?file)"
    for base64 io2 io3 new_uuid now uuid name key
    using load[of io2 new_uuid] by (auto simp: upsert_trust_def)
  moreover have "save codec io st (Some old) = (Inl (Configuration ''state.write_failed''), ?file)"
    using assms(1-3) by (simp add: save_def)
  ultimately show ?thesis using load by blast
qed

theorem interrupted_save_loses_state_witness:
  "\<exists>file'. save plain_codec (good_io\<lparr>so_write_error := Some 0\<rparr>)
       \<lparr>st_schema_version = 1, st_host_uuid = ''host'', st_trust = []\<rparr> (Some [1, 0]) =
     (Inl (Configuration ''state.write_failed''), file')"
  using interrupted_save_loses_state[of "good_io\<lparr>so_write_error := Some 0\<rparr>" 0 plain_codec
      "\<lparr>st_schema_version = 1, st_host_uuid = ''host'', st_trust = []\<rparr>" "[1, 0]"]
  by (auto simp: good_io_def plain_codec_def get_pair_def)

end
