(* ===== verification/Handshake.thy ===== *)
theory Handshake
  imports Envelope TrustStore
begin

text \<open>
  The handshakes: the raw key exchange over ADB and USB (\<open>protocol/handshake.rs\<close>), the key
  material (\<open>protocol/crypto.rs\<close>), the two-round Wi-Fi handshake with its trust negotiation
  (\<open>protocol/wifi_handshake.rs\<close>), and what the client does around it (\<open>client.rs\<close>). The
  ciphers, base64 and the protobuf codec are third-party code and are arguments. The phone is the
  byte stream it sends. A timeout is an argument: whether the first answer came in time, and how
  many answers of the second round came before the deadline of the trust dialog.
\<close>

section \<open>Keys\<close>

record crypto =
  cr_md5 :: "bytes \<Rightarrow> bytes"
  cr_base64_encode :: "bytes \<Rightarrow> string"
  cr_base64_decode :: "bytes \<Rightarrow> bytes option"
  cr_aes_cbc :: "bytes \<Rightarrow> bytes \<Rightarrow> bytes \<Rightarrow> bytes"

record SessionKeys =
  sk_private_decrypt :: "bytes \<Rightarrow> bytes option"
  sk_public_der :: bytes

definition as_bytes :: "string \<Rightarrow> bytes" where
  "as_bytes s = map (\<lambda>c. word_of_nat (of_char c)) s"

definition KEY_TABLE :: bytes where
  "KEY_TABLE =
     [0x2b, 0x9e, 0x34, 0xd4, 0xe1, 0xd9, 0x08, 0x89, 0x94, 0x93, 0x9e, 0xc4, 0xe3, 0xe9, 0x60, 0xc5,
      0x28, 0xe3, 0xee, 0x32, 0xb0, 0xde, 0x27, 0xef, 0x6b, 0xc2, 0x97, 0x92, 0x05, 0x4e, 0xf9, 0x73,
      0x9c, 0xe8, 0xe8, 0x7b, 0xb4, 0x95, 0xf2, 0xea, 0x0d, 0x72, 0xd4, 0xf4, 0xf4, 0x0b, 0x3b, 0xde]"

definition build_enckey :: "crypto \<Rightarrow> SessionKeys \<Rightarrow> bytes" where
  "build_enckey c keys =
     cr_md5 c (sk_public_der keys)
     @ cr_aes_cbc c (drop 16 KEY_TABLE) (take 16 KEY_TABLE)
         (as_bytes (cr_base64_encode c (sk_public_der keys)))"

text \<open>\<open>u8::is_ascii_whitespace\<close> and \<open>trim_ascii\<close>.\<close>

definition ascii_whitespace :: "byte \<Rightarrow> bool" where
  "ascii_whitespace b \<longleftrightarrow> b \<in> {0x09, 0x0A, 0x0C, 0x0D, 0x20}"

definition trim_ascii :: "bytes \<Rightarrow> bytes" where
  "trim_ascii bs = rev (dropWhile ascii_whitespace (rev (dropWhile ascii_whitespace bs)))"

definition decrypt_handshake_result :: "crypto \<Rightarrow> SessionKeys \<Rightarrow> bytes \<Rightarrow> bytes core_result" where
  "decrypt_handshake_result c keys encoded =
     (case cr_base64_decode c (filter (\<lambda>b. \<not> ascii_whitespace b) encoded) of
        None \<Rightarrow> Inl (Handshake ''crypto.handshake_base64_invalid'')
      | Some encrypted \<Rightarrow>
          (case sk_private_decrypt keys encrypted of
             None \<Rightarrow> Inl (Handshake ''crypto.handshake_decrypt_failed'')
           | Some clear \<Rightarrow> Inr clear))"

definition HANDSHAKE_SID :: u32 where
  "HANDSHAKE_SID = 0x80000001"

section \<open>The raw key exchange\<close>

definition adb_establish ::
  "crypto \<Rightarrow> SessionKeys core_result \<Rightarrow> bool \<Rightarrow> write_io \<Rightarrow> bytes \<Rightarrow> SessionKeys core_result" where
  "adb_establish c generated timed_out io stream =
     and_then generated (\<lambda>keys.
       if timed_out then Inl (Timeout ''handshake.adb'')
       else
         and_then (fst (write_upstream io [] HANDSHAKE_SID 0 (build_enckey c keys))) (\<lambda>_.
         and_then (read_normal_direct HANDSHAKE_SID stream) (\<lambda>(response, _).
           if trim_ascii response = as_bytes ''failed'' then Inl (Handshake ''handshake.public_key_rejected'')
           else if trim_ascii response = as_bytes ''locked'' then Inl (Handshake ''handshake.phone_locked'')
           else if trim_ascii response = as_bytes ''needauth''
           then Inl (Handshake ''handshake.authorization_required'')
           else and_then (decrypt_handshake_result c keys response) (\<lambda>clear.
             if clear \<noteq> as_bytes ''ok'' then Inl (Handshake ''handshake.result_invalid'')
             else Inr keys))))"

section \<open>Messages\<close>

datatype SspHandShakeTrustType =
  TrustWaiting | TrustUnknow | TrustNo | TrustOnce | TrustAlways | TrustRemove

definition trust_type_of :: "int \<Rightarrow> SspHandShakeTrustType option" where
  "trust_type_of v =
     (if v = 1 then Some TrustWaiting else if v = 2 then Some TrustUnknow else if v = 3 then Some TrustNo
      else if v = 4 then Some TrustOnce else if v = 5 then Some TrustAlways
      else if v = 6 then Some TrustRemove else None)"

record SspHandShakeRequest01 =
  h1_type :: int
  h1_host_uuid :: string
  h1_host_name :: string
  h1_host_timestamp :: nat
  h1_protocol_version :: string
  h1_app_version :: string
  h1_min_client_version :: string
  h1_md5 :: bytes
  h1_enckey :: bytes
  h1_host_model :: string
  h1_heartbeat_timeout_second :: nat

record SspHandShakeResponse01 =
  r1_apk_version :: "string option"
  r1_apk_version_name :: "string option"
  r1_device_uuid :: "string option"
  r1_device_name :: "string option"
  r1_usb_serial :: "string option"

record SspHandShakeRequest02 =
  h2_type :: int
  h2_host_uuid :: string
  h2_derived_key :: "bytes option"
  h2_trust_type :: "int option"

record SspHandShakeResponse02 =
  r2_trust_type :: "int option"
  r2_device_name :: "string option"
  r2_derived_key :: "bytes option"
  r2_result :: "string option"

text \<open>The protobuf codec of the four messages.\<close>

record messages =
  ms_request01 :: "SspHandShakeRequest01 \<Rightarrow> bytes"
  ms_response01 :: "bytes \<Rightarrow> SspHandShakeResponse01 option"
  ms_request02 :: "SspHandShakeRequest02 \<Rightarrow> bytes"
  ms_response02 :: "bytes \<Rightarrow> SspHandShakeResponse02 option"

record WifiHandshakeInfo =
  wi_device_uuid :: string
  wi_device_name :: "string option"
  wi_usb_serial :: "string option"
  wi_apk_version :: "string option"
  wi_apk_version_name :: "string option"
  wi_derived_key :: "bytes option"
  wi_trust_type :: "SspHandShakeTrustType option"
  wi_trust_waiting :: bool

record WifiTrustHandshake =
  wt_host_uuid :: string
  wt_host_name :: "string option"
  wt_trust :: "(string, TrustRecord) btree"
  wt_trust_remove :: bool
  wt_trust_store :: bool

text \<open>What surrounds one Wi-Fi handshake.\<close>

record wifi_env =
  we_crypto :: crypto
  we_messages :: messages
  we_keys :: "SessionKeys core_result"
  we_host_name :: string
  we_now :: nat
  we_write1 :: write_io
  we_write2 :: write_io
  we_response1_late :: bool
  we_rounds :: nat

definition request01 :: "wifi_env \<Rightarrow> WifiTrustHandshake \<Rightarrow> SessionKeys \<Rightarrow> SspHandShakeRequest01" where
  "request01 env h keys =
     \<lparr>h1_type = 31, h1_host_uuid = wt_host_uuid h,
      h1_host_name = (case wt_host_name h of Some n \<Rightarrow> n | None \<Rightarrow> we_host_name env),
      h1_host_timestamp = we_now env, h1_protocol_version = ''1'', h1_app_version = ''2.5.6'',
      h1_min_client_version = ''1.0.0'',
      h1_md5 = take 16 (build_enckey (we_crypto env) keys),
      h1_enckey = drop 16 (build_enckey (we_crypto env) keys),
      h1_host_model = ''HandShaker-Rust'', h1_heartbeat_timeout_second = 30\<rparr>"

definition stored_key :: "crypto \<Rightarrow> (string, TrustRecord) btree \<Rightarrow> string \<Rightarrow> bytes option" where
  "stored_key c trust device_uuid =
     (case bt_get trust device_uuid of
        None \<Rightarrow> None
      | Some rec \<Rightarrow> cr_base64_decode c (as_bytes (tr_derived_key rec)))"

definition request02 :: "wifi_env \<Rightarrow> WifiTrustHandshake \<Rightarrow> string \<Rightarrow> SspHandShakeRequest02" where
  "request02 env h device_uuid =
     \<lparr>h2_type = 33, h2_host_uuid = wt_host_uuid h,
      h2_derived_key = stored_key (we_crypto env) (wt_trust h) device_uuid,
      h2_trust_type = (if wt_trust_remove h then Some 6 else None)\<rparr>"

section \<open>The Wi-Fi handshake\<close>

text \<open>What one answer of the second round leads to: another round, an error (and whether the stale
  trust record is to be removed), or the end.\<close>

datatype round_outcome =
    NextRound WifiHandshakeInfo
  | RoundFailed core_error bool
  | RoundDone WifiHandshakeInfo

definition verified_ok :: "crypto \<Rightarrow> SessionKeys \<Rightarrow> WifiHandshakeInfo \<Rightarrow> string \<Rightarrow> round_outcome" where
  "verified_ok c keys info result =
     (case decrypt_handshake_result c keys (as_bytes result) of
        Inl e \<Rightarrow> RoundFailed e False
      | Inr clear \<Rightarrow> if clear \<noteq> as_bytes ''ok''
                     then RoundFailed (Handshake ''handshake.result_invalid'') False
                     else RoundDone info)"

definition updated_info :: "SspHandShakeResponse02 \<Rightarrow> WifiHandshakeInfo \<Rightarrow> WifiHandshakeInfo" where
  "updated_info response info =
     info\<lparr>wi_trust_type := Option.bind (r2_trust_type response) trust_type_of,
          wi_device_name := (case r2_device_name response of Some n \<Rightarrow> Some n | None \<Rightarrow> wi_device_name info),
          wi_derived_key := (case r2_derived_key response of Some k \<Rightarrow> Some k | None \<Rightarrow> wi_derived_key info)\<rparr>"

definition wifi_round ::
  "crypto \<Rightarrow> SessionKeys \<Rightarrow> WifiTrustHandshake \<Rightarrow> WifiHandshakeInfo \<Rightarrow> SspHandShakeResponse02 \<Rightarrow> round_outcome" where
  "wifi_round c keys h info0 response =
     (let info = updated_info response info0 in
      if (case r2_derived_key response of Some k \<Rightarrow> length k > 256 | None \<Rightarrow> False)
      then RoundFailed (Protocol ''handshake.derived_key_too_large'') False
      else if wt_trust_remove h then
        (case r2_result response of
           None \<Rightarrow> if Option.bind (r2_trust_type response) trust_type_of = Some TrustWaiting
                    then RoundDone info else NextRound info
         | Some result \<Rightarrow>
             if result = ''failed'' then RoundFailed (Handshake ''handshake.trust_failed'') False
             else if result = ''locked'' then RoundFailed (Handshake ''handshake.phone_locked'') False
             else if result = ''needauth'' then RoundFailed (Handshake ''handshake.authorization_required'') False
             else verified_ok c keys info result)
      else
        (case r2_result response of
           None \<Rightarrow> NextRound (info\<lparr>wi_trust_waiting := True\<rparr>)
         | Some result \<Rightarrow>
             if result = ''failed'' then RoundFailed (Handshake ''handshake.trust_failed'') (wt_trust_store h)
             else if result = ''locked'' then RoundFailed (Handshake ''handshake.phone_locked'') False
             else if result = ''needauth'' then RoundFailed (Handshake ''handshake.authorization_required'') False
             else verified_ok c keys info result))"

text \<open>The loop of the second round over the answers that come before the deadline; the flag of an
  error tells to remove the trust record of the device.\<close>

fun wifi_rounds ::
  "wifi_env \<Rightarrow> SessionKeys \<Rightarrow> WifiTrustHandshake \<Rightarrow> nat \<Rightarrow> WifiHandshakeInfo \<Rightarrow> bytes
   \<Rightarrow> (core_error \<times> bool) + WifiHandshakeInfo" where
  "wifi_rounds env keys h 0 info stream = Inl (Timeout ''handshake.trust_timeout'', False)"
| "wifi_rounds env keys h (Suc rounds) info stream =
     (case read_normal_direct HANDSHAKE_SID stream of
        Inl e \<Rightarrow> Inl (e, False)
      | Inr (body, rest) \<Rightarrow>
          (case ms_response02 (we_messages env) body of
             None \<Rightarrow> Inl (Protocol ''handshake.response02_decode'', False)
           | Some response \<Rightarrow>
               (case wifi_round (we_crypto env) keys h info response of
                  NextRound info' \<Rightarrow> wifi_rounds env keys h rounds info' rest
                | RoundFailed e clear \<Rightarrow> Inl (e, clear)
                | RoundDone info' \<Rightarrow> Inr info')))"

definition initial_info :: "string \<Rightarrow> SspHandShakeResponse01 \<Rightarrow> WifiHandshakeInfo" where
  "initial_info device_uuid response =
     \<lparr>wi_device_uuid = device_uuid, wi_device_name = r1_device_name response,
      wi_usb_serial = r1_usb_serial response, wi_apk_version = r1_apk_version response,
      wi_apk_version_name = r1_apk_version_name response, wi_derived_key = None,
      wi_trust_type = None, wi_trust_waiting = False\<rparr>"

text \<open>
  The whole handshake. The result carries the requests that were sent, in order, and for an error
  the device whose trust record is removed, if any.
\<close>

datatype wifi_sent = Sent01 SspHandShakeRequest01 | Sent02 SspHandShakeRequest02

record wifi_result =
  wr_sent :: "wifi_sent list"
  wr_outcome :: "(SessionKeys \<times> WifiHandshakeInfo) core_result"
  wr_cleared :: "string option"

definition failed_result :: "wifi_sent list \<Rightarrow> core_error \<Rightarrow> wifi_result" where
  "failed_result sent e = \<lparr>wr_sent = sent, wr_outcome = Inl e, wr_cleared = None\<rparr>"

definition wifi_second ::
  "wifi_env \<Rightarrow> WifiTrustHandshake \<Rightarrow> SessionKeys \<Rightarrow> string \<Rightarrow> SspHandShakeResponse01 \<Rightarrow> wifi_sent list
   \<Rightarrow> bytes \<Rightarrow> wifi_result" where
  "wifi_second env h keys device_uuid response sent rest =
     (let second = request02 env h device_uuid in
      case fst (write_upstream (we_write2 env) [] HANDSHAKE_SID 0
                  (ms_request02 (we_messages env) second)) of
        Inl e \<Rightarrow> failed_result sent e
      | Inr _ \<Rightarrow>
          (case wifi_rounds env keys h (we_rounds env) (initial_info device_uuid response) rest of
             Inl (e, clear) \<Rightarrow>
               \<lparr>wr_sent = sent @ [Sent02 second], wr_outcome = Inl e,
                wr_cleared = (if clear then Some device_uuid else None)\<rparr>
           | Inr info \<Rightarrow>
               \<lparr>wr_sent = sent @ [Sent02 second], wr_outcome = Inr (keys, info), wr_cleared = None\<rparr>))"

definition wifi_establish :: "wifi_env \<Rightarrow> WifiTrustHandshake \<Rightarrow> bytes \<Rightarrow> wifi_result" where
  "wifi_establish env h stream =
     (case we_keys env of
        Inl e \<Rightarrow> failed_result [] e
      | Inr keys \<Rightarrow>
          let first = request01 env h keys in
          (case fst (write_upstream (we_write1 env) [] HANDSHAKE_SID 0
                       (ms_request01 (we_messages env) first)) of
             Inl e \<Rightarrow> failed_result [] e
           | Inr _ \<Rightarrow>
               if we_response1_late env
               then failed_result [Sent01 first] (Timeout ''handshake.wifi_response01_timeout'')
               else (case read_normal_direct HANDSHAKE_SID stream of
                  Inl e \<Rightarrow> failed_result [Sent01 first] e
                | Inr (body, rest) \<Rightarrow>
                    (case ms_response01 (we_messages env) body of
                       None \<Rightarrow> failed_result [Sent01 first] (Protocol ''handshake.response01_decode'')
                     | Some response \<Rightarrow>
                         (case r1_device_uuid response of
                            None \<Rightarrow> failed_result [Sent01 first] (Protocol ''handshake.response01_missing_uuid'')
                          | Some device_uuid \<Rightarrow>
                              wifi_second env h keys device_uuid response [Sent01 first] rest)))))"

section \<open>The client around the handshake\<close>

text \<open>
  The Wi-Fi part of \<open>connect_with_state\<close>, up to the request for device information: load the
  state, shake hands, drop a revoked record, remember the device.
\<close>

record connect_io =
  ci_load :: state_io
  ci_clear_load :: state_io
  ci_clear_save :: state_io
  ci_upsert_load :: state_io
  ci_upsert_save :: state_io

definition connect_wifi ::
  "state_codec \<Rightarrow> connect_io \<Rightarrow> wifi_env \<Rightarrow> string \<Rightarrow> string option \<Rightarrow> state_file \<Rightarrow> bytes
   \<Rightarrow> WifiHandshakeInfo core_result \<times> wifi_sent list \<times> state_file" where
  "connect_wifi codec io env new_uuid host_name file stream =
     (case load_or_create codec (ci_load io) new_uuid file of
        (Inl e, file1) \<Rightarrow> (Inl e, [], file1)
      | (Inr st, file1) \<Rightarrow>
          (let h = \<lparr>wt_host_uuid = st_host_uuid st, wt_host_name = host_name, wt_trust = st_trust st,
                    wt_trust_remove = False, wt_trust_store = True\<rparr>;
               r = wifi_establish env h stream
           in case wr_outcome r of
                Inl e \<Rightarrow>
                  (Inl e, wr_sent r,
                   case wr_cleared r of
                     None \<Rightarrow> file1
                   | Some uuid \<Rightarrow> snd (remove_trust codec (ci_clear_load io) (ci_clear_save io) new_uuid uuid file1))
              | Inr (_, info) \<Rightarrow>
                  (case wi_derived_key info of
                     None \<Rightarrow> (Inr info, wr_sent r, file1)
                   | Some key \<Rightarrow>
                       (case upsert_trust codec (cr_base64_encode (we_crypto env)) (ci_upsert_load io)
                               (ci_upsert_save io) new_uuid (we_now env) (wi_device_uuid info)
                               (wi_device_name info) key file1 of
                          (Inl e, file2) \<Rightarrow> (Inl e, wr_sent r, file2)
                        | (Inr _, file2) \<Rightarrow> (Inr info, wr_sent r, file2)))))"

text \<open>\<open>reset_wifi_trust_with_state_store\<close>: the handshake that carries the removal, then the check
  that it was the expected phone. \<open>closed\<close> is the outcome of closing the session.\<close>

definition reset_wifi_trust ::
  "state_codec \<Rightarrow> state_io \<Rightarrow> wifi_env \<Rightarrow> string \<Rightarrow> string option \<Rightarrow> string \<Rightarrow> unit core_result \<Rightarrow> state_file \<Rightarrow> bytes
   \<Rightarrow> unit core_result \<times> wifi_sent list \<times> state_file" where
  "reset_wifi_trust codec io env new_uuid host_name expected_device_uuid closed file stream =
     (case load_or_create codec io new_uuid file of
        (Inl e, file1) \<Rightarrow> (Inl e, [], file1)
      | (Inr st, file1) \<Rightarrow>
          (let h = \<lparr>wt_host_uuid = st_host_uuid st, wt_host_name = host_name, wt_trust = [],
                    wt_trust_remove = True, wt_trust_store = False\<rparr>;
               r = wifi_establish env h stream
           in case wr_outcome r of
                Inl e \<Rightarrow> (Inl e, wr_sent r, file1)
              | Inr (_, info) \<Rightarrow>
                  (if wi_device_uuid info \<noteq> expected_device_uuid
                   then (Inl (Handshake ''trust.reset_device_mismatch''), wr_sent r, file1)
                   else (closed, wr_sent r, file1))))"


section \<open>The dialogue\<close>

text \<open>The decoded answers a stream starts with.\<close>

inductive phone_says :: "messages \<Rightarrow> bytes \<Rightarrow> SspHandShakeResponse02 list \<Rightarrow> bytes \<Rightarrow> bool" where
  says_nothing: "phone_says ms stream [] stream"
| says_next: "read_normal_direct HANDSHAKE_SID stream = Inr (body, stream1) \<Longrightarrow>
     ms_response02 ms body = Some r \<Longrightarrow> phone_says ms stream1 rs rest \<Longrightarrow>
     phone_says ms stream (r # rs) rest"

inductive_simps phone_says_Nil [simp]: "phone_says ms stream [] rest"
inductive_cases phone_says_ConsE: "phone_says ms stream (r # rs) rest"

definition key_fits :: "SspHandShakeResponse02 \<Rightarrow> bool" where
  "key_fits r \<longleftrightarrow> (case r2_derived_key r of Some k \<Rightarrow> length k \<le> 256 | None \<Rightarrow> True)"

definition waiting_answer :: "SspHandShakeResponse02 \<Rightarrow> bool" where
  "waiting_answer r \<longleftrightarrow> r2_result r = None \<and> key_fits r"

definition accepting_answer :: "crypto \<Rightarrow> SessionKeys \<Rightarrow> SspHandShakeResponse02 \<Rightarrow> bool" where
  "accepting_answer c keys r \<longleftrightarrow> key_fits r \<and>
     (\<exists>result. r2_result r = Some result \<and> result \<noteq> ''failed'' \<and> result \<noteq> ''locked'' \<and> result \<noteq> ''needauth'' \<and>
        decrypt_handshake_result c keys (as_bytes result) = Inr (as_bytes ''ok''))"

definition after_waiting :: "SspHandShakeResponse02 list \<Rightarrow> WifiHandshakeInfo \<Rightarrow> WifiHandshakeInfo" where
  "after_waiting rs info = foldl (\<lambda>i r. (updated_info r i)\<lparr>wi_trust_waiting := True\<rparr>) info rs"

lemma wifi_round_cases:
  assumes "\<not> wt_trust_remove h"
  shows "wifi_round c keys h info r = NextRound info' \<longleftrightarrow>
      waiting_answer r \<and> info' = (updated_info r info)\<lparr>wi_trust_waiting := True\<rparr>"
    and "wifi_round c keys h info r = RoundDone info' \<longleftrightarrow>
      accepting_answer c keys r \<and> info' = updated_info r info"
  using assms
  by (auto simp: wifi_round_def waiting_answer_def accepting_answer_def key_fits_def verified_ok_def Let_def
      split: option.splits sum.splits if_splits)

lemma wifi_rounds_iff:
  assumes "\<not> wt_trust_remove h"
  shows "wifi_rounds env keys h n info stream = Inr info' \<longleftrightarrow>
    (\<exists>rs r rest. phone_says (we_messages env) stream (rs @ [r]) rest \<and> length rs < n \<and>
       list_all waiting_answer rs \<and> accepting_answer (we_crypto env) keys r \<and>
       info' = updated_info r (after_waiting rs info))"
proof (induction n arbitrary: info stream)
  case 0
  then show ?case by simp
next
  case (Suc n)
  let ?P = "\<lambda>n info stream rs r rest. phone_says (we_messages env) stream (rs @ [r]) rest \<and> length rs < n \<and>
       list_all waiting_answer rs \<and> accepting_answer (we_crypto env) keys r \<and>
       info' = updated_info r (after_waiting rs info)"
  show ?case
  proof
    assume run: "wifi_rounds env keys h (Suc n) info stream = Inr info'"
    then obtain body stream1 r where read: "read_normal_direct HANDSHAKE_SID stream = Inr (body, stream1)"
      "ms_response02 (we_messages env) body = Some r"
      by (auto split: sum.splits option.splits)
    show "\<exists>rs r rest. ?P (Suc n) info stream rs r rest"
    proof (cases "wifi_round (we_crypto env) keys h info r")
      case (NextRound info1)
      then have "wifi_rounds env keys h n info1 stream1 = Inr info'" using run read by simp
      then obtain rs r' rest where "?P n info1 stream1 rs r' rest" using Suc.IH by blast
      moreover have "waiting_answer r" "info1 = (updated_info r info)\<lparr>wi_trust_waiting := True\<rparr>"
        using NextRound wifi_round_cases(1)[OF assms] by blast+
      ultimately have "?P (Suc n) info stream (r # rs) r' rest"
        using says_next[OF read] by (simp add: after_waiting_def)
      then show ?thesis by blast
    next
      case (RoundFailed e clear)
      then show ?thesis using run read by simp
    next
      case (RoundDone info1)
      then have "info1 = info'" using run read by simp
      then have "?P (Suc n) info stream [] r stream1"
        using RoundDone wifi_round_cases(2)[OF assms] says_next[OF read says_nothing]
        by (simp add: after_waiting_def)
      then show ?thesis by blast
    qed
  next
    assume "\<exists>rs r rest. ?P (Suc n) info stream rs r rest"
    then obtain rs r rest where P: "?P (Suc n) info stream rs r rest" by blast
    show "wifi_rounds env keys h (Suc n) info stream = Inr info'"
    proof (cases rs)
      case Nil
      then obtain body stream1 where "read_normal_direct HANDSHAKE_SID stream = Inr (body, stream1)"
        "ms_response02 (we_messages env) body = Some r"
        using P by (auto elim: phone_says_ConsE)
      moreover have "wifi_round (we_crypto env) keys h info r = RoundDone info'"
        using P Nil wifi_round_cases(2)[OF assms] by (simp add: after_waiting_def)
      ultimately show ?thesis by simp
    next
      case (Cons r1 rs1)
      let ?info = "(updated_info r1 info)\<lparr>wi_trust_waiting := True\<rparr>"
      obtain body stream1 where read: "read_normal_direct HANDSHAKE_SID stream = Inr (body, stream1)"
        "ms_response02 (we_messages env) body = Some r1"
        and rest: "phone_says (we_messages env) stream1 (rs1 @ [r]) rest"
        using P Cons by (auto elim: phone_says_ConsE)
      have "wifi_rounds env keys h n ?info stream1 = Inr info'"
        using P Cons rest Suc.IH[of ?info stream1] by (auto simp: after_waiting_def)
      moreover have "wifi_round (we_crypto env) keys h info r1 = NextRound ?info"
        using P Cons wifi_round_cases(1)[OF assms] by simp
      ultimately show ?thesis using read by simp
    qed
  qed
qed

lemma updated_info_simps [simp]:
  "wi_device_uuid (updated_info r info) = wi_device_uuid info"
  "wi_trust_waiting (updated_info r info) = wi_trust_waiting info"
  by (simp_all add: updated_info_def)

lemma after_waiting_uuid [simp]: "wi_device_uuid (after_waiting rs info) = wi_device_uuid info"
  unfolding after_waiting_def by (induction rs arbitrary: info) auto

lemma after_waiting_flag:
  "wi_trust_waiting (after_waiting rs info) \<longleftrightarrow> wi_trust_waiting info \<or> rs \<noteq> []"
  unfolding after_waiting_def by (induction rs arbitrary: info) auto

lemma updated_key_fits:
  "key_fits r \<Longrightarrow> (\<And>k. wi_derived_key info = Some k \<Longrightarrow> length k \<le> 256) \<Longrightarrow>
   wi_derived_key (updated_info r info) = Some k \<Longrightarrow> length k \<le> 256"
  by (auto simp: updated_info_def key_fits_def split: option.splits)

lemma after_waiting_key_fits:
  "list_all waiting_answer rs \<Longrightarrow> (\<And>k. wi_derived_key info = Some k \<Longrightarrow> length k \<le> 256) \<Longrightarrow>
   wi_derived_key (after_waiting rs info) = Some k \<Longrightarrow> length k \<le> 256"
  unfolding after_waiting_def
proof (induction rs arbitrary: info k)
  case (Cons r rs)
  show ?case
    by (rule Cons.IH[of "(updated_info r info)\<lparr>wi_trust_waiting := True\<rparr>"])
       (use Cons.prems updated_key_fits[of r info] in \<open>auto simp: waiting_answer_def\<close>)
qed simp

text \<open>The first round: what has been read when the second one starts.\<close>

definition introduced ::
  "wifi_env \<Rightarrow> bytes \<Rightarrow> SspHandShakeResponse01 \<Rightarrow> string \<Rightarrow> bytes \<Rightarrow> bool" where
  "introduced env stream response device_uuid rest \<longleftrightarrow>
     (\<exists>body. read_normal_direct HANDSHAKE_SID stream = Inr (body, rest) \<and>
        ms_response01 (we_messages env) body = Some response \<and> r1_device_uuid response = Some device_uuid)"

lemma wifi_establish_Inr:
  assumes "wr_outcome (wifi_establish env h stream) = Inr (keys, info)"
  obtains response device_uuid rest where "we_keys env = Inr keys"
    "introduced env stream response device_uuid rest"
    "wifi_rounds env keys h (we_rounds env) (initial_info device_uuid response) rest = Inr info"
    "wr_sent (wifi_establish env h stream) =
       [Sent01 (request01 env h keys), Sent02 (request02 env h device_uuid)]"
proof -
  obtain keys' where keys': "we_keys env = Inr keys'"
    using assms by (cases "we_keys env") (auto simp: wifi_establish_def failed_result_def)
  from assms keys' obtain response device_uuid rest where intro:
      "introduced env stream response device_uuid rest"
    and est: "wifi_establish env h stream =
       wifi_second env h keys' device_uuid response [Sent01 (request01 env h keys')] rest"
    by (auto simp: wifi_establish_def failed_result_def Let_def introduced_def
        split: sum.splits if_splits option.splits)
  have rounds: "wifi_rounds env keys' h (we_rounds env) (initial_info device_uuid response) rest = Inr info"
    "keys' = keys" "wr_sent (wifi_establish env h stream) =
       [Sent01 (request01 env h keys'), Sent02 (request02 env h device_uuid)]"
    using assms est by (auto simp: wifi_second_def failed_result_def Let_def split: sum.splits)
  show thesis using that[of response device_uuid rest] keys' intro rounds by simp
qed


section \<open>A sample phone\<close>

definition sample_crypto :: crypto where
  "sample_crypto = \<lparr>cr_md5 = (\<lambda>_. replicate 16 0), cr_base64_encode = map (\<lambda>b. char_of (unat b)),
     cr_base64_decode = Some, cr_aes_cbc = (\<lambda>_ _ bs. bs)\<rparr>"

definition sample_messages :: messages where
  "sample_messages = \<lparr>ms_request01 = (\<lambda>_. []),
     ms_response01 = (\<lambda>_. Some \<lparr>r1_apk_version = None, r1_apk_version_name = None,
        r1_device_uuid = Some ''phone'', r1_device_name = None, r1_usb_serial = None\<rparr>),
     ms_request02 = (\<lambda>_. []),
     ms_response02 = (\<lambda>body. Some (if body = []
        then \<lparr>r2_trust_type = Some 1, r2_device_name = None, r2_derived_key = None, r2_result = None\<rparr>
        else \<lparr>r2_trust_type = Some 5, r2_device_name = None, r2_derived_key = Some [9], r2_result = Some ''ok''\<rparr>))\<rparr>"

definition sample_wifi :: wifi_env where
  "sample_wifi = \<lparr>we_crypto = sample_crypto, we_messages = sample_messages,
     we_keys = Inr \<lparr>sk_private_decrypt = Some, sk_public_der = [1]\<rparr>, we_host_name = ''pc'', we_now = 5,
     we_write1 = WriteOk, we_write2 = WriteOk, we_response1_late = False, we_rounds = 3\<rparr>"

definition sample_dialogue :: bytes where
  "sample_dialogue = downstream_frame HANDSHAKE_SID (envelope []) @
     downstream_frame HANDSHAKE_SID (envelope []) @ downstream_frame HANDSHAKE_SID (envelope [1])"

definition sample_host :: WifiTrustHandshake where
  "sample_host = \<lparr>wt_host_uuid = ''host'', wt_host_name = None, wt_trust = [], wt_trust_remove = False,
     wt_trust_store = True\<rparr>"

lemma read_one_frame:
  assumes "length body + 8 \<le> MAX_DOWNSTREAM_CHUNK"
  shows "read_normal_direct sid (downstream_frame sid (envelope body) @ rest) = Inr (body, rest)"
proof -
  have "length (envelope body) > 0" by (simp add: envelope_def)
  then have ne: "envelope body \<noteq> []" using length_greater_0_conv by blast
  have small: "length (envelope body) \<le> MAX_DOWNSTREAM_CHUNK" using assms by (simp add: envelope_def)
  have "feed handshake_push ([], None) [envelope body] = Inr (Inr (body, []))"
    using handshakes.feed_complete[of "[]" "envelope body" body "[]"] assms small ne
    by (simp add: MAX_HANDSHAKE_RESPONSE_def MAX_DOWNSTREAM_CHUNK_def)
  then show ?thesis
    using read_normal_from_frames[of "[envelope body]" "([], None)" sid rest] small
    by (simp add: read_normal_direct_def)
qed

lemma sample_reads [simp]:
  "read_normal_direct sid (downstream_frame sid (envelope []) @ rest) = Inr ([], rest)"
  "read_normal_direct sid (downstream_frame sid (envelope [1]) @ rest) = Inr ([1], rest)"
  "read_normal_direct sid (downstream_frame sid (envelope [1])) = Inr ([1], [])"
  using read_one_frame[of "[]" sid rest] read_one_frame[of "[1]" sid rest] read_one_frame[of "[1]" sid "[]"]
  by (simp_all add: MAX_DOWNSTREAM_CHUNK_def)

lemma sample_decrypts:
  "decrypt_handshake_result sample_crypto \<lparr>sk_private_decrypt = Some, sk_public_der = [1]\<rparr> (as_bytes ''ok'') =
   Inr (as_bytes ''ok'')"
  by (simp add: decrypt_handshake_result_def sample_crypto_def as_bytes_def ascii_whitespace_def)

lemma sample_write: "fst (write_upstream WriteOk [] sid 0 []) = Inr (projr (fst (write_upstream WriteOk [] sid 0 [])))"
  by (simp add: write_upstream_def encode_upstream_def)

lemmas sample_wifi_eval = wifi_establish_def wifi_second_def sample_wifi_def sample_messages_def
  sample_dialogue_def initial_info_def numeral_3_eq_3 wifi_round_def updated_info_def
  trust_type_of_def verified_ok_def sample_decrypts write_upstream_def encode_upstream_def
  MAX_UPSTREAM_PAYLOAD_def Let_def

definition sample_keys :: SessionKeys where
  "sample_keys = \<lparr>sk_private_decrypt = Some, sk_public_der = [1]\<rparr>"

definition sample_info :: WifiHandshakeInfo where
  "sample_info = \<lparr>wi_device_uuid = ''phone'', wi_device_name = None, wi_usb_serial = None,
     wi_apk_version = None, wi_apk_version_name = None, wi_derived_key = Some [9],
     wi_trust_type = Some TrustAlways, wi_trust_waiting = True\<rparr>"

lemma sample_establish:
  assumes "\<not> wt_trust_remove h"
  shows "wifi_establish sample_wifi h sample_dialogue =
    \<lparr>wr_sent = [Sent01 (request01 sample_wifi h sample_keys), Sent02 (request02 sample_wifi h ''phone'')],
     wr_outcome = Inr (sample_keys, sample_info), wr_cleared = None\<rparr>"
  using assms by (simp add: sample_wifi_eval sample_keys_def sample_info_def)


section \<open>Remembered devices\<close>

lemma wifi_sent_key:
  assumes "introduced env stream response device_uuid rest"
    and "wr_sent (wifi_establish env h stream) = [Sent01 a, Sent02 b]"
  shows "b = request02 env h device_uuid"
  using assms
  by (auto simp: wifi_establish_def wifi_second_def failed_result_def Let_def introduced_def
      split: sum.splits if_splits option.splits)

text \<open>C21 A device that was trusted once is recognised the next time: after a connection that
  received a key, a later connection to the same device sends exactly that key, under the same
  host identity, whatever else was stored before.\<close>

theorem trusted_device_recognised:
  assumes "faithful codec" "stores codec file new_uuid host"
    and "all_ok (ci_load io)" "all_ok (ci_upsert_load io)" "all_ok (ci_upsert_save io)" "all_ok (ci_load io2)"
    and first: "connect_wifi codec io env new_uuid name file stream = (Inr info, sent, file')"
      "wi_derived_key info = Some key"
    and base64: "\<And>k. cr_base64_decode (we_crypto env2) (as_bytes (cr_base64_encode (we_crypto env) k)) = Some k"
    and second: "connect_wifi codec io2 env2 new_uuid name2 file' stream2 = (result, [Sent01 a, Sent02 b], file'')"
      "introduced env2 stream2 response (wi_device_uuid info) rest"
  shows "h2_derived_key b = Some key \<and> h2_host_uuid b = ho_uuid host \<and> h2_trust_type b = None"
proof -
  obtain st file1 where load: "load_or_create codec (ci_load io) new_uuid file = (Inr st, file1)"
    and st: "abs_state st = host" and file1: "stores codec file1 new_uuid host"
    using load_stores[OF assms(1,3,2)] by blast
  let ?rec = "\<lparr>tr_device_name = wi_device_name info, tr_derived_key = cr_base64_encode (we_crypto env) key,
      tr_updated_at = we_now env\<rparr>"
  let ?host = "host\<lparr>ho_trust := (ho_trust host)(wi_device_uuid info \<mapsto> ?rec)\<rparr>"
  have file': "upsert_trust codec (cr_base64_encode (we_crypto env)) (ci_upsert_load io) (ci_upsert_save io)
      new_uuid (we_now env) (wi_device_uuid info) (wi_device_name info) key file1 = (Inr (), file')"
    using first load by (auto simp: connect_wifi_def Let_def split: sum.splits option.splits prod.splits)
  obtain st1 file2 where load1: "load_or_create codec (ci_upsert_load io) new_uuid file1 = (Inr st1, file2)"
    and st1: "abs_state st1 = host" "st_schema_version st1 = 1" "bt_ok (st_trust st1)"
    using load_stores[OF assms(1,4) file1] by blast
  let ?st2 = "st1\<lparr>st_trust := bt_insert (wi_device_uuid info) ?rec (st_trust st1)\<rparr>"
  have "file' = Some (to_json codec ?st2)"
    using file' load1 by (simp add: upsert_trust_def save_ok[OF assms(5)])
  then have load2: "load_or_create codec (ci_load io2) new_uuid file' = (Inr ?st2, file')"
    using assms(1,6) st1(2) by (simp add: load_or_create_def faithful_def all_ok_def)
  let ?h = "\<lparr>wt_host_uuid = st_host_uuid ?st2, wt_host_name = name2, wt_trust = st_trust ?st2,
      wt_trust_remove = False, wt_trust_store = True\<rparr>"
  have "wr_sent (wifi_establish env2 ?h stream2) = [Sent01 a, Sent02 b]"
    using second(1) load2 by (auto simp: connect_wifi_def Let_def split: sum.splits option.splits prod.splits)
  then have b: "b = request02 env2 ?h (wi_device_uuid info)"
    using wifi_sent_key[OF second(2)] by blast
  have "stored_key (we_crypto env2) (st_trust ?st2) (wi_device_uuid info) = Some key"
    using base64 by (simp add: stored_key_def)
  then show ?thesis using st1(1) by (auto simp: b request02_def abs_state_def)
qed


definition sample_connect_io :: connect_io where
  "sample_connect_io = \<lparr>ci_load = good_io, ci_clear_load = good_io, ci_clear_save = good_io,
     ci_upsert_load = good_io, ci_upsert_save = good_io\<rparr>"

lemma sample_base64: "cr_base64_decode sample_crypto (as_bytes (cr_base64_encode sample_crypto k)) = Some k"
proof -
  have "(unat b :: nat) mod 256 = unat b" for b :: byte
    using unsigned_less[of b, where 'a = nat] by simp
  then show ?thesis by (simp add: sample_crypto_def as_bytes_def comp_def)
qed

theorem trusted_device_recognised_witness:
  "\<exists>info sent file' result a b file''.
     connect_wifi plain_codec sample_connect_io sample_wifi ''host'' None None sample_dialogue = (Inr info, sent, file') \<and>
     connect_wifi plain_codec sample_connect_io sample_wifi ''host'' None file' sample_dialogue =
       (result, [Sent01 a, Sent02 b], file'') \<and>
     h2_derived_key b = Some [9]"
proof -
  have codec: "from_json plain_codec (to_json plain_codec st) = Some st" for st
    using plain_codec_faithful by (simp add: faithful_def)
  have io [simp]: "all_ok (ci_load sample_connect_io)" "all_ok (ci_upsert_load sample_connect_io)"
    "all_ok (ci_upsert_save sample_connect_io)"
    by (simp_all add: sample_connect_io_def)
  have load: "load_or_create plain_codec good_io ''host'' (Some (to_json plain_codec st)) =
      (Inr st, Some (to_json plain_codec st))" if "st_schema_version st = 1" for st
    using that codec by (simp add: load_or_create_def good_io_def)
  have new: "load_or_create plain_codec good_io ''host'' None =
      (Inr \<lparr>st_schema_version = 1, st_host_uuid = ''host'', st_trust = []\<rparr>,
       Some (to_json plain_codec \<lparr>st_schema_version = 1, st_host_uuid = ''host'', st_trust = []\<rparr>))"
    by (simp add: load_or_create_def save_ok Let_def)
  have key: "wi_derived_key sample_info = Some [9]" "wi_device_uuid sample_info = ''phone''"
    by (simp_all add: sample_info_def)
  define st' where "st' = \<lparr>st_schema_version = 1, st_host_uuid = ''host'', st_trust = [(''phone'',
      \<lparr>tr_device_name = wi_device_name sample_info, tr_derived_key = cr_base64_encode (we_crypto sample_wifi) [9],
       tr_updated_at = we_now sample_wifi\<rparr>)]\<rparr>"
  have st': "st_schema_version st' = 1" by (simp add: st'_def)
  obtain sent where first: "connect_wifi plain_codec sample_connect_io sample_wifi ''host'' None None sample_dialogue =
      (Inr sample_info, sent, Some (to_json plain_codec st'))"
    by (simp add: connect_wifi_def sample_connect_io_def new sample_establish key upsert_trust_def load
        save_ok Let_def st'_def)
  obtain result a b file'' where
    second: "connect_wifi plain_codec sample_connect_io sample_wifi ''host'' None (Some (to_json plain_codec st'))
      sample_dialogue = (result, [Sent01 a, Sent02 b], file'')"
    by (simp add: connect_wifi_def sample_connect_io_def load[OF st'] sample_establish key upsert_trust_def
        save_ok Let_def)
  have intro: "introduced sample_wifi sample_dialogue
      \<lparr>r1_apk_version = None, r1_apk_version_name = None, r1_device_uuid = Some ''phone'',
       r1_device_name = None, r1_usb_serial = None\<rparr> (wi_device_uuid sample_info)
      (downstream_frame HANDSHAKE_SID (envelope []) @ downstream_frame HANDSHAKE_SID (envelope [1]))"
    by (simp add: introduced_def sample_dialogue_def sample_wifi_def sample_messages_def key)
  have b64: "cr_base64_decode (we_crypto sample_wifi) (as_bytes (cr_base64_encode (we_crypto sample_wifi) k)) = Some k" for k
    using sample_base64 by (simp add: sample_wifi_def)
  have "h2_derived_key b = Some [9]"
    using trusted_device_recognised[OF plain_codec_faithful fresh_stores io(1) io(2) io(3) io(1) first key(1) b64
        second intro] by blast
  then show ?thesis using first second by blast
qed

text \<open>Resetting the trust of a phone removes the trust before it knows which phone it talks to:
  when the connected device turns out to be another one than expected, the reset is reported as a
  mismatch, but the removal has already been sent to it.\<close>

theorem reset_removes_before_check:
  assumes "load_or_create codec io new_uuid file = (Inr st, file1)"
    and "h = \<lparr>wt_host_uuid = st_host_uuid st, wt_host_name = name, wt_trust = [], wt_trust_remove = True,
              wt_trust_store = False\<rparr>"
    and "wr_outcome (wifi_establish env h stream) = Inr (keys, info)" "wi_device_uuid info \<noteq> expected"
  shows "\<exists>a b. reset_wifi_trust codec io env new_uuid name expected closed file stream =
      (Inl (Handshake ''trust.reset_device_mismatch''), [Sent01 a, Sent02 b], file1) \<and>
    h2_trust_type b = Some 6"
proof -
  obtain device_uuid where "wr_sent (wifi_establish env h stream) =
       [Sent01 (request01 env h keys), Sent02 (request02 env h device_uuid)]"
    using wifi_establish_Inr[OF assms(3)] by metis
  then show ?thesis
    using assms by (simp add: reset_wifi_trust_def request02_def)
qed

theorem reset_removes_before_check_witness:
  "\<exists>a b. reset_wifi_trust plain_codec good_io sample_wifi ''host'' None ''other'' (Inr ()) None sample_dialogue =
      (Inl (Handshake ''trust.reset_device_mismatch''), [Sent01 a, Sent02 b],
       snd (load_or_create plain_codec good_io ''host'' None)) \<and> h2_trust_type b = Some 6"
proof -
  let ?st = "\<lparr>st_schema_version = 1, st_host_uuid = ''host'', st_trust = []\<rparr>"
  let ?h = "\<lparr>wt_host_uuid = st_host_uuid ?st, wt_host_name = None, wt_trust = [], wt_trust_remove = True,
              wt_trust_store = False\<rparr>"
  let ?r = "wifi_establish sample_wifi ?h sample_dialogue"
  have load: "load_or_create plain_codec good_io ''host'' None =
      (Inr ?st, snd (load_or_create plain_codec good_io ''host'' None))"
    by (simp add: load_or_create_def save_ok Let_def)
  obtain info where "wr_outcome ?r = Inr (sample_keys, info)" "wi_device_uuid info = ''phone''"
    by (simp add: sample_wifi_eval sample_keys_def)
  then show ?thesis using reset_removes_before_check[OF load refl,
      where env = sample_wifi and stream = sample_dialogue and keys = sample_keys and info = info
        and expected = "''other''" and closed = "Inr ()" and name = None] by simp
qed

end
