(* ===== verification/Client.thy ===== *)
theory Client
  imports Events Paths
begin

text \<open>
  The single-request operations of \<open>HandShakerClient\<close>, \<open>handshaker-core/src/client.rs\<close>: which
  request each of them sends and what it makes of the answer. An operation passes the state of the
  connected phone along; one round trip through the session is the field \<open>cl_request\<close>, the
  decoders prost generates, gzip and clocks are fields too. Errors keep the i18n key of their
  message.
\<close>

section \<open>Operations on a phone\<close>

type_synonym ('p, 'a) op = "'p \<Rightarrow> 'a core_result \<times> 'p"

definition op_return :: "'a core_result \<Rightarrow> ('p, 'a) op" where
  "op_return r = (\<lambda>p. (r, p))"

definition op_then :: "('p, 'a) op \<Rightarrow> ('a \<Rightarrow> ('p, 'b) op) \<Rightarrow> ('p, 'b) op" where
  "op_then m f = (\<lambda>p. case m p of (Inl e, p1) \<Rightarrow> (Inl e, p1) | (Inr x, p1) \<Rightarrow> f x p1)"

lemma op_return_apply [simp]: "op_return r p = (r, p)"
  by (simp add: op_return_def)

lemma op_then_Inr_iff:
  "op_then m f p = (Inr y, p2) \<longleftrightarrow> (\<exists>x p1. m p = (Inr x, p1) \<and> f x p1 = (Inr y, p2))"
  by (auto simp: op_then_def split: prod.splits sum.splits)

section \<open>Requests\<close>

record SspImageAlbum =
  xj_album_path :: "string option"
  xj_album_id :: "nat option"
  xj_album_name :: "string option"
  xj_cover_image :: "SspImageFile option"

record SspVideoAlbum =
  xl_album_path :: "string option"
  xl_album_id :: "nat option"
  xl_album_name :: "string option"

record EventCallbacks =
  ec_device_info :: bool
  ec_photo_library :: bool
  ec_audio_library :: bool
  ec_video_library :: bool

text \<open>The request messages with the fields the code fills in; \<open>request_type\<close> is their type field.\<close>

datatype ssp_request =
    HeartBeatRequest nat
  | GetDirFilesRequest SspFile u32
  | GetFileCountRequest SspFile u32 "string list"
  | FileExistRequest SspFile
  | CreateFolderRequest SspFile
  | RenameFileRequest SspFile SspFile
  | UpdateFileRequest "SspFile list" bool
  | PhotoSyncRequest string "SspFile list"
  | SyncMonitorRequest bool
  | DeleteFileRequest "SspFile list" bool bool
  | MonitorFolderRequest SspFile bool
  | DownloadFileRequest SspFile nat bool
  | UploadFileRequest SspFile string
  | GetClipboardRequest
  | PostClipboardRequest SspClipboard
  | DeleteClipboardRequest SspClipboard
  | ClearClipboardRequest
  | GetPhotoLibraryRequest
  | GetVideoLibraryRequest
  | GetAudioLibraryRequest
  | GetThumbnailRequest "SspImageFile list" "SspVideoFile list" "SspAudioAlbum list"
  | GetDeviceInfoRequest nat EventCallbacks

fun request_type :: "ssp_request \<Rightarrow> int" where
  "request_type (HeartBeatRequest _) = 1"
| "request_type (GetDeviceInfoRequest _ _) = 2"
| "request_type (GetThumbnailRequest _ _ _) = 3"
| "request_type GetPhotoLibraryRequest = 4"
| "request_type GetVideoLibraryRequest = 5"
| "request_type GetAudioLibraryRequest = 6"
| "request_type (GetDirFilesRequest _ _) = 7"
| "request_type (GetFileCountRequest _ _ _) = 8"
| "request_type (FileExistRequest _) = 9"
| "request_type (CreateFolderRequest _) = 10"
| "request_type (RenameFileRequest _ _) = 11"
| "request_type (DownloadFileRequest _ _ _) = 12"
| "request_type (UploadFileRequest _ _) = 15"
| "request_type (DeleteFileRequest _ _ _) = 19"
| "request_type (MonitorFolderRequest _ _) = 23"
| "request_type GetClipboardRequest = 26"
| "request_type (PostClipboardRequest _) = 27"
| "request_type ClearClipboardRequest = 28"
| "request_type (DeleteClipboardRequest _) = 29"
| "request_type (PhotoSyncRequest _ _) = 37"
| "request_type (SyncMonitorRequest _) = 39"
| "request_type (UpdateFileRequest _ _) = 40"

text \<open>The answers, as far as the code reads them. Five of them consist of one flag under the same
  field number and share the decoder \<open>cc_flag\<close>.\<close>

record remote_status =
  rt_succeed :: "bool option"
  rt_error_code :: "int option"
  rt_error_message :: "string option"

record SspDownloadFileResponseHeader =
  dh_ready :: "bool option"
  dh_length :: "nat option"
  dh_data_md5 :: "string option"
  dh_error_code :: "int option"

record SspUploadFileResponseHeader =
  uh_ready :: "bool option"
  uh_error_code :: "int option"

record SspUploadFileResponse =
  ur_canceled :: "bool option"
  ur_succeed :: "bool option"
  ur_error_code :: "int option"

record client_codec =
  cc_heartbeat :: "bytes \<Rightarrow> (nat option \<times> nat option) option"
  cc_dir_files :: "bytes \<Rightarrow> SspFile list option"
  cc_file_count :: "bytes \<Rightarrow> nat option option"
  cc_file_exist :: "bytes \<Rightarrow> bool option option"
  cc_create_folder :: "bytes \<Rightarrow> (remote_status \<times> SspFile option) option"
  cc_status :: "bytes \<Rightarrow> remote_status option"
  cc_monitor_header :: "bytes \<Rightarrow> remote_status option"
  cc_flag :: "bytes \<Rightarrow> bool option option"
  cc_photo_sync :: "bytes \<Rightarrow> SspPhotoSyncResponse option"
  cc_delete :: "bytes \<Rightarrow> (remote_status \<times> SspFile list) option"
  cc_clipboards :: "bytes \<Rightarrow> SspClipboard list option"
  cc_photo_library :: "bytes \<Rightarrow> (SspImageFile list \<times> SspImageAlbum list \<times> nat option) option"
  cc_video_library :: "bytes \<Rightarrow> (SspVideoFile list \<times> SspVideoAlbum list) option"
  cc_audio_library :: "bytes \<Rightarrow> (SspAudioFile list \<times> SspAudioAlbum list) option"
  cc_thumbnails :: "bytes \<Rightarrow> (SspImageFile list \<times> SspVideoFile list \<times> SspAudioAlbum list) option"
  cc_device_info :: "bytes \<Rightarrow> SspGetDeviceInfoResponse option"
  cc_download_header :: "bytes \<Rightarrow> SspDownloadFileResponseHeader option"
  cc_upload_header :: "bytes \<Rightarrow> SspUploadFileResponseHeader option"
  cc_upload_response :: "bytes \<Rightarrow> SspUploadFileResponse option"
  cc_gunzip :: "bytes \<Rightarrow> string option"
  cc_gzip :: "string \<Rightarrow> bytes core_result"
  cc_div_1000 :: "f64 \<Rightarrow> f64"

text \<open>The client: its device information, whether it still holds its session, and the session
  itself as one round trip.\<close>

record 'p client =
  cl_device :: DeviceInfo
  cl_session :: bool
  cl_codec :: client_codec
  cl_request :: "ssp_request \<Rightarrow> ('p, bytes) op"

definition root_path :: "'p client \<Rightarrow> string" where
  "root_path c = di_root_path (cl_device c)"

definition session_request :: "'p client \<Rightarrow> ssp_request \<Rightarrow> ('p, bytes) op" where
  "session_request c m =
     (if cl_session c then cl_request c m else op_return (Inl (Transport ''client.connection_closed'')))"

definition decoded :: "'a option \<Rightarrow> 'a core_result" where
  "decoded x = (case x of None \<Rightarrow> Inl (Protocol ''error.protobuf_decode'') | Some v \<Rightarrow> Inr v)"

definition ask :: "'p client \<Rightarrow> ssp_request \<Rightarrow> (bytes \<Rightarrow> 'a option) \<Rightarrow> ('p, 'a) op" where
  "ask c m dec = op_then (session_request c m) (\<lambda>body. op_return (decoded (dec body)))"

section \<open>Conversions\<close>

definition ssp_file :: "string \<Rightarrow> bool \<Rightarrow> nat option \<Rightarrow> SspFile" where
  "ssp_file p is_directory sz =
     \<lparr>xf_path = Some p, xf_file_size = sz, xf_created_timestamp = None, xf_modified_timestamp = None,
      xf_is_directory = Some is_directory, xf_checksum = None, xf_ext_data = None, xf_is_trash = None,
      xf_id = None, xf_succeed = None, xf_error_code = None\<rparr>"

definition ssp_file_from_remote :: "RemoteFile \<Rightarrow> SspFile" where
  "ssp_file_from_remote f =
     \<lparr>xf_path = Some (rf_path f), xf_file_size = Some (rf_size f), xf_created_timestamp = rf_created_at f,
      xf_modified_timestamp = rf_modified_at f, xf_is_directory = Some (rf_is_directory f),
      xf_checksum = rf_checksum f, xf_ext_data = rf_ext_data f, xf_is_trash = rf_is_trash f,
      xf_id = rf_id f, xf_succeed = None, xf_error_code = None\<rparr>"

definition client_remote_file :: "SspFile \<Rightarrow> RemoteFile" where
  "client_remote_file f =
     \<lparr>rf_path = the_or [] (xf_path f), rf_size = the_or 0 (xf_file_size f),
      rf_created_at = xf_created_timestamp f, rf_modified_at = xf_modified_timestamp f,
      rf_is_directory = the_or False (xf_is_directory f), rf_checksum = xf_checksum f,
      rf_is_trash = xf_is_trash f, rf_id = xf_id f, rf_ext_data = xf_ext_data f\<rparr>"

definition image_file :: "SspImageFile \<Rightarrow> ImageFile" where
  "image_file f =
     \<lparr>im_path = xi_path f, im_size = xi_file_size f, im_created_at = xi_created_timestamp f,
      im_modified_at = xi_modified_timestamp f, im_width = xi_width f, im_height = xi_height f,
      im_orientation = xi_orientation f, im_media_id = xi_media_id f, im_album_id = xi_album_id f,
      im_mime_type = xi_mime_type f, im_thumbnail = xi_thumbnail f, im_album_name = xi_album_name f,
      im_date_taken = xi_date_taken f, im_latitude = xi_latitude f, im_longitude = xi_longitude f,
      im_mini_thumb_magic = xi_mini_thumb_magic f, im_title = xi_title f,
      im_thumbnail_error = the_or False (xi_get_thumbnail_error f), im_starred = the_or False (xi_starred f)\<rparr>"

definition image_album :: "SspImageAlbum \<Rightarrow> ImageAlbum" where
  "image_album a =
     \<lparr>ia_path = xj_album_path a, ia_album_id = xj_album_id a, ia_name = xj_album_name a,
      ia_cover_image = map_option image_file (xj_cover_image a)\<rparr>"

definition video_file :: "SspVideoFile \<Rightarrow> VideoFile" where
  "video_file f =
     \<lparr>vf_path = xv_path f, vf_size = xv_file_size f, vf_created_at = xv_created_timestamp f,
      vf_modified_at = xv_modified_timestamp f, vf_width = xv_width f, vf_height = xv_height f,
      vf_orientation = xv_orientation f, vf_media_id = xv_media_id f, vf_album_id = xv_album_id f,
      vf_mime_type = xv_mime_type f, vf_thumbnail = xv_thumbnail f,
      vf_thumbnail_error = the_or False (xv_get_thumbnail_error f), vf_duration = xv_duration f\<rparr>"

definition video_album :: "SspVideoAlbum \<Rightarrow> VideoAlbum" where
  "video_album a = \<lparr>va_path = xl_album_path a, va_album_id = xl_album_id a, va_name = xl_album_name a\<rparr>"

definition audio_file :: "(f64 \<Rightarrow> f64) \<Rightarrow> SspAudioFile \<Rightarrow> AudioFile" where
  "audio_file div_1000 f =
     \<lparr>af_path = xa_path f, af_size = xa_file_size f, af_created_at = xa_created_timestamp f,
      af_modified_at = xa_modified_timestamp f, af_media_id = xa_media_id f, af_album_id = xa_album_id f,
      af_title = xa_title f, af_mime_type = xa_mime_type f, af_artist_id = xa_artist_id f,
      af_artist = xa_artist f, af_composer = xa_composer f, af_genre = xa_genre f,
      af_comment = xa_comment f, af_copyright = xa_copyright f, af_audio_codec = xa_audio_codec f,
      af_track = xa_track f, af_duration = map_option div_1000 (xa_duration f)\<rparr>"

definition client_audio_album :: "SspAudioAlbum \<Rightarrow> AudioAlbum" where
  "client_audio_album a =
     \<lparr>aa_path = xb_album_path a, aa_album_id = xb_album_id a, aa_name = xb_album_name a,
      aa_artist_id = xb_artist_id a, aa_artist = xb_artist a, aa_year = xb_year a,
      aa_thumbnail = xb_thumbnail a, aa_thumbnail_error = the_or False (xb_get_thumbnail_error a)\<rparr>"

text \<open>\<open>..Default::default()\<close> of the three thumbnail requests: every field but two is absent.\<close>

definition thumbnail_image_request :: "ImageFile \<Rightarrow> SspImageFile" where
  "thumbnail_image_request img =
     \<lparr>xi_path = im_path img, xi_file_size = None, xi_created_timestamp = None, xi_modified_timestamp = None,
      xi_width = None, xi_height = None, xi_orientation = None, xi_media_id = im_media_id img,
      xi_album_id = None, xi_mime_type = None, xi_thumbnail = None, xi_album_name = None, xi_date_taken = None,
      xi_latitude = None, xi_longitude = None, xi_mini_thumb_magic = None, xi_title = None,
      xi_get_thumbnail_error = None, xi_starred = None\<rparr>"

definition thumbnail_video_request :: "VideoFile \<Rightarrow> SspVideoFile" where
  "thumbnail_video_request v =
     \<lparr>xv_path = vf_path v, xv_file_size = None, xv_created_timestamp = None, xv_modified_timestamp = None,
      xv_width = None, xv_height = None, xv_orientation = None, xv_media_id = vf_media_id v, xv_album_id = None,
      xv_mime_type = None, xv_thumbnail = None, xv_get_thumbnail_error = None, xv_duration = None\<rparr>"

definition thumbnail_audio_album_request :: "AudioAlbum \<Rightarrow> SspAudioAlbum" where
  "thumbnail_audio_album_request a =
     \<lparr>xb_album_path = aa_path a, xb_album_id = aa_album_id a, xb_album_name = None, xb_artist_id = None,
      xb_artist = None, xb_year = None, xb_thumbnail = None, xb_get_thumbnail_error = None\<rparr>"

section \<open>Errors the phone reports\<close>

definition file_io_error_name :: "int \<Rightarrow> string option" where
  "file_io_error_name v = map_of
     [(1, ''FILE_IO_UNKNOW_ERROR''), (2, ''FILE_IO_INVALID_NAME''), (3, ''FILE_IO_INVALID_SOURCE''),
      (4, ''FILE_IO_TARGET_ALREADY_EXIST''), (5, ''FILE_IO_PERMISSION_ERROR''),
      (6, ''FILE_IO_INSUFFICIENT_DISK_SPACE_ERROR''), (7, ''FILE_IO_MD5_CHECK_ERROR''),
      (8, ''FILE_IO_SYSTEM_FILE''), (9, ''FILE_IO_SDCARD_REMOVED''), (10, ''FILE_IO_SDCARD_NO_PERMISSION''),
      (11, ''FILE_IO_PATH_OR_NAME_TOO_LONG''), (12, ''FILE_IO_CANCEL_ACTION'')] v"

definition remote_error :: "int option \<Rightarrow> string \<Rightarrow> core_error" where
  "remote_error code fallback =
     RemoteIo code (the_or fallback (Option.bind code file_io_error_name))"

definition ensure_remote_success :: "bool option \<Rightarrow> int option \<Rightarrow> string option \<Rightarrow> unit core_result" where
  "ensure_remote_success succeed code message =
     (if succeed = Some True then Inr ()
      else Inl (remote_error code (the_or ''client.remote_failed'' message)))"

definition ensure_deleted_files_succeeded :: "SspFile list \<Rightarrow> unit core_result" where
  "ensure_deleted_files_succeeded files =
     (case find (\<lambda>f. xf_succeed f = Some False) files of
        Some failed \<Rightarrow> Inl (RemoteIo (xf_error_code failed) ''client.delete_failed'')
      | None \<Rightarrow> Inr ())"

definition status_ok :: "remote_status \<Rightarrow> unit core_result" where
  "status_ok st = ensure_remote_success (rt_succeed st) (rt_error_code st) (rt_error_message st)"

section \<open>Remote paths\<close>

definition rfind_char :: "char \<Rightarrow> string \<Rightarrow> nat option" where
  "rfind_char c s = (if c \<in> set s then Some (length s - 1 - length (takeWhile (\<lambda>x. x \<noteq> c) (rev s))) else None)"

definition split_remote_path :: "string \<Rightarrow> (string \<times> string) core_result" where
  "split_remote_path p =
     (case rfind_char (CHR ''/'') p of
        None \<Rightarrow> Inl (Usage ''client.remote_path_directory_required'')
      | Some index \<Rightarrow>
          let parent = (if index = 0 then ''/'' else take index p);
              name = drop (index + 1) p
          in if name = [] then Inl (Usage ''client.remote_path_name_required'') else Inr (parent, name))"

section \<open>Files\<close>

record PingResult =
  pg_round_trip_ms :: nat
  pg_host_timestamp :: "nat option"
  pg_client_timestamp :: "nat option"

definition ping :: "'p client \<Rightarrow> nat \<Rightarrow> nat \<Rightarrow> ('p, PingResult) op" where
  "ping c now elapsed =
     op_then (ask c (HeartBeatRequest now) (cc_heartbeat (cl_codec c)))
       (\<lambda>(host_ts, client_ts). op_return (Inr \<lparr>pg_round_trip_ms = elapsed, pg_host_timestamp = host_ts,
          pg_client_timestamp = client_ts\<rparr>))"

definition list_dir :: "'p client \<Rightarrow> string \<Rightarrow> u32 \<Rightarrow> ('p, RemoteFile list) op" where
  "list_dir c p depth =
     op_then (ask c (GetDirFilesRequest (ssp_file p True None) (max depth 1)) (cc_dir_files (cl_codec c)))
       (\<lambda>files. op_return (Inr (map client_remote_file files)))"

definition file_count :: "'p client \<Rightarrow> string \<Rightarrow> u32 \<Rightarrow> string list \<Rightarrow> ('p, nat) op" where
  "file_count c p depth exclusions =
     op_then (ask c (GetFileCountRequest (ssp_file p True None) (max depth 1) exclusions)
                (cc_file_count (cl_codec c)))
       (\<lambda>count. op_return (Inr (the_or 0 count)))"

definition file_exists :: "'p client \<Rightarrow> string \<Rightarrow> ('p, bool) op" where
  "file_exists c p =
     op_then (ask c (FileExistRequest (ssp_file p False None)) (cc_file_exist (cl_codec c)))
       (\<lambda>answer. op_return (Inr (the_or False answer)))"

definition root_entry :: "'p client \<Rightarrow> RemoteFile" where
  "root_entry c =
     \<lparr>rf_path = root_path c, rf_size = the_or 0 (di_disk_size (cl_device c)), rf_created_at = None,
      rf_modified_at = None, rf_is_directory = True, rf_checksum = None, rf_is_trash = None, rf_id = None,
      rf_ext_data = None\<rparr>"

definition client_stat :: "'p client \<Rightarrow> string \<Rightarrow> ('p, RemoteFile option) op" where
  "client_stat c p =
     (if p = root_path c then op_return (Inr (Some (root_entry c)))
      else op_then (op_return (split_remote_path p))
        (\<lambda>(parent, name). op_then (list_dir c parent 1)
          (\<lambda>files. op_return (Inr (find (\<lambda>f. rf_path f = p) files)))))"

definition create_dir :: "'p client \<Rightarrow> string \<Rightarrow> ('p, RemoteFile) op" where
  "create_dir c p =
     op_then (ask c (CreateFolderRequest (ssp_file p True None)) (cc_create_folder (cl_codec c)))
       (\<lambda>(status, file). op_then (op_return (status_ok status))
          (\<lambda>_. op_return (case file of
             None \<Rightarrow> Inl (Protocol ''client.mkdir_missing_file'')
           | Some f \<Rightarrow> Inr (client_remote_file f))))"

definition rename_remote :: "'p client \<Rightarrow> string \<Rightarrow> string \<Rightarrow> ('p, unit) op" where
  "rename_remote c src target =
     op_then (ask c (RenameFileRequest (ssp_file src False None) (ssp_file target False None))
                (cc_status (cl_codec c)))
       (\<lambda>status. op_return (status_ok status))"

definition update_files_info :: "'p client \<Rightarrow> RemoteFile list \<Rightarrow> bool \<Rightarrow> ('p, bool) op" where
  "update_files_info c files is_sync =
     op_then (ask c (UpdateFileRequest (map ssp_file_from_remote files) is_sync) (cc_flag (cl_codec c)))
       (\<lambda>flag. op_return (if flag \<noteq> Some True then Inl (Protocol ''client.update_file_info_failed'')
                          else Inr True))"

definition photo_sync :: "'p client \<Rightarrow> string \<Rightarrow> RemoteFile list \<Rightarrow> ('p, PhotoSyncResult) op" where
  "photo_sync c pc_id files =
     op_then (ask c (PhotoSyncRequest pc_id (map ssp_file_from_remote files)) (cc_photo_sync (cl_codec c)))
       (\<lambda>r. op_return (Inr \<lparr>pr_is_first = xs_is_first r, pr_files = map client_remote_file (xs_files r),
          pr_is_success = xs_is_success r\<rparr>))"

definition sync_monitor :: "'p client \<Rightarrow> bool \<Rightarrow> ('p, bool) op" where
  "sync_monitor c enabled =
     op_then (ask c (SyncMonitorRequest enabled) (cc_flag (cl_codec c)))
       (\<lambda>flag. op_return (Inr (the_or True flag)))"

definition delete_remote :: "'p client \<Rightarrow> string list \<Rightarrow> DeleteOptions \<Rightarrow> ('p, RemoteFile list) op" where
  "delete_remote c ps options =
     op_then (ask c (DeleteFileRequest (map (\<lambda>p. ssp_file p False None) ps) (do_sync options) (do_trash options))
                (cc_delete (cl_codec c)))
       (\<lambda>(status, files). op_then (op_return (status_ok status))
          (\<lambda>_. op_then (op_return (ensure_deleted_files_succeeded files))
             (\<lambda>_. op_return (Inr (map client_remote_file files)))))"

definition monitor_folder :: "'p client \<Rightarrow> string \<Rightarrow> bool \<Rightarrow> ('p, unit) op" where
  "monitor_folder c p on =
     op_then (ask c (MonitorFolderRequest (ssp_file p True None) on) (cc_monitor_header (cl_codec c)))
       (\<lambda>status. op_return (ensure_remote_success (rt_succeed status) None (rt_error_message status)))"

section \<open>Clipboard\<close>

definition decode_clipboard :: "client_codec \<Rightarrow> SspClipboard \<Rightarrow> ClipboardEntry core_result" where
  "decode_clipboard cd clipboard =
     (case cc_gunzip cd (the_or [] (xc_content clipboard)) of
        None \<Rightarrow> Inl (Protocol ''client.decompress_clipboard_failed'')
      | Some txt \<Rightarrow> Inr \<lparr>ce_text = txt, ce_timestamp_ms = the_or 0 (xc_mstimestamp clipboard)\<rparr>)"

text \<open>\<open>collect\<close> into a result stops at the first error.\<close>

fun collect_results :: "('e + 'a) list \<Rightarrow> 'e + 'a list" where
  "collect_results [] = Inr []"
| "collect_results (r # rs) = and_then r (\<lambda>x. and_then (collect_results rs) (\<lambda>xs. Inr (x # xs)))"

definition fetch_clipboards :: "'p client \<Rightarrow> ('p, SspClipboard list) op" where
  "fetch_clipboards c = ask c GetClipboardRequest (cc_clipboards (cl_codec c))"

definition clipboard_list :: "'p client \<Rightarrow> ('p, ClipboardEntry list) op" where
  "clipboard_list c =
     op_then (fetch_clipboards c)
       (\<lambda>entries. op_return (collect_results (map (decode_clipboard (cl_codec c)) entries)))"

definition clipboard_set :: "'p client \<Rightarrow> int \<Rightarrow> string \<Rightarrow> ('p, unit) op" where
  "clipboard_set c now txt =
     op_then (op_return (cc_gzip (cl_codec c) txt))
       (\<lambda>content. op_then (ask c (PostClipboardRequest \<lparr>xc_content = Some content, xc_mstimestamp = Some now\<rparr>)
                            (cc_flag (cl_codec c)))
          (\<lambda>succeed. op_return (ensure_remote_success succeed None None)))"

definition clipboard_delete :: "'p client \<Rightarrow> int \<Rightarrow> ('p, unit) op" where
  "clipboard_delete c timestamp_ms =
     op_then (fetch_clipboards c)
       (\<lambda>entries. case find (\<lambda>i. xc_mstimestamp i = Some timestamp_ms) entries of
          None \<Rightarrow> op_return (Inl (RemoteIo None ''client.clipboard_entry_missing''))
        | Some clipboard \<Rightarrow>
            op_then (ask c (DeleteClipboardRequest clipboard) (cc_flag (cl_codec c)))
              (\<lambda>succeed. op_return (ensure_remote_success succeed None None)))"

definition clipboard_clear :: "'p client \<Rightarrow> ('p, unit) op" where
  "clipboard_clear c =
     op_then (ask c ClearClipboardRequest (cc_flag (cl_codec c)))
       (\<lambda>succeed. op_return (ensure_remote_success succeed None None))"

section \<open>Media libraries\<close>

definition MEDIA_RESPONSE_LIMIT :: nat where
  "MEDIA_RESPONSE_LIMIT = 64 * 1024 * 1024"

definition decode_media_response :: "(bytes \<Rightarrow> 'a option) \<Rightarrow> bytes \<Rightarrow> 'a core_result" where
  "decode_media_response dec body =
     (if length body > MEDIA_RESPONSE_LIMIT then Inl (Protocol ''media.response_too_large'')
      else decoded (dec body))"

definition ask_media :: "'p client \<Rightarrow> ssp_request \<Rightarrow> (bytes \<Rightarrow> 'a option) \<Rightarrow> ('p, 'a) op" where
  "ask_media c m dec = op_then (session_request c m) (\<lambda>body. op_return (decode_media_response dec body))"

definition get_photo_library :: "'p client \<Rightarrow> ('p, PhotoLibrary) op" where
  "get_photo_library c =
     op_then (ask_media c GetPhotoLibraryRequest (cc_photo_library (cl_codec c)))
       (\<lambda>(images, albums, camera). op_return (Inr \<lparr>pl_images = map image_file images,
          pl_albums = map image_album albums, pl_camera_album_id = camera\<rparr>))"

definition get_video_library :: "'p client \<Rightarrow> ('p, VideoLibrary) op" where
  "get_video_library c =
     op_then (ask_media c GetVideoLibraryRequest (cc_video_library (cl_codec c)))
       (\<lambda>(videos, albums). op_return (Inr \<lparr>vl_videos = map video_file videos, vl_albums = map video_album albums\<rparr>))"

definition get_audio_library :: "'p client \<Rightarrow> ('p, AudioLibrary) op" where
  "get_audio_library c =
     op_then (ask_media c GetAudioLibraryRequest (cc_audio_library (cl_codec c)))
       (\<lambda>(tracks, albums). op_return (Inr \<lparr>al_tracks = map (audio_file (cc_div_1000 (cl_codec c))) tracks,
          al_albums = map client_audio_album albums\<rparr>))"

record Thumbnails =
  tn_images :: "ImageFile list"
  tn_videos :: "VideoFile list"
  tn_audio_albums :: "AudioAlbum list"

definition get_thumbnails ::
  "'p client \<Rightarrow> ImageFile list \<Rightarrow> VideoFile list \<Rightarrow> AudioAlbum list \<Rightarrow> ('p, Thumbnails) op" where
  "get_thumbnails c images videos audio_albums =
     op_then (ask_media c (GetThumbnailRequest (map thumbnail_image_request images)
                (map thumbnail_video_request videos) (map thumbnail_audio_album_request audio_albums))
                (cc_thumbnails (cl_codec c)))
       (\<lambda>(is, vs, as). op_return (Inr \<lparr>tn_images = map image_file is, tn_videos = map video_file vs,
          tn_audio_albums = map client_audio_album as\<rparr>))"

section \<open>The device\<close>

definition fetch_device_info :: "'p client \<Rightarrow> nat \<Rightarrow> EventCallbacks \<Rightarrow> ('p, DeviceInfo) op" where
  "fetch_device_info c now callbacks =
     op_then (ask c (GetDeviceInfoRequest now callbacks) (cc_device_info (cl_codec c)))
       (\<lambda>r. op_return (Inr \<lparr>di_serial = di_serial (cl_device c), di_phone_id = xd_phone_id r,
          di_name = xd_phone_name r, di_model = xd_phone_model r, di_brand = xd_product_brand r,
          di_manufacturer = xd_product_manufacturer r, di_smartisan_version = xd_smartisan_version r,
          di_apk_version = xd_apk_version r, di_apk_version_name = xd_apk_version_name r,
          di_root_path = the_or ''/sdcard'' (xd_root_path r),
          di_external_storage_path = xd_external_storage_path r, di_disk_size = xd_disk_size r,
          di_used_disk_size = xd_used_disk_size r, di_battery_percentage = xd_battery_percentage r,
          di_phone_locked = xd_phone_locked r\<rparr>))"

text \<open>\<open>close\<close>: both results are computed, the session's error wins.\<close>

definition close_client :: "unit core_result option \<Rightarrow> unit core_result option \<Rightarrow> unit core_result" where
  "close_client session_close cleanup =
     (let session_result = the_or (Inr ()) session_close; cleanup_result = the_or (Inr ()) cleanup
      in and_then session_result (\<lambda>_. cleanup_result))"

end
