(* ===== verification/ClientTransfer.thy ===== *)
theory ClientTransfer
  imports Client Download SyncJournal
begin

text \<open>
  Transfers of single files, \<open>download_with_options\<close>, \<open>upload_with_options\<close> and
  \<open>download_bytes\<close> of \<open>handshaker-core/src/client.rs\<close>, on top of the session: a transfer opens a
  request, reads the header, moves the bytes and finishes the request on the shared session state.
  The local disk maps paths to files and directories. What the phone sends, the outcomes of local
  file operations, MD5 and the random part of the temporary name are arguments.
\<close>

section \<open>The environment of a transfer\<close>

type_synonym disk = "path \<rightharpoonup> node"

record transfer_env =
  te_codec :: codec
  te_client :: client_codec
  te_sign :: "bytes \<Rightarrow> bytes core_result"
  te_encode :: "ssp_request \<Rightarrow> bytes"
  te_md5 :: "bytes \<Rightarrow> string"
  te_uuid :: string
  te_cancelled :: bool
  te_open_io :: send_io
  te_drop_io :: send_io
  te_header :: "(core_error + Incoming) list"
  te_data :: "((core_error + Incoming) \<times> bool) list"
  te_flush_ok :: bool
  te_create_ok :: bool
  te_sync_ok :: bool
  te_rename_ok :: bool
  te_remove_ok :: bool

text \<open>Opening the request and reading its header: an error (\<open>None\<close>: the header has not arrived yet)
  with the session, or the header with the request. Every early return drops the request.\<close>

definition open_header ::
  "transfer_env \<Rightarrow> ssp_request \<Rightarrow> (bytes \<Rightarrow> 'h option) \<Rightarrow> SessionInner
   \<Rightarrow> (core_error option \<times> SessionInner) + ('h \<times> OpenRequest \<times> SessionInner)" where
  "open_header env m dec s =
     (case open_signed (te_sign env) (te_cancelled env) (te_open_io env) (te_encode env m) s of
        (Inl e, s1) \<Rightarrow> Inl (Some e, s1)
      | (Inr rq, s1) \<Rightarrow>
          (case receive_normal (te_codec env) (te_header env) rq s1 of
             (None, _, s2) \<Rightarrow> Inl (None, s2)
           | (Some (Inl e), rq1, s2) \<Rightarrow> Inl (Some e, drop_request (te_drop_io env) rq1 s2)
           | (Some (Inr body), rq1, s2) \<Rightarrow>
               (case decoded (dec body) of
                  Inl e \<Rightarrow> Inl (Some e, drop_request (te_drop_io env) rq1 s2)
                | Inr h \<Rightarrow> Inr (h, rq1, s2))))"

section \<open>Downloads\<close>

definition temporary_download_path :: "path \<Rightarrow> string \<Rightarrow> path core_result" where
  "temporary_download_path local uuid =
     (if local = [] then Inl (LocalIo ''client.local_path_name_required'')
      else case last local of
             Normal name \<Rightarrow> Inr (butlast local @ [Normal (''.'' @ name @ ''.handshaker-part-'' @ uuid)])
           | _ \<Rightarrow> Inl (LocalIo ''client.local_path_name_required''))"

definition ascii_lower :: "char \<Rightarrow> char" where
  "ascii_lower c = (let n = of_char c :: nat in if 65 \<le> n \<and> n \<le> 90 then char_of (n + 32) else c)"

definition eq_ignore_ascii_case :: "string \<Rightarrow> string \<Rightarrow> bool" where
  "eq_ignore_ascii_case a b \<longleftrightarrow> map ascii_lower a = map ascii_lower b"

text \<open>The digest of the header, if it is usable, does not agree with the actual one.\<close>

definition md5_mismatch :: "SspDownloadFileResponseHeader \<Rightarrow> string \<Rightarrow> bool" where
  "md5_mismatch header actual =
     (case dh_data_md5 header of
        None \<Rightarrow> False
      | Some expected \<Rightarrow> expected \<noteq> [] \<and> \<not> eq_ignore_ascii_case expected actual)"

text \<open>\<open>Drop for TemporaryDownload\<close>, uncommitted.\<close>

definition drop_temporary :: "transfer_env \<Rightarrow> path \<Rightarrow> disk \<Rightarrow> disk" where
  "drop_temporary env tmp disk = (if te_remove_ok env then disk(tmp := None) else disk)"

record download_outcome =
  do_result :: "nat core_result option"
  do_disk :: disk
  do_session :: SessionInner
  do_progress :: "nat list"

definition download_failed :: "core_error \<Rightarrow> disk \<Rightarrow> SessionInner \<Rightarrow> nat list \<Rightarrow> download_outcome" where
  "download_failed e disk s progress =
     \<lparr>do_result = Some (Inl e), do_disk = disk, do_session = s, do_progress = progress\<rparr>"

text \<open>After the data: the file is flushed to disk, its digest compared, and it is moved in place.\<close>

definition commit_download ::
  "transfer_env \<Rightarrow> SspDownloadFileResponseHeader \<Rightarrow> nat \<Rightarrow> path \<Rightarrow> path \<Rightarrow> string core_result
   \<Rightarrow> bytes \<Rightarrow> disk \<Rightarrow> nat core_result \<times> disk" where
  "commit_download env header tot tmp local receive written disk =
     (let disk1 = disk(tmp \<mapsto> FileNode written); failed = (\<lambda>e. (Inl e, drop_temporary env tmp disk1)) in
      case receive of
        Inl e \<Rightarrow> failed e
      | Inr actual_md5 \<Rightarrow>
          if \<not> te_sync_ok env then failed (LocalIo ''client.sync_failed'')
          else if md5_mismatch header actual_md5 then failed (Protocol ''client.download_md5_mismatch'')
          else if \<not> te_rename_ok env then failed (LocalIo ''client.move_failed'')
          else (Inr tot, disk1(tmp := None, local \<mapsto> FileNode written)))"

text \<open>The part of \<open>download_with_options\<close> after a header that is ready.\<close>

definition download_body ::
  "transfer_env \<Rightarrow> path \<Rightarrow> SspDownloadFileResponseHeader \<Rightarrow> OpenRequest \<Rightarrow> disk \<Rightarrow> SessionInner
   \<Rightarrow> download_outcome" where
  "download_body env local header rq disk s =
     (case dh_length header of
        None \<Rightarrow> download_failed (Protocol ''client.download_missing_length'') disk
                  (drop_request (te_drop_io env) rq s) []
      | Some tot \<Rightarrow>
          (case temporary_download_path local (te_uuid env) of
             Inl e \<Rightarrow> download_failed e disk (drop_request (te_drop_io env) rq s) [0]
           | Inr tmp \<Rightarrow>
               if \<not> te_create_ok env
               then download_failed (LocalIo ''client.create_failed'') (drop_temporary env tmp disk)
                      (drop_request (te_drop_io env) rq s) [0]
               else (case receive_raw_to (te_md5 env) (te_flush_ok env) tot (te_data env) rq s of
                       (None, st, rq1, s1) \<Rightarrow>
                         \<lparr>do_result = None, do_disk = disk(tmp \<mapsto> FileNode (rs_written st)), do_session = s1,
                          do_progress = 0 # rs_progress st\<rparr>
                     | (Some receive, st, rq1, s1) \<Rightarrow>
                         (case commit_download env header tot tmp local receive (rs_written st) disk of
                            (result, disk1) \<Rightarrow>
                              \<lparr>do_result = Some result, do_disk = disk1, do_session = finish rq1 s1,
                               do_progress = 0 # rs_progress st\<rparr>))))"

definition download_with_options ::
  "transfer_env \<Rightarrow> bool \<Rightarrow> nat \<Rightarrow> string \<Rightarrow> path \<Rightarrow> disk \<Rightarrow> SessionInner \<Rightarrow> download_outcome" where
  "download_with_options env overwrite offset rpath local disk s =
     (if disk local \<noteq> None \<and> \<not> overwrite
      then download_failed (LocalIo ''client.local_target_exists'') disk s []
      else case open_header env (DownloadFileRequest (ssp_file rpath False None) offset True)
                  (cc_download_header (te_client env)) s of
             Inl (None, s1) \<Rightarrow> \<lparr>do_result = None, do_disk = disk, do_session = s1, do_progress = []\<rparr>
           | Inl (Some e, s1) \<Rightarrow> download_failed e disk s1 []
           | Inr (header, rq, s1) \<Rightarrow>
               if dh_ready header \<noteq> Some True
               then download_failed (remote_error (dh_error_code header) ''client.download_not_ready'')
                      disk (finish rq s1) []
               else download_body env local header rq disk s1)"

text \<open>\<open>download_bytes\<close>: the same download into a bounded buffer.\<close>

definition download_bytes ::
  "transfer_env \<Rightarrow> string \<Rightarrow> nat \<Rightarrow> SessionInner \<Rightarrow> (bytes core_result \<times> SessionInner) option" where
  "download_bytes env rpath limit s =
     (case open_header env (DownloadFileRequest (ssp_file rpath False None) 0 False)
             (cc_download_header (te_client env)) s of
        Inl (None, s1) \<Rightarrow> None
      | Inl (Some e, s1) \<Rightarrow> Some (Inl e, s1)
      | Inr (header, rq, s1) \<Rightarrow>
          if dh_ready header \<noteq> Some True
          then Some (Inl (remote_error (dh_error_code header) ''client.download_not_ready''), finish rq s1)
          else case dh_length header of
                 None \<Rightarrow> Some (Inl (Protocol ''client.download_missing_length''),
                               drop_request (te_drop_io env) rq s1)
               | Some tot \<Rightarrow>
                   if tot > limit then Some (Inl (Protocol ''exif.file_too_large''), finish rq s1)
                   else case receive_raw_to (te_md5 env) (te_flush_ok env) tot (te_data env) rq s1 of
                          (None, st, rq1, s2) \<Rightarrow> None
                        | (Some receive, st, rq1, s2) \<Rightarrow>
                            Some (and_then receive (\<lambda>_. Inr (rs_written st)), finish rq1 s2))"

section \<open>Uploads\<close>

text \<open>Reading a file to its end: the chunks the reads return (\<open>None\<close> fails), an empty chunk or the
  end of the list being the end of the file.\<close>

fun file_md5_loop :: "bytes option list \<Rightarrow> bytes core_result" where
  "file_md5_loop [] = Inr []"
| "file_md5_loop (None # rest) = Inl (LocalIo ''client.read_failed'')"
| "file_md5_loop (Some chunk # rest) =
     (if chunk = [] then Inr [] else and_then (file_md5_loop rest) (\<lambda>bs. Inr (chunk @ bs)))"

definition file_md5 :: "(bytes \<Rightarrow> string) \<Rightarrow> bool \<Rightarrow> bytes option list \<Rightarrow> (string \<times> nat) core_result" where
  "file_md5 md5 open_ok reads =
     (if \<not> open_ok then Inl (LocalIo ''client.open_failed'')
      else and_then (file_md5_loop reads) (\<lambda>bs. Inr (md5 bs, length bs)))"

text \<open>The sending loop; each read comes with whether the caller has cancelled by then and how the
  send goes. The result carries the chunks sent.\<close>

fun upload_loop ::
  "(bytes option \<times> bool \<times> send_io) list \<Rightarrow> OpenRequest \<Rightarrow> SessionInner
   \<Rightarrow> unit core_result \<times> bytes list \<times> OpenRequest \<times> SessionInner" where
  "upload_loop [] rq s = (Inr (), [], rq, s)"
| "upload_loop ((None, _, _) # rest) rq s = (Inl (LocalIo ''client.read_failed''), [], rq, s)"
| "upload_loop ((Some chunk, cancelled, io) # rest) rq s =
     (if chunk = [] then (Inr (), [], rq, s)
      else case request_send io cancelled 3 chunk rq s of
             (Inl e, rq1, s1) \<Rightarrow> (Inl e, [], rq1, s1)
           | (Inr _, rq1, s1) \<Rightarrow>
               (case upload_loop rest rq1 s1 of (r, sent, rq2, s2) \<Rightarrow> (r, chunk # sent, rq2, s2)))"

record upload_env =
  ue_metadata :: "node option"
  ue_remote_exists :: "bool core_result"
  ue_md5_open_ok :: bool
  ue_md5_reads :: "bytes option list"
  ue_open_ok :: bool
  ue_reads :: "(bytes option \<times> bool \<times> send_io) list"
  ue_response :: "(core_error + Incoming) list"

definition upload_response :: "SspUploadFileResponse \<Rightarrow> nat \<Rightarrow> nat core_result" where
  "upload_response complete sz =
     and_then (ensure_remote_success (ur_succeed complete) (ur_error_code complete) None)
       (\<lambda>_. if ur_canceled complete = Some True
            then Inl (RemoteIo (ur_error_code complete) ''client.upload_canceled'') else Inr sz)"

text \<open>After a header that is ready: send the file, read the final answer.\<close>

definition upload_body ::
  "transfer_env \<Rightarrow> upload_env \<Rightarrow> nat \<Rightarrow> OpenRequest \<Rightarrow> SessionInner
   \<Rightarrow> (nat core_result \<times> bytes list \<times> SessionInner) option" where
  "upload_body env ue sz rq s =
     (if \<not> ue_open_ok ue
      then Some (Inl (LocalIo ''client.open_failed''), [], drop_request (te_drop_io env) rq s)
      else case upload_loop (ue_reads ue) rq s of
        (Inl e, sent, rq1, s1) \<Rightarrow> Some (Inl e, sent, drop_request (te_drop_io env) rq1 s1)
      | (Inr _, sent, rq1, s1) \<Rightarrow>
          (case receive_normal (te_codec env) (ue_response ue) rq1 s1 of
             (None, _, _) \<Rightarrow> None
           | (Some (Inl e), rq2, s2) \<Rightarrow> Some (Inl e, sent, drop_request (te_drop_io env) rq2 s2)
           | (Some (Inr body), rq2, s2) \<Rightarrow>
               (case decoded (cc_upload_response (te_client env) body) of
                  Inl e \<Rightarrow> Some (Inl e, sent, drop_request (te_drop_io env) rq2 s2)
                | Inr complete \<Rightarrow> Some (upload_response complete sz, sent, finish rq2 s2))))"

text \<open>\<open>upload_with_options\<close>; \<open>ue_remote_exists\<close> is the answer of \<open>file_exists_with_options\<close>, the
  code \<open>4\<close> that of \<open>FileIoTargetAlreadyExist\<close>.\<close>

definition upload_with_options ::
  "transfer_env \<Rightarrow> upload_env \<Rightarrow> bool \<Rightarrow> string \<Rightarrow> SessionInner
   \<Rightarrow> (nat core_result \<times> bytes list \<times> SessionInner) option" where
  "upload_with_options env ue overwrite rpath s =
     (case ue_metadata ue of
        None \<Rightarrow> Some (Inl (LocalIo ''client.read_failed''), [], s)
      | Some DirNode \<Rightarrow> Some (Inl (LocalIo ''client.not_regular_file''), [], s)
      | Some (FileNode _) \<Rightarrow>
          (case (if overwrite then Inr False else ue_remote_exists ue) of
             Inl e \<Rightarrow> Some (Inl e, [], s)
           | Inr True \<Rightarrow> Some (Inl (RemoteIo (Some 4) ''client.remote_target_exists''), [], s)
           | Inr False \<Rightarrow>
               (case file_md5 (te_md5 env) (ue_md5_open_ok ue) (ue_md5_reads ue) of
                  Inl e \<Rightarrow> Some (Inl e, [], s)
                | Inr (data_md5, sz) \<Rightarrow>
                    (case open_header env (UploadFileRequest (ssp_file rpath False (Some sz)) data_md5)
                            (cc_upload_header (te_client env)) s of
                       Inl (None, s1) \<Rightarrow> None
                     | Inl (Some e, s1) \<Rightarrow> Some (Inl e, [], s1)
                     | Inr (header, rq, s1) \<Rightarrow>
                         if uh_ready header \<noteq> Some True
                         then Some (Inl (remote_error (uh_error_code header) ''client.upload_rejected''), [],
                                    finish rq s1)
                         else upload_body env ue sz rq s1))))"

section \<open>What a transfer writes\<close>

definition frame_of :: "u32 \<Rightarrow> u8 \<Rightarrow> bytes \<Rightarrow> bytes" where
  "frame_of sid flag payload =
     u32_to_be_bytes sid @ [flag] @ u32_to_be_bytes (word_of_nat (length payload)) @ payload"

lemma send_wire:
  "send io sid flag payload s = (Inr u, s') \<Longrightarrow> si_wire s' = si_wire s @ frame_of sid flag payload"
  by (auto simp: send_def writer_step_def write_upstream_def encode_upstream_def frame_of_def Let_def
      split: send_io.splits if_splits sum.splits prod.splits write_io.splits)

lemma allocate_within_wire: "si_wire (snd (allocate_within n s)) = si_wire s"
  by (induction n s rule: allocate_within.induct) (auto simp: next_sid_def Let_def)

lemma allocate_sid_wire: "allocate_sid s = (r, s') \<Longrightarrow> si_wire s' = si_wire s"
  using allocate_within_wire[of 1024 s] by (simp add: allocate_sid_def)

lemma open_signed_wire:
  assumes "open_signed sign cancelled io payload s = (Inr rq, s')"
  obtains signature where "sign payload = Inr signature"
    "si_wire s' = si_wire s @ frame_of (rq_sid rq) 1 (signature @ payload)"
  using assms
  by (auto simp: open_signed_def register_pending_def Let_def split: if_splits sum.splits prod.splits
      dest!: send_wire allocate_sid_wire)

lemma receive_normal_Inr: "receive_normal cd items rq s = (Some (Inr body), rq', s') \<Longrightarrow> rq' = rq \<and> s' = s"
  by (auto simp: receive_normal_def settle_def split: if_splits option.splits sum.splits prod.splits)

lemma finish_wire [simp]: "si_wire (finish rq s) = si_wire s"
  by (simp add: finish_def drop_receiver_def remove_pending_def)

lemma open_header_wire:
  assumes "open_header env m dec s = Inr (h, rq, s')"
  obtains signature body where "te_sign env (te_encode env m) = Inr signature" "dec body = Some h"
    "si_wire s' = si_wire s @ frame_of (rq_sid rq) 1 (signature @ te_encode env m)"
  using assms
  by (auto simp: open_header_def decoded_def split: sum.splits prod.splits option.splits
      dest!: receive_normal_Inr elim!: open_signed_wire)

lemma upload_loop_wire:
  "upload_loop reads rq s = (Inr u, sent, rq', s') \<Longrightarrow>
     rq' = rq \<and> si_wire s' = si_wire s @ concat (map (frame_of (rq_sid rq) 3) sent) \<and>
     file_md5_loop (map fst reads) = Inr (concat sent)"
proof (induction reads rq s arbitrary: sent rq' s' rule: upload_loop.induct)
  case (3 chunk cancelled io rest rq s)
  show ?case
  proof (cases "chunk = []")
    case True
    then show ?thesis using 3(2) by simp
  next
    case False
    then obtain rq1 s1 sent1 where sent: "request_send io cancelled 3 chunk rq s = (Inr (), rq1, s1)"
      and rest: "upload_loop rest rq1 s1 = (Inr (), sent1, rq', s')" "sent = chunk # sent1"
      using 3(2) by (auto split: sum.splits prod.splits)
    have "rq1 = rq" "si_wire s1 = si_wire s @ frame_of (rq_sid rq) 3 chunk"
      using sent by (auto simp: request_send_def split: if_splits prod.splits dest: send_wire)
    then show ?thesis using 3(1)[OF False sent[symmetric] refl refl] rest False by simp
  qed
qed auto

section \<open>Properties\<close>

lemma upload_body_Inr:
  assumes "upload_body env ue sz rq s = Some (Inr n, sent, s')"
  shows "n = sz \<and> si_wire s' = si_wire s @ concat (map (frame_of (rq_sid rq) 3) sent) \<and>
     file_md5_loop (map fst (ue_reads ue)) = Inr (concat sent) \<and>
     (\<exists>body complete. cc_upload_response (te_client env) body = Some complete \<and>
        ur_succeed complete = Some True \<and> ur_canceled complete \<noteq> Some True)"
  using assms
  by (auto simp: upload_body_def decoded_def upload_response_def ensure_remote_success_def and_then_eq_Inr
      split: if_splits sum.splits prod.splits option.splits dest!: upload_loop_wire receive_normal_Inr)


lemma temporary_neq: "temporary_download_path local u = Inr tmp \<Longrightarrow> tmp \<noteq> local"
proof
  assume t: "temporary_download_path local u = Inr tmp" and eq: "tmp = local"
  let ?name = "\<lambda>n. ''.'' @ n @ ''.handshaker-part-'' @ u"
  obtain n where n: "last local = Normal n" and tmp: "tmp = butlast local @ [Normal (?name n)]"
    using t unfolding temporary_download_path_def by (auto split: if_splits component.splits)
  from tmp have "last tmp = Normal (?name n)" by (simp only: last_snoc)
  with n eq have "length n = length (?name n)" by simp
  then show False by simp
qed

lemma commit_download_cases:
  assumes "commit_download env header tot tmp local receive written disk = (result, disk')"
    and "disk tmp = None" "te_remove_ok env" "tmp \<noteq> local"
  shows "(\<exists>e. result = Inl e \<and> disk' = disk) \<or>
    (result = Inr tot \<and> disk' = disk(local \<mapsto> FileNode written) \<and>
     (\<exists>md5. receive = Inr md5 \<and> \<not> md5_mismatch header md5))"
  using assms
  by (auto simp: commit_download_def drop_temporary_def Let_def fun_upd_twist fun_upd_idem
      split: sum.splits if_splits)

definition decodes_u64 :: "client_codec \<Rightarrow> bool" where
  "decodes_u64 cd \<longleftrightarrow>
     (\<forall>body h n. cc_download_header cd body = Some h \<longrightarrow> dh_length h = Some n \<longrightarrow> n < usize_bound)"

text \<open>The file behind the announced length: what the consumed data chunks make up.\<close>

definition announced ::
  "transfer_env \<Rightarrow> SspDownloadFileResponseHeader \<Rightarrow> nat \<Rightarrow> bytes \<Rightarrow> bool" where
  "announced env header n content \<longleftrightarrow>
     dh_ready header = Some True \<and> dh_length header = Some n \<and> length content = n \<and>
     \<not> md5_mismatch header (te_md5 env content) \<and>
     (\<exists>used rest. te_data env = data_items used @ rest \<and> content = concat (map fst used))"

lemma download_body_atomic:
  assumes "\<And>n. dh_length header = Some n \<Longrightarrow> n < usize_bound" "dh_ready header = Some True"
    and "\<And>tmp. temporary_download_path local (te_uuid env) = Inr tmp \<Longrightarrow> disk tmp = None" "te_remove_ok env"
    and "d = download_body env local header rq disk s"
  shows "(\<exists>e. do_result d = Some (Inl e) \<and> do_disk d = disk) \<or>
    (\<exists>n content. do_result d = Some (Inr n) \<and> do_disk d = disk(local \<mapsto> FileNode content) \<and>
       announced env header n content) \<or>
    (\<exists>tmp part. do_result d = None \<and> temporary_download_path local (te_uuid env) = Inr tmp \<and>
       do_disk d = disk(tmp \<mapsto> FileNode part))"
proof (cases "dh_length header")
  case None
  then show ?thesis using assms(5) by (simp add: download_body_def download_failed_def)
next
  case (Some tot)
  show ?thesis
  proof (cases "temporary_download_path local (te_uuid env)")
    case (Inl e)
    then show ?thesis using assms(5) Some by (simp add: download_body_def download_failed_def)
  next
    case (Inr tmp)
    note fresh = assms(3)[OF Inr] and neq = temporary_neq[OF Inr]
    show ?thesis
    proof (cases "te_create_ok env")
      case False
      then show ?thesis using assms(4,5) Some Inr fresh
        by (simp add: download_body_def download_failed_def drop_temporary_def fun_upd_idem)
    next
      case True
      obtain r st rq1 s1 where raw: "receive_raw_to (te_md5 env) (te_flush_ok env) tot (te_data env) rq s = (r, st, rq1, s1)"
        by (metis prod_cases4)
      show ?thesis
      proof (cases r)
        case None
        then show ?thesis using assms(5) Some Inr True raw by (auto simp: download_body_def)
      next
        case (Some receive)
        obtain result disk1 where commit: "commit_download env header tot tmp local receive (rs_written st) disk = (result, disk1)"
          by fastforce
        have d: "do_result d = Some result" "do_disk d = disk1"
          using assms(5) \<open>dh_length header = Some tot\<close> Inr True raw Some commit by (simp_all add: download_body_def)
        from commit_download_cases[OF commit fresh assms(4) neq] show ?thesis
        proof (elim disjE exE conjE)
          fix md5 assume ok: "result = Inr tot" "disk1 = disk(local \<mapsto> FileNode (rs_written st))" "receive = Inr md5"
            "\<not> md5_mismatch header md5"
          have "tot < usize_bound" by (rule assms(1)) fact
          from receive_raw_exact[OF this raw[unfolded Some ok(3)]] ok d assms(2) \<open>dh_length header = Some tot\<close>
          show ?thesis by (auto simp: announced_def)
        qed (use d in auto)
      qed
    qed
  qed
qed

text \<open>C25 A download is atomic for its target. Whatever fails, the disk is left as it was. A download
  that returns a size has put exactly the announced file in place, with the length and the digest
  of the header, and touched nothing else; it replaces an existing file only when that is allowed.
  While it runs, only its temporary file differs.\<close>

theorem download_atomic:
  assumes "decodes_u64 (te_client env)" "te_remove_ok env"
    and fresh: "temporary_download_path local (te_uuid env) = Inr tmp" "disk tmp = None"
    and d: "d = download_with_options env overwrite offset rpath local disk s"
  shows "case do_result d of
      None \<Rightarrow> \<forall>q. q \<noteq> tmp \<longrightarrow> do_disk d q = disk q
    | Some (Inl e) \<Rightarrow> do_disk d = disk
    | Some (Inr n) \<Rightarrow> (\<exists>header content. do_disk d = disk(local \<mapsto> FileNode content) \<and>
        announced env header n content \<and> (disk local = None \<or> overwrite))"
proof (cases "disk local \<noteq> None \<and> \<not> overwrite")
  case True
  then show ?thesis using d by (simp add: download_with_options_def download_failed_def)
next
  case free: False
  let ?open = "open_header env (DownloadFileRequest (ssp_file rpath False None) offset True)
      (cc_download_header (te_client env)) s"
  show ?thesis
  proof (cases ?open)
    case (Inl a)
    obtain e s1 where "a = (e, s1)" by (cases a)
    then show ?thesis using d free Inl
      by (cases e) (simp_all add: download_with_options_def download_failed_def)
  next
    case (Inr b)
    obtain header rq s1 where b: "b = (header, rq, s1)" by (cases b)
    obtain body where dec: "cc_download_header (te_client env) body = Some header"
      using open_header_wire[OF Inr[unfolded b]] by metis
    show ?thesis
    proof (cases "dh_ready header = Some True")
      case False
      then show ?thesis using d free Inr b by (simp add: download_with_options_def download_failed_def)
    next
      case True
      have body: "d = download_body env local header rq disk s1"
        using d free Inr b True by (auto simp: download_with_options_def)
      have u64: "n < usize_bound" if "dh_length header = Some n" for n
        using assms(1) dec that by (auto simp: decodes_u64_def)
      have "disk t = None" if "temporary_download_path local (te_uuid env) = Inr t" for t
        using fresh that by simp
      from download_body_atomic[OF u64 True this assms(2) body] fresh(1) free show ?thesis by auto blast+
    qed
  qed
qed

section \<open>Examples\<close>

definition sample_client_codec :: client_codec where
  "sample_client_codec =
     \<lparr>cc_heartbeat = (\<lambda>_. None), cc_dir_files = (\<lambda>_. None), cc_file_count = (\<lambda>_. None),
      cc_file_exist = (\<lambda>_. None), cc_create_folder = (\<lambda>_. None), cc_status = (\<lambda>_. None),
      cc_monitor_header = (\<lambda>_. None), cc_flag = (\<lambda>_. None), cc_photo_sync = (\<lambda>_. None),
      cc_delete = (\<lambda>_. None), cc_clipboards = (\<lambda>_. None), cc_photo_library = (\<lambda>_. None),
      cc_video_library = (\<lambda>_. None), cc_audio_library = (\<lambda>_. None), cc_thumbnails = (\<lambda>_. None),
      cc_device_info = (\<lambda>_. None),
      cc_download_header = (\<lambda>body. Some \<lparr>dh_ready = Some True, dh_length = Some 3,
        dh_data_md5 = Some ''AB'', dh_error_code = None\<rparr>),
      cc_upload_header = (\<lambda>_. Some \<lparr>uh_ready = Some True, uh_error_code = None\<rparr>),
      cc_upload_response = (\<lambda>_. Some \<lparr>ur_canceled = None, ur_succeed = Some True, ur_error_code = None\<rparr>),
      cc_gunzip = (\<lambda>_. None), cc_gzip = (\<lambda>_. Inr []), cc_div_1000 = id\<rparr>"

definition sample_env :: transfer_env where
  "sample_env =
     \<lparr>te_codec = clipboard_only, te_client = sample_client_codec, te_sign = Inr, te_encode = (\<lambda>_. []),
      te_md5 = (\<lambda>_. ''ab''), te_uuid = ''u'', te_cancelled = False, te_open_io = Written WriteOk,
      te_drop_io = SendTimedOut, te_header = [Inr (IncomingData (to_be 8 2 @ [7, 7]))],
      te_data = [(Inr (IncomingData [1, 2]), True), (Inr (IncomingData [3]), True)],
      te_flush_ok = True, te_create_ok = True, te_sync_ok = True, te_rename_ok = True, te_remove_ok = True\<rparr>"

lemma allocate_sid_free:
  "si_pending s (si_next_sid s + 1) = None \<Longrightarrow>
   allocate_sid s = (Inr (si_next_sid s + 1), s\<lparr>si_next_sid := si_next_sid s + 1\<rparr>)"
  using allocate_within.simps(2)[of 1023 s] by (simp add: allocate_sid_def next_sid_def Let_def)

lemma sample_open:
  "\<exists>s1. open_signed Inr False (Written WriteOk) [] (session_start ''s'') =
     (Inr \<lparr>rq_sid = 0x80001001, rq_channel = 0, rq_phase = PHASE_NORMAL, rq_completed = False\<rparr>, s1) \<and> si_writer_running s1"
  by (simp add: open_signed_def session_start_def allocate_sid_free
      register_pending_def send_def writer_step_def write_upstream_def encode_upstream_def
      MAX_UPSTREAM_PAYLOAD_def Let_def)

lemma sample_response:
  "rq_phase rq = PHASE_NORMAL \<Longrightarrow>
   receive_normal clipboard_only [Inr (IncomingData (to_be 8 2 @ [7, 7]))] rq s = (Some (Inr [7, 7]), rq, s)"
  by (simp add: receive_normal_def response_push_def settle_def checked_add_usize_def usize_bound_def
      MAX_DOWNSTREAM_CHUNK_def NORMAL_RESPONSE_LIMIT_def decode_cancel_def clipboard_only_def
      Let_def)

lemma sample_raw:
  "\<exists>rq' s' st. receive_raw_to (\<lambda>_. ''ab'') True 3
      [(Inr (IncomingData [1, 2]), True), (Inr (IncomingData [3]), True)] rq s =
     (Some (Inr ''ab''), st, rq', s') \<and> rs_written st = [1, 2, 3]"
  by (simp add: receive_raw_to_def raw_start_def discriminator_default_def discriminator_push_def
      take_candidate_def write_chunk_def checked_add_usize_def usize_bound_def settle_def Let_def)

lemma sample_download_result:
  "do_result (download_with_options sample_env False 0 ''/a'' [RootDir, Normal ''a''] Map.empty (session_start ''s''))
     = Some (Inr 3)"
proof -
  let ?rq = "\<lparr>rq_sid = 0x80001001, rq_channel = 0, rq_phase = PHASE_NORMAL, rq_completed = False\<rparr>"
  obtain s1 where "open": "open_signed Inr False (Written WriteOk) [] (session_start ''s'') = (Inr ?rq, s1)"
    using sample_open by blast
  obtain rq' s' st where raw: "receive_raw_to (\<lambda>_. ''ab'') True 3
      [(Inr (IncomingData [1, 2]), True), (Inr (IncomingData [3]), True)] ?rq s1 = (Some (Inr ''ab''), st, rq', s')"
    using sample_raw by metis
  have md5: "eq_ignore_ascii_case ''AB'' ''ab''" by code_simp
  show ?thesis
    by (simp add: download_with_options_def open_header_def sample_env_def "open" sample_response decoded_def
        sample_client_codec_def download_body_def temporary_download_path_def raw commit_download_def
        md5_mismatch_def md5 Let_def)
qed

theorem download_atomic_witness:
  "\<exists>header content.
     do_disk (download_with_options sample_env False 0 ''/a'' [RootDir, Normal ''a''] Map.empty (session_start ''s'')) =
       [[RootDir, Normal ''a''] \<mapsto> FileNode content] \<and> announced sample_env header 3 content"
proof -
  let ?d = "download_with_options sample_env False 0 ''/a'' [RootDir, Normal ''a''] Map.empty (session_start ''s'')"
  have "decodes_u64 (te_client sample_env)"
    by (simp add: decodes_u64_def sample_env_def sample_client_codec_def usize_bound_def)
  moreover have "te_remove_ok sample_env" by (simp add: sample_env_def)
  moreover obtain tmp where "temporary_download_path [RootDir, Normal ''a''] (te_uuid sample_env) = Inr tmp"
    by (simp add: temporary_download_path_def)
  ultimately show ?thesis
    using download_atomic[of sample_env "[RootDir, Normal ''a'']" tmp Map.empty ?d False 0 "''/a''" "session_start ''s''"]
      sample_download_result by simp
qed

definition sample_upload_env :: upload_env where
  "sample_upload_env =
     \<lparr>ue_metadata = Some (FileNode [1, 2]), ue_remote_exists = Inr False, ue_md5_open_ok = True,
      ue_md5_reads = [Some [1, 2]], ue_open_ok = True,
      ue_reads = [(Some [1], False, Written WriteOk), (Some [2], False, Written WriteOk)],
      ue_response = [Inr (IncomingData (to_be 8 2 @ [7, 7]))]\<rparr>"

lemma sample_upload_result:
  "\<exists>s'. upload_with_options sample_env sample_upload_env False ''/b'' (session_start ''s'') =
     Some (Inr 2, [[1], [2]], s')"
proof -
  let ?rq = "\<lparr>rq_sid = 0x80001001, rq_channel = 0, rq_phase = PHASE_NORMAL, rq_completed = False\<rparr>"
  obtain s1 where "open": "open_signed Inr False (Written WriteOk) [] (session_start ''s'') = (Inr ?rq, s1)"
    and running: "si_writer_running s1"
    using sample_open by blast
  have send: "\<exists>s'. request_send (Written WriteOk) False 3 [b] ?rq s = (Inr (), ?rq, s') \<and> si_writer_running s'"
    if "si_writer_running s" for b s
    using that by (simp add: request_send_def send_def writer_step_def write_upstream_def encode_upstream_def
        MAX_UPSTREAM_PAYLOAD_def Let_def)
  obtain s2 where s2: "request_send (Written WriteOk) False 3 [1] ?rq s1 = (Inr (), ?rq, s2)" "si_writer_running s2"
    using send[OF running] by blast
  obtain s3 where s3: "request_send (Written WriteOk) False 3 [2] ?rq s2 = (Inr (), ?rq, s3)"
    using send[OF s2(2)] by blast
  show ?thesis
    by (simp add: upload_with_options_def open_header_def sample_env_def sample_upload_env_def "open"
        sample_response decoded_def sample_client_codec_def file_md5_def upload_body_def s2(1) s3
        upload_response_def ensure_remote_success_def)
qed


end
