(* ===== verification/Batch.thy ===== *)
theory Batch
  imports ClientTransfer "HOL-Library.Multiset"
begin

text \<open>
  Transfers of many files, \<open>batch_transfer\<close>, \<open>upload_tree\<close> and \<open>download_tree\<close> of
  \<open>handshaker-core/src/client.rs\<close>. A batch is a machine: \<open>buffer_unordered\<close> starts items in order
  while fewer than \<open>concurrency\<close> are in flight, and they finish in any order; the order of starts
  and finishes, the outcomes and the moment of a cancellation are the events of a run. A local
  tree is a value of \<open>dir_entry\<close>, with the errors of reading it.
\<close>

section \<open>Batches\<close>

record batch_run =
  bb_waiting :: "BatchTransferItem list"
  bb_flight :: "BatchTransferItem list"
  bb_cancelled :: bool
  bb_done :: nat
  bb_progress :: "(nat \<times> nat) list"
  bb_result :: BatchTransferResult

definition batch_start :: "BatchTransferItem list \<Rightarrow> batch_run" where
  "batch_start items = \<lparr>bb_waiting = items, bb_flight = [], bb_cancelled = False, bb_done = 0,
     bb_progress = [], bb_result = \<lparr>br_ok = [], br_failures = []\<rparr>\<rparr>"

datatype batch_event = StartItem | FinishItem nat "nat core_result" | CancelBatch

definition error_text :: "core_error \<Rightarrow> string" where
  "error_text e = (case e of
       Usage m \<Rightarrow> m | Configuration m \<Rightarrow> m | DeviceSelection m \<Rightarrow> m | AdbUnavailable m \<Rightarrow> m
     | Transport m \<Rightarrow> m | Handshake m \<Rightarrow> m | Timeout m \<Rightarrow> m | Protocol m \<Rightarrow> m | RemoteIo _ m \<Rightarrow> m
     | LocalIo m \<Rightarrow> m | ConfirmationRequired m \<Rightarrow> m | Interrupted \<Rightarrow> ''error.interrupted''
     | Cancelled _ \<Rightarrow> ''error.cancelled'')"

definition push_ok :: "BatchTransferItem \<Rightarrow> BatchTransferResult \<Rightarrow> BatchTransferResult" where
  "push_ok i r = r\<lparr>br_ok := br_ok r @ [i]\<rparr>"

definition push_failure ::
  "BatchTransferItem \<Rightarrow> string \<Rightarrow> ErrorCode \<Rightarrow> BatchTransferResult \<Rightarrow> BatchTransferResult" where
  "push_failure i message code r =
     r\<lparr>br_failures := br_failures r @
        [\<lparr>bf_source = bi_source i, bf_target = bi_target i, bf_message = message, bf_code = Some code\<rparr>]\<rparr>"

definition entry_outcome :: "BatchTransferItem \<Rightarrow> nat core_result \<Rightarrow> BatchTransferResult \<Rightarrow> BatchTransferResult" where
  "entry_outcome i outcome r =
     (case outcome of
        Inr _ \<Rightarrow> push_ok i r
      | Inl e \<Rightarrow> push_failure i (error_text e) (error_code e) r)"

text \<open>One event of a batch; \<open>None\<close> when it cannot happen. A started item first tests the token.\<close>

fun batch_step :: "nat \<Rightarrow> nat \<Rightarrow> batch_event \<Rightarrow> batch_run \<Rightarrow> batch_run option" where
  "batch_step concurrency tot StartItem st =
     (case bb_waiting st of
        [] \<Rightarrow> None
      | i # rest \<Rightarrow>
          if \<not> length (bb_flight st) < concurrency then None
          else if bb_cancelled st
          then Some (st\<lparr>bb_waiting := rest,
                        bb_result := push_failure i ''cancelled'' InterruptedCode (bb_result st)\<rparr>)
          else Some (st\<lparr>bb_waiting := rest, bb_flight := bb_flight st @ [i]\<rparr>))"
| "batch_step concurrency tot (FinishItem k outcome) st =
     (if \<not> k < length (bb_flight st) then None
      else Some (st\<lparr>bb_flight := take k (bb_flight st) @ drop (Suc k) (bb_flight st),
                    bb_done := bb_done st + 1,
                    bb_progress := bb_progress st @ [(bb_done st + 1, tot)],
                    bb_result := entry_outcome (bb_flight st ! k) outcome (bb_result st)\<rparr>))"
| "batch_step concurrency tot CancelBatch st = Some (st\<lparr>bb_cancelled := True\<rparr>)"

fun batch_steps :: "nat \<Rightarrow> nat \<Rightarrow> batch_event list \<Rightarrow> batch_run \<Rightarrow> batch_run option" where
  "batch_steps concurrency tot [] st = Some st"
| "batch_steps concurrency tot (ev # evs) st =
     Option.bind (batch_step concurrency tot ev st) (batch_steps concurrency tot evs)"

definition batch_over :: "batch_run \<Rightarrow> bool" where
  "batch_over st \<longleftrightarrow> bb_waiting st = [] \<and> bb_flight st = []"

definition batch_return :: "batch_run \<Rightarrow> BatchTransferResult core_result" where
  "batch_return st =
     (if bb_cancelled st \<and> list_ex (\<lambda>f. bf_code f = Some InterruptedCode) (br_failures (bb_result st))
      then Inl Interrupted else Inr (bb_result st))"

text \<open>\<open>batch_transfer\<close>: \<open>None\<close> if the events do not make up a whole run.\<close>

definition batch_transfer ::
  "nat \<Rightarrow> BatchTransferItem list \<Rightarrow> batch_event list \<Rightarrow> (BatchTransferResult core_result \<times> (nat \<times> nat) list) option" where
  "batch_transfer concurrency items evs =
     (if concurrency = 0 \<or> concurrency > 8 then Some (Inl (Usage ''client.batch_concurrency_range''), [])
      else case batch_steps concurrency (length items) evs (batch_start items) of
             None \<Rightarrow> None
           | Some st \<Rightarrow> if batch_over st then Some (batch_return st, bb_progress st) else None)"

section \<open>Local trees\<close>

text \<open>A directory is the list of its entries with their names, or \<open>None\<close> if it cannot be read. An
  entry is a file, a directory, something else (a link, a device), or an error: of reading the
  entry or its type.\<close>

datatype dir_entry = EFile | EOther | EError | EDir "(string \<times> dir_entry) list option"

type_synonym upload_plan = "BatchTransferItem list \<times> (string, unit) btree"

text \<open>\<open>collect_upload_tree\<close> with its recursion and, separately, the loop over the entries.\<close>

function (sequential) collect_upload_tree ::
    "path \<Rightarrow> string \<Rightarrow> (string \<times> dir_entry) list option \<Rightarrow> upload_plan \<Rightarrow> upload_plan core_result"
and collect_entries ::
    "path \<Rightarrow> string \<Rightarrow> (string \<times> dir_entry) list \<Rightarrow> upload_plan \<Rightarrow> upload_plan core_result" where
  "collect_upload_tree local rpath None (items, directories) = Inl (LocalIo ''client.read_dir_failed'')"
| "collect_upload_tree local rpath (Some entries) (items, directories) =
     collect_entries local rpath entries
       (items, bt_insert (trim_end_char (CHR ''/'') rpath) () directories)"
| "collect_entries local rpath [] plan = Inr plan"
| "collect_entries local rpath ((name, entry) # rest) (items, directories) =
     (let child = trim_end_char (CHR ''/'') rpath @ ''/'' @ name;
          p = path_join local [Normal name]
      in case entry of
           EError \<Rightarrow> Inl (LocalIo ''client.read_dir_failed'')
         | EDir sub \<Rightarrow> and_then (collect_upload_tree p child sub (items, directories))
                          (\<lambda>plan. collect_entries local rpath rest plan)
         | EFile \<Rightarrow> collect_entries local rpath rest
                      (items @ [\<lparr>bi_source = render p, bi_target = child\<rparr>], directories)
         | EOther \<Rightarrow> collect_entries local rpath rest (items, directories))"
  by pat_completeness auto
termination
  by (relation "measure (case_sum (\<lambda>(_, _, t, _). size_option (size_list (size_prod (\<lambda>_. 0) size)) t)
        (\<lambda>(_, _, es, _). size_list (size_prod (\<lambda>_. 0) size) es))") auto

text \<open>The loop that creates the remote directories.\<close>

fun ensure_directories :: "'p client \<Rightarrow> string list \<Rightarrow> ('p, unit) op" where
  "ensure_directories c [] = op_return (Inr ())"
| "ensure_directories c (d # ds) =
     op_then (file_exists c d)
       (\<lambda>there. op_then (if there then op_return (Inr ())
                         else op_then (create_dir c d) (\<lambda>_. op_return (Inr ())))
          (\<lambda>_. ensure_directories c ds))"

text \<open>\<open>upload_tree\<close> up to the batch: the items to upload, once all directories exist.\<close>

definition upload_tree ::
  "'p client \<Rightarrow> path \<Rightarrow> string \<Rightarrow> (string \<times> dir_entry) list option \<Rightarrow> ('p, BatchTransferItem list) op" where
  "upload_tree c local_dir remote_dir tree =
     (case collect_upload_tree local_dir remote_dir tree ([], []) of
        Inl e \<Rightarrow> op_return (Inl e)
      | Inr (items, directories) \<Rightarrow>
          op_then (ensure_directories c (bt_keys directories)) (\<lambda>_. op_return (Inr items)))"

section \<open>Remote trees\<close>

definition escapes :: "path \<Rightarrow> bool" where
  "escapes rel \<longleftrightarrow> list_ex (\<lambda>c. c = ParentDir \<or> c = RootDir) rel"

definition tree_target :: "string \<Rightarrow> path \<Rightarrow> string \<Rightarrow> path core_result" where
  "tree_target base_prefix local_dir p =
     (case str_strip_prefix base_prefix p of
        None \<Rightarrow> Inl (Protocol ''client.download_path_escape'')
      | Some relative \<Rightarrow>
          if escapes (components relative) then Inl (Protocol ''client.download_path_escape'')
          else let local = path_join local_dir (components relative) in
               if strip_prefix local_dir local = None then Inl (Protocol ''client.download_path_escape'')
               else Inr local)"

text \<open>The loop over the listing. \<open>mkdir\<close> tells which directories can be created; the result lists
  the directories created, also when the loop fails.\<close>

fun download_tree_loop ::
  "(path \<Rightarrow> bool) \<Rightarrow> string \<Rightarrow> path \<Rightarrow> RemoteFile list \<Rightarrow> BatchTransferItem list core_result \<times> path list" where
  "download_tree_loop mkdir base_prefix local_dir [] = (Inr [], [])"
| "download_tree_loop mkdir base_prefix local_dir (f # fs) =
     (case tree_target base_prefix local_dir (rf_path f) of
        Inl e \<Rightarrow> (Inl e, [])
      | Inr local \<Rightarrow>
          if rf_is_directory f
          then if \<not> mkdir local then (Inl (LocalIo ''client.create_failed''), [])
               else (case download_tree_loop mkdir base_prefix local_dir fs of
                       (r, made) \<Rightarrow> (r, local # made))
          else (case download_tree_loop mkdir base_prefix local_dir fs of
                  (r, made) \<Rightarrow>
                    (and_then r (\<lambda>items. Inr (\<lparr>bi_source = rf_path f, bi_target = render local\<rparr> # items)), made)))"

text \<open>\<open>download_tree\<close> up to the batch.\<close>

definition download_tree ::
  "'p client \<Rightarrow> (path \<Rightarrow> bool) \<Rightarrow> string \<Rightarrow> path \<Rightarrow> 'p \<Rightarrow> BatchTransferItem list core_result \<times> path list \<times> 'p" where
  "download_tree c mkdir remote_dir local_dir ph =
     (if \<not> mkdir local_dir then (Inl (LocalIo ''client.create_failed''), [], ph)
      else case list_dir c remote_dir (- 1) ph of
             (Inl e, ph1) \<Rightarrow> (Inl e, [local_dir], ph1)
           | (Inr files, ph1) \<Rightarrow>
               (case download_tree_loop mkdir (trim_end_char (CHR ''/'') remote_dir @ ''/'') local_dir files of
                  (r, made) \<Rightarrow> (r, local_dir # made, ph1)))"

section \<open>Every item is accounted for once\<close>

definition item_key :: "BatchTransferItem \<Rightarrow> string \<times> string" where
  "item_key i = (bi_source i, bi_target i)"

definition failure_key :: "BatchTransferFailure \<Rightarrow> string \<times> string" where
  "failure_key f = (bf_source f, bf_target f)"

definition accounted :: "BatchTransferResult \<Rightarrow> (string \<times> string) multiset" where
  "accounted r = mset (map item_key (br_ok r)) + mset (map failure_key (br_failures r))"

lemma accounted_push [simp]:
  "accounted (push_ok i r) = add_mset (item_key i) (accounted r)"
  "accounted (push_failure i m code r) = add_mset (item_key i) (accounted r)"
  by (simp_all add: accounted_def push_ok_def push_failure_def item_key_def failure_key_def)

lemma accounted_entry [simp]: "accounted (entry_outcome i outcome r) = add_mset (item_key i) (accounted r)"
  by (simp add: entry_outcome_def split: sum.split)

definition batch_inv :: "nat \<Rightarrow> BatchTransferItem list \<Rightarrow> batch_run \<Rightarrow> bool" where
  "batch_inv concurrency items st \<longleftrightarrow>
     mset (map item_key (bb_waiting st @ bb_flight st)) + accounted (bb_result st) = mset (map item_key items) \<and>
     length (bb_flight st) \<le> concurrency \<and>
     bb_progress st = map (\<lambda>k. (Suc k, length items)) [0..<bb_done st] \<and>
     length (bb_waiting st) + length (bb_flight st) + bb_done st \<le> length items \<and>
     (\<not> bb_cancelled st \<longrightarrow> length (bb_waiting st) + length (bb_flight st) + bb_done st = length items)"

lemma mset_remove_nth:
  "k < length xs \<Longrightarrow> mset (map f xs) = add_mset (f (xs ! k)) (mset (map f (take k xs @ drop (Suc k) xs)))"
  by (subst id_take_nth_drop[of k xs]) simp_all

lemma batch_step_inv:
  assumes "batch_inv concurrency items st" "batch_step concurrency (length items) ev st = Some st'"
  shows "batch_inv concurrency items st'"
proof (cases ev)
  case StartItem
  then show ?thesis
    using assms by (auto simp: batch_inv_def split: list.splits if_splits)
next
  case (FinishItem k outcome)
  then have k: "k < length (bb_flight st)" using assms(2) by (auto split: if_splits)
  then show ?thesis
    using assms FinishItem mset_remove_nth[OF k, of item_key]
    by (auto simp: batch_inv_def)
next
  case CancelBatch
  then show ?thesis using assms by (auto simp: batch_inv_def)
qed

lemma batch_steps_inv:
  "batch_inv concurrency items st \<Longrightarrow> batch_steps concurrency (length items) evs st = Some st' \<Longrightarrow>
   batch_inv concurrency items st'"
  by (induction evs arbitrary: st) (auto simp: bind_eq_Some_conv dest: batch_step_inv)

lemma batch_start_inv: "batch_inv concurrency items (batch_start items)"
  by (simp add: batch_inv_def batch_start_def accounted_def)

lemma cancelled_iff:
  "batch_steps concurrency tot evs st = Some st' \<Longrightarrow>
   bb_cancelled st' \<longleftrightarrow> bb_cancelled st \<or> CancelBatch \<in> set evs"
proof (induction evs arbitrary: st)
  case (Cons ev evs)
  then obtain st1 where step: "batch_step concurrency tot ev st = Some st1"
    and rest: "batch_steps concurrency tot evs st1 = Some st'"
    by (auto simp: bind_eq_Some_conv)
  have "bb_cancelled st1 \<longleftrightarrow> bb_cancelled st \<or> ev = CancelBatch"
    using step by (cases ev) (auto split: list.splits if_splits)
  then show ?case using Cons.IH[OF rest] by auto
qed simp

text \<open>C27 A batch accounts for every item exactly once, whatever the order in which items start and
  finish: the items that succeeded and the failures together are the items given. The call is
  interrupted only if the caller cancelled. The progress reports count 1, 2, 3 and so on, never
  beyond the number of items, and up to it unless the caller cancelled.\<close>

theorem batch_accounts:
  assumes "batch_transfer concurrency items evs = Some (r, progress)" "0 < concurrency" "concurrency \<le> 8"
  shows "(case r of
       Inr result \<Rightarrow> accounted result = mset (map item_key items)
     | Inl e \<Rightarrow> e = Interrupted \<and> CancelBatch \<in> set evs) \<and>
    progress = map (\<lambda>k. (Suc k, length items)) [0..<length progress] \<and>
    length progress \<le> length items \<and>
    (CancelBatch \<notin> set evs \<longrightarrow> length progress = length items)"
proof -
  obtain st where run: "batch_steps concurrency (length items) evs (batch_start items) = Some st"
    and over: "batch_over st" and r: "r = batch_return st" "progress = bb_progress st"
    using assms by (auto simp: batch_transfer_def split: option.splits if_splits)
  have inv: "batch_inv concurrency items st" using batch_steps_inv[OF batch_start_inv run] .
  have "bb_cancelled st \<longleftrightarrow> CancelBatch \<in> set evs"
    using cancelled_iff[OF run] by (simp add: batch_start_def)
  then show ?thesis
    using inv over r by (auto simp: batch_inv_def batch_over_def batch_return_def)
qed

abbreviation two_files :: "BatchTransferItem list" where
  "two_files \<equiv> [\<lparr>bi_source = ''a'', bi_target = ''x''\<rparr>, \<lparr>bi_source = ''b'', bi_target = ''y''\<rparr>]"

theorem batch_accounts_witness:
  "\<exists>result. batch_transfer 2 two_files [StartItem, StartItem, FinishItem 1 (Inl (LocalIo ''full'')), FinishItem 0 (Inr 7)]
       = Some (Inr result, [(1, 2), (2, 2)]) \<and> accounted result = {#(''a'', ''x''), (''b'', ''y'')#}"
proof -
  let ?evs = "[StartItem, StartItem, FinishItem 1 (Inl (LocalIo ''full'')), FinishItem 0 (Inr 7)]"
  obtain result where run: "batch_transfer 2 two_files ?evs = Some (Inr result, [(1, 2), (2, 2)])"
    by (simp add: batch_transfer_def batch_start_def batch_over_def batch_return_def)
  from batch_accounts[OF this] run show ?thesis by (auto simp: item_key_def)
qed

section \<open>Batches end\<close>

definition batch_work :: "batch_run \<Rightarrow> nat" where
  "batch_work st = 2 * length (bb_waiting st) + length (bb_flight st)"

lemma batch_step_work:
  "batch_step concurrency tot ev st = Some st' \<Longrightarrow> ev \<noteq> CancelBatch \<Longrightarrow> Suc (batch_work st') \<le> batch_work st"
  by (cases ev) (auto simp: batch_work_def split: list.splits if_splits)

lemma batch_steps_work:
  "batch_steps concurrency tot evs st = Some st' \<Longrightarrow>
   length (filter (\<lambda>ev. ev \<noteq> CancelBatch) evs) + batch_work st' \<le> batch_work st"
proof (induction evs arbitrary: st)
  case (Cons ev evs)
  then obtain st1 where step: "batch_step concurrency tot ev st = Some st1"
    and rest: "batch_steps concurrency tot evs st1 = Some st'"
    by (auto simp: bind_eq_Some_conv)
  have "batch_work st1 \<le> batch_work st - (if ev = CancelBatch then 0 else 1)"
    "ev \<noteq> CancelBatch \<Longrightarrow> 1 \<le> batch_work st"
    using step batch_step_work[OF step] by (auto simp: batch_work_def)
  then show ?case using Cons.IH[OF rest] by auto
qed simp



section \<open>Uploading a tree mirrors it\<close>

text \<open>What a tree contains, as a reference: the regular files and the directories below it by their
  names, whether all of it can be read, and whether the names are names.\<close>

function (sequential) tree_files :: "(string \<times> dir_entry) list \<Rightarrow> string list list" where
  "tree_files [] = []"
| "tree_files ((n, EFile) # rest) = [n] # tree_files rest"
| "tree_files ((n, EDir (Some es)) # rest) = map ((#) n) (tree_files es) @ tree_files rest"
| "tree_files (_ # rest) = tree_files rest"
  by pat_completeness auto
termination
  by (relation "measure (size_list (size_prod (\<lambda>_. 0) size))") auto

function (sequential) tree_dirs :: "(string \<times> dir_entry) list \<Rightarrow> string list list" where
  "tree_dirs [] = []"
| "tree_dirs ((n, EDir (Some es)) # rest) = [n] # map ((#) n) (tree_dirs es) @ tree_dirs rest"
| "tree_dirs (_ # rest) = tree_dirs rest"
  by pat_completeness auto
termination
  by (relation "measure (size_list (size_prod (\<lambda>_. 0) size))") auto

function (sequential) readable :: "(string \<times> dir_entry) list \<Rightarrow> bool" where
  "readable [] \<longleftrightarrow> True"
| "readable ((n, EError) # rest) \<longleftrightarrow> False"
| "readable ((n, EDir None) # rest) \<longleftrightarrow> False"
| "readable ((n, EDir (Some es)) # rest) \<longleftrightarrow> readable es \<and> readable rest"
| "readable (_ # rest) \<longleftrightarrow> readable rest"
  by pat_completeness auto
termination
  by (relation "measure (size_list (size_prod (\<lambda>_. 0) size))") auto

function (sequential) named :: "(string \<times> dir_entry) list \<Rightarrow> bool" where
  "named [] \<longleftrightarrow> True"
| "named ((n, EDir (Some es)) # rest) \<longleftrightarrow> n \<noteq> [] \<and> CHR ''/'' \<notin> set n \<and> named es \<and> named rest"
| "named ((n, _) # rest) \<longleftrightarrow> n \<noteq> [] \<and> CHR ''/'' \<notin> set n \<and> named rest"
  by pat_completeness auto
termination
  by (relation "measure (size_list (size_prod (\<lambda>_. 0) size))") auto

definition remote_of :: "string \<Rightarrow> string list \<Rightarrow> string" where
  "remote_of base rel = base @ concat (map ((#) (CHR ''/'')) rel)"

definition mirror :: "path \<Rightarrow> string \<Rightarrow> string list \<Rightarrow> BatchTransferItem" where
  "mirror local base rel = \<lparr>bi_source = render (local @ map Normal rel), bi_target = remote_of base rel\<rparr>"

definition insert_dirs :: "string \<Rightarrow> string list list \<Rightarrow> (string, unit) btree \<Rightarrow> (string, unit) btree" where
  "insert_dirs base rels = fold (\<lambda>rel. bt_insert (remote_of base rel) ()) rels"

lemma remote_of_simps [simp]:
  "remote_of base [] = base"
  "remote_of base (n # rel) = remote_of (base @ ''/'' @ n) rel"
  by (simp_all add: remote_of_def)

lemma mirror_Cons: "mirror local base (n # rel) = mirror (local @ [Normal n]) (base @ ''/'' @ n) rel"
  by (simp add: mirror_def)

lemma insert_dirs_simps [simp]:
  "insert_dirs base [] d = d"
  "insert_dirs base (rel # rels) d = insert_dirs base rels (bt_insert (remote_of base rel) () d)"
  by (simp_all add: insert_dirs_def)

lemma insert_dirs_append [simp]:
  "insert_dirs base (xs @ ys) d = insert_dirs base ys (insert_dirs base xs d)"
  by (simp add: insert_dirs_def)

lemma insert_dirs_map: "insert_dirs base (map ((#) n) rels) d = insert_dirs (base @ ''/'' @ n) rels d"
  by (induction rels arbitrary: d) simp_all

lemma trim_child:
  assumes "n \<noteq> []" "CHR ''/'' \<notin> set n"
  shows "trim_end_char (CHR ''/'') (b @ ''/'' @ n) = b @ ''/'' @ n"
proof -
  obtain m c where n: "n = m @ [c]" using assms(1) by (metis rev_exhaust)
  then have "c \<noteq> CHR ''/''" using assms(2) by auto
  then show ?thesis using n by (simp add: trim_end_char_def)
qed

lemma collect_entries_mirrors:
  assumes "named es" "trim_end_char (CHR ''/'') rpath = base"
  shows "collect_entries local rpath es (items, d) =
    (if readable es then Inr (items @ map (mirror local base) (tree_files es), insert_dirs base (tree_dirs es) d)
     else Inl (LocalIo ''client.read_dir_failed''))"
  using assms
proof (induction es arbitrary: local rpath base items d rule: tree_files.induct)
  case (3 n es rest)
  have names: "n \<noteq> []" "CHR ''/'' \<notin> set n" "named es" "named rest" using 3(3) by simp_all
  have child: "trim_end_char (CHR ''/'') (base @ ''/'' @ n) = base @ ''/'' @ n"
    by (rule trim_child[OF names(1,2)])
  have sub: "collect_entries (local @ [Normal n]) (base @ ''/'' @ n) es (items, bt_insert (base @ ''/'' @ n) () d) =
    (if readable es then Inr (items @ map (mirror local base) (map ((#) n) (tree_files es)),
        insert_dirs base ([n] # map ((#) n) (tree_dirs es)) d)
     else Inl (LocalIo ''client.read_dir_failed''))"
    using 3(1)[OF names(3) child] by (simp add: mirror_Cons insert_dirs_map comp_def)
  show ?case
    using 3(2)[OF names(4) 3(4)] sub child 3(4) by (simp add: Let_def path_join_normal)
qed (auto simp: Let_def path_join_normal mirror_def)

lemma bt_ok_insert_dirs: "bt_ok d \<Longrightarrow> bt_ok (insert_dirs base rels d)"
  by (induction rels arbitrary: d) simp_all

lemma keys_insert_dirs: "set (bt_keys (insert_dirs base rels d)) = remote_of base ` set rels \<union> set (bt_keys d)"
  by (induction rels arbitrary: d) auto

lemma tree_dirs_closed: "rel \<in> set (tree_dirs es) \<Longrightarrow> rel \<noteq> [] \<and> (butlast rel = [] \<or> butlast rel \<in> set (tree_dirs es))"
  by (induction es arbitrary: rel rule: tree_dirs.induct) (auto split: if_splits, blast?)

lemma tree_files_dirs: "rel \<in> set (tree_files es) \<Longrightarrow> rel \<noteq> [] \<and> (butlast rel = [] \<or> butlast rel \<in> set (tree_dirs es))"
  by (induction es arbitrary: rel rule: tree_files.induct) (auto split: if_splits, blast?)

lemma list_less_append: "ys \<noteq> [] \<Longrightarrow> xs < (xs @ ys :: string)"
  by (induction xs) (simp_all, cases ys, simp_all)

lemma remote_of_parent: "rel \<noteq> [] \<Longrightarrow> remote_of base (butlast rel) < remote_of base rel"
proof -
  assume "rel \<noteq> []"
  then have "remote_of base rel = remote_of base (butlast rel) @ ''/'' @ last rel"
    by (cases rel rule: rev_cases) (simp_all add: remote_of_def)
  then show ?thesis using list_less_append[of "''/'' @ last rel"] by simp
qed

text \<open>Uploading a tree mirrors it: \<open>collect_upload_tree\<close> succeeds exactly on trees that can be
  read throughout, then it lists each regular file once with the corresponding remote name, and
  the directories to create are the base and one per local directory. They come in an order in
  which a directory follows its parent, and the directory of every file is among them.\<close>

lemma upload_tree_mirrors:
  assumes "named es" "base = trim_end_char (CHR ''/'') rpath"
  shows "case collect_upload_tree local rpath (Some es) ([], []) of
      Inl e \<Rightarrow> \<not> readable es
    | Inr (items, dirs) \<Rightarrow> readable es \<and> items = map (mirror local base) (tree_files es) \<and>
        set (bt_keys dirs) = insert base (remote_of base ` set (tree_dirs es)) \<and>
        sorted_wrt (<) (bt_keys dirs) \<and>
        (\<forall>rel \<in> set (tree_dirs es) \<union> set (tree_files es).
           remote_of base (butlast rel) \<in> set (bt_keys dirs) \<and>
           remote_of base (butlast rel) < remote_of base rel)"
proof (cases "readable es")
  case False
  then show ?thesis using collect_entries_mirrors[OF assms(1) assms(2)[symmetric]] by simp
next
  case True
  let ?dirs = "insert_dirs base (tree_dirs es) (bt_insert base () [])"
  have "collect_upload_tree local rpath (Some es) ([], []) = Inr (map (mirror local base) (tree_files es), ?dirs)"
    using collect_entries_mirrors[OF assms(1) assms(2)[symmetric]] True assms(2) by simp
  moreover have keys: "set (bt_keys ?dirs) = insert base (remote_of base ` set (tree_dirs es))"
    using keys_insert_dirs[of base "tree_dirs es" "bt_insert base () []"] by (simp add: bt_keys_def)
  moreover have "sorted_wrt (<) (bt_keys ?dirs)"
    using bt_ok_insert_dirs[of "bt_insert base () []" base "tree_dirs es"] by (simp add: bt_ok_def bt_keys_def)
  moreover have "remote_of base (butlast rel) \<in> set (bt_keys ?dirs) \<and> remote_of base (butlast rel) < remote_of base rel"
    if "rel \<in> set (tree_dirs es) \<union> set (tree_files es)" for rel
  proof -
    have rel: "rel \<noteq> []" "butlast rel = [] \<or> butlast rel \<in> set (tree_dirs es)"
      using that tree_dirs_closed tree_files_dirs by blast+
    have "remote_of base (butlast rel) \<in> set (bt_keys ?dirs)"
      unfolding keys using rel(2) by (elim disjE) simp_all
    then show ?thesis using remote_of_parent[OF rel(1)] by blast
  qed
  ultimately show ?thesis using True by simp
qed

lemma upload_tree_mirrors_witness:
  "case collect_upload_tree [RootDir] ''/up/'' (Some [(''d'', EDir (Some [(''f'', EFile)])), (''s'', EOther)]) ([], []) of
      Inl e \<Rightarrow> False
    | Inr (items, dirs) \<Rightarrow> map bi_target items = [''/up/d/f''] \<and> set (bt_keys dirs) = {''/up'', ''/up/d''}"
  using upload_tree_mirrors[of "[(''d'', EDir (Some [(''f'', EFile)])), (''s'', EOther)]" "''/up''" "''/up/''" "[RootDir]"]
  by (simp add: trim_end_char_def mirror_def remote_of_def split: sum.splits prod.splits)

section \<open>Downloading a tree stays inside\<close>

lemma tree_target_inside:
  assumes "tree_target base_prefix local_dir p = Inr local" "local_dir \<noteq> []"
  shows "starts_with base_prefix p \<and> (\<exists>rel. list_all is_normal rel \<and> local = local_dir @ rel)"
proof -
  obtain relative where rel: "p = base_prefix @ relative" "\<not> escapes (components relative)"
    and local: "local = path_join local_dir (components relative)"
    using assms(1) by (auto simp: tree_target_def str_strip_prefix_Some Let_def split: option.splits if_splits)
  have "\<not> is_absolute (components relative)"
    using rel(2) by (cases "components relative") (auto simp: is_absolute_def escapes_def)
  then have "local = local_dir @ filter (\<lambda>c. c \<noteq> CurDir) (components relative)"
    using local assms(2) by (simp add: path_join_def)
  moreover have "list_all is_normal (filter (\<lambda>c. c \<noteq> CurDir) (components relative))"
  proof -
    have "is_normal c" if "c \<in> set (components relative)" "c \<noteq> CurDir" for c
    proof -
      have "c \<noteq> ParentDir" "c \<noteq> RootDir" using that(1) rel(2) by (auto simp: escapes_def list_ex_iff)
      then show ?thesis using that(2) by (cases c) simp_all
    qed
    then show ?thesis by (simp add: list_all_iff)
  qed
  ultimately show ?thesis using rel(1) by (auto simp: starts_with_iff)
qed

lemma download_tree_loop_inside:
  assumes "download_tree_loop mkdir base_prefix local_dir files = (r, made)" "local_dir \<noteq> []"
  shows "(\<forall>d \<in> set made. \<exists>rel. list_all is_normal rel \<and> d = local_dir @ rel) \<and>
    (\<forall>items. r = Inr items \<longrightarrow> (\<forall>i \<in> set items. starts_with base_prefix (bi_source i) \<and>
       (\<exists>rel. list_all is_normal rel \<and> bi_target i = render (local_dir @ rel))))"
  using assms
proof (induction files arbitrary: r made)
  case (Cons f fs)
  show ?case
  proof (cases "tree_target base_prefix local_dir (rf_path f)")
    case (Inl e)
    then show ?thesis using Cons.prems by auto
  next
    case (Inr local)
    note inside = tree_target_inside[OF Inr Cons.prems(2)]
    obtain r1 made1 where rest: "download_tree_loop mkdir base_prefix local_dir fs = (r1, made1)" by fastforce
    show ?thesis
      using Cons.prems(1) Cons.IH[OF rest Cons.prems(2)] Inr rest inside
      by (cases r1) (auto split: if_splits, blast)
  qed
qed auto


definition sample_device :: DeviceInfo where
  "sample_device = \<lparr>di_serial = ''s'', di_phone_id = None, di_name = None, di_model = None, di_brand = None,
     di_manufacturer = None, di_smartisan_version = None, di_apk_version = None, di_apk_version_name = None,
     di_root_path = ''/sdcard'', di_external_storage_path = None, di_disk_size = None, di_used_disk_size = None,
     di_battery_percentage = None, di_phone_locked = None\<rparr>"

definition listing_client :: "SspFile list \<Rightarrow> unit client" where
  "listing_client files =
     \<lparr>cl_device = sample_device, cl_session = True,
      cl_codec = sample_client_codec\<lparr>cc_dir_files := (\<lambda>_. Some files)\<rparr>,
      cl_request = (\<lambda>_. op_return (Inr []))\<rparr>"


end
