(* ===== verification/MediaPages.thy ===== *)
theory MediaPages
  imports MediaMerge Client Machines "HOL-Library.Multiset"
begin

text \<open>
  The media layer of the application, \<open>handshaker-application/src/media.rs\<close>: the transfer objects
  that mirror the core values, paging through a library by media id, merging of changes, and the
  snapshot cache of \<open>runtime.rs\<close> that the pages are cut from. The cache is a machine whose steps
  are the critical sections of the code; the clock is an argument.
\<close>

section \<open>Transfer objects\<close>

record ImageFileDto =
  dim_path :: "string option"
  dim_size :: "nat option"
  dim_created_at :: "nat option"
  dim_modified_at :: "nat option"
  dim_width :: "nat option"
  dim_height :: "nat option"
  dim_orientation :: "nat option"
  dim_media_id :: "nat option"
  dim_album_id :: "nat option"
  dim_mime_type :: "string option"
  dim_thumbnail :: "bytes option"
  dim_album_name :: "string option"
  dim_date_taken :: "nat option"
  dim_latitude :: "string option"
  dim_longitude :: "string option"
  dim_mini_thumb_magic :: "string option"
  dim_title :: "string option"
  dim_thumbnail_error :: bool
  dim_starred :: bool

record ImageAlbumDto =
  dia_path :: "string option"
  dia_album_id :: "nat option"
  dia_name :: "string option"
  dia_cover_image :: "ImageFileDto option"

record VideoFileDto =
  dvf_path :: "string option"
  dvf_size :: "nat option"
  dvf_created_at :: "nat option"
  dvf_modified_at :: "nat option"
  dvf_width :: "nat option"
  dvf_height :: "nat option"
  dvf_orientation :: "nat option"
  dvf_media_id :: "nat option"
  dvf_album_id :: "nat option"
  dvf_mime_type :: "string option"
  dvf_thumbnail :: "bytes option"
  dvf_thumbnail_error :: bool
  dvf_duration :: "f64 option"

record VideoAlbumDto =
  dva_path :: "string option"
  dva_album_id :: "nat option"
  dva_name :: "string option"

record AudioFileDto =
  daf_path :: "string option"
  daf_size :: "nat option"
  daf_created_at :: "nat option"
  daf_modified_at :: "nat option"
  daf_media_id :: "nat option"
  daf_album_id :: "nat option"
  daf_title :: "string option"
  daf_mime_type :: "string option"
  daf_artist_id :: "nat option"
  daf_artist :: "string option"
  daf_composer :: "string option"
  daf_genre :: "nat option"
  daf_comment :: "string option"
  daf_copyright :: "string option"
  daf_audio_codec :: "string option"
  daf_track :: "nat option"
  daf_duration :: "f64 option"

record AudioAlbumDto =
  daa_path :: "string option"
  daa_album_id :: "nat option"
  daa_name :: "string option"
  daa_artist_id :: "nat option"
  daa_artist :: "string option"
  daa_year :: "nat option"
  daa_thumbnail :: "bytes option"
  daa_thumbnail_error :: bool

record PhotoLibraryDto =
  dpl_images :: "ImageFileDto list"
  dpl_albums :: "ImageAlbumDto list"
  dpl_camera_album_id :: "nat option"
  dpl_next_cursor :: "nat option"

record VideoLibraryDto =
  dvl_videos :: "VideoFileDto list"
  dvl_albums :: "VideoAlbumDto list"
  dvl_next_cursor :: "nat option"

record AudioLibraryDto =
  dal_tracks :: "AudioFileDto list"
  dal_albums :: "AudioAlbumDto list"
  dal_next_cursor :: "nat option"

record ThumbnailsDto =
  dtn_images :: "ImageFileDto list"
  dtn_videos :: "VideoFileDto list"
  dtn_audio_albums :: "AudioAlbumDto list"

datatype MediaKindDto = DtoPhoto | DtoVideo | DtoAudio

record MediaChangeItemDto =
  dci_media_id :: "nat option"
  dci_path :: "string option"
  dci_size :: "nat option"
  dci_created_at :: "nat option"
  dci_modified_at :: "nat option"
  dci_mime_type :: "string option"
  dci_title :: "string option"
  dci_album_name :: "string option"

record MediaChangeDto =
  dmc_media_kind :: MediaKindDto
  dmc_added :: "MediaChangeItemDto list"
  dmc_deleted :: "MediaChangeItemDto list"
  dmc_updated :: "MediaChangeItemDto list"

section \<open>Conversions\<close>

definition image_file_dto :: "ImageFile \<Rightarrow> ImageFileDto" where
  "image_file_dto x =
     \<lparr>dim_path = im_path x, dim_size = im_size x, dim_created_at = im_created_at x,
      dim_modified_at = im_modified_at x, dim_width = im_width x, dim_height = im_height x,
      dim_orientation = im_orientation x, dim_media_id = im_media_id x, dim_album_id = im_album_id x,
      dim_mime_type = im_mime_type x, dim_thumbnail = im_thumbnail x, dim_album_name = im_album_name x,
      dim_date_taken = im_date_taken x, dim_latitude = im_latitude x, dim_longitude = im_longitude x,
      dim_mini_thumb_magic = im_mini_thumb_magic x, dim_title = im_title x, dim_thumbnail_error = im_thumbnail_error x,
      dim_starred = im_starred x\<rparr>"

definition dto_to_image_file :: "ImageFileDto \<Rightarrow> ImageFile" where
  "dto_to_image_file x =
     \<lparr>im_path = dim_path x, im_size = dim_size x, im_created_at = dim_created_at x,
      im_modified_at = dim_modified_at x, im_width = dim_width x, im_height = dim_height x,
      im_orientation = dim_orientation x, im_media_id = dim_media_id x, im_album_id = dim_album_id x,
      im_mime_type = dim_mime_type x, im_thumbnail = dim_thumbnail x, im_album_name = dim_album_name x,
      im_date_taken = dim_date_taken x, im_latitude = dim_latitude x, im_longitude = dim_longitude x,
      im_mini_thumb_magic = dim_mini_thumb_magic x, im_title = dim_title x, im_thumbnail_error = dim_thumbnail_error x,
      im_starred = dim_starred x\<rparr>"

definition video_file_dto :: "VideoFile \<Rightarrow> VideoFileDto" where
  "video_file_dto x =
     \<lparr>dvf_path = vf_path x, dvf_size = vf_size x, dvf_created_at = vf_created_at x,
      dvf_modified_at = vf_modified_at x, dvf_width = vf_width x, dvf_height = vf_height x,
      dvf_orientation = vf_orientation x, dvf_media_id = vf_media_id x, dvf_album_id = vf_album_id x,
      dvf_mime_type = vf_mime_type x, dvf_thumbnail = vf_thumbnail x, dvf_thumbnail_error = vf_thumbnail_error x,
      dvf_duration = vf_duration x\<rparr>"

definition dto_to_video_file :: "VideoFileDto \<Rightarrow> VideoFile" where
  "dto_to_video_file x =
     \<lparr>vf_path = dvf_path x, vf_size = dvf_size x, vf_created_at = dvf_created_at x,
      vf_modified_at = dvf_modified_at x, vf_width = dvf_width x, vf_height = dvf_height x,
      vf_orientation = dvf_orientation x, vf_media_id = dvf_media_id x, vf_album_id = dvf_album_id x,
      vf_mime_type = dvf_mime_type x, vf_thumbnail = dvf_thumbnail x, vf_thumbnail_error = dvf_thumbnail_error x,
      vf_duration = dvf_duration x\<rparr>"

definition video_album_dto :: "VideoAlbum \<Rightarrow> VideoAlbumDto" where
  "video_album_dto x =
     \<lparr>dva_path = va_path x, dva_album_id = va_album_id x, dva_name = va_name x\<rparr>"

definition dto_to_video_album :: "VideoAlbumDto \<Rightarrow> VideoAlbum" where
  "dto_to_video_album x =
     \<lparr>va_path = dva_path x, va_album_id = dva_album_id x, va_name = dva_name x\<rparr>"

definition audio_file_dto :: "AudioFile \<Rightarrow> AudioFileDto" where
  "audio_file_dto x =
     \<lparr>daf_path = af_path x, daf_size = af_size x, daf_created_at = af_created_at x,
      daf_modified_at = af_modified_at x, daf_media_id = af_media_id x, daf_album_id = af_album_id x,
      daf_title = af_title x, daf_mime_type = af_mime_type x, daf_artist_id = af_artist_id x,
      daf_artist = af_artist x, daf_composer = af_composer x, daf_genre = af_genre x,
      daf_comment = af_comment x, daf_copyright = af_copyright x, daf_audio_codec = af_audio_codec x,
      daf_track = af_track x, daf_duration = af_duration x\<rparr>"

definition dto_to_audio_file :: "AudioFileDto \<Rightarrow> AudioFile" where
  "dto_to_audio_file x =
     \<lparr>af_path = daf_path x, af_size = daf_size x, af_created_at = daf_created_at x,
      af_modified_at = daf_modified_at x, af_media_id = daf_media_id x, af_album_id = daf_album_id x,
      af_title = daf_title x, af_mime_type = daf_mime_type x, af_artist_id = daf_artist_id x,
      af_artist = daf_artist x, af_composer = daf_composer x, af_genre = daf_genre x,
      af_comment = daf_comment x, af_copyright = daf_copyright x, af_audio_codec = daf_audio_codec x,
      af_track = daf_track x, af_duration = daf_duration x\<rparr>"

definition audio_album_dto :: "AudioAlbum \<Rightarrow> AudioAlbumDto" where
  "audio_album_dto x =
     \<lparr>daa_path = aa_path x, daa_album_id = aa_album_id x, daa_name = aa_name x,
      daa_artist_id = aa_artist_id x, daa_artist = aa_artist x, daa_year = aa_year x,
      daa_thumbnail = aa_thumbnail x, daa_thumbnail_error = aa_thumbnail_error x\<rparr>"

definition dto_to_audio_album :: "AudioAlbumDto \<Rightarrow> AudioAlbum" where
  "dto_to_audio_album x =
     \<lparr>aa_path = daa_path x, aa_album_id = daa_album_id x, aa_name = daa_name x,
      aa_artist_id = daa_artist_id x, aa_artist = daa_artist x, aa_year = daa_year x,
      aa_thumbnail = daa_thumbnail x, aa_thumbnail_error = daa_thumbnail_error x\<rparr>"

definition image_album_dto :: "ImageAlbum \<Rightarrow> ImageAlbumDto" where
  "image_album_dto x =
     \<lparr>dia_path = ia_path x, dia_album_id = ia_album_id x, dia_name = ia_name x,
      dia_cover_image = map_option image_file_dto (ia_cover_image x)\<rparr>"

definition dto_to_image_album :: "ImageAlbumDto \<Rightarrow> ImageAlbum" where
  "dto_to_image_album x =
     \<lparr>ia_path = dia_path x, ia_album_id = dia_album_id x, ia_name = dia_name x,
      ia_cover_image = map_option dto_to_image_file (dia_cover_image x)\<rparr>"

definition photo_library_dto :: "PhotoLibrary \<Rightarrow> PhotoLibraryDto" where
  "photo_library_dto x =
     \<lparr>dpl_images = map image_file_dto (pl_images x), dpl_albums = map image_album_dto (pl_albums x),
      dpl_camera_album_id = pl_camera_album_id x, dpl_next_cursor = None\<rparr>"

definition video_library_dto :: "VideoLibrary \<Rightarrow> VideoLibraryDto" where
  "video_library_dto x =
     \<lparr>dvl_videos = map video_file_dto (vl_videos x), dvl_albums = map video_album_dto (vl_albums x),
      dvl_next_cursor = None\<rparr>"

definition audio_library_dto :: "AudioLibrary \<Rightarrow> AudioLibraryDto" where
  "audio_library_dto x =
     \<lparr>dal_tracks = map audio_file_dto (al_tracks x), dal_albums = map audio_album_dto (al_albums x),
      dal_next_cursor = None\<rparr>"

definition thumbnails_dto :: "Thumbnails \<Rightarrow> ThumbnailsDto" where
  "thumbnails_dto x =
     \<lparr>dtn_images = map image_file_dto (tn_images x), dtn_videos = map video_file_dto (tn_videos x),
      dtn_audio_albums = map audio_album_dto (tn_audio_albums x)\<rparr>"

definition dto_to_photo_library :: "PhotoLibraryDto \<Rightarrow> PhotoLibrary" where
  "dto_to_photo_library x =
     \<lparr>pl_images = map dto_to_image_file (dpl_images x), pl_albums = map dto_to_image_album (dpl_albums x),
      pl_camera_album_id = dpl_camera_album_id x\<rparr>"

definition dto_to_video_library :: "VideoLibraryDto \<Rightarrow> VideoLibrary" where
  "dto_to_video_library x =
     \<lparr>vl_videos = map dto_to_video_file (dvl_videos x), vl_albums = map dto_to_video_album (dvl_albums x)\<rparr>"

definition dto_to_audio_library :: "AudioLibraryDto \<Rightarrow> AudioLibrary" where
  "dto_to_audio_library x =
     \<lparr>al_tracks = map dto_to_audio_file (dal_tracks x), al_albums = map dto_to_audio_album (dal_albums x)\<rparr>"

fun kind_to_core :: "MediaKindDto \<Rightarrow> MediaKind" where
  "kind_to_core DtoPhoto = Photo"
| "kind_to_core DtoVideo = Video"
| "kind_to_core DtoAudio = Audio"

definition item_to_core :: "MediaChangeItemDto \<Rightarrow> MediaItem" where
  "item_to_core x =
     \<lparr>mi_media_id = dci_media_id x, mi_album_id = None, mi_path = dci_path x, mi_size = dci_size x,
      mi_created_at = dci_created_at x, mi_modified_at = dci_modified_at x, mi_width = None,
      mi_height = None, mi_orientation = None, mi_mime_type = dci_mime_type x, mi_title = dci_title x,
      mi_album_name = dci_album_name x, mi_duration = None, mi_artist = None\<rparr>"

definition change_to_core :: "MediaChangeDto \<Rightarrow> MediaLibraryChange" where
  "change_to_core x =
     \<lparr>mc_kind = kind_to_core (dmc_media_kind x), mc_added = map item_to_core (dmc_added x),
      mc_deleted = map item_to_core (dmc_deleted x), mc_updated = map item_to_core (dmc_updated x),
      mc_albums = []\<rparr>"

section \<open>Merging\<close>

definition ensure_kind_matches :: "MediaKindDto \<Rightarrow> MediaKindDto \<Rightarrow> unit app_result" where
  "ensure_kind_matches actual expected =
     (if actual = expected then Inr () else Inl (public_error_new InvalidState ''media kind mismatch''))"

definition map_core :: "(core_error \<Rightarrow> string) \<Rightarrow> string \<Rightarrow> 'a core_result \<Rightarrow> 'a app_result" where
  "map_core display operation r =
     (case r of Inl e \<Rightarrow> Inl (from_core_error display e operation) | Inr x \<Rightarrow> Inr x)"

definition merge_photo_library ::
  "(core_error \<Rightarrow> string) \<Rightarrow> PhotoLibraryDto \<Rightarrow> MediaChangeDto \<Rightarrow> PhotoLibraryDto app_result" where
  "merge_photo_library display library change =
     and_then (ensure_kind_matches (dmc_media_kind change) DtoPhoto)
       (\<lambda>_. and_then (map_core display ''merge_photo_library''
                        (apply_photo (dto_to_photo_library library) (change_to_core change)))
         (\<lambda>merged. Inr (photo_library_dto merged)))"

definition merge_video_library ::
  "(core_error \<Rightarrow> string) \<Rightarrow> VideoLibraryDto \<Rightarrow> MediaChangeDto \<Rightarrow> VideoLibraryDto app_result" where
  "merge_video_library display library change =
     and_then (ensure_kind_matches (dmc_media_kind change) DtoVideo)
       (\<lambda>_. and_then (map_core display ''merge_video_library''
                        (apply_video (dto_to_video_library library) (change_to_core change)))
         (\<lambda>merged. Inr (video_library_dto merged)))"

definition merge_audio_library ::
  "(core_error \<Rightarrow> string) \<Rightarrow> AudioLibraryDto \<Rightarrow> MediaChangeDto \<Rightarrow> AudioLibraryDto app_result" where
  "merge_audio_library display library change =
     and_then (ensure_kind_matches (dmc_media_kind change) DtoAudio)
       (\<lambda>_. and_then (map_core display ''merge_audio_library''
                        (apply_audio (dto_to_audio_library library) (change_to_core change)))
         (\<lambda>merged. Inr (audio_library_dto merged)))"

definition strip_image :: "ImageFileDto \<Rightarrow> ImageFileDto" where
  "strip_image x = x\<lparr>dim_thumbnail := None, dim_thumbnail_error := False\<rparr>"

definition strip_photo_thumbnails :: "PhotoLibraryDto \<Rightarrow> PhotoLibraryDto" where
  "strip_photo_thumbnails x =
     x\<lparr>dpl_images := map strip_image (dpl_images x),
       dpl_albums := map (\<lambda>a. a\<lparr>dia_cover_image := map_option strip_image (dia_cover_image a)\<rparr>) (dpl_albums x)\<rparr>"

definition strip_video_thumbnails :: "VideoLibraryDto \<Rightarrow> VideoLibraryDto" where
  "strip_video_thumbnails x =
     x\<lparr>dvl_videos := map (\<lambda>v. v\<lparr>dvf_thumbnail := None, dvf_thumbnail_error := False\<rparr>) (dvl_videos x)\<rparr>"

definition strip_audio_thumbnails :: "AudioLibraryDto \<Rightarrow> AudioLibraryDto" where
  "strip_audio_thumbnails x =
     x\<lparr>dal_albums := map (\<lambda>a. a\<lparr>daa_thumbnail := None, daa_thumbnail_error := False\<rparr>) (dal_albums x)\<rparr>"

section \<open>Pages\<close>

definition MEDIA_PAGE_DEFAULT_LIMIT :: nat where
  "MEDIA_PAGE_DEFAULT_LIMIT = 500"

definition MEDIA_PAGE_MAX_LIMIT :: nat where
  "MEDIA_PAGE_MAX_LIMIT = 1000"

definition validate_page_limit :: "nat option \<Rightarrow> nat app_result" where
  "validate_page_limit limit =
     (case limit of
        None \<Rightarrow> Inr MEDIA_PAGE_DEFAULT_LIMIT
      | Some n \<Rightarrow>
          if n = 0 then Inl (with_operation (public_error_new InvalidArgument ''limit must be >= 1'') ''media.page'')
          else if n > MEDIA_PAGE_MAX_LIMIT
          then Inl (with_operation (public_error_new InvalidArgument ''limit exceeds the maximum'') ''media.page'')
          else Inr n)"

text \<open>\<open>Iterator::position\<close> and \<open>find_map\<close>.\<close>

fun position :: "('a \<Rightarrow> bool) \<Rightarrow> 'a list \<Rightarrow> nat option" where
  "position P [] = None"
| "position P (x # xs) = (if P x then Some 0 else map_option Suc (position P xs))"

fun find_map :: "('a \<Rightarrow> 'b option) \<Rightarrow> 'a list \<Rightarrow> 'b option" where
  "find_map f [] = None"
| "find_map f (x # xs) = (case f x of Some y \<Rightarrow> Some y | None \<Rightarrow> find_map f xs)"

definition slice_page :: "('a \<Rightarrow> nat option) \<Rightarrow> 'a list \<Rightarrow> nat option \<Rightarrow> nat \<Rightarrow> 'a list \<times> nat option" where
  "slice_page media_id items cursor limit =
     (if limit = 0 then ([], None)
      else let key = (\<lambda>x. the_or 0 (media_id x));
               sorted_items = sort_key key items;
               start = (case cursor of
                          Some c \<Rightarrow> the_or (length sorted_items) (position (\<lambda>x. key x > c) sorted_items)
                        | None \<Rightarrow> 0);
               stop = min (start + limit) (length sorted_items);
               page = take (stop - start) (drop start sorted_items)
           in if \<not> stop < length sorted_items then (page, None)
              else case find_map media_id (rev page) of
                     Some i \<Rightarrow> (page, Some i)
                   | None \<Rightarrow>
                       (case position (\<lambda>x. media_id x \<noteq> None) (drop stop sorted_items) of
                          None \<Rightarrow> (page, None)
                        | Some offset \<Rightarrow>
                            let x = sorted_items ! (stop + offset) in
                            (if page = [] then [x] else butlast page @ [x], media_id x)))"

text \<open>The three paged getters, on the library the cache returns.\<close>

definition photo_page :: "nat option \<Rightarrow> nat option \<Rightarrow> PhotoLibraryDto app_result \<Rightarrow> PhotoLibraryDto app_result" where
  "photo_page cursor limit cached =
     and_then (validate_page_limit limit) (\<lambda>n. and_then cached (\<lambda>full.
       case slice_page dim_media_id (dpl_images full) cursor n of
         (images, next_cursor) \<Rightarrow>
           Inr \<lparr>dpl_images = images, dpl_albums = dpl_albums full,
                dpl_camera_album_id = dpl_camera_album_id full, dpl_next_cursor = next_cursor\<rparr>))"

definition video_page :: "nat option \<Rightarrow> nat option \<Rightarrow> VideoLibraryDto app_result \<Rightarrow> VideoLibraryDto app_result" where
  "video_page cursor limit cached =
     and_then (validate_page_limit limit) (\<lambda>n. and_then cached (\<lambda>full.
       case slice_page dvf_media_id (dvl_videos full) cursor n of
         (videos, next_cursor) \<Rightarrow>
           Inr \<lparr>dvl_videos = videos, dvl_albums = dvl_albums full, dvl_next_cursor = next_cursor\<rparr>))"

definition audio_page :: "nat option \<Rightarrow> nat option \<Rightarrow> AudioLibraryDto app_result \<Rightarrow> AudioLibraryDto app_result" where
  "audio_page cursor limit cached =
     and_then (validate_page_limit limit) (\<lambda>n. and_then cached (\<lambda>full.
       case slice_page daf_media_id (dal_tracks full) cursor n of
         (tracks, next_cursor) \<Rightarrow>
           Inr \<lparr>dal_tracks = tracks, dal_albums = dal_albums full, dal_next_cursor = next_cursor\<rparr>))"

section \<open>Round trips\<close>

lemma image_file_dto_inverse [simp]: "dto_to_image_file (image_file_dto x) = x"
  by (cases x) (simp add: image_file_dto_def dto_to_image_file_def)

lemma dto_to_image_file_inverse [simp]: "image_file_dto (dto_to_image_file x) = x"
  by (cases x) (simp add: image_file_dto_def dto_to_image_file_def)

lemma video_file_dto_inverse [simp]: "dto_to_video_file (video_file_dto x) = x"
  by (cases x) (simp add: video_file_dto_def dto_to_video_file_def)

lemma dto_to_video_file_inverse [simp]: "video_file_dto (dto_to_video_file x) = x"
  by (cases x) (simp add: video_file_dto_def dto_to_video_file_def)

lemma video_album_dto_inverse [simp]: "dto_to_video_album (video_album_dto x) = x"
  by (cases x) (simp add: video_album_dto_def dto_to_video_album_def)

lemma dto_to_video_album_inverse [simp]: "video_album_dto (dto_to_video_album x) = x"
  by (cases x) (simp add: video_album_dto_def dto_to_video_album_def)

lemma audio_file_dto_inverse [simp]: "dto_to_audio_file (audio_file_dto x) = x"
  by (cases x) (simp add: audio_file_dto_def dto_to_audio_file_def)

lemma dto_to_audio_file_inverse [simp]: "audio_file_dto (dto_to_audio_file x) = x"
  by (cases x) (simp add: audio_file_dto_def dto_to_audio_file_def)

lemma audio_album_dto_inverse [simp]: "dto_to_audio_album (audio_album_dto x) = x"
  by (cases x) (simp add: audio_album_dto_def dto_to_audio_album_def)

lemma dto_to_audio_album_inverse [simp]: "audio_album_dto (dto_to_audio_album x) = x"
  by (cases x) (simp add: audio_album_dto_def dto_to_audio_album_def)

lemma image_album_dto_inverse [simp]: "dto_to_image_album (image_album_dto x) = x"
  by (cases x) (simp add: image_album_dto_def dto_to_image_album_def option.map_comp comp_def option.map_ident)

lemma library_dto_inverse [simp]:
  "dto_to_photo_library (photo_library_dto p) = p"
  "dto_to_video_library (video_library_dto v) = v"
  "dto_to_audio_library (audio_library_dto a) = a"
  by (cases p, simp add: dto_to_photo_library_def photo_library_dto_def comp_def)
    (cases v, simp add: dto_to_video_library_def video_library_dto_def comp_def,
     cases a, simp add: dto_to_audio_library_def audio_library_dto_def comp_def)

section \<open>Paging is complete\<close>

text \<open>A client that follows the cursors; \<open>None\<close> if the fuel runs out before the last page.\<close>

fun follow_pages :: "nat \<Rightarrow> ('a \<Rightarrow> nat option) \<Rightarrow> 'a list \<Rightarrow> nat \<Rightarrow> nat option \<Rightarrow> 'a list list option" where
  "follow_pages 0 media_id items limit cursor = None"
| "follow_pages (Suc fuel) media_id items limit cursor =
     (case slice_page media_id items cursor limit of
        (page, None) \<Rightarrow> Some [page]
      | (page, Some c) \<Rightarrow> map_option ((#) page) (follow_pages fuel media_id items limit (Some c)))"

definition keyed :: "('a \<Rightarrow> nat option) \<Rightarrow> 'a list \<Rightarrow> bool" where
  "keyed media_id items \<longleftrightarrow> list_all (\<lambda>x. media_id x \<noteq> None) items \<and> distinct (map media_id items)"

lemma position_eq:
  "n < length xs \<Longrightarrow> P (xs ! n) \<Longrightarrow> (\<And>m. m < n \<Longrightarrow> \<not> P (xs ! m)) \<Longrightarrow> position P xs = Some n"
proof (induction xs arbitrary: n)
  case (Cons x xs)
  show ?case
  proof (cases n)
    case (Suc k)
    have "\<not> P x" using Cons.prems(3)[of 0] Suc by simp
    moreover have "\<not> P (xs ! m)" if "m < k" for m using Cons.prems(3)[of "Suc m"] that Suc by simp
    then have "position P xs = Some k" using Cons.prems(1,2) Suc by (intro Cons.IH) simp_all
    ultimately show ?thesis using Suc by simp
  qed (use Cons.prems in simp)
qed simp

lemma find_map_last:
  "xs \<noteq> [] \<Longrightarrow> media_id (last xs) = Some i \<Longrightarrow> find_map media_id (rev xs) = Some i"
  by (cases xs rule: rev_cases) simp_all

lemma sorted_ids:
  fixes media_id :: "'a \<Rightarrow> nat option"
  assumes "keyed media_id items" "S = sort_key (\<lambda>x. the_or 0 (media_id x)) items"
  shows "strict_mono_on {..<length S} (\<lambda>i. the_or 0 (media_id (S ! i)))"
    and "x \<in> set S \<Longrightarrow> media_id x = Some (the_or 0 (media_id x))"
proof -
  let ?key = "\<lambda>x. the_or 0 (media_id x)"
  have set: "set S = set items" and mset: "mset S = mset items" using assms(2) by simp_all
  have some: "media_id x = Some (?key x)" if "x \<in> set S" for x
    using that set assms(1) by (auto simp: keyed_def list_all_iff the_or_def)
  then show "x \<in> set S \<Longrightarrow> media_id x = Some (?key x)" .
  have "distinct (map media_id S)"
    using assms(1) mset by (metis keyed_def mset_eq_imp_distinct_iff mset_map)
  moreover have "map media_id S = map Some (map ?key S)" using some by simp
  ultimately have "distinct (map ?key S)" by (simp only: distinct_map)
  moreover have "sorted (map ?key S)" using assms(2) by simp
  ultimately have "sorted_wrt (<) (map ?key S)" by (simp add: strict_sorted_iff)
  then show "strict_mono_on {..<length S} (\<lambda>i. ?key (S ! i))"
    by (auto simp: strict_mono_on_def sorted_wrt_iff_nth_less)
qed

definition cursor_at :: "('a \<Rightarrow> nat option) \<Rightarrow> 'a list \<Rightarrow> nat \<Rightarrow> nat option" where
  "cursor_at media_id S m = (if m = 0 then None else media_id (S ! (m - 1)))"

lemma slice_page_at:
  fixes media_id :: "'a \<Rightarrow> nat option"
  assumes "keyed media_id items" "S = sort_key (\<lambda>x. the_or 0 (media_id x)) items" "0 < limit" "m < length S \<or> m = 0"
  shows "slice_page media_id items (cursor_at media_id S m) limit =
    (take limit (drop m S), if m + limit < length S then cursor_at media_id S (m + limit) else None)"
proof -
  let ?key = "\<lambda>x. the_or 0 (media_id x)"
  note mono = sorted_ids(1)[OF assms(1,2)] and some = sorted_ids(2)[OF assms(1,2)]
  have start: "(case cursor_at media_id S m of
      Some c \<Rightarrow> the_or (length S) (position (\<lambda>x. ?key x > c) S) | None \<Rightarrow> 0) = m"
  proof (cases m)
    case 0
    then show ?thesis by (simp add: cursor_at_def)
  next
    case (Suc k)
    then have k: "k < length S" "Suc k < length S" using assms(4) by auto
    then have "cursor_at media_id S m = Some (?key (S ! k))" using Suc some[of "S ! k"] by (simp add: cursor_at_def)
    moreover have "position (\<lambda>x. ?key x > ?key (S ! k)) S = Some m"
      unfolding Suc
    proof (rule position_eq)
      show "Suc k < length S" by fact
      show "?key (S ! Suc k) > ?key (S ! k)"
        using mono k by (auto simp: strict_mono_on_def)
      show "\<not> ?key (S ! k) < ?key (S ! j)" if "j < Suc k" for j
        using mono k that by (auto simp: strict_mono_on_def less_Suc_eq not_less intro: less_imp_le)
    qed
    ultimately show ?thesis by (simp add: the_or_def)
  qed
  show ?thesis
  proof (cases "m + limit < length S")
    case True
    let ?page = "take limit (drop m S)"
    have "?page \<noteq> []" using True assms(3) by simp
    moreover have "last ?page = S ! (m + limit - 1)"
      using True assms(3) by (simp add: last_conv_nth)
    moreover have "media_id (S ! (m + limit - 1)) = Some (?key (S ! (m + limit - 1)))"
      using True assms(3) by (intro some nth_mem) simp
    ultimately have "find_map media_id (rev ?page) = Some (?key (S ! (m + limit - 1)))"
      by (intro find_map_last) simp_all
    moreover have "cursor_at media_id S (m + limit) = Some (?key (S ! (m + limit - 1)))"
      using assms(3) \<open>media_id (S ! (m + limit - 1)) = Some (?key (S ! (m + limit - 1)))\<close>
      by (simp add: cursor_at_def)
    ultimately show ?thesis
      using True assms(3) unfolding slice_page_def Let_def assms(2)[symmetric] start by simp
  next
    case False
    then show ?thesis
      using assms(3,4) unfolding slice_page_def Let_def assms(2)[symmetric] start by simp
  qed
qed

lemma follow_pages_at:
  fixes media_id :: "'a \<Rightarrow> nat option"
  assumes "keyed media_id items" "S = sort_key (\<lambda>x. the_or 0 (media_id x)) items" "0 < limit"
  shows "m < length S \<or> m = 0 \<Longrightarrow> length S - m < fuel \<Longrightarrow>
    \<exists>pages. follow_pages fuel media_id items limit (cursor_at media_id S m) = Some pages \<and>
      concat pages = drop m S \<and> list_all (\<lambda>page. length page \<le> limit) pages"
proof (induction fuel arbitrary: m)
  case (Suc fuel)
  note page = slice_page_at[OF assms Suc.prems(1)]
  show ?case
  proof (cases "m + limit < length S")
    case True
    obtain c where c: "cursor_at media_id S (m + limit) = Some c"
      using sorted_ids(2)[OF assms(1,2), of "S ! (m + limit - 1)"] True assms(3)
      by (auto simp: cursor_at_def)
    have fuel: "length S - (m + limit) < fuel" using True Suc.prems(2) assms(3) by linarith
    obtain pages where "follow_pages fuel media_id items limit (Some c) = Some pages"
      "concat pages = drop (m + limit) S" "list_all (\<lambda>page. length page \<le> limit) pages"
      using Suc.IH[of "m + limit"] True fuel c by auto
    then show ?thesis
      using page True c append_take_drop_id[of limit "drop m S"]
      by (intro exI[of _ "take limit (drop m S) # pages"]) (simp add: add.commute)
  next
    case False
    then show ?thesis using page by simp
  qed
qed simp

text \<open>C30 Paging neither loses nor repeats an entry: when all entries of a library carry distinct
  media ids, a client that follows the cursors from the first page reaches a last page, and the
  pages, none longer than the limit, make up the whole library in the order of the ids.\<close>

theorem paging_complete:
  fixes media_id :: "'a \<Rightarrow> nat option"
  assumes "keyed media_id items" "0 < limit"
  shows "\<exists>pages. follow_pages (Suc (length items)) media_id items limit None = Some pages \<and>
    concat pages = sort_key (\<lambda>x. the_or 0 (media_id x)) items \<and>
    list_all (\<lambda>page. length page \<le> limit) pages"
  using follow_pages_at[OF assms(1) refl assms(2), of 0 "Suc (length items)"]
  by (simp add: cursor_at_def)

theorem paging_complete_witness:
  "\<exists>pages. follow_pages 4 Some [7, 3, 5] 2 None = Some pages \<and> concat pages = [3, 5, 7 :: nat]"
  using paging_complete[of Some "[7, 3, 5]" 2]
  by (auto simp: keyed_def the_or_def insort_key.simps sort_key_def numeral_eq_Suc)

text \<open>Entries without an id are lost once they do not fit the first page: the entry that makes
  room for a cursor is never returned.\<close>

lemma unkeyed_entries_lost:
  "follow_pages 3 (\<lambda>x. if x < 2 then None else Some x) [0, 1, 2] 2 None = Some [[0, 2 :: nat], []]"
  by (simp add: numeral_eq_Suc slice_page_def the_or_def sort_key_def Let_def)

section \<open>The snapshot cache\<close>

type_synonym snapshot_key = "nat \<times> MediaKind"

record 'v media_cache =
  mk_epoch :: nat
  mk_snapshots :: "snapshot_key \<rightharpoonup> (nat \<times> 'v)"

definition MEDIA_SNAPSHOT_TTL :: nat where
  "MEDIA_SNAPSHOT_TTL = 30000"

text \<open>The critical sections: the look-up and the insertion of \<open>cached_photo_library\<close>, and the two
  parts of \<open>invalidate_media_snapshots_inner\<close>.\<close>

definition cache_lookup :: "nat \<Rightarrow> snapshot_key \<Rightarrow> 'v media_cache \<Rightarrow> 'v option" where
  "cache_lookup now key c =
     (case mk_snapshots c key of
        Some (fetched_at, v) \<Rightarrow> if now - fetched_at < MEDIA_SNAPSHOT_TTL then Some v else None
      | None \<Rightarrow> None)"

definition cache_store :: "snapshot_key \<Rightarrow> nat \<Rightarrow> nat \<Rightarrow> 'v \<Rightarrow> 'v media_cache \<Rightarrow> 'v media_cache" where
  "cache_store key epoch now v c =
     (if mk_epoch c = epoch then c\<lparr>mk_snapshots := (mk_snapshots c)(key \<mapsto> (now, v))\<rparr> else c)"

definition bump_epoch :: "'v media_cache \<Rightarrow> 'v media_cache" where
  "bump_epoch c = c\<lparr>mk_epoch := mk_epoch c + 1\<rparr>"

definition retain_others :: "nat \<Rightarrow> 'v media_cache \<Rightarrow> 'v media_cache" where
  "retain_others sid c = c\<lparr>mk_snapshots := (\<lambda>key. if fst key = sid then None else mk_snapshots c key)\<rparr>"

text \<open>\<open>cached_photo_library\<close> without interference: the library is fetched only if the cache has none.\<close>

definition cached_library ::
  "nat \<Rightarrow> snapshot_key \<Rightarrow> 'v app_result \<Rightarrow> 'v media_cache \<Rightarrow> 'v app_result \<times> 'v media_cache" where
  "cached_library now key fetch c =
     (case cache_lookup now key c of
        Some v \<Rightarrow> (Inr v, c)
      | None \<Rightarrow>
          (case fetch of
             Inl e \<Rightarrow> (Inl e, c)
           | Inr v \<Rightarrow> (Inr v, cache_store key (mk_epoch c) now v c)))"

text \<open>The steps of concurrent getters and invalidations. Every step takes one unit of a logical
  clock; a fetch is known by the time it began, and the libraries in the cache carry it.\<close>

record 'v cache_machine =
  cm_cache :: "('v \<times> nat) media_cache"
  cm_clock :: nat
  cm_fetching :: "(snapshot_key \<times> nat \<times> nat) list"
  cm_clearing :: "(nat \<times> nat) list"
  cm_bumped :: nat
  cm_cleared :: "nat \<Rightarrow> nat"

definition cache_start :: "'v cache_machine" where
  "cache_start = \<lparr>cm_cache = \<lparr>mk_epoch = 0, mk_snapshots = Map.empty\<rparr>, cm_clock = 1, cm_fetching = [],
     cm_clearing = [], cm_bumped = 0, cm_cleared = (\<lambda>_. 0)\<rparr>"

inductive cache_step :: "'v cache_machine \<Rightarrow> 'v cache_machine \<Rightarrow> bool" where
  begin_fetch: "cache_step m (m\<lparr>cm_clock := cm_clock m + 1,
      cm_fetching := (key, mk_epoch (cm_cache m), cm_clock m) # cm_fetching m\<rparr>)"
| fetch_fails: "f \<in> set (cm_fetching m) \<Longrightarrow>
    cache_step m (m\<lparr>cm_clock := cm_clock m + 1, cm_fetching := remove1 f (cm_fetching m)\<rparr>)"
| store: "(key, epoch, began) \<in> set (cm_fetching m) \<Longrightarrow>
    cache_step m (m\<lparr>cm_clock := cm_clock m + 1,
      cm_fetching := remove1 (key, epoch, began) (cm_fetching m),
      cm_cache := cache_store key epoch now (v, began) (cm_cache m)\<rparr>)"
| begin_invalidation: "cache_step m (m\<lparr>cm_clock := cm_clock m + 1, cm_cache := bump_epoch (cm_cache m),
      cm_bumped := cm_clock m, cm_clearing := (sid, cm_clock m) # cm_clearing m\<rparr>)"
| end_invalidation: "(sid, began) \<in> set (cm_clearing m) \<Longrightarrow>
    cache_step m (m\<lparr>cm_clock := cm_clock m + 1, cm_clearing := remove1 (sid, began) (cm_clearing m),
      cm_cache := retain_others sid (cm_cache m),
      cm_cleared := (cm_cleared m)(sid := max (cm_cleared m sid) began)\<rparr>)"

abbreviation cache_reachable :: "'v cache_machine \<Rightarrow> bool" where
  "cache_reachable \<equiv> reach ((=) cache_start) cache_step"

lemmas cache_init = reach_start[where start = "(=) cache_start" and step = cache_step, OF refl]
lemmas cache_next = reach_step[where start = "(=) cache_start" and step = cache_step]

definition cache_inv :: "'v cache_machine \<Rightarrow> bool" where
  "cache_inv m \<longleftrightarrow>
     cm_bumped m < cm_clock m \<and>
     (\<forall>(key, epoch, began) \<in> set (cm_fetching m). epoch \<le> mk_epoch (cm_cache m) \<and>
        (epoch = mk_epoch (cm_cache m) \<longrightarrow> cm_bumped m < began)) \<and>
     (\<forall>(sid, began) \<in> set (cm_clearing m). began \<le> cm_bumped m) \<and>
     (\<forall>sid. cm_cleared m sid \<le> cm_bumped m) \<and>
     (\<forall>key at v began. mk_snapshots (cm_cache m) key = Some (at, v, began) \<longrightarrow> cm_cleared m (fst key) < began)"

lemmas in_remove1 = set_remove1_subset[THEN subsetD]

lemma cache_step_inv:
  assumes "cache_step m m'" "cache_inv m"
  shows "cache_inv m'"
  using assms(1)
proof (cases rule: cache_step.cases)
  case (begin_fetch key)
  then show ?thesis using assms(2) unfolding cache_inv_def by simp
next
  case (fetch_fails f)
  then show ?thesis using assms(2) unfolding cache_inv_def by (auto dest!: in_remove1)
next
  case (store key epoch began now v)
  have "cm_cleared m (fst key) < began" if "epoch = mk_epoch (cm_cache m)"
  proof -
    have "cm_bumped m < began" using store(2) assms(2) that by (auto simp: cache_inv_def)
    moreover have "cm_cleared m (fst key) \<le> cm_bumped m" using assms(2) by (simp add: cache_inv_def)
    ultimately show ?thesis by linarith
  qed
  then show ?thesis
    using store(1) assms(2) unfolding cache_inv_def by (auto simp: cache_store_def dest!: in_remove1)
next
  case (begin_invalidation sid)
  have bumped: "cm_bumped m < cm_clock m"
    and cleared: "cm_cleared m i \<le> cm_bumped m" for i
    using assms(2) unfolding cache_inv_def by blast+
  have fetching: "epoch \<le> mk_epoch (cm_cache m)" if "(key, epoch, began) \<in> set (cm_fetching m)" for key epoch began
    using assms(2) that unfolding cache_inv_def by blast
  have clearing: "began \<le> cm_bumped m" if "(i, began) \<in> set (cm_clearing m)" for i began
    using assms(2) that unfolding cache_inv_def by blast
  have snapshots: "cm_cleared m (fst key) < began" if "mk_snapshots (cm_cache m) key = Some (at, v, began)" for key at v began
    using assms(2) that unfolding cache_inv_def by blast
  have "cm_cleared m i \<le> cm_clock m" for i using cleared[of i] bumped by linarith
  moreover have "began \<le> cm_clock m" if "(i, began) \<in> set (cm_clearing m)" for i began
    using clearing[OF that] bumped by linarith
  ultimately show ?thesis
    using begin_invalidation fetching snapshots unfolding cache_inv_def
    by (auto simp: bump_epoch_def le_Suc_eq dest!: fetching)
next
  case (end_invalidation sid began)
  then have "began \<le> cm_bumped m" using assms(2) by (auto simp: cache_inv_def)
  then show ?thesis
    using end_invalidation(1) assms(2) unfolding cache_inv_def
    by (auto simp: retain_others_def dest!: in_remove1 split: if_splits)
qed

interpretation caches: preserved_invariant "(=) cache_start" cache_step cache_inv
proof
  show "cache_inv m" if "cache_start = m" for m
    using that by (auto simp: cache_inv_def cache_start_def)
qed (rule cache_step_inv)

text \<open>C31 The cache never serves a library from before a change: however getters and invalidations
  interleave, a snapshot that a look-up returns is fresher than the time to live and belongs to a
  fetch that began after the latest finished invalidation of its session had begun.\<close>

theorem cache_never_stale:
  assumes "cache_reachable m" "cache_lookup now key (cm_cache m) = Some (v, began)"
  shows "cm_cleared m (fst key) < began \<and>
    (\<exists>at. mk_snapshots (cm_cache m) key = Some (at, v, began) \<and> now - at < MEDIA_SNAPSHOT_TTL)"
proof -
  obtain at where at: "mk_snapshots (cm_cache m) key = Some (at, v, began)" "now - at < MEDIA_SNAPSHOT_TTL"
    using assms(2) by (auto simp: cache_lookup_def split: option.splits if_splits)
  moreover have "cm_cleared m (fst key) < began"
    using caches.inv_reach[OF assms(1)] at(1) unfolding cache_inv_def by blast
  ultimately show ?thesis by blast
qed

theorem cache_never_stale_witness:
  "\<exists>m. cache_reachable m \<and> cache_lookup 5 (1, Photo) (cm_cache m) = Some (''lib'', 3) \<and> cm_cleared m 1 < 3"
proof -
  let ?c = "\<lparr>mk_epoch = 1, mk_snapshots = Map.empty\<rparr> :: (string \<times> nat) media_cache"
  let ?m1 = "\<lparr>cm_cache = ?c, cm_clock = 2, cm_fetching = [], cm_clearing = [(1, 1)], cm_bumped = 1, cm_cleared = (\<lambda>_. 0)\<rparr>"
  let ?m2 = "\<lparr>cm_cache = ?c, cm_clock = 3, cm_fetching = [], cm_clearing = [], cm_bumped = 1, cm_cleared = (\<lambda>_. 0)(1 := 1)\<rparr>"
  let ?m3 = "\<lparr>cm_cache = ?c, cm_clock = 4, cm_fetching = [((1, Photo), 1, 3)], cm_clearing = [], cm_bumped = 1,
    cm_cleared = (\<lambda>_. 0)(1 := 1)\<rparr>"
  let ?m4 = "\<lparr>cm_cache = ?c\<lparr>mk_snapshots := [(1, Photo) \<mapsto> (5, ''lib'', 3)]\<rparr>, cm_clock = 5, cm_fetching = [],
    cm_clearing = [], cm_bumped = 1, cm_cleared = (\<lambda>_. 0)(1 := 1)\<rparr>"
  have "cache_reachable ?m1"
    using cache_next[OF cache_init begin_invalidation[of cache_start 1]]
    by (simp add: cache_start_def bump_epoch_def numeral_eq_Suc)
  then have "cache_reachable ?m2"
    using cache_next[OF _ end_invalidation[of 1 1 ?m1]] by (simp add: retain_others_def cong: if_cong)
  then have "cache_reachable ?m3"
    using cache_next[OF _ begin_fetch[of ?m2 "(1, Photo)"]] by simp
  then have reach: "cache_reachable ?m4"
    using cache_next[OF _ store[of "(1, Photo)" 1 3 ?m3 5 "''lib''"]] by (simp add: cache_store_def)
  have look: "cache_lookup 5 (1, Photo) (cm_cache ?m4) = Some (''lib'', 3)"
    by (simp add: cache_lookup_def MEDIA_SNAPSHOT_TTL_def)
  show ?thesis using cache_never_stale[OF reach look] reach look by (intro exI[of _ ?m4]) simp
qed

end
