(* ===== verification/Runtime.thy ===== *)
theory Runtime
  imports MediaPages Transfers FilePlan
begin

text \<open>
  Sessions of the application runtime, \<open>handshaker-application/src/runtime.rs\<close>, with the event
  hub of \<open>event.rs\<close> and the values of \<open>dto.rs\<close> they publish. The runtime is shared: every critical
  section (a lock, an atomic operation, a compare-and-swap loop) is one function of
  \<open>RuntimeInner\<close>, and the operations compose them. The core client behind a session, the clock and
  the outcome of waiting for tasks are arguments.
\<close>

section \<open>Values\<close>

datatype TransportKind = Adb | Wifi | UsbAccessory

record AdbDetailDto =
  add_state :: string
  add_product :: "string option"
  add_model :: "string option"
  add_device :: "string option"

record UsbDetailDto =
  udd_bus_number :: nat
  udd_serial :: "string option"
  udd_vendor_id :: nat
  udd_product_id :: nat
  udd_mode :: string

record DeviceDescriptor =
  dd_id :: string
  dd_stable_id :: "string option"
  dd_display_name :: "string option"
  dd_model :: "string option"
  dd_transport :: TransportKind
  dd_transport_address :: string
  dd_available :: bool
  dd_adb :: "AdbDetailDto option"
  dd_usb :: "UsbDetailDto option"

datatype SessionState = Connecting | Ready | Disconnecting | Closed | SessionFailed

record DeviceInfoDto =
  ddi_serial :: string
  ddi_phone_id :: "string option"
  ddi_name :: "string option"
  ddi_model :: "string option"
  ddi_brand :: "string option"
  ddi_manufacturer :: "string option"
  ddi_smartisan_version :: "string option"
  ddi_apk_version :: "string option"
  ddi_apk_version_name :: "string option"
  ddi_root_path :: string
  ddi_external_storage_path :: "string option"
  ddi_disk_size :: "nat option"
  ddi_used_disk_size :: "nat option"
  ddi_battery_percentage :: "nat option"
  ddi_phone_locked :: "bool option"

record SessionSnapshot =
  ss_id :: nat
  ss_device :: DeviceDescriptor
  ss_device_info :: DeviceInfoDto
  ss_state :: SessionState
  ss_connected_at_ms :: nat
  ss_last_activity_at_ms :: "nat option"

datatype RemoteFileChangeKind =
  ChangeDirectory | ChangeFile | ChangePhotoSync | ChangeSyncMonitor

record RemoteFileChangeDto =
  rc_change_kind :: RemoteFileChangeKind
  rc_paths :: "string list"
  rc_files :: "FileEntryDto list"
  rc_statuses :: "string list"

record ClipboardEntryDto =
  dce_text :: string
  dce_timestamp_ms :: int

record SyncRunResultDto =
  rrd_downloaded :: "string list"
  rrd_deleted :: "string list"
  rrd_failures :: "string list"
  rrd_conflicts :: "string list"

datatype BackendEvent =
    RuntimeStarted
  | RuntimeStopping
  | DeviceAdded DeviceDescriptor
  | DeviceRemoved string
  | TransferUpdated TransferSnapshot
  | DeviceUpdated nat DeviceDescriptor
  | SessionStateChanged SessionSnapshot
  | ConnectionLostEvent nat
  | ClipboardChangedEvent nat "ClipboardEntryDto list"
  | MediaChangedEvent nat MediaChangeDto
  | RemoteFileChangedEvent nat RemoteFileChangeDto
  | SyncWatchApplied string nat SyncRunResultDto
  | Warning PublicError

record EventEnvelope =
  ee_sequence :: nat
  ee_timestamp_ms :: nat
  ee_event :: BackendEvent

section \<open>The event hub\<close>

text \<open>The log of the hub holds every published event, with whether the sender still existed.\<close>

record EventHub =
  eh_open :: bool
  eh_next_sequence :: nat
  eh_log :: "(EventEnvelope \<times> bool) list"

definition hub_new :: EventHub where
  "hub_new = \<lparr>eh_open = True, eh_next_sequence = 1, eh_log = []\<rparr>"

text \<open>\<open>publish\<close> draws its number before it takes the lock.\<close>

definition hub_number :: "EventHub \<Rightarrow> nat \<times> EventHub" where
  "hub_number h = (eh_next_sequence h, h\<lparr>eh_next_sequence := eh_next_sequence h + 1\<rparr>)"

definition hub_send :: "EventEnvelope \<Rightarrow> EventHub \<Rightarrow> EventHub" where
  "hub_send envelope h = h\<lparr>eh_log := eh_log h @ [(envelope, eh_open h)]\<rparr>"

definition publish :: "nat \<Rightarrow> BackendEvent \<Rightarrow> EventHub \<Rightarrow> EventHub" where
  "publish now event h =
     (case hub_number h of
        (n, h1) \<Rightarrow> hub_send \<lparr>ee_sequence = n, ee_timestamp_ms = now, ee_event = event\<rparr> h1)"

definition hub_close :: "EventHub \<Rightarrow> EventHub" where
  "hub_close h = h\<lparr>eh_open := False\<rparr>"

section \<open>Conversions\<close>

definition device_info_to_dto :: "DeviceInfo \<Rightarrow> DeviceInfoDto" where
  "device_info_to_dto info =
     \<lparr>ddi_serial = di_serial info, ddi_phone_id = di_phone_id info, ddi_name = di_name info,
      ddi_model = di_model info, ddi_brand = di_brand info, ddi_manufacturer = di_manufacturer info,
      ddi_smartisan_version = di_smartisan_version info, ddi_apk_version = di_apk_version info, ddi_apk_version_name = di_apk_version_name info,
      ddi_root_path = di_root_path info, ddi_external_storage_path = di_external_storage_path info, ddi_disk_size = di_disk_size info,
      ddi_used_disk_size = di_used_disk_size info, ddi_battery_percentage = di_battery_percentage info, ddi_phone_locked = di_phone_locked info\<rparr>"

definition reconcile_device_identity :: "DeviceDescriptor \<Rightarrow> DeviceInfoDto \<Rightarrow> DeviceDescriptor" where
  "reconcile_device_identity discovered info =
     (let d1 = discovered\<lparr>dd_stable_id := (case ddi_phone_id info of
                None \<Rightarrow> None
              | Some i \<Rightarrow> if trim i = [] then None else Some (''phone:'' @ i))\<rparr>;
          d2 = (case ddi_name info of None \<Rightarrow> d1 | Some name \<Rightarrow> d1\<lparr>dd_display_name := Some name\<rparr>)
      in case ddi_model info of None \<Rightarrow> d2 | Some model \<Rightarrow> d2\<lparr>dd_model := Some model\<rparr>)"

datatype ConnectionTarget = TargetAdb "string option" | TargetWifi string | TargetUsb "string option"

text \<open>Parsing a socket address is an argument.\<close>

definition connection_target_for ::
  "(string \<Rightarrow> string option) \<Rightarrow> DeviceDescriptor \<Rightarrow> ConnectionTarget app_result" where
  "connection_target_for parse_address device =
     (case dd_transport device of
        Adb \<Rightarrow> Inr (TargetAdb (Some (dd_id device)))
      | Wifi \<Rightarrow>
          (case parse_address (dd_transport_address device) of
             None \<Rightarrow> Inl (public_error_new InvalidArgument ''invalid wifi address'')
           | Some address \<Rightarrow> Inr (TargetWifi address))
      | UsbAccessory \<Rightarrow> Inr (TargetUsb (Some (dd_id device))))"

definition device_uuid_matches_phone :: "string \<Rightarrow> string \<Rightarrow> bool" where
  "device_uuid_matches_phone device_uuid phone_id \<longleftrightarrow>
     the_or device_uuid (str_strip_prefix ''phone:'' device_uuid) =
     the_or phone_id (str_strip_prefix ''phone:'' phone_id)"

fun file_change_status_token :: "FileChangeStatus \<Rightarrow> string" where
  "file_change_status_token SNone = ''none''"
| "file_change_status_token SAdded = ''added''"
| "file_change_status_token SDeleted = ''deleted''"
| "file_change_status_token SModified = ''modified''"
| "file_change_status_token SInfoModified = ''info_modified''"
| "file_change_status_token SFileAndInfoModified = ''file_and_info_modified''"
| "file_change_status_token SUnknown = ''unknown''"

definition media_change_item_dto :: "MediaItem \<Rightarrow> MediaChangeItemDto" where
  "media_change_item_dto i =
     \<lparr>dci_media_id = mi_media_id i, dci_path = mi_path i, dci_size = mi_size i,
      dci_created_at = mi_created_at i, dci_modified_at = mi_modified_at i,
      dci_mime_type = mi_mime_type i, dci_title = mi_title i, dci_album_name = mi_album_name i\<rparr>"

definition media_change_to_dto :: "MediaLibraryChange \<Rightarrow> MediaChangeDto" where
  "media_change_to_dto c =
     \<lparr>dmc_media_kind = (case mc_kind c of Photo \<Rightarrow> DtoPhoto | Video \<Rightarrow> DtoVideo | Audio \<Rightarrow> DtoAudio),
      dmc_added = map media_change_item_dto (mc_added c),
      dmc_deleted = map media_change_item_dto (mc_deleted c),
      dmc_updated = map media_change_item_dto (mc_updated c)\<rparr>"

section \<open>The runtime\<close>

record ActiveSession =
  as_device :: DeviceDescriptor
  as_device_info :: DeviceInfoDto
  as_connected_at_ms :: nat
  as_last_activity_at_ms :: nat
  as_state :: SessionState
  as_event_task :: bool

datatype MediaSnapshotEntry =
  PhotoEntry PhotoLibraryDto | VideoEntry VideoLibraryDto | AudioEntry AudioLibraryDto

record RuntimeInner =
  ri_sessions :: "nat \<rightharpoonup> ActiveSession"
  ri_next_session_id :: nat
  ri_shutting_down :: bool
  ri_event_hub :: EventHub
  ri_transfers :: TransferRegistry
  ri_media :: "MediaSnapshotEntry media_cache"

definition create_runtime :: "nat \<Rightarrow> nat \<Rightarrow> nat option \<Rightarrow> RuntimeInner app_result" where
  "create_runtime event_capacity history_capacity history_ttl =
     (if event_capacity = 0 then Inl (public_error_new InvalidArgument ''event_capacity must be positive'')
      else if history_capacity = 0
      then Inl (public_error_new InvalidArgument ''transfer_history_capacity must be positive'')
      else Inr \<lparr>ri_sessions = Map.empty, ri_next_session_id = 1, ri_shutting_down = False,
                ri_event_hub = hub_new, ri_transfers = registry_new history_capacity history_ttl,
                ri_media = \<lparr>mk_epoch = 0, mk_snapshots = Map.empty\<rparr>\<rparr>)"

definition session_snapshot :: "nat \<Rightarrow> SessionState \<Rightarrow> ActiveSession \<Rightarrow> SessionSnapshot" where
  "session_snapshot i state a =
     \<lparr>ss_id = i, ss_device = as_device a, ss_device_info = as_device_info a, ss_state = state,
      ss_connected_at_ms = as_connected_at_ms a, ss_last_activity_at_ms = Some (as_last_activity_at_ms a)\<rparr>"

definition runtime_publish :: "nat \<Rightarrow> BackendEvent \<Rightarrow> RuntimeInner \<Rightarrow> RuntimeInner" where
  "runtime_publish now event r = r\<lparr>ri_event_hub := publish now event (ri_event_hub r)\<rparr>"

definition ensure_open :: "RuntimeInner \<Rightarrow> unit app_result" where
  "ensure_open r =
     (if ri_shutting_down r then Inl (public_error_new RuntimeClosed ''runtime is shut down'') else Inr ())"

definition invalidate_media_snapshots :: "nat \<Rightarrow> RuntimeInner \<Rightarrow> RuntimeInner" where
  "invalidate_media_snapshots i r = r\<lparr>ri_media := retain_others i (bump_epoch (ri_media r))\<rparr>"

section \<open>Connecting\<close>

text \<open>After the core has connected: a fresh id and the session object.\<close>

definition connect_register ::
  "nat \<Rightarrow> DeviceDescriptor \<Rightarrow> DeviceInfo \<Rightarrow> RuntimeInner \<Rightarrow> nat \<times> ActiveSession \<times> RuntimeInner" where
  "connect_register now device info r =
     (let dto = device_info_to_dto info in
      (ri_next_session_id r,
       \<lparr>as_device = reconcile_device_identity device dto, as_device_info = dto, as_connected_at_ms = now,
        as_last_activity_at_ms = now, as_state = Ready, as_event_task = True\<rparr>,
       r\<lparr>ri_next_session_id := ri_next_session_id r + 1\<rparr>))"

definition connect_insert :: "nat \<Rightarrow> ActiveSession \<Rightarrow> RuntimeInner \<Rightarrow> unit app_result \<times> RuntimeInner" where
  "connect_insert i a r =
     (if ri_shutting_down r then (Inl (public_error_new RuntimeClosed ''runtime is shut down''), r)
      else (Inr (), r\<lparr>ri_sessions := (ri_sessions r)(i \<mapsto> a)\<rparr>))"

definition get_session_snapshot :: "nat \<Rightarrow> RuntimeInner \<Rightarrow> SessionSnapshot app_result" where
  "get_session_snapshot i r =
     and_then (ensure_open r)
       (\<lambda>_. case ri_sessions r i of
              None \<Rightarrow> Inl (public_error_new SessionNotFound ''session not found'')
            | Some a \<Rightarrow> Inr (session_snapshot i (as_state a) a))"

definition connect ::
  "(core_error \<Rightarrow> string) \<Rightarrow> (string \<Rightarrow> string option) \<Rightarrow> nat \<Rightarrow> DeviceDescriptor \<Rightarrow> unit app_result
   \<Rightarrow> (ConnectionTarget \<Rightarrow> DeviceInfo core_result) \<Rightarrow> RuntimeInner \<Rightarrow> nat app_result \<times> RuntimeInner" where
  "connect display parse_address now device state_store core_connect r =
     (case and_then (ensure_open r) (\<lambda>_. and_then (connection_target_for parse_address device)
              (\<lambda>target. and_then state_store (\<lambda>_. map_core display ''connect'' (core_connect target)))) of
        Inl e \<Rightarrow> (Inl e, r)
      | Inr info \<Rightarrow>
          (case connect_register now device info r of
             (i, a, r1) \<Rightarrow>
               (case connect_insert i a r1 of
                  (Inl e, r2) \<Rightarrow> (Inl e, r2)
                | (Inr _, r2) \<Rightarrow>
                    (case get_session_snapshot i r2 of
                       Inl e \<Rightarrow> (Inl e, r2)
                     | Inr snap \<Rightarrow> (Inr i, runtime_publish now (SessionStateChanged snap) r2)))))"

section \<open>Closing\<close>

text \<open>The compare-and-swap loop of \<open>close_session\<close>: whether this closer goes on.\<close>

definition close_begin :: "ActiveSession \<Rightarrow> ActiveSession option" where
  "close_begin a =
     (if as_state a = Closed \<or> as_state a = SessionFailed then None else Some (a\<lparr>as_state := Disconnecting\<rparr>))"

text \<open>How the rest of a close goes: how many transfer tasks had to be aborted, whether this is the
  last owner of the session and of its client, and what closing the client returns.\<close>

record close_io =
  cl_aborted :: nat
  cl_session_owner :: bool
  cl_client_owner :: bool
  cl_close :: "unit core_result"

definition close_warning :: "(core_error \<Rightarrow> string) \<Rightarrow> close_io \<Rightarrow> PublicError option" where
  "close_warning display io =
     (let aborted = (if cl_aborted io > 0
                     then Some (public_error_new Internal ''aborted transfer task(s) after close deadline'') else None)
      in if \<not> cl_session_owner io
         then Some (public_error_new Internal ''session close raced with another closer; connection closed by last owner'')
         else if \<not> cl_client_owner io
         then Some (public_error_new Internal ''session client still borrowed; connection closed by last owner'')
         else case cl_close io of
                Inl e \<Rightarrow> Some (from_core_error display e ''disconnect'')
              | Inr _ \<Rightarrow> aborted)"

definition close_finish ::
  "(core_error \<Rightarrow> string) \<Rightarrow> close_io \<Rightarrow> nat \<Rightarrow> nat \<Rightarrow> ActiveSession \<Rightarrow> RuntimeInner \<Rightarrow> RuntimeInner" where
  "close_finish display io now i a r =
     (let r1 = r\<lparr>ri_transfers := fst (cancel_for_session now i (ri_transfers r))\<rparr>;
          r2 = runtime_publish now (SessionStateChanged (session_snapshot i Closed a)) r1;
          r3 = invalidate_media_snapshots i r2
      in case close_warning display io of
           None \<Rightarrow> r3
         | Some w \<Rightarrow> runtime_publish now (Warning w) r3)"

definition close_session ::
  "(core_error \<Rightarrow> string) \<Rightarrow> close_io \<Rightarrow> nat \<Rightarrow> nat \<Rightarrow> ActiveSession \<Rightarrow> RuntimeInner \<Rightarrow> RuntimeInner" where
  "close_session display io now i a r =
     (case close_begin a of None \<Rightarrow> r | Some a1 \<Rightarrow> close_finish display io now i a1 r)"

definition remove_session :: "nat \<Rightarrow> RuntimeInner \<Rightarrow> (ActiveSession \<times> RuntimeInner) option" where
  "remove_session i r =
     map_option (\<lambda>a. (a, r\<lparr>ri_sessions := (ri_sessions r)(i := None)\<rparr>)) (ri_sessions r i)"

definition disconnect ::
  "(core_error \<Rightarrow> string) \<Rightarrow> close_io \<Rightarrow> nat \<Rightarrow> nat \<Rightarrow> RuntimeInner \<Rightarrow> unit app_result \<times> RuntimeInner" where
  "disconnect display io now i r =
     (case ensure_open r of
        Inl e \<Rightarrow> (Inl e, r)
      | Inr _ \<Rightarrow>
          (case remove_session i r of
             None \<Rightarrow> (Inl (public_error_new SessionNotFound ''session not found''), r)
           | Some (a, r1) \<Rightarrow> (Inr (), close_session display io now i a r1)))"

section \<open>Connection loss\<close>

text \<open>The part of \<open>mark_connection_lost\<close> under the lock, and what follows it.\<close>

definition lost_begin :: "nat \<Rightarrow> RuntimeInner \<Rightarrow> (SessionSnapshot \<times> RuntimeInner) option" where
  "lost_begin i r =
     (case ri_sessions r i of
        None \<Rightarrow> None
      | Some a \<Rightarrow>
          if as_state a \<noteq> Ready then None
          else let a1 = a\<lparr>as_state := SessionFailed, as_event_task := False\<rparr> in
               Some (session_snapshot i SessionFailed a1, r\<lparr>ri_sessions := (ri_sessions r)(i \<mapsto> a1)\<rparr>))"

definition lost_finish :: "nat \<Rightarrow> nat \<Rightarrow> SessionSnapshot \<Rightarrow> RuntimeInner \<Rightarrow> RuntimeInner" where
  "lost_finish now i snap r =
     (let r1 = r\<lparr>ri_transfers := fst (cancel_for_session now i (ri_transfers r))\<rparr>
      in runtime_publish now (SessionStateChanged snap) (runtime_publish now (ConnectionLostEvent i) r1))"

definition mark_connection_lost :: "nat \<Rightarrow> nat \<Rightarrow> RuntimeInner \<Rightarrow> RuntimeInner" where
  "mark_connection_lost now i r =
     (case lost_begin i r of None \<Rightarrow> r | Some (snap, r1) \<Rightarrow> lost_finish now i snap r1)"

section \<open>Requests\<close>

definition session_handle :: "nat \<Rightarrow> RuntimeInner \<Rightarrow> ActiveSession app_result" where
  "session_handle i r =
     (case ri_sessions r i of
        None \<Rightarrow> Inl (public_error_new SessionNotFound ''session not found'')
      | Some a \<Rightarrow>
          if as_state a \<noteq> Ready then Inl (public_error_new SessionClosed ''session is not ready'') else Inr a)"

definition record_activity :: "nat \<Rightarrow> nat \<Rightarrow> RuntimeInner \<Rightarrow> RuntimeInner" where
  "record_activity now i r =
     (case ri_sessions r i of
        None \<Rightarrow> r
      | Some a \<Rightarrow> r\<lparr>ri_sessions := (ri_sessions r)(i \<mapsto> a\<lparr>as_last_activity_at_ms := now\<rparr>)\<rparr>)"

text \<open>\<open>request\<close>: \<open>meanwhile\<close> is what others do to the runtime while the core call is under way.\<close>

definition request ::
  "(core_error \<Rightarrow> string) \<Rightarrow> nat \<Rightarrow> nat \<Rightarrow> string \<Rightarrow> 'a core_result \<Rightarrow> (RuntimeInner \<Rightarrow> RuntimeInner) \<Rightarrow> RuntimeInner
   \<Rightarrow> 'a app_result \<times> RuntimeInner" where
  "request display now i operation outcome meanwhile r =
     (case and_then (ensure_open r) (\<lambda>_. session_handle i r) of
        Inl e \<Rightarrow> (Inl e, r)
      | Inr _ \<Rightarrow>
          (let r1 = record_activity now i (meanwhile r) in
           case outcome of
             Inr value \<Rightarrow> (Inr value, r1)
           | Inl e \<Rightarrow>
               (let pub = from_core_error display e operation in
                (Inl pub,
                 if connection_lost_code (pe_code pub) then mark_connection_lost now i r1 else r1))))"

section \<open>Events of the phone\<close>

definition remote_change ::
  "RemoteFileChangeKind \<Rightarrow> string list \<Rightarrow> FileEntryDto list \<Rightarrow> string list \<Rightarrow> RemoteFileChangeDto" where
  "remote_change kind paths files statuses =
     \<lparr>rc_change_kind = kind, rc_paths = paths, rc_files = files, rc_statuses = statuses\<rparr>"

text \<open>\<open>bridge_client_event\<close>: the event to publish, and the effects on the session's device
  information and on the media cache.\<close>

definition set_device_info :: "nat \<Rightarrow> DeviceInfoDto \<Rightarrow> RuntimeInner \<Rightarrow> RuntimeInner" where
  "set_device_info i info r =
     (case ri_sessions r i of
        None \<Rightarrow> r
      | Some a \<Rightarrow> r\<lparr>ri_sessions := (ri_sessions r)(i \<mapsto> a\<lparr>as_device_info := info\<rparr>)\<rparr>)"

fun bridge_client_event ::
  "ClientEvent \<Rightarrow> nat \<Rightarrow> DeviceDescriptor \<Rightarrow> RuntimeInner \<Rightarrow> BackendEvent \<times> RuntimeInner" where
  "bridge_client_event (DeviceInfoChanged info) i device r =
     (let dto = device_info_to_dto info in
      (DeviceUpdated i (reconcile_device_identity device dto), set_device_info i dto r))"
| "bridge_client_event (ClipboardChanged entries) i device r =
     (ClipboardChangedEvent i
        (map (\<lambda>e. \<lparr>dce_text = ce_text e, dce_timestamp_ms = ce_timestamp_ms e\<rparr>) entries), r)"
| "bridge_client_event (MediaLibraryChanged change) i device r =
     (MediaChangedEvent i (media_change_to_dto change), invalidate_media_snapshots i r)"
| "bridge_client_event (DirectoryChanged events) i device r =
     (RemoteFileChangedEvent i (remote_change ChangeDirectory
        (List.map_filter (\<lambda>e. map_option rf_path (fe_file e)) events)
        (List.map_filter (\<lambda>e. map_option remote_file_to_dto (fe_file e)) events) []), r)"
| "bridge_client_event (FileChanged changes) i device r =
     (RemoteFileChangedEvent i (remote_change ChangeFile
        (List.map_filter (\<lambda>c. map_option rf_path (fc_file c)) changes)
        (List.map_filter (\<lambda>c. map_option remote_file_to_dto (fc_file c)) changes)
        (List.map_filter (\<lambda>c. map_option (\<lambda>_. file_change_status_token (fc_status c)) (fc_file c)) changes)), r)"
| "bridge_client_event (PhotoSyncChanged change) i device r =
     (RemoteFileChangedEvent i (remote_change ChangePhotoSync (map rf_path (ps_files change))
        (map remote_file_to_dto (ps_files change)) []), r)"
| "bridge_client_event (SyncMonitorChanged _) i device r =
     (RemoteFileChangedEvent i (remote_change ChangeSyncMonitor [] [] []), r)"
| "bridge_client_event (RequestCancelled _) i device r =
     (Warning (public_error_new RemoteCancelled ''phone requested cancellation outside an active request''), r)"
| "bridge_client_event (UnknownClientEvent _) i device r =
     (Warning (public_error_new ProtocolError ''unclassified phone event''), r)"

text \<open>One turn of \<open>run_event_bridge\<close> on what the subscription returns; the flag says whether the task
  goes on.\<close>

definition bridge_turn ::
  "nat \<Rightarrow> nat \<Rightarrow> DeviceDescriptor \<Rightarrow> EventStreamError + ClientEvent \<Rightarrow> RuntimeInner \<Rightarrow> bool \<times> RuntimeInner" where
  "bridge_turn now i device item r =
     (case item of
        Inr event \<Rightarrow>
          (case bridge_client_event event i device r of (ev, r1) \<Rightarrow> (True, runtime_publish now ev r1))
      | Inl (StreamLagged missed) \<Rightarrow>
          (True, runtime_publish now (Warning (public_error_new InvalidState ''core event stream lagged'')) r)
      | Inl StreamClosed \<Rightarrow> (False, mark_connection_lost now i r))"

section \<open>Concurrent sessions\<close>

text \<open>The threads at work on sessions, each between two of its critical sections: connecting
  (registered, not yet inserted), announcing (a snapshot read, not yet published), closing before
  and after its compare-and-swap, and losing (marked failed, not yet published). \<open>mc_rejected\<close> are
  the sessions a shutdown kept out.\<close>

record runtime_machine =
  mc_runtime :: RuntimeInner
  mc_connecting :: "(nat \<times> ActiveSession) list"
  mc_announcing :: "SessionSnapshot list"
  mc_closers :: "(nat \<times> ActiveSession) list"
  mc_closing :: "(nat \<times> ActiveSession) list"
  mc_losing :: "(nat \<times> SessionSnapshot) list"
  mc_rejected :: "nat list"

inductive runtime_step :: "runtime_machine \<Rightarrow> runtime_machine \<Rightarrow> bool" where
  connected: "connect_register now device info (mc_runtime m) = (i, a, r) \<Longrightarrow>
    runtime_step m (m\<lparr>mc_runtime := r, mc_connecting := (i, a) # mc_connecting m\<rparr>)"
| inserted: "(i, a) \<in> set (mc_connecting m) \<Longrightarrow> connect_insert i a (mc_runtime m) = (Inr (), r) \<Longrightarrow>
    runtime_step m (m\<lparr>mc_runtime := r, mc_connecting := remove1 (i, a) (mc_connecting m)\<rparr>)"
| rejected: "(i, a) \<in> set (mc_connecting m) \<Longrightarrow> connect_insert i a (mc_runtime m) = (Inl e, r) \<Longrightarrow>
    runtime_step m (m\<lparr>mc_runtime := r, mc_connecting := remove1 (i, a) (mc_connecting m),
      mc_rejected := i # mc_rejected m\<rparr>)"
| read_snapshot: "get_session_snapshot i (mc_runtime m) = Inr snap \<Longrightarrow>
    runtime_step m (m\<lparr>mc_announcing := snap # mc_announcing m\<rparr>)"
| announced_ready: "snap \<in> set (mc_announcing m) \<Longrightarrow>
    runtime_step m (m\<lparr>mc_runtime := runtime_publish now (SessionStateChanged snap) (mc_runtime m),
      mc_announcing := remove1 snap (mc_announcing m)\<rparr>)"
| removed: "remove_session i (mc_runtime m) = Some (a, r) \<Longrightarrow>
    runtime_step m (m\<lparr>mc_runtime := r, mc_closers := (i, a) # mc_closers m\<rparr>)"
| close_refused: "(i, a) \<in> set (mc_closers m) \<Longrightarrow> close_begin a = None \<Longrightarrow>
    runtime_step m (m\<lparr>mc_closers := remove1 (i, a) (mc_closers m)\<rparr>)"
| close_begun: "(i, a) \<in> set (mc_closers m) \<Longrightarrow> close_begin a = Some a1 \<Longrightarrow>
    runtime_step m (m\<lparr>mc_closers := remove1 (i, a) (mc_closers m), mc_closing := (i, a1) # mc_closing m\<rparr>)"
| close_finished: "(i, a) \<in> set (mc_closing m) \<Longrightarrow>
    runtime_step m (m\<lparr>mc_runtime := close_finish display io now i a (mc_runtime m),
      mc_closing := remove1 (i, a) (mc_closing m)\<rparr>)"
| loss_begun: "lost_begin i (mc_runtime m) = Some (snap, r) \<Longrightarrow>
    runtime_step m (m\<lparr>mc_runtime := r, mc_losing := (i, snap) # mc_losing m\<rparr>)"
| loss_finished: "(i, snap) \<in> set (mc_losing m) \<Longrightarrow>
    runtime_step m (m\<lparr>mc_runtime := lost_finish now i snap (mc_runtime m),
      mc_losing := remove1 (i, snap) (mc_losing m)\<rparr>)"
| activity: "runtime_step m (m\<lparr>mc_runtime := record_activity now i (mc_runtime m)\<rparr>)"
| bridged: "bridge_client_event event i device (mc_runtime m) = (ev, r) \<Longrightarrow>
    runtime_step m (m\<lparr>mc_runtime := runtime_publish now ev r\<rparr>)"
| stopping: "runtime_step m (m\<lparr>mc_runtime := runtime_publish now RuntimeStopping
      ((mc_runtime m)\<lparr>ri_shutting_down := True\<rparr>)\<rparr>)"
| stopped: "ri_shutting_down (mc_runtime m) \<Longrightarrow>
    runtime_step m (m\<lparr>mc_runtime := (mc_runtime m)\<lparr>ri_event_hub := hub_close (ri_event_hub (mc_runtime m))\<rparr>\<rparr>)"

definition machine_start :: "RuntimeInner \<Rightarrow> runtime_machine" where
  "machine_start r = \<lparr>mc_runtime = r, mc_connecting = [], mc_announcing = [], mc_closers = [], mc_closing = [],
     mc_losing = [], mc_rejected = []\<rparr>"

inductive runtime_created :: "runtime_machine \<Rightarrow> bool" where
  created: "create_runtime ec hc ttl = Inr r \<Longrightarrow> runtime_created (machine_start r)"

abbreviation runtime_reachable :: "runtime_machine \<Rightarrow> bool" where
  "runtime_reachable \<equiv> reach runtime_created runtime_step"

lemmas runtime_init = reach_start[where start = runtime_created and step = runtime_step]
lemmas runtime_next = reach_step[where start = runtime_created and step = runtime_step]

section \<open>Every session ends once\<close>

text \<open>The end of a session as subscribers see it: the event that it is closed, or that its
  connection is lost.\<close>

fun ends :: "nat \<Rightarrow> BackendEvent \<Rightarrow> bool" where
  "ends i (SessionStateChanged snap) \<longleftrightarrow> ss_id snap = i \<and> ss_state snap = Closed"
| "ends i (ConnectionLostEvent j) \<longleftrightarrow> j = i"
| "ends i _ \<longleftrightarrow> False"

definition endings :: "nat \<Rightarrow> RuntimeInner \<Rightarrow> nat" where
  "endings i r = length (filter (\<lambda>(envelope, _). ends i (ee_event envelope)) (eh_log (ri_event_hub r)))"

definition sessions_of :: "nat \<Rightarrow> (nat \<times> 'a) list \<Rightarrow> nat" where
  "sessions_of i xs = length (filter (\<lambda>(j, _). j = i) xs)"

definition ready_of :: "nat \<Rightarrow> (nat \<times> ActiveSession) list \<Rightarrow> nat" where
  "ready_of i xs = length (filter (\<lambda>(j, a). j = i \<and> as_state a = Ready) xs)"

definition registered_ready :: "nat \<Rightarrow> RuntimeInner \<Rightarrow> nat" where
  "registered_ready i r = (case ri_sessions r i of Some a \<Rightarrow> if as_state a = Ready then 1 else 0 | None \<Rightarrow> 0)"

text \<open>Each session has one unit, which every step passes on: from connecting to the registry, to a
  closer or a loser, and to the event that ends it.\<close>

definition credit :: "nat \<Rightarrow> runtime_machine \<Rightarrow> nat" where
  "credit i m =
     sessions_of i (mc_connecting m) + registered_ready i (mc_runtime m) + ready_of i (mc_closers m) +
     sessions_of i (mc_closing m) + sessions_of i (mc_losing m) + endings i (mc_runtime m) +
     length (filter (\<lambda>j. j = i) (mc_rejected m))"

definition credit_ok :: "runtime_machine \<Rightarrow> bool" where
  "credit_ok m \<longleftrightarrow> 1 \<le> ri_next_session_id (mc_runtime m) \<and>
     (\<forall>i. credit i m = (if 1 \<le> i \<and> i < ri_next_session_id (mc_runtime m) then 1 else 0))"

definition states_ok :: "runtime_machine \<Rightarrow> bool" where
  "states_ok m \<longleftrightarrow>
     (\<forall>(i, a) \<in> set (mc_connecting m). as_state a = Ready) \<and>
     (\<forall>a \<in> ran (ri_sessions (mc_runtime m)). as_state a = Ready \<or> as_state a = SessionFailed) \<and>
     (\<forall>(i, a) \<in> set (mc_closers m). as_state a = Ready \<or> as_state a = SessionFailed) \<and>
     (\<forall>snap \<in> set (mc_announcing m). ss_state snap \<noteq> Closed) \<and>
     (\<forall>(i, snap) \<in> set (mc_losing m). ss_state snap \<noteq> Closed)"

lemma sessions_of_simps [simp]:
  "sessions_of k [] = 0"
  "sessions_of k ((i, x) # xs) = (if k = i then 1 else 0) + sessions_of k xs"
  by (simp_all add: sessions_of_def)

lemma sessions_of_remove1:
  "(i, x) \<in> set xs \<Longrightarrow> sessions_of k xs = sessions_of k (remove1 (i, x) xs) + (if k = i then 1 else 0)"
  by (induction xs) (auto simp: sessions_of_def)

lemma ready_of_simps [simp]:
  "ready_of k [] = 0"
  "ready_of k ((i, a) # xs) = (if k = i \<and> as_state a = Ready then 1 else 0) + ready_of k xs"
  by (simp_all add: ready_of_def)

lemma ready_of_remove1:
  "(i, a) \<in> set xs \<Longrightarrow>
   ready_of k xs = ready_of k (remove1 (i, a) xs) + (if k = i \<and> as_state a = Ready then 1 else 0)"
  by (induction xs) (auto simp: ready_of_def)

lemma endings_publish [simp]:
  "endings k (runtime_publish now ev r) = endings k r + (if ends k ev then 1 else 0)"
  by (simp add: endings_def runtime_publish_def publish_def hub_number_def hub_send_def)

lemma endings_frame [simp]:
  "endings k (r\<lparr>ri_sessions := x1\<rparr>) = endings k r"
  "endings k (r\<lparr>ri_next_session_id := x2\<rparr>) = endings k r"
  "endings k (r\<lparr>ri_shutting_down := x3\<rparr>) = endings k r"
  "endings k (r\<lparr>ri_transfers := x4\<rparr>) = endings k r"
  "endings k (r\<lparr>ri_media := x5\<rparr>) = endings k r"
  "endings k (r\<lparr>ri_event_hub := hub_close (ri_event_hub r)\<rparr>) = endings k r"
  by (simp_all add: endings_def hub_close_def)

lemma registered_ready_frame [simp]:
  "registered_ready k (r\<lparr>ri_next_session_id := x2\<rparr>) = registered_ready k r"
  "registered_ready k (r\<lparr>ri_shutting_down := x3\<rparr>) = registered_ready k r"
  "registered_ready k (r\<lparr>ri_transfers := x4\<rparr>) = registered_ready k r"
  "registered_ready k (r\<lparr>ri_media := x5\<rparr>) = registered_ready k r"
  "registered_ready k (r\<lparr>ri_event_hub := x6\<rparr>) = registered_ready k r"
  "registered_ready k (runtime_publish now ev r) = registered_ready k r"
  by (simp_all add: registered_ready_def runtime_publish_def)

lemma publish_frame [simp]:
  "ri_sessions (runtime_publish now ev r) = ri_sessions r"
  "ri_next_session_id (runtime_publish now ev r) = ri_next_session_id r"
  "ri_shutting_down (runtime_publish now ev r) = ri_shutting_down r"
  by (simp_all add: runtime_publish_def)

lemma registered_ready_upd:
  "registered_ready k (r\<lparr>ri_sessions := (ri_sessions r)(i := x)\<rparr>) =
   (if k = i then (case x of Some a \<Rightarrow> if as_state a = Ready then 1 else 0 | None \<Rightarrow> 0) else registered_ready k r)"
  by (simp add: registered_ready_def)

text \<open>What the compound steps do to endings and to the registry.\<close>

lemma close_finish_frame [simp]:
  "endings k (close_finish display io now i a r) = endings k r + (if k = i then 1 else 0)"
  "ri_sessions (close_finish display io now i a r) = ri_sessions r"
  "ri_next_session_id (close_finish display io now i a r) = ri_next_session_id r"
  "ri_shutting_down (close_finish display io now i a r) = ri_shutting_down r"
  "registered_ready k (close_finish display io now i a r) = registered_ready k r"
  by (auto simp: close_finish_def invalidate_media_snapshots_def session_snapshot_def Let_def split: option.split)

lemma lost_finish_frame [simp]:
  "endings k (lost_finish now i snap r) =
     endings k r + (if k = i then 1 else 0) + (if ends k (SessionStateChanged snap) then 1 else 0)"
  "ri_sessions (lost_finish now i snap r) = ri_sessions r"
  "ri_next_session_id (lost_finish now i snap r) = ri_next_session_id r"
  "ri_shutting_down (lost_finish now i snap r) = ri_shutting_down r"
  "registered_ready k (lost_finish now i snap r) = registered_ready k r"
  by (auto simp: lost_finish_def Let_def)

definition same_states :: "RuntimeInner \<Rightarrow> RuntimeInner \<Rightarrow> bool" where
  "same_states r r' \<longleftrightarrow>
     (\<forall>i. map_option as_state (ri_sessions r' i) = map_option as_state (ri_sessions r i)) \<and>
     ri_next_session_id r' = ri_next_session_id r \<and> ri_shutting_down r' = ri_shutting_down r \<and> (\<forall>k. endings k r' = endings k r)"

lemma same_states_ready: "same_states r r' \<Longrightarrow> registered_ready k r' = registered_ready k r"
proof -
  assume "same_states r r'"
  then have "map_option as_state (ri_sessions r' k) = map_option as_state (ri_sessions r k)"
    by (simp add: same_states_def)
  then show ?thesis by (cases "ri_sessions r k"; cases "ri_sessions r' k") (simp_all add: registered_ready_def)
qed

lemma same_states_ran:
  assumes "same_states r r'" "a' \<in> ran (ri_sessions r')"
  shows "\<exists>a \<in> ran (ri_sessions r). as_state a = as_state a'"
proof -
  obtain i where "ri_sessions r' i = Some a'" using assms(2) by (auto simp: ran_def)
  moreover have "map_option as_state (ri_sessions r' i) = map_option as_state (ri_sessions r i)"
    using assms(1) by (simp add: same_states_def)
  ultimately obtain a where "ri_sessions r i = Some a" "as_state a = as_state a'"
    by (cases "ri_sessions r i") auto
  then show ?thesis by (auto simp: ran_def)
qed

lemma same_states_steps:
  "same_states r (record_activity now i r)"
  "same_states r (set_device_info i info r)"
  "same_states r (invalidate_media_snapshots i r)"
  by (auto simp: same_states_def record_activity_def set_device_info_def invalidate_media_snapshots_def
      split: option.splits)

lemma bridge_same:
  assumes "bridge_client_event event i device r = (ev, r')"
  shows "same_states r r'" "\<not> ends k ev"
proof -
  have "same_states r r" by (simp add: same_states_def)
  then show "same_states r r'" "\<not> ends k ev"
    using assms same_states_steps by (cases event; auto simp: Let_def)+
qed

lemmas in_rest = set_remove1_subset[THEN subsetD]

lemma ran_upd_cases: "a \<in> ran (f(i := x)) \<Longrightarrow> x = Some a \<or> a \<in> ran f"
  by (auto simp: ran_def split: if_splits)

lemma states_ok_step:
  assumes "runtime_step m m'" "states_ok m"
  shows "states_ok m'"
  using assms(1)
proof (cases rule: runtime_step.cases)
  case (connected now device info i a r)
  then show ?thesis using assms(2) by (auto simp: states_ok_def connect_register_def Let_def)
next
  case (inserted i a r)
  have "r = (mc_runtime m)\<lparr>ri_sessions := (ri_sessions (mc_runtime m))(i \<mapsto> a)\<rparr>" "as_state a = Ready"
    using inserted assms(2) by (auto simp: connect_insert_def states_ok_def split: if_splits)
  then show ?thesis using inserted(1) assms(2) unfolding states_ok_def
    by (auto dest!: in_rest ran_upd_cases)
next
  case (rejected i a e r)
  then show ?thesis using assms(2) by (auto simp: connect_insert_def states_ok_def dest!: in_rest split: if_splits)
next
  case (read_snapshot i snap)
  have "ss_state snap \<noteq> Closed"
    using read_snapshot(2) assms(2)
    by (auto simp: get_session_snapshot_def and_then_eq_Inr session_snapshot_def states_ok_def ran_def split: option.splits)
  then show ?thesis using read_snapshot(1) assms(2) by (auto simp: states_ok_def)
next
  case (removed i a r)
  have "r = (mc_runtime m)\<lparr>ri_sessions := (ri_sessions (mc_runtime m))(i := None)\<rparr>"
    "a \<in> ran (ri_sessions (mc_runtime m))"
    using removed(2) by (auto simp: remove_session_def ran_def)
  then show ?thesis using removed(1) assms(2) unfolding states_ok_def by (auto dest!: ran_upd_cases)
next
  case (loss_begun i snap r)
  then obtain a where r: "r = (mc_runtime m)\<lparr>ri_sessions := (ri_sessions (mc_runtime m))(i \<mapsto> a)\<rparr>"
    "as_state a = SessionFailed" "ss_state snap = SessionFailed"
    by (auto simp: lost_begin_def session_snapshot_def Let_def split: option.splits if_splits)
  then show ?thesis using loss_begun(1) assms(2) unfolding states_ok_def by (auto dest!: ran_upd_cases)
next
  case (activity now i)
  have "same_states (mc_runtime m) (mc_runtime m')" using activity same_states_steps by simp
  then show ?thesis using activity assms(2) unfolding states_ok_def by (auto dest!: same_states_ran)
next
  case (bridged event i device ev r now)
  have "same_states (mc_runtime m) r" using bridge_same(1)[OF bridged(2)] .
  then show ?thesis using bridged(1) assms(2) unfolding states_ok_def by (auto dest!: same_states_ran)
qed (use assms(2) in \<open>auto simp: states_ok_def dest!: in_rest\<close>)

lemma credit_connecting:
  assumes "credit_ok m" "(i, a) \<in> set (mc_connecting m)"
  shows "registered_ready i (mc_runtime m) = 0"
proof -
  have "1 \<le> sessions_of i (mc_connecting m)" using sessions_of_remove1[OF assms(2), of i] by simp
  moreover have "credit i m \<le> 1" using assms(1) by (simp add: credit_ok_def)
  ultimately show ?thesis by (simp add: credit_def)
qed

lemma credit_step:
  assumes "runtime_step m m'" "states_ok m" "credit_ok m"
  shows "credit_ok m'"
  using assms(1)
proof (cases rule: runtime_step.cases)
  case (connected now device info i a r)
  then have "i = ri_next_session_id (mc_runtime m)" "r = (mc_runtime m)\<lparr>ri_next_session_id := i + 1\<rparr>"
    by (auto simp: connect_register_def Let_def)
  moreover have "credit k m' = credit k m + (if k = i then 1 else 0)" for k
    using connected(1) calculation(2) by (simp add: credit_def)
  ultimately show ?thesis using connected(1) assms(3) by (auto simp: credit_ok_def)
next
  case (inserted i a r)
  have r: "r = (mc_runtime m)\<lparr>ri_sessions := (ri_sessions (mc_runtime m))(i \<mapsto> a)\<rparr>" and a: "as_state a = Ready"
    using inserted assms(2) by (auto simp: connect_insert_def states_ok_def split: if_splits)
  have "credit k m' = credit k m" for k
    using inserted(1) r a credit_connecting[OF assms(3) inserted(2)] sessions_of_remove1[OF inserted(2), of k]
    by (simp add: credit_def registered_ready_upd)
  then show ?thesis using inserted(1) r assms(3) by (simp add: credit_ok_def)
next
  case (rejected i a e r)
  have "r = mc_runtime m" using rejected(3) by (auto simp: connect_insert_def split: if_splits)
  moreover have "credit k m' = credit k m" for k
    using rejected(1) calculation sessions_of_remove1[OF rejected(2), of k] by (auto simp: credit_def)
  ultimately show ?thesis using rejected(1) assms(3) by (simp add: credit_ok_def)
next
  case (announced_ready snap now)
  have "ss_state snap \<noteq> Closed" using announced_ready(2) assms(2) by (auto simp: states_ok_def)
  then show ?thesis using announced_ready(1) assms(3) by (simp add: credit_ok_def credit_def)
next
  case (removed i a r)
  have r: "r = (mc_runtime m)\<lparr>ri_sessions := (ri_sessions (mc_runtime m))(i := None)\<rparr>"
    "ri_sessions (mc_runtime m) i = Some a"
    using removed(2) by (auto simp: remove_session_def)
  have "credit k m' = credit k m" for k
    using removed(1) r by (auto simp: credit_def registered_ready_upd registered_ready_def)
  then show ?thesis using removed(1) r assms(3) by (simp add: credit_ok_def)
next
  case (close_refused i a)
  then have "as_state a \<noteq> Ready" by (auto simp: close_begin_def split: if_splits)
  then show ?thesis
    using close_refused(1) assms(3) ready_of_remove1[OF close_refused(2)] by (simp add: credit_ok_def credit_def)
next
  case (close_begun i a a1)
  then have "as_state a = Ready"
    using assms(2) by (auto simp: close_begin_def states_ok_def split: if_splits)
  then have "credit k m' = credit k m" for k
    using close_begun(1) ready_of_remove1[OF close_begun(2), of k] by (simp add: credit_def)
  then show ?thesis using close_begun(1) assms(3) by (simp add: credit_ok_def)
next
  case (close_finished i a display io now)
  have "credit k m' = credit k m" for k
    using close_finished(1) sessions_of_remove1[OF close_finished(2), of k] by (simp add: credit_def)
  then show ?thesis using close_finished(1) assms(3) by (simp add: credit_ok_def)
next
  case (loss_begun i snap r)
  then obtain a a1 where r: "r = (mc_runtime m)\<lparr>ri_sessions := (ri_sessions (mc_runtime m))(i \<mapsto> a1)\<rparr>"
    "as_state a1 = SessionFailed" "ri_sessions (mc_runtime m) i = Some a" "as_state a = Ready"
    by (auto simp: lost_begin_def Let_def split: option.splits if_splits)
  then have "credit k m' = credit k m" for k
    using loss_begun(1) by (simp add: credit_def registered_ready_upd registered_ready_def)
  then show ?thesis using loss_begun(1) r assms(3) by (simp add: credit_ok_def)
next
  case (loss_finished i snap now)
  have "ss_state snap \<noteq> Closed" using loss_finished(2) assms(2) by (auto simp: states_ok_def)
  then have "credit k m' = credit k m" for k
    using loss_finished(1) sessions_of_remove1[OF loss_finished(2), of k] by (simp add: credit_def)
  then show ?thesis using loss_finished(1) assms(3) by (simp add: credit_ok_def)
next
  case (activity now i)
  have same: "same_states (mc_runtime m) (mc_runtime m')" using activity same_states_steps by simp
  then show ?thesis using activity assms(3) same_states_ready[OF same]
    by (simp add: credit_ok_def credit_def same_states_def)
next
  case (bridged event i device ev r now)
  note same = bridge_same(1)[OF bridged(2)]
  show ?thesis using bridged(1) assms(3) same bridge_same(2)[OF bridged(2)] same_states_ready[OF same]
    by (simp add: credit_ok_def credit_def same_states_def)
qed (use assms(3) in \<open>simp_all add: credit_ok_def credit_def\<close>)

interpretation runtimes: preserved_invariant runtime_created runtime_step "\<lambda>m. states_ok m \<and> credit_ok m"
proof
  show "states_ok m \<and> credit_ok m" if "runtime_created m" for m
    using that by (auto elim!: runtime_created.cases simp: create_runtime_def machine_start_def states_ok_def
        credit_ok_def credit_def hub_new_def registered_ready_def endings_def split: if_splits)
qed (use states_ok_step credit_step in blast)

lemma same_states_empty: "same_states r r' \<Longrightarrow> ri_sessions r = Map.empty \<Longrightarrow> ri_sessions r' = Map.empty"
  by (rule ext) (simp add: same_states_def)

lemma shutdown_final:
  assumes "runtime_step m m'" "ri_shutting_down (mc_runtime m)" "ri_sessions (mc_runtime m) = Map.empty"
  shows "ri_shutting_down (mc_runtime m') \<and> ri_sessions (mc_runtime m') = Map.empty"
  using assms(1)
proof (cases rule: runtime_step.cases)
  case (activity now i)
  have same: "same_states (mc_runtime m) (mc_runtime m')" using activity same_states_steps by simp
  then have "ri_shutting_down (mc_runtime m')" using assms(2) by (simp add: same_states_def)
  then show ?thesis using same_states_empty[OF same assms(3)] by blast
next
  case (bridged event i device ev r now)
  note same = bridge_same(1)[OF bridged(2)]
  then have "ri_sessions r = Map.empty" "ri_shutting_down r"
    using assms(2,3) same_states_empty[OF same] by (simp_all add: same_states_def)
  then show ?thesis using bridged(1) by simp
qed (use assms(2,3) in \<open>simp_all add: connect_register_def connect_insert_def remove_session_def lost_begin_def
    Let_def split: if_splits\<close>)


section \<open>Examples\<close>

definition sample_descriptor :: DeviceDescriptor where
  "sample_descriptor = \<lparr>dd_id = ''1-1'', dd_stable_id = None, dd_display_name = None, dd_model = None,
     dd_transport = UsbAccessory, dd_transport_address = ''1-1'', dd_available = True, dd_adb = None, dd_usb = None\<rparr>"

definition sample_phone :: DeviceInfo where
  "sample_phone = \<lparr>di_serial = ''s'', di_phone_id = None, di_name = None, di_model = None, di_brand = None,
     di_manufacturer = None, di_smartisan_version = None, di_apk_version = None, di_apk_version_name = None,
     di_root_path = ''/sdcard'', di_external_storage_path = None, di_disk_size = None, di_used_disk_size = None,
     di_battery_percentage = None, di_phone_locked = None\<rparr>"

definition sample_runtime :: RuntimeInner where
  "sample_runtime = \<lparr>ri_sessions = Map.empty, ri_next_session_id = 1, ri_shutting_down = False,
     ri_event_hub = hub_new, ri_transfers = registry_new 64 None, ri_media = \<lparr>mk_epoch = 0, mk_snapshots = Map.empty\<rparr>\<rparr>"

lemma sample_runtime_created: "create_runtime 1024 64 None = Inr sample_runtime"
  by (simp add: create_runtime_def sample_runtime_def)

text \<open>A session that connects, whose announcement is prepared and whose connection is then lost.\<close>

lemma sample_session_lost:
  "\<exists>m snap. runtime_reachable m \<and> registered_ready 1 (mc_runtime m) = 0 \<and> endings 1 (mc_runtime m) = 1 \<and>
     sessions_of 1 (mc_connecting m) = 0 \<and> sessions_of 1 (mc_closers m) = 0 \<and> sessions_of 1 (mc_closing m) = 0 \<and>
     sessions_of 1 (mc_losing m) = 0 \<and> ri_next_session_id (mc_runtime m) = 2 \<and> mc_rejected m = [] \<and>
     mc_announcing m = [snap] \<and> ss_id snap = 1 \<and> ss_state snap = Ready \<and>
     map_option as_state (ri_sessions (mc_runtime m) 1) = Some SessionFailed \<and>
     eh_open (ri_event_hub (mc_runtime m))"
proof -
  let ?m0 = "machine_start sample_runtime"
  obtain a r1 where reg: "connect_register 7 sample_descriptor sample_phone sample_runtime = (1, a, r1)"
    and a: "as_state a = Ready" and r1: "r1 = sample_runtime\<lparr>ri_next_session_id := 2\<rparr>"
    by (simp add: connect_register_def sample_runtime_def Let_def numeral_2_eq_2)
  let ?r2 = "r1\<lparr>ri_sessions := [1 \<mapsto> a]\<rparr>"
  let ?m2 = "?m0\<lparr>mc_runtime := ?r2\<rparr>"
  have "runtime_reachable (?m0\<lparr>mc_runtime := r1, mc_connecting := [(1, a)]\<rparr>)"
    using runtime_next[OF runtime_init[OF created[OF sample_runtime_created]] connected[of 7 sample_descriptor sample_phone ?m0 1 a r1]]
      reg by (simp add: machine_start_def)
  from runtime_next[OF this inserted[of 1 a _ ?r2]] have m2: "runtime_reachable ?m2"
    using r1 by (simp add: machine_start_def connect_insert_def sample_runtime_def)
  obtain snap where snap: "get_session_snapshot 1 ?r2 = Inr snap" "ss_id snap = 1" "ss_state snap = Ready"
    using a r1 by (simp add: get_session_snapshot_def ensure_open_def session_snapshot_def sample_runtime_def)
  have m3: "runtime_reachable (?m2\<lparr>mc_announcing := [snap]\<rparr>)"
    using runtime_next[OF m2 read_snapshot[of 1 ?m2 snap]] snap by (simp add: machine_start_def)
  obtain snap' a' where lost: "lost_begin 1 ?r2 = Some (snap', ?r2\<lparr>ri_sessions := [1 \<mapsto> a']\<rparr>)"
    "as_state a' = SessionFailed" "ss_state snap' = SessionFailed"
    using a by (simp add: lost_begin_def session_snapshot_def Let_def)
  let ?r4 = "?r2\<lparr>ri_sessions := [1 \<mapsto> a']\<rparr>"
  let ?m4 = "?m2\<lparr>mc_announcing := [snap], mc_runtime := ?r4, mc_losing := [(1, snap')]\<rparr>"
  have m4: "runtime_reachable ?m4"
    using runtime_next[OF m3 loss_begun[of 1 "?m2\<lparr>mc_announcing := [snap]\<rparr>" snap' ?r4]] lost
    by (simp add: machine_start_def)
  let ?m5 = "?m4\<lparr>mc_runtime := lost_finish 9 1 snap' ?r4, mc_losing := []\<rparr>"
  have m5: "runtime_reachable ?m5"
    using runtime_next[OF m4 loss_finished[of 1 snap' ?m4 9]] by simp
  have "endings 1 r1 = 0" using r1 by (simp add: endings_def sample_runtime_def hub_new_def)
  then have "endings 1 (mc_runtime ?m5) = 1" using lost(3) by simp
  moreover have "eh_open (ri_event_hub (mc_runtime ?m5))"
    using r1 by (simp add: lost_finish_def runtime_publish_def publish_def hub_number_def hub_send_def
        sample_runtime_def hub_new_def Let_def)
  ultimately show ?thesis
    using m5 snap lost(2) r1 by (intro exI[of _ ?m5] exI[of _ snap]) (simp add: machine_start_def registered_ready_def)
qed


text \<open>The announcement of a new session may be published after its end: subscribers then see as the
  latest state of a failed session that it is ready.\<close>

lemma ready_announced_after_loss:
  "\<exists>m snap envelope rest. runtime_reachable m \<and>
     map_option as_state (ri_sessions (mc_runtime m) 1) = Some SessionFailed \<and> endings 1 (mc_runtime m) = 1 \<and>
     eh_log (ri_event_hub (mc_runtime m)) = rest @ [(envelope, True)] \<and>
     ee_event envelope = SessionStateChanged snap \<and> ss_id snap = 1 \<and> ss_state snap = Ready"
proof -
  obtain m snap where m: "runtime_reachable m" "endings 1 (mc_runtime m) = 1" "mc_announcing m = [snap]"
    "ss_id snap = 1" "ss_state snap = Ready"
    "map_option as_state (ri_sessions (mc_runtime m) 1) = Some SessionFailed" "eh_open (ri_event_hub (mc_runtime m))"
    using sample_session_lost by blast
  let ?r = "runtime_publish 9 (SessionStateChanged snap) (mc_runtime m)"
  let ?m = "m\<lparr>mc_runtime := ?r, mc_announcing := []\<rparr>"
  have "runtime_reachable ?m" using runtime_next[OF m(1) announced_ready[of snap m 9]] m(3) by simp
  moreover obtain envelope where "eh_log (ri_event_hub ?r) = eh_log (ri_event_hub (mc_runtime m)) @ [(envelope, True)]"
    "ee_event envelope = SessionStateChanged snap"
    using m(7) by (simp add: runtime_publish_def publish_def hub_number_def hub_send_def)
  moreover have "endings 1 (mc_runtime ?m) = 1" using m(2,5) by simp
  ultimately show ?thesis
    using m(4,5,6) by (intro exI[of _ ?m] exI[of _ snap] exI[of _ envelope] exI[of _ "eh_log (ri_event_hub (mc_runtime m))"]) simp
qed

text \<open>Events can be delivered out of the order of their numbers: a publisher draws its number before
  it takes the lock.\<close>

lemma publish_out_of_order:
  "(case hub_number hub_new of (n1, h1) \<Rightarrow> case hub_number h1 of (n2, h2) \<Rightarrow>
      map (ee_sequence \<circ> fst) (eh_log (hub_send \<lparr>ee_sequence = n1, ee_timestamp_ms = 0, ee_event = RuntimeStopping\<rparr>
        (hub_send \<lparr>ee_sequence = n2, ee_timestamp_ms = 0, ee_event = RuntimeStopping\<rparr> h2)))) = [2, 1]"
  by (simp add: hub_number_def hub_new_def hub_send_def)

end
