(* ===== verification/SyncStore.thy ===== *)
theory SyncStore
  imports Errors Domain Paths Stores PlainCodec
begin

text \<open>
  The photo-sync ledgers, \<open>handshaker-core/src/sync_store.rs\<close>: one file per sync scope (device,
  remote root, local root), found by a digest of the scope, checked against the scope when it is
  read, replaced through a temporary file when it is written. The directory of ledgers is a map
  from file names to contents. SHA-256, the JSON codec, the random suffixes and the outcomes of
  the file operations are arguments; permission bits are not modelled.
\<close>

section \<open>Scopes\<close>

record SyncLedgerIdentity =
  id_device_uuid :: string
  id_remote_root :: string
  id_local_root :: string

definition normalize_root :: "string \<Rightarrow> string" where
  "normalize_root root =
     (let trimmed = trim root in
      if length trimmed \<le> 1 then ''/''
      else let trimmed1 = trim_end_char (CHR ''/'') trimmed in
           if trimmed1 = [] then ''/'' else trimmed1)"

definition normalized :: "SyncLedgerIdentity \<Rightarrow> SyncLedgerIdentity" where
  "normalized i = i\<lparr>id_remote_root := normalize_root (id_remote_root i),
                    id_local_root := normalize_root (id_local_root i)\<rparr>"

definition NUL :: char where
  "NUL = CHR 0x00"

definition canonical_scope :: "SyncLedgerIdentity \<Rightarrow> string" where
  "canonical_scope i = id_device_uuid i @ [NUL] @ id_remote_root i @ [NUL] @ id_local_root i"

text \<open>\<open>sha256_hex\<close> of a text is the argument \<open>sha\<close>.\<close>

definition ledger_scope_key :: "(string \<Rightarrow> string) \<Rightarrow> SyncLedgerIdentity \<Rightarrow> string" where
  "ledger_scope_key sha i = sha (canonical_scope (normalized i))"

definition sanitize_device_uuid :: "string \<Rightarrow> string" where
  "sanitize_device_uuid uuid =
     filter (\<lambda>c. let n = of_char c :: nat in
       (48 \<le> n \<and> n \<le> 57) \<or> (65 \<le> n \<and> n \<le> 90) \<or> (97 \<le> n \<and> n \<le> 122) \<or> c = CHR ''-'' \<or> c = CHR ''_'') uuid"

section \<open>The store\<close>

record SyncLedgerFileV3 =
  lf_schema_version :: nat
  lf_identity :: SyncLedgerIdentity
  lf_snapshot :: SyncSnapshot

record ledger_codec =
  ledger_to_json :: "SyncLedgerFileV3 \<Rightarrow> bytes"
  ledger_from_json :: "bytes \<Rightarrow> SyncLedgerFileV3 option"

type_synonym ledger_dir = "string \<rightharpoonup> bytes"

record SyncStore =
  ss_path :: string
  ss_identity :: SyncLedgerIdentity

definition discover :: "(string \<Rightarrow> string) \<Rightarrow> SyncLedgerIdentity \<Rightarrow> SyncStore" where
  "discover sha i =
     \<lparr>ss_path = ledger_scope_key sha (normalized i) @ ''.json'', ss_identity = normalized i\<rparr>"

definition legacy_v2_path :: "(string \<Rightarrow> string) \<Rightarrow> string \<Rightarrow> string" where
  "legacy_v2_path sha uuid = sha uuid @ ''.json''"

definition legacy_v1_path :: "string \<Rightarrow> string" where
  "legacy_v1_path uuid = sanitize_device_uuid uuid @ ''.json''"

definition load_v3 :: "ledger_codec \<Rightarrow> bool \<Rightarrow> bool \<Rightarrow> SyncStore \<Rightarrow> bytes \<Rightarrow> SyncSnapshot core_result" where
  "load_v3 codec permissions_ok read_ok store bs =
     (if \<not> permissions_ok then Inl (Configuration ''sync.permission_failed'')
      else if \<not> read_ok then Inl (Configuration ''sync.read_failed'')
      else case ledger_from_json codec bs of
             None \<Rightarrow> Inl (Configuration ''sync.parse_failed'')
           | Some ledger \<Rightarrow>
               if lf_schema_version ledger \<noteq> 3 then Inl (Configuration ''sync.version_unsupported'')
               else if normalized (lf_identity ledger) \<noteq> ss_identity store
               then Inl (Configuration ''sync.identity_mismatch'')
               else Inr (lf_snapshot ledger))"

definition load_ledger ::
  "(string \<Rightarrow> string) \<Rightarrow> ledger_codec \<Rightarrow> bool \<Rightarrow> bool \<Rightarrow> SyncStore \<Rightarrow> ledger_dir \<Rightarrow> SyncSnapshot option core_result" where
  "load_ledger sha codec permissions_ok read_ok store dir =
     (case dir (ss_path store) of
        Some bs \<Rightarrow> and_then (load_v3 codec permissions_ok read_ok store bs) (\<lambda>s. Inr (Some s))
      | None \<Rightarrow>
          if dir (legacy_v2_path sha (id_device_uuid (ss_identity store))) \<noteq> None \<or>
             dir (legacy_v1_path (id_device_uuid (ss_identity store))) \<noteq> None
          then Inl (Configuration ''sync.legacy_scope_unproven'')
          else Inr None)"

text \<open>
  How the steps of a save go. \<open>lo_suffixes\<close> are the random suffixes that are drawn until a name
  is free; a list that runs out means that the loop has not ended.
\<close>

record ledger_io =
  lo_create_ok :: bool
  lo_directory_permissions_ok :: bool
  lo_suffixes :: "string list"
  lo_open_ok :: bool
  lo_write_error :: "nat option"
  lo_sync_ok :: bool
  lo_rename_ok :: bool
  lo_permissions_ok :: bool

definition tmp_path :: "SyncStore \<Rightarrow> string \<Rightarrow> string" where
  "tmp_path store sfx = ss_path store @ ''.tmp-'' @ sfx"

definition pick_tmp :: "SyncStore \<Rightarrow> ledger_dir \<Rightarrow> string list \<Rightarrow> string option" where
  "pick_tmp store dir draws = find (\<lambda>name. dir name = None) (map (tmp_path store) draws)"

definition ledger_bytes :: "ledger_codec \<Rightarrow> SyncStore \<Rightarrow> SyncSnapshot \<Rightarrow> bytes" where
  "ledger_bytes codec store snapshot =
     ledger_to_json codec \<lparr>lf_schema_version = 3, lf_identity = ss_identity store, lf_snapshot = snapshot\<rparr>"

definition save_ledger ::
  "ledger_codec \<Rightarrow> ledger_io \<Rightarrow> SyncStore \<Rightarrow> SyncSnapshot \<Rightarrow> ledger_dir \<Rightarrow> (unit core_result \<times> ledger_dir) option" where
  "save_ledger codec io store snapshot dir =
     (let bs = ledger_bytes codec store snapshot in
      if \<not> lo_create_ok io then Some (Inl (Configuration ''sync.create_failed''), dir)
      else if \<not> lo_directory_permissions_ok io then Some (Inl (Configuration ''sync.permission_failed''), dir)
      else if \<not> lo_open_ok io then Some (Inl (Configuration ''sync.write_failed''), dir)
      else case pick_tmp store dir (lo_suffixes io) of
             None \<Rightarrow> None
           | Some tmp \<Rightarrow>
               (case lo_write_error io of
                  Some n \<Rightarrow> Some (Inl (Configuration ''sync.write_failed''), dir(tmp \<mapsto> take n bs))
                | None \<Rightarrow>
                    if \<not> lo_sync_ok io
                    then Some (Inl (Configuration ''sync.write_failed''), dir(tmp \<mapsto> bs))
                    else if \<not> lo_rename_ok io
                    then Some (Inl (Configuration ''sync.write_failed''), dir(tmp := None))
                    else let dir' = (dir(tmp := None))(ss_path store \<mapsto> bs) in
                         if \<not> lo_permissions_ok io
                         then Some (Inl (Configuration ''sync.permission_failed''), dir')
                         else Some (Inr (), dir')))"

text \<open>The directories a save passes through when everything goes well, one per visible effect; a
  crash leaves one of them behind.\<close>

definition save_visits ::
  "ledger_codec \<Rightarrow> SyncStore \<Rightarrow> SyncSnapshot \<Rightarrow> string \<Rightarrow> ledger_dir \<Rightarrow> ledger_dir list" where
  "save_visits codec store snapshot tmp dir =
     (let bs = ledger_bytes codec store snapshot in
      dir # map (\<lambda>n. dir(tmp \<mapsto> take n bs)) [0..<Suc (length bs)]
          @ [(dir(tmp := None))(ss_path store \<mapsto> bs)])"

definition pc_id_from_host_uuid :: "string \<Rightarrow> string" where
  "pc_id_from_host_uuid host_uuid = host_uuid"

definition sync_config :: "string \<Rightarrow> string \<Rightarrow> string \<Rightarrow> string \<Rightarrow> SyncConfig" where
  "sync_config device_uuid phone_root local_root host_uuid =
     \<lparr>sc_device_uuid = device_uuid, sc_phone_root = phone_root, sc_local_root = local_root,
      sc_pc_id = pc_id_from_host_uuid host_uuid\<rparr>"


section \<open>Scopes and file names\<close>

lemma set_trim_start: "set (trim_start_ws s) \<subseteq> set s"
proof (induction s rule: trim_start_ws.induct)
  case (1 s)
  have "set (trim_start_ws (drop (length w) s)) \<subseteq> set s"
    if "find (\<lambda>w. starts_with w s) whitespace_encodings = Some w" "\<not> (w = [] \<or> s = [])" for w
    using 1[OF that] set_drop_subset[of "length w" s] by blast
  then show ?case by (subst trim_start_ws.simps) (simp split: option.split)
qed

lemma set_trim_end: "set (trim_end_ws s) \<subseteq> set s"
proof (induction s rule: trim_end_ws.induct)
  case (1 s)
  have "set (trim_end_ws (take (length s - length w) s)) \<subseteq> set s"
    if "find (\<lambda>w. length w \<le> length s \<and> drop (length s - length w) s = w) whitespace_encodings = Some w"
      "\<not> (w = [] \<or> s = [])" for w
    using 1[OF that] set_take_subset[of "length s - length w" s] by blast
  then show ?case by (subst trim_end_ws.simps) (simp split: option.split)
qed

lemma set_trim: "set (trim s) \<subseteq> set s"
  using set_trim_start[of s] set_trim_end[of "trim_start_ws s"] by (auto simp: trim_def)

lemma set_trim_start_char: "set (trim_start_char c s) \<subseteq> set s"
  by (induction s) auto

lemma set_trim_end_char: "set (trim_end_char c s) \<subseteq> set s"
  using set_trim_start_char[of c "rev s"] by (simp add: trim_end_char_def)

lemma NUL_slash [simp]: "NUL \<noteq> CHR ''/''"
  by (simp add: NUL_def)

lemma normalize_root_NUL: "NUL \<notin> set r \<Longrightarrow> NUL \<notin> set (normalize_root r)"
  using set_trim[of r] set_trim_end_char[of "CHR ''/''" "trim r"]
  by (auto simp: normalize_root_def Let_def)

definition plain_scope :: "SyncLedgerIdentity \<Rightarrow> bool" where
  "plain_scope i \<longleftrightarrow> NUL \<notin> set (id_device_uuid i) \<and> NUL \<notin> set (id_remote_root i) \<and>
     NUL \<notin> set (id_local_root i)"

lemma plain_normalized: "plain_scope i \<Longrightarrow> plain_scope (normalized i)"
  by (simp add: plain_scope_def normalized_def normalize_root_NUL)

lemma append_sep_inject:
  "c \<notin> set xs \<Longrightarrow> c \<notin> set ys \<Longrightarrow> xs @ c # us = ys @ c # vs \<longleftrightarrow> xs = ys \<and> us = vs"
  by (induction xs arbitrary: ys) (case_tac ys; auto)+

lemma canonical_scope_inject:
  assumes "plain_scope i" "plain_scope j" "canonical_scope i = canonical_scope j"
  shows "i = j"
  using assms append_sep_inject[of NUL "id_device_uuid i" "id_device_uuid j"]
    append_sep_inject[of NUL "id_remote_root i" "id_remote_root j"]
  by (simp add: plain_scope_def canonical_scope_def)

text \<open>Two sync scopes share a ledger file exactly when they are the same scope up to spelling, as
  long as no field contains a NUL and the digest has no collisions.\<close>

lemma ledger_scope_key_injective:
  assumes "inj sha" "plain_scope i" "plain_scope j"
  shows "ledger_scope_key sha i = ledger_scope_key sha j \<longleftrightarrow> normalized i = normalized j"
  using assms canonical_scope_inject[OF plain_normalized plain_normalized]
  by (auto simp: ledger_scope_key_def inj_eq)

lemma ledger_scope_key_injective_witness:
  "ledger_scope_key id \<lparr>id_device_uuid = ''p'', id_remote_root = ''/DCIM/'', id_local_root = ''/home''\<rparr> =
   ledger_scope_key id \<lparr>id_device_uuid = ''p'', id_remote_root = ''/DCIM'', id_local_root = ''/home''\<rparr>"
proof -
  let ?i = "\<lparr>id_device_uuid = ''p'', id_remote_root = ''/DCIM/'', id_local_root = ''/home''\<rparr>"
  let ?j = "\<lparr>id_device_uuid = ''p'', id_remote_root = ''/DCIM'', id_local_root = ''/home''\<rparr>"
  have "plain_scope ?i" "plain_scope ?j" "normalized ?i = normalized ?j"
    by (simp_all add: plain_scope_def NUL_def normalized_def normalize_root_def trim_graphic graphic_def
        trim_end_char_def)
  then show ?thesis using ledger_scope_key_injective[of id ?i ?j] by simp
qed

text \<open>With a NUL in the device identifier, which the phone chooses, two different scopes do share
  one ledger file, whatever the digest.\<close>

theorem ledger_scope_collision:
  "ledger_scope_key sha \<lparr>id_device_uuid = ''p'' @ [NUL] @ ''/a'', id_remote_root = ''/b'', id_local_root = ''/c''\<rparr> =
   ledger_scope_key sha \<lparr>id_device_uuid = ''p'', id_remote_root = ''/a'' @ [NUL] @ ''/b'', id_local_root = ''/c''\<rparr>"
proof -
  have "trim (''/a'' @ [NUL] @ ''/b'') = ''/a'' @ [NUL] @ ''/b''" "trim ''/b'' = ''/b''" "trim ''/c'' = ''/c''"
    by (simp_all add: trim_graphic graphic_def)
  then show ?thesis
    by (simp add: ledger_scope_key_def canonical_scope_def normalized_def normalize_root_def trim_end_char_def NUL_def)
qed

section \<open>Saving and loading\<close>

definition ledger_faithful :: "ledger_codec \<Rightarrow> bool" where
  "ledger_faithful codec \<longleftrightarrow> (\<forall>l. ledger_from_json codec (ledger_to_json codec l) = Some l)"

definition stable_scope :: "SyncLedgerIdentity \<Rightarrow> bool" where
  "stable_scope i \<longleftrightarrow> normalized (normalized i) = normalized i"

definition digits :: "string \<Rightarrow> bool" where
  "digits s \<longleftrightarrow> s \<noteq> [] \<and> list_all (\<lambda>c. 48 \<le> (of_char c :: nat) \<and> (of_char c :: nat) \<le> 57) s"

lemma digits_last:
  assumes "digits s" shows "last s \<noteq> CHR ''n''"
proof -
  have "last s \<in> set s" using assms by (simp add: digits_def)
  then have "(of_char (last s) :: nat) \<le> 57" using assms by (simp add: digits_def list_all_iff)
  then show ?thesis by auto
qed

lemma tmp_not_json: "digits sfx \<Longrightarrow> tmp_path store sfx \<noteq> name @ ''.json''"
proof
  assume d: "digits sfx" and eq: "tmp_path store sfx = name @ ''.json''"
  have "last (tmp_path store sfx) = last sfx" using d by (simp add: tmp_path_def digits_def)
  moreover have "last (name @ ''.json'') = CHR ''n''" by simp
  ultimately have "last sfx = CHR ''n''" using arg_cong[OF eq, of last] by (simp only:)
  then show False using digits_last[OF d] by (simp only:)
qed

lemma load_saved:
  assumes "ledger_faithful codec" "stable_scope i" "dir (ss_path (discover sha i)) = Some (ledger_bytes codec (discover sha i) snapshot)"
  shows "load_ledger sha codec True True (discover sha i) dir = Inr (Some snapshot)"
  using assms
  by (simp add: load_ledger_def load_v3_def ledger_bytes_def ledger_faithful_def stable_scope_def discover_def)

lemma discover_uuid [simp]: "id_device_uuid (ss_identity (discover sha j)) = id_device_uuid j"
  by (simp add: discover_def normalized_def)

lemma discover_path [simp]: "ss_path (discover sha j) = ledger_scope_key sha (normalized j) @ ''.json''"
  by (simp add: discover_def)

lemma load_unaffected:
  assumes "\<And>name. name \<noteq> tmp \<Longrightarrow> name \<noteq> p \<Longrightarrow> dir' name = dir name"
    and "tmp = tmp_path store sfx" "digits sfx"
    and "ss_path (discover sha j) \<noteq> p" "legacy_v2_path sha (id_device_uuid j) \<noteq> p" "legacy_v1_path (id_device_uuid j) \<noteq> p"
  shows "load_ledger sha codec True True (discover sha j) dir' = load_ledger sha codec True True (discover sha j) dir"
proof -
  have "dir' (name @ ''.json'') = dir (name @ ''.json'')" if "name @ ''.json'' \<noteq> p" for name
    by (rule assms(1)) (use that tmp_not_json[OF assms(3), of store name] assms(2) in auto)
  then have "dir' (ss_path (discover sha j)) = dir (ss_path (discover sha j))"
    "dir' (legacy_v2_path sha (id_device_uuid j)) = dir (legacy_v2_path sha (id_device_uuid j))"
    "dir' (legacy_v1_path (id_device_uuid j)) = dir (legacy_v1_path (id_device_uuid j))"
    using assms(4-6) by (simp_all add: discover_def legacy_v2_path_def legacy_v1_path_def)
  then show ?thesis unfolding load_ledger_def discover_uuid by (simp only:)
qed


lemma visits_cases:
  assumes "dir' \<in> set (save_visits codec store snapshot tmp dir)"
  obtains "\<And>name. name \<noteq> tmp \<Longrightarrow> dir' name = dir name"
    | "dir' (ss_path store) = Some (ledger_bytes codec store snapshot)"
      "\<And>name. name \<noteq> tmp \<Longrightarrow> name \<noteq> ss_path store \<Longrightarrow> dir' name = dir name"
  using assms by (auto simp: save_visits_def Let_def split: if_splits)



section \<open>An example of a codec\<close>

type_synonym row_fields = "nat \<times> string option \<times> string option \<times> nat option \<times> string \<times> string option"

definition row_fields :: "SyncFileRecord \<Rightarrow> row_fields" where
  "row_fields r = (fr_size r, fr_checksum r, fr_ext_data r, fr_modified_at r, fr_local_path r, fr_local_sha256 r)"

definition fields_row :: "row_fields \<Rightarrow> SyncFileRecord" where
  "fields_row t = (case t of (sz, checksum, ext, modified, local, sha) \<Rightarrow>
     \<lparr>fr_size = sz, fr_checksum = checksum, fr_ext_data = ext, fr_modified_at = modified,
      fr_local_path = local, fr_local_sha256 = sha\<rparr>)"

type_synonym ledger_fields = "nat \<times> string \<times> string \<times> string \<times> (string \<times> row_fields) list"

definition ledger_fields :: "SyncLedgerFileV3 \<Rightarrow> ledger_fields" where
  "ledger_fields l = (lf_schema_version l, id_device_uuid (lf_identity l), id_remote_root (lf_identity l),
     id_local_root (lf_identity l), map (\<lambda>(p, r). (p, row_fields r)) (sn_files (lf_snapshot l)))"

definition fields_ledger :: "ledger_fields \<Rightarrow> SyncLedgerFileV3" where
  "fields_ledger t = (case t of (version, uuid, remote, local, rows) \<Rightarrow>
     \<lparr>lf_schema_version = version,
      lf_identity = \<lparr>id_device_uuid = uuid, id_remote_root = remote, id_local_root = local\<rparr>,
      lf_snapshot = \<lparr>sn_files = map (\<lambda>(p, r). (p, fields_row r)) rows\<rparr>\<rparr>)"

lemma fields_row_inverse [simp]: "fields_row (row_fields r) = r"
  by (cases r) (simp add: fields_row_def row_fields_def)

lemma fields_ledger_inverse: "fields_ledger (ledger_fields l) = l"
proof -
  have i: "\<lparr>id_device_uuid = id_device_uuid i, id_remote_root = id_remote_root i, id_local_root = id_local_root i\<rparr> = i"
    for i :: SyncLedgerIdentity by (cases i) simp
  have s: "\<lparr>sn_files = sn_files x\<rparr> = x" for x :: SyncSnapshot by (cases x) simp
  show ?thesis
    by (cases l) (simp add: fields_ledger_def ledger_fields_def comp_def split_def i s)
qed

abbreviation put_row :: "row_fields \<Rightarrow> bytes" where
  "put_row \<equiv> put_pair put_nat (put_pair (put_opt put_string) (put_pair (put_opt put_string)
     (put_pair (put_opt put_nat) (put_pair put_string (put_opt put_string)))))"

abbreviation get_row :: "bytes \<Rightarrow> (row_fields \<times> bytes) option" where
  "get_row \<equiv> get_pair get_nat (get_pair (get_opt get_string) (get_pair (get_opt get_string)
     (get_pair (get_opt get_nat) (get_pair get_string (get_opt get_string)))))"

definition plain_ledger_codec :: ledger_codec where
  "plain_ledger_codec = \<lparr>
     ledger_to_json = (\<lambda>l. put_pair put_nat (put_pair put_string (put_pair put_string (put_pair put_string
        (put_list (put_pair put_string put_row))))) (ledger_fields l)),
     ledger_from_json = (\<lambda>bs. map_option (\<lambda>(t, _). fields_ledger t)
        (get_pair get_nat (get_pair get_string (get_pair get_string (get_pair get_string
          (get_list (get_pair get_string get_row))))) bs))\<rparr>"

lemma plain_ledger_codec_faithful: "ledger_faithful plain_ledger_codec"
  unfolding ledger_faithful_def plain_ledger_codec_def ledger_codec.simps
  by (intro allI codec_whole fields_ledger_inverse codec_intros)

definition sample_scope :: SyncLedgerIdentity where
  "sample_scope = \<lparr>id_device_uuid = ''p'', id_remote_root = ''/DCIM'', id_local_root = ''/home''\<rparr>"

lemma sample_scope_stable: "stable_scope sample_scope"
  by (simp add: stable_scope_def sample_scope_def normalized_def normalize_root_def trim_graphic graphic_def
      trim_end_char_def)


text \<open>A scope whose root ends in white space followed by a slash cannot be read back: its
  normalised form is not normalised, so after a successful save the store takes its own ledger for
  another scope's and refuses it.\<close>

theorem ledger_refuses_own_scope:
  assumes "ledger_faithful codec" "\<not> stable_scope i"
    and "save_ledger codec io (discover sha i) snapshot dir = Some (Inr (), dir')"
  shows "load_ledger sha codec True True (discover sha i) dir' = Inl (Configuration ''sync.identity_mismatch'')"
proof -
  have "dir' (ss_path (discover sha i)) = Some (ledger_bytes codec (discover sha i) snapshot)"
    using assms(3) by (auto simp: save_ledger_def Let_def split: if_splits option.splits)
  then show ?thesis
    using assms(1,2) by (simp add: load_ledger_def load_v3_def ledger_bytes_def ledger_faithful_def
        stable_scope_def discover_def)
qed

definition good_ledger_io :: ledger_io where
  "good_ledger_io = \<lparr>lo_create_ok = True, lo_directory_permissions_ok = True, lo_suffixes = [''7''],
     lo_open_ok = True, lo_write_error = None, lo_sync_ok = True, lo_rename_ok = True, lo_permissions_ok = True\<rparr>"

theorem ledger_refuses_own_scope_witness:
  "\<exists>dir'. save_ledger plain_ledger_codec good_ledger_io
        (discover id (sample_scope\<lparr>id_remote_root := ''/DCIM /''\<rparr>)) \<lparr>sn_files = []\<rparr> Map.empty = Some (Inr (), dir') \<and>
     load_ledger id plain_ledger_codec True True (discover id (sample_scope\<lparr>id_remote_root := ''/DCIM /''\<rparr>)) dir' =
       Inl (Configuration ''sync.identity_mismatch'')"
proof -
  let ?i = "sample_scope\<lparr>id_remote_root := ''/DCIM /''\<rparr>"
  have "normalize_root ''/DCIM /'' = ''/DCIM ''"
    by (simp add: normalize_root_def trim_graphic graphic_def trim_end_char_def)
  moreover have "trim ''/DCIM '' = ''/DCIM''"
    using trim_end_space[of "''/DCIM''"] by (simp add: trim_def trim_start_graphic trim_end_graphic graphic_def)
  then have "normalize_root ''/DCIM '' = ''/DCIM''"
    by (simp add: normalize_root_def trim_end_char_def)
  ultimately have unstable: "\<not> stable_scope ?i"
    by (simp add: stable_scope_def sample_scope_def normalized_def)
  obtain dir' where "save_ledger plain_ledger_codec good_ledger_io (discover id ?i) \<lparr>sn_files = []\<rparr> Map.empty =
      Some (Inr (), dir')"
    by (simp add: save_ledger_def good_ledger_io_def pick_tmp_def Let_def)
  then show ?thesis using ledger_refuses_own_scope[OF plain_ledger_codec_faithful unstable] by blast
qed

end
