(* ===== verification/AppSync.thy ===== *)
theory AppSync
  imports Runtime SyncStore SyncFacts
begin

text \<open>
  The photo-sync service of the application, \<open>handshaker-application/src/sync.rs\<close> and the sync
  half of \<open>runtime.rs\<close>, up to one run or one batch of a watch: validation of a profile, the scope
  of its ledger, the pipeline that asks the phone, the plan shown to the user, a run with recovery
  and a batch of changes. The answers of the phone, whether a token has fired, what canonicalizing a path
  gives, and the outcomes of file operations are arguments; the disk, the saved ledger and the
  journal are the world of \<open>SyncJournal\<close>.
\<close>

section \<open>Values\<close>

record SyncProfileDto =
  spr_id :: string
  spr_session_id :: nat
  spr_device_uuid :: string
  spr_remote_root :: string
  spr_local_root :: string
  spr_enabled :: bool

record SyncActionDto =
  sad_remote_path :: string
  sad_local_path :: string
  sad_size :: nat

record SyncConflictDto =
  scd_remote_path :: string
  scd_local_path :: string
  scd_reason :: string

record SyncPlanDto =
  spd_profile_id :: string
  spd_downloads :: "SyncActionDto list"
  spd_metadata_updates :: "SyncActionDto list"
  spd_deletions :: "SyncActionDto list"
  spd_conflicts :: "SyncConflictDto list"
  spd_total_bytes :: nat
  spd_executable :: bool

record SyncLedgerStatusDto =
  sld_device_uuid :: string
  sld_remote_root :: "string option"
  sld_local_root :: "string option"
  sld_files :: nat
  sld_bytes :: nat

abbreviation app_error :: "PublicErrorCode \<Rightarrow> string \<Rightarrow> string \<Rightarrow> PublicError" where
  "app_error code message operation \<equiv> with_operation (public_error_new code message) operation"

section \<open>Profiles\<close>

text \<open>\<open>char::is_control\<close> on UTF-8: C0, DEL, and C1, whose encodings start with \<open>C2\<close>.\<close>

fun has_control :: "string \<Rightarrow> bool" where
  "has_control [] \<longleftrightarrow> False"
| "has_control [a] \<longleftrightarrow> (of_char a :: nat) < 32 \<or> (of_char a :: nat) = 127"
| "has_control (a # b # s) \<longleftrightarrow>
     (of_char a :: nat) < 32 \<or> (of_char a :: nat) = 127 \<or>
     (of_char a :: nat) = 0xC2 \<and> 0x80 \<le> (of_char b :: nat) \<and> (of_char b :: nat) < 0xA0 \<or> has_control (b # s)"

definition MAX_ID_LEN :: nat where
  "MAX_ID_LEN = 128"

definition validate_id :: "string \<Rightarrow> string \<Rightarrow> unit app_result" where
  "validate_id field value =
     (if value = [] \<or> MAX_ID_LEN < length value
      then Inl (app_error InvalidArgument (field @ '' must be 1..=128 chars'') ''sync.profile'')
      else if has_control value
      then Inl (app_error InvalidArgument (field @ '' must not contain control characters'') ''sync.profile'')
      else Inr ())"

definition validate_sync_profile_format :: "SyncProfileDto \<Rightarrow> unit app_result" where
  "validate_sync_profile_format profile =
     and_then (validate_id ''id'' (spr_id profile)) (\<lambda>_.
     and_then (validate_id ''device_uuid'' (spr_device_uuid profile)) (\<lambda>_.
       if sanitize_device_uuid (spr_device_uuid profile) \<noteq> spr_device_uuid profile
       then Inl (app_error InvalidArgument ''device_uuid must match [A-Za-z0-9_-]'' ''sync.profile'')
       else if \<not> is_absolute (components (spr_local_root profile))
       then Inl (app_error InvalidArgument ''local_root must be an absolute path'' ''sync.profile'')
       else if \<not> starts_with ''/'' (spr_remote_root profile)
       then Inl (app_error InvalidArgument ''remote_root must be an absolute phone path'' ''sync.profile'')
       else if has_control (spr_remote_root profile)
       then Inl (app_error InvalidArgument ''remote_root must not contain control characters'' ''sync.profile'')
       else Inr ()))"

definition sync_identity_for :: "(string \<Rightarrow> string option) \<Rightarrow> SyncProfileDto \<Rightarrow> SyncLedgerIdentity" where
  "sync_identity_for canonicalize profile =
     \<lparr>id_device_uuid = spr_device_uuid profile, id_remote_root = normalize_root (spr_remote_root profile),
      id_local_root = the_or (spr_local_root profile) (canonicalize (spr_local_root profile))\<rparr>"

section \<open>Mappings\<close>

definition snapshot_to_remote_files :: "SyncSnapshot \<Rightarrow> RemoteFile list" where
  "snapshot_to_remote_files snapshot =
     map (\<lambda>(path, record).
       \<lparr>rf_path = path, rf_size = fr_size record, rf_created_at = None, rf_modified_at = fr_modified_at record,
        rf_is_directory = False, rf_checksum = fr_checksum record, rf_is_trash = None, rf_id = None,
        rf_ext_data = fr_ext_data record\<rparr>) (sn_files snapshot)"

definition sync_diff_and_conflicts ::
  "(path \<Rightarrow> bool) \<Rightarrow> (path \<Rightarrow> string core_result) \<Rightarrow> RemoteFile list \<Rightarrow> SyncSnapshot \<Rightarrow> SyncDiff \<times> string list" where
  "sync_diff_and_conflicts exists sha256_file phone_files snapshot =
     (let diff = plan_diff phone_files snapshot in (diff, check_conflicts exists sha256_file diff snapshot))"

definition by_path :: "RemoteFile list \<Rightarrow> (string, RemoteFile) btree" where
  "by_path files = fold (\<lambda>file m. bt_insert (rf_path file) file m) files []"

fun planned_actions ::
  "(core_error \<Rightarrow> string) \<Rightarrow> SyncConfig \<Rightarrow> (string, RemoteFile) btree \<Rightarrow> string list \<Rightarrow> SyncActionDto list app_result" where
  "planned_actions display config phone [] = Inr []"
| "planned_actions display config phone (path # paths) =
     (case bt_get phone path of
        None \<Rightarrow> planned_actions display config phone paths
      | Some file \<Rightarrow>
          (case local_destination config path of
             Inl e \<Rightarrow> Inl (from_core_error display e ''sync.plan'')
           | Inr local \<Rightarrow>
               and_then (planned_actions display config phone paths) (\<lambda>actions.
                 Inr (\<lparr>sad_remote_path = path, sad_local_path = render local, sad_size = rf_size file\<rparr> # actions))))"

definition recorded_path :: "SyncSnapshot \<Rightarrow> string \<Rightarrow> string" where
  "recorded_path snapshot path = (case bt_get (sn_files snapshot) path of Some r \<Rightarrow> fr_local_path r | None \<Rightarrow> [])"

text \<open>The sum of the sizes is a \<open>u64\<close>.\<close>

definition sync_plan_to_dto ::
  "(core_error \<Rightarrow> string) \<Rightarrow> string \<Rightarrow> SyncConfig \<Rightarrow> SyncDiff \<Rightarrow> string list \<Rightarrow> RemoteFile list \<Rightarrow> SyncSnapshot
   \<Rightarrow> SyncPlanDto app_result" where
  "sync_plan_to_dto display profile_id config diff conflicts phone_files snapshot =
     (let phone = by_path phone_files in
      and_then (planned_actions display config phone (sd_added diff)) (\<lambda>downloads.
      and_then (planned_actions display config phone (sd_info_modified diff)) (\<lambda>updates.
        Inr \<lparr>spd_profile_id = profile_id, spd_downloads = downloads, spd_metadata_updates = updates,
             spd_deletions = map (\<lambda>path.
               \<lparr>sad_remote_path = path, sad_local_path = recorded_path snapshot path,
                sad_size = (case bt_get (sn_files snapshot) path of Some r \<Rightarrow> fr_size r | None \<Rightarrow> 0)\<rparr>) (sd_deleted diff),
             spd_conflicts = map (\<lambda>path.
               \<lparr>scd_remote_path = path, scd_local_path = recorded_path snapshot path,
                scd_reason = ''local_modified''\<rparr>) conflicts,
             spd_total_bytes = sum_list (map sad_size downloads) mod 2 ^ 64,
             spd_executable = (conflicts = [])\<rparr>)))"

definition sync_run_result_to_dto :: "SyncRunResult \<Rightarrow> SyncRunResultDto" where
  "sync_run_result_to_dto r =
     \<lparr>rrd_downloaded = sr_downloaded r, rrd_deleted = sr_deleted r, rrd_failures = sr_failures r,
      rrd_conflicts = sr_conflicts r\<rparr>"

definition one_entry_diff :: "FileChange \<Rightarrow> SyncDiff" where
  "one_entry_diff change =
     (case fc_file change of
        None \<Rightarrow> diff_empty
      | Some file \<Rightarrow>
          if rf_is_directory file then diff_empty
          else if fc_status change \<in> {SAdded, SModified, SFileAndInfoModified}
          then diff_empty\<lparr>sd_added := [rf_path file]\<rparr>
          else if fc_status change = SDeleted then diff_empty\<lparr>sd_deleted := [rf_path file]\<rparr>
          else diff_empty)"

section \<open>The pipeline\<close>

record SyncPipeline =
  pl_config :: SyncConfig
  pl_snapshot :: SyncSnapshot
  pl_phone_files :: "RemoteFile list"
  pl_diff :: SyncDiff
  pl_conflicts :: "string list"

text \<open>What a pipeline meets outside: canonicalized paths, the directory of the state files, what
  loading the ledger and the host state gives, whether the token has fired before an attempt, the
  phone's answer to an attempt, and which local files can be read.\<close>

record sync_env =
  sv_canonicalize :: "string \<Rightarrow> string option"
  sv_config_dir :: "unit core_result"
  sv_load_ok :: "unit core_result"
  sv_host_uuid :: "string core_result"
  sv_cancelled :: "nat \<Rightarrow> bool"
  sv_answer :: "string \<Rightarrow> RemoteFile list \<Rightarrow> nat \<Rightarrow> PhotoSyncResult core_result"
  sv_readable :: "path \<Rightarrow> bool"

text \<open>\<open>sha256_file\<close> on the world.\<close>

definition sha256_in :: "(bytes \<Rightarrow> string) \<Rightarrow> (path \<Rightarrow> bool) \<Rightarrow> world \<Rightarrow> path \<Rightarrow> string core_result" where
  "sha256_in sha256 readable w p =
     (case w_files w p of
        Some (FileNode content) \<Rightarrow>
          if readable p then Inr (sha256 content) else Inl (LocalIo ''sync.local_read_failed'')
      | _ \<Rightarrow> Inl (LocalIo ''sync.local_read_failed''))"

definition PHOTO_SYNC_REJECT_RETRIES :: nat where
  "PHOTO_SYNC_REJECT_RETRIES = 3"

text \<open>The loop over the attempts; \<open>left\<close> counts the attempts after this one.\<close>

fun photo_attempts ::
  "(core_error \<Rightarrow> string) \<Rightarrow> nat \<Rightarrow> (nat \<Rightarrow> bool) \<Rightarrow> (nat \<Rightarrow> PhotoSyncResult core_result) \<Rightarrow> nat \<Rightarrow> nat \<Rightarrow> RuntimeInner
   \<Rightarrow> PhotoSyncResult app_result \<times> RuntimeInner" where
  "photo_attempts display now cancelled answer i left r =
     (let attempt = PHOTO_SYNC_REJECT_RETRIES - left in
      if cancelled attempt then (Inl (app_error TransferCancelled ''sync cancelled'' ''sync.plan''), r)
      else let r1 = record_activity now i r in
           case answer attempt of
             Inl e \<Rightarrow> (Inl (from_core_error display e ''sync.plan''), r1)
           | Inr result \<Rightarrow>
               if pr_is_success result \<noteq> Some False then (Inr result, r1)
               else case left of
                      0 \<Rightarrow> (Inl (app_error SyncError ''phone rejected photo sync request'' ''sync.plan''), r1)
                    | Suc n \<Rightarrow> photo_attempts display now cancelled answer i n r1)"

declare photo_attempts.simps [simp del]

definition identity_check :: "SyncProfileDto \<Rightarrow> ActiveSession \<Rightarrow> unit app_result" where
  "identity_check profile session =
     (case ddi_phone_id (as_device_info session) of
        Some phone \<Rightarrow>
          if \<not> device_uuid_matches_phone (spr_device_uuid profile) phone
          then Inl (app_error InvalidArgument (''device_uuid does not match the session'' @ [CHR 0x27] @ ''s phone identity'') ''sync.profile'')
          else Inr ()
      | None \<Rightarrow> Inl (app_error InvalidState ''phone identity unavailable; reconnect the device first'' ''sync.profile''))"

abbreviation app_of :: "(core_error \<Rightarrow> string) \<Rightarrow> string \<Rightarrow> 'a core_result \<Rightarrow> 'a app_result" where
  "app_of display operation r \<equiv> map_sum (\<lambda>e. from_core_error display e operation) id r"

lemma app_of_Inr [simp]: "app_of display operation r = Inr x \<longleftrightarrow> r = Inr x"
  by (cases r) auto

definition profile_config :: "sync_env \<Rightarrow> SyncProfileDto \<Rightarrow> string \<Rightarrow> SyncConfig" where
  "profile_config env profile host_uuid =
     sync_config (spr_device_uuid profile) (spr_remote_root profile)
       (id_local_root (sync_identity_for (sv_canonicalize env) profile)) host_uuid"

definition in_remote_root :: "SyncProfileDto \<Rightarrow> RemoteFile \<Rightarrow> bool" where
  "in_remote_root profile file \<longleftrightarrow>
     strip_prefix (components (spr_remote_root profile)) (components (rf_path file)) \<noteq> None"

definition sync_pipeline ::
  "(core_error \<Rightarrow> string) \<Rightarrow> (bytes \<Rightarrow> string) \<Rightarrow> sync_env \<Rightarrow> nat \<Rightarrow> world \<Rightarrow> SyncProfileDto \<Rightarrow> RuntimeInner
   \<Rightarrow> SyncPipeline app_result \<times> RuntimeInner" where
  "sync_pipeline display sha256 env now w profile r =
     (let prepared = and_then (session_handle (spr_session_id profile) r) (\<lambda>session.
            and_then (identity_check profile session) (\<lambda>_.
            and_then (app_of display ''sync.store'' (sv_config_dir env)) (\<lambda>_.
            and_then (app_of display ''sync.plan'' (sv_load_ok env)) (\<lambda>_.
              app_of display ''sync.plan'' (sv_host_uuid env)))))
      in case prepared of
           Inl e \<Rightarrow> (Inl e, r)
         | Inr host_uuid \<Rightarrow>
             (let snapshot = w_ledger w;
                  asked = photo_attempts display now (sv_cancelled env)
                    (sv_answer env (pc_id_from_host_uuid host_uuid) (snapshot_to_remote_files snapshot))
                    (spr_session_id profile) PHOTO_SYNC_REJECT_RETRIES r
              in case asked of
                   (Inl e, r1) \<Rightarrow> (Inl e, r1)
                 | (Inr phone, r1) \<Rightarrow>
                     (let files = filter (in_remote_root profile) (pr_files phone) in
                      case sync_diff_and_conflicts (path_exists w) (sha256_in sha256 (sv_readable env) w) files snapshot of
                        (diff, conflicts) \<Rightarrow>
                          (Inr \<lparr>pl_config = profile_config env profile host_uuid, pl_snapshot = snapshot,
                                pl_phone_files = files, pl_diff = diff, pl_conflicts = conflicts\<rparr>, r1))))"

definition plan_sync ::
  "(core_error \<Rightarrow> string) \<Rightarrow> (bytes \<Rightarrow> string) \<Rightarrow> sync_env \<Rightarrow> nat \<Rightarrow> world \<Rightarrow> SyncProfileDto \<Rightarrow> RuntimeInner
   \<Rightarrow> SyncPlanDto app_result \<times> RuntimeInner" where
  "plan_sync display sha256 env now w profile r =
     (case and_then (ensure_open r) (\<lambda>_. validate_sync_profile_format profile) of
        Inl e \<Rightarrow> (Inl e, r)
      | Inr _ \<Rightarrow>
          if \<not> spr_enabled profile
          then (Inl (app_error InvalidState ''sync profile is disabled'' ''sync.plan''), r)
          else case sync_pipeline display sha256 env now w profile r of
                 (Inl e, r1) \<Rightarrow> (Inl e, r1)
               | (Inr p, r1) \<Rightarrow>
                   (sync_plan_to_dto display (spr_id profile) (pl_config p) (pl_diff p) (pl_conflicts p)
                      (pl_phone_files p) (pl_snapshot p), r1))"

section \<open>One run\<close>

text \<open>\<open>run_sync_once\<close>: \<open>stopped\<close> are the two looks at the token of the job, before and after the
  pipeline; \<open>io\<close> is how recovery goes and \<open>items\<close> how each file goes.\<close>

definition run_sync_once ::
  "(core_error \<Rightarrow> string) \<Rightarrow> (bytes \<Rightarrow> string) \<Rightarrow> sync_env \<Rightarrow> recover_io \<Rightarrow> (string \<Rightarrow> item_env) \<Rightarrow> bool \<Rightarrow> bool \<times> bool
   \<Rightarrow> nat \<Rightarrow> SyncProfileDto \<Rightarrow> world \<Rightarrow> RuntimeInner
   \<Rightarrow> (SyncRunResult \<times> SyncSnapshot) option app_result \<times> world \<times> RuntimeInner" where
  "run_sync_once display sha256 env io items final_save_ok stopped now profile w r =
     (if fst stopped then (Inr None, w, r)
      else case sync_pipeline display sha256 env now w profile r of
             (Inl e, r1) \<Rightarrow> (Inl e, w, r1)
           | (Inr p, r1) \<Rightarrow>
               if snd stopped then (Inr None, w, r1)
               else case recover_impl io (Some (components (sc_local_root (pl_config p)))) w (pl_snapshot p) of
                      (Inl e, effs) \<Rightarrow> (Inl (from_core_error display e ''sync.recover''), run_effects effs w, r1)
                    | (Inr snapshot, effs) \<Rightarrow>
                        (let w1 = run_effects effs w in
                         case sync_diff_and_conflicts (path_exists w1) (sha256_in sha256 (sv_readable env) w1)
                                (pl_phone_files p) snapshot of
                           (diff, conflicts) \<Rightarrow>
                             (case execute_plan sha256 items final_save_ok (pl_config p) (pl_phone_files p) diff
                                     snapshot conflicts w1 of
                                (Some e, run) \<Rightarrow> (Inl (from_core_error display e ''sync.run''), ru_world run, r1)
                              | (None, run) \<Rightarrow> (Inr (Some (ru_result run, ru_snapshot run)), ru_world run, r1))))"

section \<open>One batch of a watch\<close>

record watch_run =
  wr_world :: world
  wr_snapshot :: SyncSnapshot
  wr_result :: SyncRunResult
  wr_touched :: bool

definition extend_result :: "SyncRunResult \<Rightarrow> SyncRunResult \<Rightarrow> SyncRunResult" where
  "extend_result new run =
     run\<lparr>sr_downloaded := sr_downloaded run @ sr_downloaded new, sr_deleted := sr_deleted run @ sr_deleted new,
         sr_failures := sr_failures run @ sr_failures new\<rparr>"

definition watch_change ::
  "(bytes \<Rightarrow> string) \<Rightarrow> (path \<Rightarrow> bool) \<Rightarrow> SyncConfig \<Rightarrow> item_env \<Rightarrow> FileChange \<Rightarrow> watch_run
   \<Rightarrow> core_error option \<times> watch_run" where
  "watch_change sha256 readable config item change run =
     (case fc_file change of
        None \<Rightarrow> (None, run)
      | Some file \<Rightarrow>
          if rf_is_directory file then (None, run)
          else let guard = one_entry_diff change; w = wr_world run; s = wr_snapshot run in
               if (sd_added guard \<noteq> [] \<or> sd_deleted guard \<noteq> []) \<and>
                  check_conflicts (path_exists w) (sha256_in sha256 readable w) guard s \<noteq> []
               then (None, run\<lparr>wr_result := (wr_result run)\<lparr>sr_conflicts := sr_conflicts (wr_result run) @ [rf_path file]\<rparr>\<rparr>)
               else case apply_file_change sha256 item config change s w of
                      (Some e, one) \<Rightarrow> (Some e, run\<lparr>wr_world := ru_world one, wr_snapshot := ru_snapshot one\<rparr>)
                    | (None, one) \<Rightarrow>
                        (None, \<lparr>wr_world = ru_world one, wr_snapshot = ru_snapshot one,
                                wr_result = extend_result (ru_result one) (wr_result run), wr_touched = True\<rparr>))"

text \<open>The changes come with how each of them goes.\<close>

fun watch_loop ::
  "(bytes \<Rightarrow> string) \<Rightarrow> (path \<Rightarrow> bool) \<Rightarrow> SyncConfig \<Rightarrow> (FileChange \<times> item_env) list \<Rightarrow> watch_run
   \<Rightarrow> core_error option \<times> watch_run" where
  "watch_loop sha256 readable config [] run = (None, run)"
| "watch_loop sha256 readable config ((change, item) # changes) run =
     (case watch_change sha256 readable config item change run of
        (Some e, run1) \<Rightarrow> (Some e, run1)
      | (None, run1) \<Rightarrow> watch_loop sha256 readable config changes run1)"

definition apply_watch_batch ::
  "(core_error \<Rightarrow> string) \<Rightarrow> (bytes \<Rightarrow> string) \<Rightarrow> sync_env \<Rightarrow> recover_io \<Rightarrow> bool \<Rightarrow> nat \<Rightarrow> SyncProfileDto
   \<Rightarrow> (FileChange \<times> item_env) list \<Rightarrow> world \<Rightarrow> RuntimeInner \<Rightarrow> SyncRunResultDto app_result \<times> world \<times> RuntimeInner" where
  "apply_watch_batch display sha256 env io save_ok now profile changes w r =
     (case session_handle (spr_session_id profile) r of
        Inl e \<Rightarrow> (Inl e, w, r)
      | Inr _ \<Rightarrow>
          (let r1 = record_activity now (spr_session_id profile) r;
               identity = sync_identity_for (sv_canonicalize env) profile
           in case and_then (app_of display ''sync.store'' (sv_config_dir env))
                     (\<lambda>_. app_of display ''sync.watch'' (sv_load_ok env)) of
                Inl e \<Rightarrow> (Inl e, w, r1)
              | Inr _ \<Rightarrow>
                  (case recover_impl io (Some (components (id_local_root identity))) w (w_ledger w) of
                     (Inl e, effs) \<Rightarrow> (Inl (from_core_error display e ''sync.recover''), run_effects effs w, r1)
                   | (Inr snapshot, effs) \<Rightarrow>
                       (let w1 = run_effects effs w in
                        case app_of display ''sync.watch'' (sv_host_uuid env) of
                          Inl e \<Rightarrow> (Inl e, w1, r1)
                        | Inr host_uuid \<Rightarrow>
                            (case watch_loop sha256 (sv_readable env) (profile_config env profile host_uuid) changes
                                    \<lparr>wr_world = w1, wr_snapshot = snapshot,
                                     wr_result = \<lparr>sr_downloaded = [], sr_deleted = [], sr_failures = [], sr_conflicts = []\<rparr>,
                                     wr_touched = False\<rparr> of
                               (Some e, run) \<Rightarrow> (Inl (from_core_error display e ''sync.watch''), wr_world run, r1)
                             | (None, run) \<Rightarrow>
                                 if \<not> wr_touched run then (Inr (sync_run_result_to_dto (wr_result run)), wr_world run, r1)
                                 else if \<not> save_ok
                                 then (Inl (from_core_error display (Configuration ''sync.write_failed'') ''sync.watch''),
                                       wr_world run, r1)
                                 else (Inr (sync_run_result_to_dto (wr_result run)),
                                       apply_effect (SaveLedger (wr_snapshot run)) (wr_world run), r1))))))"

section \<open>Ledgers of a device\<close>

definition ledger_status :: "SyncLedgerIdentity \<Rightarrow> SyncSnapshot \<Rightarrow> SyncLedgerStatusDto" where
  "ledger_status identity snapshot =
     \<lparr>sld_device_uuid = id_device_uuid identity, sld_remote_root = Some (id_remote_root identity),
      sld_local_root = Some (id_local_root identity), sld_files = length (sn_files snapshot),
      sld_bytes = sum_list (map (fr_size \<circ> snd) (sn_files snapshot)) mod 2 ^ 64\<rparr>"

definition sync_ledger_status ::
  "(core_error \<Rightarrow> string) \<Rightarrow> unit core_result \<Rightarrow> SyncSnapshot option core_result \<Rightarrow> SyncLedgerIdentity \<Rightarrow> RuntimeInner
   \<Rightarrow> SyncLedgerStatusDto app_result" where
  "sync_ledger_status display config_dir loaded identity r =
     and_then (ensure_open r) (\<lambda>_.
       if trim (id_device_uuid identity) = []
       then Inl (app_error InvalidArgument ''device_uuid must not be empty'' ''sync.status'')
       else and_then (app_of display ''sync.store'' config_dir) (\<lambda>_.
            and_then (app_of display ''sync.status'' loaded) (\<lambda>snapshot.
              Inr (ledger_status identity (the_or \<lparr>sn_files = []\<rparr> snapshot)))))"

text \<open>The entries of the ledger directory come in the order the file system lists them, each with the
  bytes that could be read of it.\<close>

definition has_json_extension :: "string \<Rightarrow> bool" where
  "has_json_extension name \<longleftrightarrow> 5 < length name \<and> drop (length name - 5) name = ''.json''"

definition listed_ledger :: "ledger_codec \<Rightarrow> string option \<Rightarrow> string \<times> bytes option \<Rightarrow> SyncLedgerStatusDto option" where
  "listed_ledger codec device_uuid entry =
     (case entry of (name, contents) \<Rightarrow>
        if \<not> has_json_extension name then None
        else case Option.bind contents (ledger_from_json codec) of
               None \<Rightarrow> None
             | Some ledger \<Rightarrow>
                 if lf_schema_version ledger \<noteq> 3 then None
                 else if device_uuid \<noteq> None \<and> device_uuid \<noteq> Some (id_device_uuid (lf_identity ledger)) then None
                 else Some (ledger_status (lf_identity ledger) (lf_snapshot ledger)))"

definition list_sync_ledgers ::
  "(core_error \<Rightarrow> string) \<Rightarrow> ledger_codec \<Rightarrow> unit core_result \<Rightarrow> (string + (string \<times> bytes option) list option)
   \<Rightarrow> string option \<Rightarrow> RuntimeInner \<Rightarrow> SyncLedgerStatusDto list app_result" where
  "list_sync_ledgers display codec config_dir read_dir device_uuid r =
     and_then (ensure_open r) (\<lambda>_. and_then (app_of display ''sync.store'' config_dir) (\<lambda>_.
       case read_dir of
         Inl os_error \<Rightarrow>
           Inl ((app_error LocalPathNotFound ''cannot read sync ledger directory'' ''sync.status'')\<lparr>pe_detail := Some os_error\<rparr>)
       | Inr None \<Rightarrow> Inr []
       | Inr (Some entries) \<Rightarrow>
           Inr (sort_key (\<lambda>l. the_or [] (sld_remote_root l))
                 (sort_key (\<lambda>l. the_or [] (sld_local_root l))
                   (List.map_filter (listed_ledger codec device_uuid) entries)))))"

section \<open>Local edits survive\<close>

text \<open>The row of a phone path as far as it protects a local file: where the file is and what it
  should contain. \<open>placed\<close> is what the code keeps of a ledger: every row points to the destination
  of its phone path.\<close>

definition row_link :: "SyncSnapshot \<Rightarrow> string \<Rightarrow> (string \<times> string option) option" where
  "row_link s p = map_option (\<lambda>r. (fr_local_path r, fr_local_sha256 r)) (ledger_get s p)"

definition placed :: "SyncConfig \<Rightarrow> SyncSnapshot \<Rightarrow> bool" where
  "placed config s \<longleftrightarrow>
     (\<forall>q r. ledger_get s q = Some r \<longrightarrow> local_destination config q = Inr (components (fr_local_path r)))"

definition plain_root :: "SyncConfig \<Rightarrow> bool" where
  "plain_root config \<longleftrightarrow> (\<exists>names. names \<noteq> [] \<and> components (sc_local_root config) = RootDir # map Normal names)"

definition not_temporary :: "path \<Rightarrow> bool" where
  "not_temporary local \<longleftrightarrow> (\<forall>d nonce. staged_path d nonce \<noteq> local \<and> trash_path d nonce \<noteq> local)"

definition edited :: "(bytes \<Rightarrow> string) \<Rightarrow> (path \<Rightarrow> bool) \<Rightarrow> SyncConfig \<Rightarrow> string \<Rightarrow> path \<Rightarrow> world \<Rightarrow> SyncSnapshot \<Rightarrow> bool" where
  "edited sha256 readable config p local w s \<longleftrightarrow>
     local_destination config p = Inr local \<and> placed config s \<and>
     in_conflict (path_exists w) (sha256_in sha256 readable w) s p"

lemma edited_cong:
  assumes "edited sha rd config p local w s" "w_files w' local = w_files w local" "row_link s' p = row_link s p"
    and "placed config s'"
  shows "edited sha rd config p local w' s'"
proof -
  obtain r h where r: "ledger_get s p = Some r" "fr_local_sha256 r = Some h"
    using assms(1) by (auto simp: edited_def in_conflict_def split: option.splits)
  then have local: "components (fr_local_path r) = local"
    using assms(1) by (auto simp: edited_def placed_def)
  obtain r' where r': "ledger_get s' p = Some r'" "fr_local_path r' = fr_local_path r" "fr_local_sha256 r' = Some h"
    using assms(3) r by (auto simp: row_link_def)
  show ?thesis
    using assms(1,2,4) r r' local
    by (auto simp: edited_def in_conflict_def path_exists_def sha256_in_def split: option.splits node.splits if_splits)
qed

lemma destination_placed:
  assumes "plain_root config" "local_destination config q = Inr d"
  shows "components (render d) = d"
proof -
  obtain root where root: "root \<noteq> []" "components (sc_local_root config) = RootDir # map Normal root"
    using assms(1) by (auto simp: plain_root_def)
  have clean: "list_all clean_name root"
    using root(2) components_normal_clean[of _ "sc_local_root config"] by (auto simp: list_all_iff clean_name_def)
  obtain names where names: "d = components (sc_local_root config) @ map Normal names"
    "list_all clean_name names"
    using local_destination_contained[where config = config and phone_path = q] assms(2) by (auto simp: clean_name_def[abs_def])
  show ?thesis using components_render[of "root @ names"] root clean names by simp
qed

lemma destination_inj:
  assumes "local_destination config p = Inr d" "local_destination config q = Inr d"
  shows "components q = components p"
  using local_destination_contained[where config = config and phone_path = p]
    local_destination_contained[where config = config and phone_path = q] assms
  by auto

lemma download_frame:
  assumes "journaled_download sha env q file dest s r = (e, effs, s', r')" "dest \<noteq> local" "not_temporary local"
  shows "w_files (run_effects effs w) local = w_files w local"
proof (rule run_effects_frame)
  have "staged_path dest (ie_nonce env) \<noteq> local" using assms(3) by (simp add: not_temporary_def)
  then show "local \<notin> set (effect_paths eff)" if "eff \<in> set effs" for eff
    using assms(1,2) that by (auto simp: journaled_download_def Let_def split: option.splits if_splits)
qed

lemma delete_frame:
  assumes "journaled_delete env w q loc s r = (e, effs, s', r')" "loc \<noteq> local" "not_temporary local"
  shows "w_files (run_effects effs w) local = w_files w local"
proof (rule run_effects_frame)
  have "trash_path loc (ie_nonce env) \<noteq> local" using assms(3) by (simp add: not_temporary_def)
  then show "local \<notin> set (effect_paths eff)" if "eff \<in> set effs" for eff
    using assms(1,2) that by (auto simp: journaled_delete_def Let_def split: option.splits if_splits node.splits)
qed

lemma placed_insert:
  "placed config s \<Longrightarrow> plain_root config \<Longrightarrow> local_destination config q = Inr d \<Longrightarrow>
   placed config (ledger_insert q (new_record file d h) s)"
  by (auto simp: placed_def new_record_def destination_placed)

lemma placed_remove: "placed config s \<Longrightarrow> placed config (ledger_remove q s)"
  by (auto simp: placed_def)

lemma refresh_row_link: "row_link (refresh_row q file s) p = row_link s p"
  by (auto simp: refresh_row_def row_link_def update_metadata_def split: option.splits)

lemma placed_refresh: "placed config s \<Longrightarrow> placed config (refresh_row q file s)"
  by (auto simp: refresh_row_def placed_def update_metadata_def split: option.splits)

text \<open>An item of another phone path leaves an edited file as it is.\<close>

lemma download_keeps_edit:
  assumes "edited sha rd config p local w s" "q \<noteq> p" "components q = components p \<longrightarrow> q = p"
    and "local_destination config q = Inr dest" "plain_root config" "not_temporary local"
    and "journaled_download sha env q file dest s r = (e, effs, s', r')"
  shows "edited sha rd config p local (run_effects effs w) s' \<and> w_files (run_effects effs w) local = w_files w local"
proof -
  have "dest \<noteq> local" using assms(1-4) destination_inj[of config p local q] by (auto simp: edited_def)
  then have files: "w_files (run_effects effs w) local = w_files w local"
    using download_frame[OF assms(7)] assms(6) by blast
  have s': "s' = s \<or> (\<exists>h. s' = ledger_insert q (new_record file dest h) s)"
    using download_outcome[OF assms(7)] by blast
  then have "row_link s' p = row_link s p" using assms(2) by (auto simp: row_link_def)
  moreover have "placed config s'"
    using s' assms(1,4,5) placed_insert by (auto simp: edited_def)
  ultimately show ?thesis using edited_cong[OF assms(1) files] files by blast
qed

lemma delete_keeps_edit:
  assumes "edited sha rd config p local w s" "q \<noteq> p" "components q = components p \<longrightarrow> q = p"
    and "local_destination config q = Inr loc" "not_temporary local"
    and "journaled_delete env w q loc s r = (e, effs, s', r')"
  shows "edited sha rd config p local (run_effects effs w) s' \<and> w_files (run_effects effs w) local = w_files w local"
proof -
  have "loc \<noteq> local" using assms(1-4) destination_inj[of config p local q] by (auto simp: edited_def)
  then have files: "w_files (run_effects effs w) local = w_files w local"
    using delete_frame[OF assms(6)] assms(5) by blast
  have s': "s' = s \<or> s' = ledger_remove q s" using delete_outcome[OF assms(6)] by blast
  then have "row_link s' p = row_link s p" using assms(2) by (auto simp: row_link_def)
  moreover have "placed config s'" using s' assms(1) placed_remove by (auto simp: edited_def)
  ultimately show ?thesis using edited_cong[OF assms(1) files] files by blast
qed

lemma apply_change_keeps:
  assumes edit: "edited sha rd config p local w s"
    and spell: "\<And>file. fc_file change = Some file \<Longrightarrow> components (rf_path file) = components p \<longrightarrow> rf_path file = p"
    and root: "plain_root config" "not_temporary local"
    and step: "apply_file_change sha item config change s w = (e, one)"
    and item_file: "fc_file change = Some file" "\<not> rf_is_directory file"
    and unguarded: "p \<notin> set (sd_added (one_entry_diff change) @ sd_deleted (one_entry_diff change))"
  shows "edited sha rd config p local (ru_world one) (ru_snapshot one) \<and> w_files (ru_world one) local = w_files w local"
proof -
  let ?q = "rf_path file" and ?r = "\<lparr>sr_downloaded = [], sr_deleted = [], sr_failures = [], sr_conflicts = []\<rparr> :: SyncRunResult"
  consider (delete) "fc_status change = SDeleted" | (download) "fc_status change \<in> {SAdded, SModified, SFileAndInfoModified}"
    | (refresh) "fc_status change \<in> {SNone, SInfoModified, SUnknown}"
    by (cases "fc_status change") auto
  then show ?thesis
  proof cases
    case delete
    then have q: "?q \<noteq> p" using unguarded item_file by (auto simp: one_entry_diff_def)
    show ?thesis
    proof (cases "ledger_get s ?q")
      case None
      then show ?thesis using step delete item_file edit by (auto simp: apply_file_change_def Let_def)
    next
      case (Some rec)
      obtain effs s' r' where d: "journaled_delete item w ?q (components (fr_local_path rec)) s ?r = (e, effs, s', r')"
        "ru_world one = run_effects effs w" "ru_snapshot one = s'"
        using step delete item_file Some
        by (cases "journaled_delete item w ?q (components (fr_local_path rec)) s ?r")
           (auto simp: apply_file_change_def Let_def after_item_def)
      have "local_destination config ?q = Inr (components (fr_local_path rec))"
        using edit Some by (auto simp: edited_def placed_def)
      then show ?thesis using delete_keeps_edit[OF edit q spell[OF item_file(1)] _ root(2) d(1)] d(2,3) by simp
    qed
  next
    case download
    then have q: "?q \<noteq> p" using unguarded item_file by (auto simp: one_entry_diff_def)
    show ?thesis
    proof (cases "local_destination config ?q")
      case (Inl x)
      then show ?thesis using step download item_file edit by (auto simp: apply_file_change_def Let_def)
    next
      case (Inr dest)
      obtain effs s' r' where d: "journaled_download sha item ?q file dest s ?r = (e, effs, s', r')"
        "ru_world one = run_effects effs w" "ru_snapshot one = s'"
        using step download item_file Inr
        by (cases "journaled_download sha item ?q file dest s ?r")
           (auto simp: apply_file_change_def Let_def after_item_def)
      show ?thesis using download_keeps_edit[OF edit q spell[OF item_file(1)] Inr root d(1)] d(2,3) by simp
    qed
  next
    case refresh
    then have one: "ru_world one = w" "ru_snapshot one = refresh_row ?q file s"
      using step item_file by (auto simp: apply_file_change_def Let_def)
    have "placed config (refresh_row ?q file s)" using edit placed_refresh by (simp add: edited_def)
    then show ?thesis using edited_cong[OF edit refl refresh_row_link] one by simp
  qed
qed

lemma watch_change_keeps:
  assumes edit: "edited sha rd config p local (wr_world run) (wr_snapshot run)"
    and spell: "\<And>file. fc_file change = Some file \<Longrightarrow> components (rf_path file) = components p \<longrightarrow> rf_path file = p"
    and root: "plain_root config" "not_temporary local"
    and step: "watch_change sha rd config item change run = (e, run')"
  shows "edited sha rd config p local (wr_world run') (wr_snapshot run') \<and>
    w_files (wr_world run') local = w_files (wr_world run) local \<and>
    set (sr_conflicts (wr_result run)) \<subseteq> set (sr_conflicts (wr_result run')) \<and>
    (p \<in> set (sd_added (one_entry_diff change) @ sd_deleted (one_entry_diff change)) \<longrightarrow>
       p \<in> set (sr_conflicts (wr_result run')))"
proof -
  let ?w = "wr_world run" and ?s = "wr_snapshot run"
  let ?guard = "one_entry_diff change"
  define blocked where "blocked \<longleftrightarrow> (sd_added ?guard \<noteq> [] \<or> sd_deleted ?guard \<noteq> []) \<and>
    check_conflicts (path_exists ?w) (sha256_in sha rd ?w) ?guard ?s \<noteq> []"
  consider (skip) "fc_file change = None \<or> (\<exists>file. fc_file change = Some file \<and> rf_is_directory file)"
    | (changed) f where "fc_file change = Some f" "\<not> rf_is_directory f"
    by (cases "fc_file change") auto
  then show ?thesis
  proof cases
    case skip
    then have "run' = run" "sd_added ?guard = []" "sd_deleted ?guard = []"
      using step by (auto simp: watch_change_def one_entry_diff_def diff_empty_def)
    then show ?thesis using edit by simp
  next
    case (changed f)
    let ?q = "rf_path f"
    show ?thesis
    proof (cases blocked)
      case True
      then have "run' = run\<lparr>wr_result := (wr_result run)\<lparr>sr_conflicts := sr_conflicts (wr_result run) @ [?q]\<rparr>\<rparr>"
        using step changed by (auto simp: watch_change_def Let_def blocked_def)
      moreover have "set (sd_added ?guard @ sd_deleted ?guard) \<subseteq> {?q}"
        using changed by (auto simp: one_entry_diff_def diff_empty_def)
      ultimately show ?thesis using edit by auto
    next
      case False
      obtain one where one: "apply_file_change sha item config change ?s ?w = (e, one)"
        "wr_world run' = ru_world one" "wr_snapshot run' = ru_snapshot one"
        "set (sr_conflicts (wr_result run)) \<subseteq> set (sr_conflicts (wr_result run'))"
        using step changed False
        by (auto simp: watch_change_def Let_def blocked_def extend_result_def split: prod.splits option.splits)
      have unguarded: "p \<notin> set (sd_added ?guard @ sd_deleted ?guard)"
      proof
        assume p: "p \<in> set (sd_added ?guard @ sd_deleted ?guard)"
        then have "p \<in> set (check_conflicts (path_exists ?w) (sha256_in sha rd ?w) ?guard ?s)"
          using edit by (simp add: check_conflicts_set edited_def)
        then show False using False p by (auto simp: blocked_def)
      qed
      have "edited sha rd config p local (ru_world one) (ru_snapshot one) \<and>
        w_files (ru_world one) local = w_files ?w local"
        using apply_change_keeps[OF edit spell root one(1) changed unguarded] by simp
      then show ?thesis using one unguarded by simp
    qed
  qed
qed

lemma watch_loop_keeps:
  assumes "edited sha rd config p local (wr_world run) (wr_snapshot run)" "plain_root config" "not_temporary local"
    and "\<And>change item file. (change, item) \<in> set changes \<Longrightarrow> fc_file change = Some file \<Longrightarrow>
      components (rf_path file) = components p \<longrightarrow> rf_path file = p"
    and "watch_loop sha rd config changes run = (e, run')"
  shows "w_files (wr_world run') local = w_files (wr_world run) local \<and>
    set (sr_conflicts (wr_result run)) \<subseteq> set (sr_conflicts (wr_result run')) \<and>
    (e = None \<longrightarrow> (\<forall>(change, item) \<in> set changes.
       p \<in> set (sd_added (one_entry_diff change) @ sd_deleted (one_entry_diff change)) \<longrightarrow>
       p \<in> set (sr_conflicts (wr_result run'))))"
  using assms
proof (induction changes arbitrary: run)
  case (Cons c changes)
  obtain change item where c: "c = (change, item)" by (cases c)
  obtain e1 run1 where step: "watch_change sha rd config item change run = (e1, run1)" by fastforce
  have here: "components (rf_path f) = components p \<longrightarrow> rf_path f = p" if "fc_file change = Some f" for f
    using Cons.prems(4)[of change item f] that c by simp
  note keeps = watch_change_keeps[OF Cons.prems(1) here Cons.prems(2,3) step]
  show ?case
  proof (cases e1)
    case None
    then have "watch_loop sha rd config changes run1 = (e, run')" using Cons.prems(5) c step by simp
    moreover have "components (rf_path f) = components p \<longrightarrow> rf_path f = p"
      if "(change', item') \<in> set changes" "fc_file change' = Some f" for change' item' f
      using Cons.prems(4)[of change' item' f] that by simp
    ultimately have rest: "w_files (wr_world run') local = w_files (wr_world run1) local"
      "set (sr_conflicts (wr_result run1)) \<subseteq> set (sr_conflicts (wr_result run'))"
      "e = None \<longrightarrow> (\<forall>(change, item) \<in> set changes.
         p \<in> set (sd_added (one_entry_diff change) @ sd_deleted (one_entry_diff change)) \<longrightarrow>
         p \<in> set (sr_conflicts (wr_result run')))"
      using Cons.IH[of run1] keeps Cons.prems(2,3) by blast+
    then show ?thesis using keeps c by auto
  next
    case (Some x)
    then have "e = Some x" "run' = run1" using Cons.prems(5) c step by simp_all
    then show ?thesis using keeps by simp
  qed
qed simp

text \<open>The same for the items of a plan: a path in conflict is passed over, and no other item reaches
  its file.\<close>

definition same_spelling :: "string \<Rightarrow> string list \<Rightarrow> bool" where
  "same_spelling p qs \<longleftrightarrow> list_all (\<lambda>q. components q = components p \<longrightarrow> q = p) qs"

lemma added_loop_keeps:
  assumes "edited sha rd config p local (ru_world run) (ru_snapshot run)" "plain_root config" "not_temporary local"
    and "same_spelling p qs" "p \<in> set qs \<longrightarrow> p \<in> set conflicts"
    and "item_loop (added_item sha items config files conflicts) qs run = (e, run')"
  shows "edited sha rd config p local (ru_world run') (ru_snapshot run') \<and>
    w_files (ru_world run') local = w_files (ru_world run) local"
  using assms
proof (induction qs arbitrary: run)
  case (Cons q qs)
  obtain e1 run1 where step: "added_item sha items config files conflicts q run = (e1, run1)" by fastforce
  have one: "edited sha rd config p local (ru_world run1) (ru_snapshot run1) \<and>
      w_files (ru_world run1) local = w_files (ru_world run) local"
  proof (cases "q \<in> set conflicts \<or> find (\<lambda>f. rf_path f = q) files = None \<or> (\<exists>x. local_destination config q = Inl x)")
    case True
    then show ?thesis using step Cons.prems(1) by (auto simp: added_item_def split: option.splits if_splits sum.splits)
  next
    case False
    then obtain f dest where f: "find (\<lambda>f. rf_path f = q) files = Some f" "local_destination config q = Inr dest"
      by (cases "local_destination config q") auto
    have q: "q \<noteq> p" "components q = components p \<longrightarrow> q = p"
      using False Cons.prems(4,5) by (auto simp: same_spelling_def)
    obtain effs s' r' where d: "journaled_download sha (items q) q f dest (ru_snapshot run) (ru_result run) = (e1, effs, s', r')"
      "ru_world run1 = run_effects effs (ru_world run)" "ru_snapshot run1 = s'"
      using step f False
      by (cases "journaled_download sha (items q) q f dest (ru_snapshot run) (ru_result run)")
         (auto simp: added_item_def after_item_def)
    show ?thesis using download_keeps_edit[OF Cons.prems(1) q f(2) Cons.prems(2,3) d(1)] d(2,3) by simp
  qed
  show ?case
  proof (cases e1)
    case None
    then show ?thesis using Cons.IH[of run1] one step Cons.prems by (simp add: same_spelling_def)
  next
    case (Some x)
    then show ?thesis using one step Cons.prems(6) by simp
  qed
qed simp

lemma deleted_loop_keeps:
  assumes "edited sha rd config p local (ru_world run) (ru_snapshot run)" "placed config s" "not_temporary local"
    and "same_spelling p qs" "p \<in> set qs \<longrightarrow> p \<in> set conflicts"
    and "item_loop (deleted_item items s conflicts) qs run = (e, run')"
  shows "edited sha rd config p local (ru_world run') (ru_snapshot run') \<and>
    w_files (ru_world run') local = w_files (ru_world run) local"
  using assms
proof (induction qs arbitrary: run)
  case (Cons q qs)
  obtain e1 run1 where step: "deleted_item items s conflicts q run = (e1, run1)" by fastforce
  have one: "edited sha rd config p local (ru_world run1) (ru_snapshot run1) \<and>
      w_files (ru_world run1) local = w_files (ru_world run) local"
  proof (cases "q \<in> set conflicts \<or> ledger_get s q = None")
    case True
    then show ?thesis using step Cons.prems(1) by (auto simp: deleted_item_def split: option.splits)
  next
    case False
    then obtain rec where rec: "ledger_get s q = Some rec" by auto
    then have dest: "local_destination config q = Inr (components (fr_local_path rec))"
      using Cons.prems(2) by (simp add: placed_def)
    have q: "q \<noteq> p" "components q = components p \<longrightarrow> q = p"
      using False Cons.prems(4,5) by (auto simp: same_spelling_def)
    obtain effs s' r' where d: "journaled_delete (items q) (ru_world run) q (components (fr_local_path rec))
        (ru_snapshot run) (ru_result run) = (e1, effs, s', r')"
      "ru_world run1 = run_effects effs (ru_world run)" "ru_snapshot run1 = s'"
      using step rec False
      by (cases "journaled_delete (items q) (ru_world run) q (components (fr_local_path rec)) (ru_snapshot run) (ru_result run)")
         (auto simp: deleted_item_def after_item_def)
    show ?thesis using delete_keeps_edit[OF Cons.prems(1) q dest Cons.prems(3) d(1)] d(2,3) by simp
  qed
  show ?case
  proof (cases e1)
    case None
    then show ?thesis using Cons.IH[of run1] one step Cons.prems by (simp add: same_spelling_def)
  next
    case (Some x)
    then show ?thesis using one step Cons.prems(6) by simp
  qed
qed simp

lemma execute_plan_keeps:
  assumes edit: "edited sha rd config p local w s" and root: "plain_root config" "not_temporary local"
    and spell: "same_spelling p (sd_added diff)" "same_spelling p (sd_deleted diff)"
    and conflicts: "conflicts = check_conflicts (path_exists w) (sha256_in sha rd w) diff s"
    and run: "execute_plan sha items ok config files diff s conflicts w = (e, run)"
  shows "w_files (ru_world run) local = w_files w local"
proof -
  let ?run0 = "\<lparr>ru_world = w, ru_snapshot = s, ru_result = \<lparr>sr_downloaded = [], sr_deleted = [], sr_failures = [],
    sr_conflicts = conflicts\<rparr>\<rparr>"
  have shut: "p \<in> set (sd_added diff) \<longrightarrow> p \<in> set conflicts" "p \<in> set (sd_deleted diff) \<longrightarrow> p \<in> set conflicts"
    using edit unfolding conflicts edited_def by (simp_all add: check_conflicts_set)
  obtain e1 run1 where added: "item_loop (added_item sha items config files conflicts) (sd_added diff) ?run0 = (e1, run1)"
    by fastforce
  have one: "edited sha rd config p local (ru_world run1) (ru_snapshot run1)" "w_files (ru_world run1) local = w_files w local"
    using added_loop_keeps[OF _ root spell(1) shut(1) added] edit by simp_all
  show ?thesis
  proof (cases e1)
    case None
    obtain e2 run2 where deleted: "item_loop (deleted_item items s conflicts) (sd_deleted diff) run1 = (e2, run2)"
      by fastforce
    have "placed config s" using edit by (simp add: edited_def)
    then have "w_files (ru_world run2) local = w_files w local"
      using deleted_loop_keeps[OF one(1) _ root(2) spell(2) shut(2) deleted] one(2) by simp
    then show ?thesis
      using run added None deleted by (auto simp: execute_plan_def Let_def split: option.splits if_splits)
  next
    case (Some x)
    then show ?thesis using run added one(2) by (auto simp: execute_plan_def Let_def)
  qed
qed

lemma no_journal_recovery: "w_journal w = NoJournal \<Longrightarrow> recover_impl io root w s = (Inr s, [])"
  by (simp add: recover_impl_def)

lemma photo_attempts_answer:
  "photo_attempts display now cancelled answer i left r = (Inr asked, r1) \<Longrightarrow> \<exists>a. answer a = Inr asked"
proof (induction left arbitrary: r)
  case 0
  then show ?case
    by (subst (asm) photo_attempts.simps) (auto simp: Let_def split: sum.splits if_splits)
next
  case (Suc n)
  from Suc.prems Suc.IH show ?case
    by (subst (asm) photo_attempts.simps) (auto simp: Let_def split: sum.splits if_splits)
qed

lemma sync_pipeline_result:
  assumes "sync_pipeline display sha env now w profile r = (Inr p, r1)"
  obtains host where "sv_host_uuid env = Inr host" "pl_config p = profile_config env profile host"
    "pl_snapshot p = w_ledger w"
    "\<exists>a result. sv_answer env (pc_id_from_host_uuid host) (snapshot_to_remote_files (w_ledger w)) a = Inr result \<and>
       pl_phone_files p = filter (in_remote_root profile) (pr_files result)"
proof -
  obtain host asked where host: "sv_host_uuid env = Inr host"
    "photo_attempts display now (sv_cancelled env)
       (sv_answer env (pc_id_from_host_uuid host) (snapshot_to_remote_files (w_ledger w)))
       (spr_session_id profile) PHOTO_SYNC_REJECT_RETRIES r = (Inr asked, r1)"
    "p = (case sync_diff_and_conflicts (path_exists w) (sha256_in sha (sv_readable env) w)
            (filter (in_remote_root profile) (pr_files asked)) (w_ledger w) of
          (diff, conflicts) \<Rightarrow> \<lparr>pl_config = profile_config env profile host, pl_snapshot = w_ledger w,
             pl_phone_files = filter (in_remote_root profile) (pr_files asked), pl_diff = diff, pl_conflicts = conflicts\<rparr>)"
    using assms by (auto simp: sync_pipeline_def and_then_def Let_def split: sum.splits prod.splits)
  then show thesis
    using that[OF host(1)] photo_attempts_answer[OF host(2)] by (auto split: prod.splits)
qed



section \<open>Examples\<close>

lemma not_temporary_plain: "CHR ''.'' \<notin> set n \<Longrightarrow> not_temporary (q @ [Normal n])"
  by (auto simp: not_temporary_def staged_path_def trash_path_def append_name_def)

definition photo_profile :: SyncProfileDto where
  "photo_profile = \<lparr>spr_id = ''x'', spr_session_id = 1, spr_device_uuid = ''u'', spr_remote_root = ''/r'',
     spr_local_root = ''/p'', spr_enabled = True\<rparr>"

definition photo_env :: sync_env where
  "photo_env = \<lparr>sv_canonicalize = Some, sv_config_dir = Inr (), sv_load_ok = Inr (), sv_host_uuid = Inr ''c'',
     sv_cancelled = (\<lambda>_. False), sv_answer = (\<lambda>_ _ _. Inr \<lparr>pr_is_first = None, pr_files = [remote ''/r/a'' (Some ''new'')],
     pr_is_success = None\<rparr>), sv_readable = (\<lambda>_. True)\<rparr>"

definition edited_world :: world where
  "edited_world = \<lparr>w_files = [photo \<mapsto> FileNode [9]],
     w_ledger = \<lparr>sn_files = [(''/r/a'', row (Some ''old'') ''/p/a'' (Some ''h''))]\<rparr>, w_journal = NoJournal\<rparr>"

definition photo_runtime :: RuntimeInner where
  "photo_runtime = sample_runtime\<lparr>ri_sessions := [1 \<mapsto> \<lparr>as_device = sample_descriptor,
     as_device_info = (device_info_to_dto sample_phone)\<lparr>ddi_phone_id := Some ''u''\<rparr>, as_connected_at_ms = 0,
     as_last_activity_at_ms = 0, as_state = Ready, as_event_task = True\<rparr>]\<rparr>"

lemma photo_config_facts:
  "plain_root (profile_config photo_env photo_profile ''c'')" "not_temporary photo"
  "edited (\<lambda>_. ''other'') (sv_readable photo_env) (profile_config photo_env photo_profile ''c'') ''/r/a'' photo edited_world (w_ledger edited_world)"
proof -
  have root: "components ''/p'' = RootDir # map Normal [''p'']" "components ''/r'' = [RootDir, Normal ''r'']"
    "components ''/r/a'' = [RootDir, Normal ''r'', Normal ''a'']" "components ''/p/a'' = photo"
    by (code_simp, code_simp, code_simp, simp add: photo_def, code_simp)
  show "plain_root (profile_config photo_env photo_profile ''c'')"
    unfolding plain_root_def using root(1)
    by (intro exI[of _ "[''p'']"]) (simp add: profile_config_def sync_config_def sync_identity_for_def photo_env_def photo_profile_def the_or_def)
  show "not_temporary photo" using not_temporary_plain[of "''a''" "[RootDir, Normal ''p'']"] by (simp add: photo_def)
  have dest: "local_destination (profile_config photo_env photo_profile ''c'') ''/r/a'' = Inr photo"
    using root by (simp add: local_destination_def profile_config_def sync_config_def sync_identity_for_def photo_env_def
        photo_profile_def strip_prefix_def path_join_def is_absolute_def photo_def the_or_def)
  show "edited (\<lambda>_. ''other'') (sv_readable photo_env) (profile_config photo_env photo_profile ''c'') ''/r/a'' photo edited_world (w_ledger edited_world)"
    using dest root(4)
    by (auto simp: edited_def placed_def edited_world_def in_conflict_def bt_get_def row_def path_exists_def sha256_in_def photo_env_def
        split: if_splits)
qed



text \<open>A run that fails may already have changed the saved ledger: every finished item is saved as it
  is done.\<close>

lemma failed_run_changes_ledger:
  "case run_sync_once (\<lambda>_. []) (\<lambda>_. ''h'')
      (photo_env\<lparr>sv_answer := \<lambda>_ _ _. Inr \<lparr>pr_is_first = None, pr_files = [remote ''/r/b'' None, remote ''/r/c'' None],
         pr_is_success = None\<rparr>\<rparr>)
      recover_all_ok (\<lambda>p. if p = ''/r/c'' then calm_env\<lparr>ie_journal_ok := False\<rparr> else calm_env) True (False, False) 5
      photo_profile (edited_world\<lparr>w_ledger := \<lparr>sn_files = []\<rparr>\<rparr>) photo_runtime of
     (Inl e, w', _) \<Rightarrow> map fst (sn_files (w_ledger w')) = [''/r/b''] \<and> pe_code e = InvalidState
   | _ \<Rightarrow> False"
  by code_simp

end
