(* ===== verification/SyncJobs.thy ===== *)
theory SyncJobs
  imports AppSync
begin

text \<open>
  The sync jobs of the runtime, \<open>SyncJob\<close> of \<open>handshaker-application/src/sync.rs\<close> and \<open>register_sync_job\<close> to
  \<open>run_sync_watch\<close> of \<open>runtime.rs\<close>: one job per profile, a run task and a watch task per job, and a
  lock per ledger. A job is named by a number, as its \<open>Arc\<close> is by its address. Every critical section is
  one function of \<open>sync_state\<close>; \<open>sync_step\<close> lets starters, tasks, stoppers and shutdown take them in any
  order. What a run or a batch does to the disk is in \<open>AppSync\<close>; here only its outcome matters.
\<close>

section \<open>Jobs\<close>

record SyncStatusDto =
  sst_profile_id :: string
  sst_running :: bool
  sst_monitoring :: bool
  sst_last_run_at_ms :: "nat option"
  sst_last_error :: "PublicError option"
  sst_reconciliation_required :: bool
  sst_last_sequence_gap :: "nat option"

record SyncJob =
  sj_profile :: SyncProfileDto
  sj_scope :: string
  sj_cancelled :: bool
  sj_task :: TaskPublication
  sj_watch_task :: TaskPublication
  sj_status :: SyncStatusDto
  sj_last_result :: "SyncRunResultDto option"

definition job_new :: "SyncProfileDto \<Rightarrow> string \<Rightarrow> SyncJob" where
  "job_new profile scope =
     \<lparr>sj_profile = profile, sj_scope = scope, sj_cancelled = False, sj_task = Reserved, sj_watch_task = Reserved,
      sj_status = \<lparr>sst_profile_id = spr_id profile, sst_running = False, sst_monitoring = False,
        sst_last_run_at_ms = None, sst_last_error = None, sst_reconciliation_required = False,
        sst_last_sequence_gap = None\<rparr>,
      sj_last_result = None\<rparr>"

definition set_status :: "(SyncStatusDto \<Rightarrow> SyncStatusDto) \<Rightarrow> SyncJob \<Rightarrow> SyncJob" where
  "set_status f job = job\<lparr>sj_status := f (sj_status job)\<rparr>"

definition set_last_result :: "SyncRunResultDto \<Rightarrow> SyncJob \<Rightarrow> SyncJob" where
  "set_last_result result job = job\<lparr>sj_last_result := Some result\<rparr>"

text \<open>The registry, the jobs that exist, what has been published, and which phones have their
  monitor switched on, by session.\<close>

record sync_state =
  sg_jobs :: "string \<rightharpoonup> nat"
  sg_job :: "nat \<rightharpoonup> SyncJob"
  sg_next :: nat
  sg_shutting_down :: bool
  sg_events :: "BackendEvent list"
  sg_monitor :: "nat \<Rightarrow> bool"

definition sync_start_state :: sync_state where
  "sync_start_state = \<lparr>sg_jobs = Map.empty, sg_job = Map.empty, sg_next = 0, sg_shutting_down = False,
     sg_events = [], sg_monitor = (\<lambda>_. False)\<rparr>"

definition on_job :: "nat \<Rightarrow> (SyncJob \<Rightarrow> SyncJob) \<Rightarrow> sync_state \<Rightarrow> sync_state" where
  "on_job j f s = s\<lparr>sg_job := (sg_job s)(j := map_option f (sg_job s j))\<rparr>"

definition sync_job_for :: "string \<Rightarrow> sync_state \<Rightarrow> nat option" where
  "sync_job_for profile_id s = sg_jobs s profile_id"

definition sync_job_not_found :: "string \<Rightarrow> PublicError" where
  "sync_job_not_found operation = app_error NotFound ''sync job not found'' operation"

section \<open>Runs\<close>

definition register_sync_job :: "SyncProfileDto \<Rightarrow> string \<Rightarrow> sync_state \<Rightarrow> nat app_result \<times> sync_state" where
  "register_sync_job profile scope s =
     (let status = map_option sj_status (Option.bind (sg_jobs s (spr_id profile)) (sg_job s)) in
      if sg_shutting_down s then (Inl (app_error RuntimeClosed ''runtime is shutting down'' ''sync.start''), s)
      else if map_option sst_running status = Some True
      then (Inl (app_error InvalidState ''sync job already running for this profile'' ''sync.start''), s)
      else if map_option sst_monitoring status = Some True
      then (Inl (app_error InvalidState ''sync watch is active for this profile; stop it before running'' ''sync.start''), s)
      else let j = sg_next s; job = set_status (sst_running_update (\<lambda>_. True)) (job_new profile scope) in
           (Inr j, s\<lparr>sg_jobs := (sg_jobs s)(spr_id profile \<mapsto> j), sg_job := (sg_job s)(j \<mapsto> job), sg_next := j + 1\<rparr>))"

text \<open>\<open>start_sync\<close> up to the spawned task.\<close>

definition start_sync :: "RuntimeInner \<Rightarrow> SyncProfileDto \<Rightarrow> string \<Rightarrow> sync_state \<Rightarrow> nat app_result \<times> sync_state" where
  "start_sync r profile scope s =
     (case and_then (ensure_open r) (\<lambda>_. validate_sync_profile_format profile) of
        Inl e \<Rightarrow> (Inl e, s)
      | Inr _ \<Rightarrow> register_sync_job profile scope s)"

text \<open>\<open>run_sync_job\<close> after the run: \<open>commit\<close> is how the final save of the ledger goes.\<close>

definition settle_run ::
  "nat \<Rightarrow> (SyncRunResult \<times> SyncSnapshot) option app_result \<Rightarrow> unit app_result \<Rightarrow> SyncJob \<Rightarrow> SyncJob" where
  "settle_run now outcome commit job =
     (case outcome of
        Inr (Some (result, updated)) \<Rightarrow>
          (case commit of
             Inr _ \<Rightarrow>
               set_status (\<lambda>status. status\<lparr>sst_running := False, sst_last_run_at_ms := Some now, sst_last_error := None,
                   sst_reconciliation_required := False, sst_last_sequence_gap := None\<rparr>)
                 (set_last_result (sync_run_result_to_dto result) job)
           | Inl e \<Rightarrow> set_status (\<lambda>status. status\<lparr>sst_running := False, sst_last_error := Some e\<rparr>) job)
      | Inr None \<Rightarrow> set_status (\<lambda>status. status\<lparr>sst_running := False, sst_last_error := None\<rparr>) job
      | Inl e \<Rightarrow> set_status (\<lambda>status. status\<lparr>sst_running := False, sst_last_error := Some e\<rparr>) job)"

definition run_panicked :: "SyncJob \<Rightarrow> SyncJob" where
  "run_panicked = set_status (\<lambda>status. status\<lparr>sst_running := False,
     sst_last_error := Some (app_error Internal ''sync pipeline panicked'' ''sync.run'')\<rparr>)"

text \<open>One turn of \<open>take_published_task\<close> on a slot: the handle to return, or that the caller waits. When
  the wait runs out, the slot is taken as it is.\<close>

fun take_turn :: "bool \<Rightarrow> TaskPublication \<Rightarrow> nat option option \<times> TaskPublication" where
  "take_turn timed_out (Published t) = (Some (Some t), Taken)"
| "take_turn timed_out Reserved = (if timed_out then (Some None, Taken) else (None, Reserved))"
| "take_turn timed_out _ = (Some None, Taken)"

definition remove_sync_job_if_current :: "string \<Rightarrow> nat \<Rightarrow> sync_state \<Rightarrow> bool \<times> sync_state" where
  "remove_sync_job_if_current profile_id j s =
     (if sg_jobs s profile_id = Some j then (True, s\<lparr>sg_jobs := (sg_jobs s)(profile_id := None)\<rparr>) else (False, s))"

section \<open>Watches\<close>

definition reserve_sync_watch :: "nat \<Rightarrow> sync_state \<Rightarrow> unit app_result \<times> sync_state" where
  "reserve_sync_watch j s =
     (case sg_job s j of
        None \<Rightarrow> (Inl (sync_job_not_found ''sync.watch.start''), s)
      | Some job \<Rightarrow>
          (case sg_jobs s (spr_id (sj_profile job)) of
             None \<Rightarrow> (Inl (sync_job_not_found ''sync.watch.start''), s)
           | Some current \<Rightarrow>
               if current \<noteq> j
               then (Inl (app_error InvalidState ''sync job was replaced; retry'' ''sync.watch.start''), s)
               else if sst_running (sj_status job)
               then (Inl (app_error InvalidState ''sync job is running; stop it before watching'' ''sync.watch.start''), s)
               else if sst_monitoring (sj_status job)
               then (Inl (app_error InvalidState ''sync watch already active for this profile'' ''sync.watch.start''), s)
               else (Inr (), on_job j (set_status (sst_monitoring_update (\<lambda>_. True))) s)))"

definition release_sync_watch :: "nat \<Rightarrow> sync_state \<Rightarrow> sync_state" where
  "release_sync_watch j s =
     (case sg_job s j of
        None \<Rightarrow> s
      | Some job \<Rightarrow>
          if sg_jobs s (spr_id (sj_profile job)) = Some j
          then on_job j (set_status (sst_monitoring_update (\<lambda>_. False))) s else s)"

text \<open>\<open>start_sync_watch\<close> before the reservation, and between the reservation and the spawned task:
  the session may be gone, the phone may fail or refuse, shutdown may have begun.\<close>

definition start_watch_check :: "RuntimeInner \<Rightarrow> string \<Rightarrow> sync_state \<Rightarrow> nat app_result" where
  "start_watch_check r profile_id s =
     and_then (ensure_open r) (\<lambda>_.
       case sync_job_for profile_id s of
         None \<Rightarrow> Inl (sync_job_not_found ''sync.watch.start'')
       | Some j \<Rightarrow>
           (case sg_job s j of
              None \<Rightarrow> Inl (sync_job_not_found ''sync.watch.start'')
            | Some job \<Rightarrow>
                if \<not> spr_enabled (sj_profile job)
                then Inl (app_error InvalidState ''sync profile is disabled'' ''sync.watch.start'')
                else if sst_reconciliation_required (sj_status job)
                then Inl (app_error InvalidState ''sync watch requires reconciliation: run a full sync first'' ''sync.watch.start'')
                else Inr j))"

definition switch_monitor :: "nat \<Rightarrow> bool \<Rightarrow> bool \<Rightarrow> sync_state \<Rightarrow> sync_state" where
  "switch_monitor session on ok s = (if ok then s\<lparr>sg_monitor := (sg_monitor s)(session := on)\<rparr> else s)"

definition activate_watch ::
  "(core_error \<Rightarrow> string) \<Rightarrow> ActiveSession app_result \<Rightarrow> bool core_result \<Rightarrow> bool \<Rightarrow> nat \<Rightarrow> sync_state \<Rightarrow> unit app_result \<times> sync_state" where
  "activate_watch display session monitor switched_off j s =
     (case sg_job s j of
        None \<Rightarrow> (Inl (sync_job_not_found ''sync.watch.start''), s)
      | Some job \<Rightarrow>
          (let i = spr_session_id (sj_profile job) in
           case session of
             Inl e \<Rightarrow> (Inl e, s)
           | Inr _ \<Rightarrow>
               (case monitor of
                  Inl e \<Rightarrow> (Inl (from_core_error display e ''sync.watch.start''), release_sync_watch j s)
                | Inr accepted \<Rightarrow>
                    if \<not> accepted
                    then (Inl (app_error SyncError ''phone rejected sync monitor request'' ''sync.watch.start''),
                          release_sync_watch j s)
                    else let s1 = switch_monitor i True True s in
                         if sg_shutting_down s1
                         then (Inl (app_error RuntimeClosed ''runtime is shutting down'' ''sync.watch.start''),
                               release_sync_watch j (switch_monitor i False switched_off s1))
                         else (Inr (), s1))))"

text \<open>The ends of a watch. \<open>session_ok\<close>: the session can still be used and the phone answers.\<close>

definition stop_for_reconciliation ::
  "PublicError \<Rightarrow> nat option \<Rightarrow> bool \<Rightarrow> nat \<Rightarrow> sync_state \<Rightarrow> sync_state" where
  "stop_for_reconciliation error gap session_ok j s =
     (case sg_job s j of
        None \<Rightarrow> s
      | Some job \<Rightarrow>
          (let s1 = on_job j (set_status (\<lambda>status. status\<lparr>sst_reconciliation_required := True,
                      sst_last_sequence_gap := (case gap of Some n \<Rightarrow> Some n | None \<Rightarrow> sst_last_sequence_gap status),
                      sst_monitoring := False, sst_last_error := Some error\<rparr>)) s;
               s2 = switch_monitor (spr_session_id (sj_profile job)) False session_ok s1
           in s2\<lparr>sg_events := sg_events s2 @ [Warning error]\<rparr>))"

definition report_sync_watch_lag :: "(nat \<Rightarrow> string) \<Rightarrow> nat \<Rightarrow> bool \<Rightarrow> nat \<Rightarrow> sync_state \<Rightarrow> sync_state" where
  "report_sync_watch_lag lag_message missed session_ok j s =
     stop_for_reconciliation (app_error SyncError (lag_message missed) ''sync.watch'') (Some missed) session_ok j s"

definition reconcile_required_from_error :: "PublicError \<Rightarrow> bool \<Rightarrow> nat \<Rightarrow> sync_state \<Rightarrow> sync_state" where
  "reconcile_required_from_error error session_ok j s = stop_for_reconciliation error None session_ok j s"

definition watch_applied :: "nat \<Rightarrow> SyncRunResultDto \<Rightarrow> nat \<Rightarrow> sync_state \<Rightarrow> sync_state" where
  "watch_applied now result j s =
     (case sg_job s j of
        None \<Rightarrow> s
      | Some job \<Rightarrow>
          (let s1 = on_job j (set_status (\<lambda>status. status\<lparr>sst_last_run_at_ms := Some now, sst_last_error := None\<rparr>)
                      \<circ> set_last_result result) s
           in s1\<lparr>sg_events := sg_events s1 @
                [SyncWatchApplied (spr_id (sj_profile job)) (spr_session_id (sj_profile job)) result]\<rparr>))"

definition watch_closed :: "SyncJob \<Rightarrow> SyncJob" where
  "watch_closed = set_status (\<lambda>status.
     if sst_reconciliation_required status then status
     else status\<lparr>sst_monitoring := False, sst_last_error :=
       Some (app_error ConnectionLost ''sync watch stopped: session event stream closed'' ''sync.watch'')\<rparr>)"

section \<open>The loop of a watch\<close>

text \<open>What the event subscription delivers to the loop; \<open>Elapsed\<close> is the end of a debounce window.\<close>

datatype watch_recv = FilesChanged "FileChange list" | OtherEvent | RecvLagged nat | RecvClosed | Elapsed

datatype watch_turn = TurnBatch "FileChange list" "watch_recv list" | TurnLagged nat | TurnClosed | TurnWaiting

fun watch_debounce :: "FileChange list \<Rightarrow> watch_recv list \<Rightarrow> watch_turn" where
  "watch_debounce batch [] = TurnWaiting"
| "watch_debounce batch (FilesChanged changes # rest) = watch_debounce (batch @ changes) rest"
| "watch_debounce batch (OtherEvent # rest) = watch_debounce batch rest"
| "watch_debounce batch (RecvLagged missed # rest) = TurnLagged missed"
| "watch_debounce batch (RecvClosed # rest) = TurnClosed"
| "watch_debounce batch (Elapsed # rest) = TurnBatch batch rest"

text \<open>The first event of a batch is waited for without a window.\<close>

fun watch_collect :: "watch_recv list \<Rightarrow> watch_turn" where
  "watch_collect [] = TurnWaiting"
| "watch_collect (FilesChanged changes # rest) = watch_debounce changes rest"
| "watch_collect (OtherEvent # rest) = watch_collect rest"
| "watch_collect (Elapsed # rest) = watch_collect rest"
| "watch_collect (RecvLagged missed # rest) = TurnLagged missed"
| "watch_collect (RecvClosed # rest) = TurnClosed"

datatype watch_end = EndLagged nat | EndClosed | EndFailed PublicError

lemma watch_debounce_shorter: "watch_debounce batch rs = TurnBatch b rest \<Longrightarrow> length rest < length rs"
  by (induction batch rs rule: watch_debounce.induct) auto

lemma watch_collect_shorter: "watch_collect rs = TurnBatch b rest \<Longrightarrow> length rest < length rs"
  by (induction rs rule: watch_collect.induct) (auto dest: watch_debounce_shorter)

text \<open>\<open>run_sync_watch\<close>: the batches it applies, in order, and how it ends, if it does. \<open>apply_batch\<close> is
  the outcome of \<open>apply_watch_batch\<close> on a state.\<close>

function run_watch ::
  "(FileChange list \<Rightarrow> 's \<Rightarrow> SyncRunResultDto app_result \<times> 's) \<Rightarrow> watch_recv list \<Rightarrow> 's
   \<Rightarrow> (FileChange list \<times> SyncRunResultDto app_result) list \<times> watch_end option \<times> 's" where
  "run_watch apply_batch rs st =
     (case watch_collect rs of
        TurnWaiting \<Rightarrow> ([], None, st)
      | TurnLagged missed \<Rightarrow> ([], Some (EndLagged missed), st)
      | TurnClosed \<Rightarrow> ([], Some EndClosed, st)
      | TurnBatch batch rest \<Rightarrow>
          (case apply_batch batch st of
             (Inl e, st1) \<Rightarrow> ([(batch, Inl e)], Some (EndFailed e), st1)
           | (Inr result, st1) \<Rightarrow>
               (case run_watch apply_batch rest st1 of
                  (applied, ending, st2) \<Rightarrow> ((batch, Inr result) # applied, ending, st2))))"
  by pat_completeness auto
termination by (relation "measure (\<lambda>(_, rs, _). length rs)") (auto dest: watch_collect_shorter)

declare run_watch.simps [simp del]

fun changes_of :: "watch_recv \<Rightarrow> FileChange list" where
  "changes_of (FilesChanged changes) = changes"
| "changes_of _ = []"

lemma watch_debounce_changes:
  "watch_debounce batch rs = TurnBatch b rest \<Longrightarrow>
   \<exists>used. rs = used @ rest \<and> b = batch @ concat (map changes_of used)"
proof (induction batch rs rule: watch_debounce.induct)
  case (2 batch changes rest')
  then obtain used where "rest' = used @ rest" "b = (batch @ changes) @ concat (map changes_of used)" by auto
  then show ?case by (intro exI[of _ "FilesChanged changes # used"]) simp
next
  case (3 batch rest')
  then obtain used where "rest' = used @ rest" "b = batch @ concat (map changes_of used)" by auto
  then show ?case by (intro exI[of _ "OtherEvent # used"]) simp
next
  case (6 batch rest')
  then show ?case by (intro exI[of _ "[Elapsed]"]) simp
qed auto

lemma watch_collect_changes:
  "watch_collect rs = TurnBatch b rest \<Longrightarrow> \<exists>used. rs = used @ rest \<and> b = concat (map changes_of used)"
proof (induction rs rule: watch_collect.induct)
  case (2 changes rest')
  then obtain used where "rest' = used @ rest" "b = changes @ concat (map changes_of used)"
    using watch_debounce_changes by fastforce
  then show ?case by (intro exI[of _ "FilesChanged changes # used"]) simp
next
  case (3 rest')
  then obtain used where "rest' = used @ rest" "b = concat (map changes_of used)" by auto
  then show ?case by (intro exI[of _ "OtherEvent # used"]) simp
next
  case (4 rest')
  then obtain used where "rest' = used @ rest" "b = concat (map changes_of used)" by auto
  then show ?case by (intro exI[of _ "Elapsed # used"]) simp
qed auto

lemma run_watch_done:
  assumes "\<nexists>b rest. watch_collect rs = TurnBatch b rest" "run_watch apply_batch rs st = (applied, ending, st')"
  shows "applied = []"
  using assms(2) by (subst (asm) run_watch.simps) (use assms(1) in \<open>auto split: watch_turn.splits\<close>)

text \<open>A watch applies the changes in the order of their events, each once: what it has applied is
  what the events it has used up carried.\<close>

lemma run_watch_exact:
  "run_watch apply_batch rs st = (applied, ending, st') \<Longrightarrow>
   \<exists>used rest. rs = used @ rest \<and> concat (map fst applied) = concat (map changes_of used) \<and>
     (\<forall>i < length applied. i + 1 < length applied \<longrightarrow> (\<exists>result. snd (applied ! i) = Inr result))"
proof (induction apply_batch rs st arbitrary: applied rule: run_watch.induct)
  case (1 apply_batch rs st)
  show ?case
  proof (cases "\<exists>batch rest. watch_collect rs = TurnBatch batch rest")
    case True
    then obtain batch rest where TurnBatch: "watch_collect rs = TurnBatch batch rest" by blast
    obtain used where used: "rs = used @ rest" "batch = concat (map changes_of used)"
      using watch_collect_changes[OF TurnBatch] by blast
    obtain res st1 where res: "apply_batch batch st = (res, st1)" by fastforce
    show ?thesis
    proof (cases res)
      case (Inl e)
      then have "applied = [(batch, Inl e)]"
        using "1.prems" TurnBatch res by (subst (asm) run_watch.simps) simp
      then show ?thesis using used by (intro exI[of _ used] exI[of _ rest]) simp
    next
      case (Inr result)
      obtain applied1 where later: "run_watch apply_batch rest st1 = (applied1, ending, st')"
        "applied = (batch, Inr result) # applied1"
        using "1.prems" TurnBatch res Inr
        by (subst (asm) run_watch.simps) (auto split: prod.splits)
      obtain used1 rest1 where used1: "rest = used1 @ rest1"
        "concat (map fst applied1) = concat (map changes_of used1)"
        "\<forall>i < length applied1. i + 1 < length applied1 \<longrightarrow> (\<exists>result. snd (applied1 ! i) = Inr result)"
        using "1.IH"[OF TurnBatch res[symmetric] Inr later(1)] by blast
      have "\<exists>result. snd (applied ! i) = Inr result" if "i + 1 < length applied" for i
        using used1(3) that later(2) by (cases i) auto
      then show ?thesis using used used1 later(2) by (intro exI[of _ "used @ used1"] exI[of _ rest1]) simp
    qed
  next
    case False
    then have "applied = []" by (rule run_watch_done[OF _ "1.prems"])
    then show ?thesis by (intro exI[of _ "[]"] exI[of _ rs]) simp
  qed
qed

section \<open>The machine\<close>

text \<open>A task is spawned behind a gate, its handle is published, the gate opens, it waits for the lock
  of its ledger and works under it. A watch first leaves its loop; both write their status before they
  mark their slot and give the lock back.\<close>

datatype task_kind = RunTask | WatchTask

datatype task_phase = Spawned | Posted | Released | Holding | Stopped | Marked | Ended

record sync_task =
  tk_job :: nat
  tk_kind :: task_kind
  tk_phase :: task_phase

text \<open>\<open>stop_sync\<close> cancels the job, takes the handle of the run and waits for it, takes the handle of the
  watch and aborts it, and removes the job; \<open>stop_sync_watch\<close> takes and aborts the watch and clears the
  flag.\<close>

datatype stop_stage = TakeRun | JoinRun nat | TakeWatch | AbortWatch nat | RemoveJob

datatype unwatch_stage = UnwatchTake | UnwatchAbort nat | UnwatchClear

record sync_machine =
  sy_state :: sync_state
  sy_tasks :: "nat \<rightharpoonup> sync_task"
  sy_next_task :: nat
  sy_locks :: "string \<rightharpoonup> nat"
  sy_starting :: "nat list"
  sy_checked :: "nat list"
  sy_activating :: "nat list"
  sy_activated :: "nat list"
  sy_stops :: "(string \<times> nat \<times> stop_stage) list"
  sy_unwatches :: "(nat \<times> unwatch_stage) list"
  sy_enumerated :: "nat list option"
  sy_joins :: "nat list"

definition sync_machine_start :: sync_machine where
  "sync_machine_start = \<lparr>sy_state = sync_start_state, sy_tasks = Map.empty, sy_next_task = 0, sy_locks = Map.empty,
     sy_starting = [], sy_checked = [], sy_activating = [], sy_activated = [], sy_stops = [], sy_unwatches = [], sy_enumerated = None,
     sy_joins = []\<rparr>"

abbreviation job_of :: "sync_machine \<Rightarrow> nat \<Rightarrow> SyncJob option" where
  "job_of m j \<equiv> sg_job (sy_state m) j"

definition scope_of :: "sync_machine \<Rightarrow> nat \<Rightarrow> string" where
  "scope_of m j = (case job_of m j of Some job \<Rightarrow> sj_scope job | None \<Rightarrow> [])"

definition is_task :: "sync_machine \<Rightarrow> nat \<Rightarrow> nat \<Rightarrow> task_kind \<Rightarrow> task_phase \<Rightarrow> bool" where
  "is_task m t j kind phase \<longleftrightarrow> sy_tasks m t = Some \<lparr>tk_job = j, tk_kind = kind, tk_phase = phase\<rparr>"

definition spawn_task :: "nat \<Rightarrow> task_kind \<Rightarrow> sync_machine \<Rightarrow> sync_machine" where
  "spawn_task j kind m =
     m\<lparr>sy_tasks := (sy_tasks m)(sy_next_task m \<mapsto> \<lparr>tk_job = j, tk_kind = kind, tk_phase = Spawned\<rparr>),
       sy_next_task := sy_next_task m + 1\<rparr>"

definition advance :: "nat \<Rightarrow> task_phase \<Rightarrow> sync_machine \<Rightarrow> sync_machine" where
  "advance t phase m = m\<lparr>sy_tasks := (sy_tasks m)(t := map_option (tk_phase_update (\<lambda>_. phase)) (sy_tasks m t))\<rparr>"

text \<open>A task that ends, in any way, gives back the lock it may hold.\<close>

definition end_task :: "nat \<Rightarrow> sync_machine \<Rightarrow> sync_machine" where
  "end_task t m = (advance t Ended m)\<lparr>sy_locks := (\<lambda>scope. if sy_locks m scope = Some t then None else sy_locks m scope)\<rparr>"

definition on_state :: "(sync_state \<Rightarrow> sync_state) \<Rightarrow> sync_machine \<Rightarrow> sync_machine" where
  "on_state f m = m\<lparr>sy_state := f (sy_state m)\<rparr>"

definition put_slot :: "task_kind \<Rightarrow> TaskPublication \<Rightarrow> SyncJob \<Rightarrow> SyncJob" where
  "put_slot kind slot job = (case kind of RunTask \<Rightarrow> job\<lparr>sj_task := slot\<rparr> | WatchTask \<Rightarrow> job\<lparr>sj_watch_task := slot\<rparr>)"

definition slot_of :: "task_kind \<Rightarrow> SyncJob \<Rightarrow> TaskPublication" where
  "slot_of kind job = (case kind of RunTask \<Rightarrow> sj_task job | WatchTask \<Rightarrow> sj_watch_task job)"

definition job_step :: "nat \<Rightarrow> (SyncJob \<Rightarrow> SyncJob) \<Rightarrow> sync_machine \<Rightarrow> sync_machine" where
  "job_step j f m = on_state (on_job j f) m"

inductive sync_step :: "sync_machine \<Rightarrow> sync_machine \<Rightarrow> bool" where
  starts: "start_sync r profile scope (sy_state m) = (Inr j, s) \<Longrightarrow>
    sync_step m (m\<lparr>sy_state := s, sy_starting := j # sy_starting m\<rparr>)"
| spawns_run: "j \<in> set (sy_starting m) \<Longrightarrow>
    sync_step m ((spawn_task j RunTask m)\<lparr>sy_starting := remove1 j (sy_starting m)\<rparr>)"
| posts: "is_task m t j kind Spawned \<Longrightarrow>
    sync_step m (job_step j (put_slot kind (Published t)) (advance t Posted m))"
| releases: "is_task m t j kind Posted \<Longrightarrow> sync_step m (advance t Released m)"
| run_dropped: "is_task m t j RunTask Spawned \<Longrightarrow>
    sync_step m (job_step j (set_status (sst_running_update (\<lambda>_. False))) (end_task t m))"
| watch_dropped: "is_task m t j WatchTask Spawned \<Longrightarrow> sync_step m (end_task t m)"
| locks: "is_task m t j kind Released \<Longrightarrow> sy_locks m (scope_of m j) = None \<Longrightarrow>
    sync_step m ((advance t Holding m)\<lparr>sy_locks := (sy_locks m)(scope_of m j \<mapsto> t)\<rparr>)"
| run_settles: "is_task m t j RunTask Holding \<Longrightarrow>
    sync_step m (job_step j (settle_run now outcome commit) (advance t Marked m))"
| run_ends: "is_task m t j RunTask Marked \<Longrightarrow>
    sync_step m (job_step j (put_slot RunTask Finished) (end_task t m))"
| run_panics: "is_task m t j RunTask Holding \<Longrightarrow> sync_step m (end_task t m)"
| watch_applies: "is_task m t j WatchTask Holding \<Longrightarrow> sync_step m (on_state (watch_applied now result j) m)"
| watch_lags: "is_task m t j WatchTask Holding \<Longrightarrow>
    sync_step m (on_state (report_sync_watch_lag lag_message missed session_ok j) (advance t Stopped m))"
| watch_fails: "is_task m t j WatchTask Holding \<Longrightarrow>
    sync_step m (on_state (reconcile_required_from_error error session_ok j) (advance t Stopped m))"
| watch_closes: "is_task m t j WatchTask Holding \<Longrightarrow> sync_step m (advance t Stopped m)"
| watch_marks: "is_task m t j WatchTask Stopped \<Longrightarrow> sync_step m (job_step j watch_closed (advance t Marked m))"
| watch_ends: "is_task m t j WatchTask Marked \<Longrightarrow>
    sync_step m (job_step j (put_slot WatchTask Finished) (end_task t m))"
| checks_watch: "start_watch_check r profile_id (sy_state m) = Inr j \<Longrightarrow>
    sync_step m (m\<lparr>sy_checked := j # sy_checked m\<rparr>)"
| reserves: "j \<in> set (sy_checked m) \<Longrightarrow> reserve_sync_watch j (sy_state m) = (Inr (), s) \<Longrightarrow>
    sync_step m (m\<lparr>sy_state := s, sy_checked := remove1 j (sy_checked m), sy_activating := j # sy_activating m\<rparr>)"
| activates: "j \<in> set (sy_activating m) \<Longrightarrow>
    activate_watch display session monitor switched_off j (sy_state m) = (Inr (), s) \<Longrightarrow>
    sync_step m (m\<lparr>sy_state := s, sy_activating := remove1 j (sy_activating m), sy_activated := j # sy_activated m\<rparr>)"
| activation_fails: "j \<in> set (sy_activating m) \<Longrightarrow>
    activate_watch display session monitor switched_off j (sy_state m) = (Inl e, s) \<Longrightarrow>
    sync_step m (m\<lparr>sy_state := s, sy_activating := remove1 j (sy_activating m)\<rparr>)"
| spawns_watch: "j \<in> set (sy_activated m) \<Longrightarrow>
    sync_step m ((spawn_task j WatchTask m)\<lparr>sy_activated := remove1 j (sy_activated m)\<rparr>)"
| stop_begins: "sync_job_for profile_id (sy_state m) = Some j \<Longrightarrow>
    sync_step m ((job_step j (sj_cancelled_update (\<lambda>_. True)) m)\<lparr>sy_stops := (profile_id, j, TakeRun) # sy_stops m\<rparr>)"
| stop_takes_run: "(profile_id, j, TakeRun) \<in> set (sy_stops m) \<Longrightarrow> job_of m j = Some job \<Longrightarrow>
    take_turn timed_out (sj_task job) = (Some handle, slot) \<Longrightarrow>
    sync_step m ((job_step j (put_slot RunTask slot) m)\<lparr>sy_stops :=
      (profile_id, j, case handle of Some t \<Rightarrow> JoinRun t | None \<Rightarrow> TakeWatch) # remove1 (profile_id, j, TakeRun) (sy_stops m)\<rparr>)"
| stop_joins: "(profile_id, j, JoinRun t) \<in> set (sy_stops m) \<Longrightarrow> is_task m t j kind Ended \<Longrightarrow>
    sync_step m (m\<lparr>sy_stops := (profile_id, j, TakeWatch) # remove1 (profile_id, j, JoinRun t) (sy_stops m)\<rparr>)"
| stop_joins_panicked: "(profile_id, j, JoinRun t) \<in> set (sy_stops m) \<Longrightarrow> is_task m t j kind Ended \<Longrightarrow>
    sync_step m ((job_step j run_panicked m)\<lparr>sy_stops :=
      (profile_id, j, TakeWatch) # remove1 (profile_id, j, JoinRun t) (sy_stops m)\<rparr>)"
| stop_aborts_run: "(profile_id, j, JoinRun t) \<in> set (sy_stops m) \<Longrightarrow>
    sync_step m ((end_task t m)\<lparr>sy_stops := (profile_id, j, TakeWatch) # remove1 (profile_id, j, JoinRun t) (sy_stops m)\<rparr>)"
| stop_takes_watch: "(profile_id, j, TakeWatch) \<in> set (sy_stops m) \<Longrightarrow> job_of m j = Some job \<Longrightarrow>
    take_turn timed_out (sj_watch_task job) = (Some handle, slot) \<Longrightarrow>
    sync_step m ((job_step j (put_slot WatchTask slot) m)\<lparr>sy_stops :=
      (profile_id, j, case handle of Some t \<Rightarrow> AbortWatch t | None \<Rightarrow> RemoveJob) # remove1 (profile_id, j, TakeWatch) (sy_stops m)\<rparr>)"
| stop_aborts_watch: "(profile_id, j, AbortWatch t) \<in> set (sy_stops m) \<Longrightarrow>
    sync_step m ((end_task t m)\<lparr>sy_stops := (profile_id, j, RemoveJob) # remove1 (profile_id, j, AbortWatch t) (sy_stops m)\<rparr>)"
| stop_removes: "(profile_id, j, RemoveJob) \<in> set (sy_stops m) \<Longrightarrow>
    sync_step m ((on_state (snd \<circ> remove_sync_job_if_current profile_id j) m)\<lparr>sy_stops :=
      remove1 (profile_id, j, RemoveJob) (sy_stops m)\<rparr>)"
| unwatch_begins: "sync_job_for profile_id (sy_state m) = Some j \<Longrightarrow>
    sync_step m (m\<lparr>sy_unwatches := (j, UnwatchTake) # sy_unwatches m\<rparr>)"
| unwatch_takes: "(j, UnwatchTake) \<in> set (sy_unwatches m) \<Longrightarrow> job_of m j = Some job \<Longrightarrow>
    take_turn timed_out (sj_watch_task job) = (Some handle, slot) \<Longrightarrow>
    sync_step m ((job_step j (put_slot WatchTask slot) m)\<lparr>sy_unwatches :=
      (j, case handle of Some t \<Rightarrow> UnwatchAbort t | None \<Rightarrow> UnwatchClear) # remove1 (j, UnwatchTake) (sy_unwatches m)\<rparr>)"
| unwatch_aborts: "(j, UnwatchAbort t) \<in> set (sy_unwatches m) \<Longrightarrow>
    sync_step m ((end_task t m)\<lparr>sy_unwatches := (j, UnwatchClear) # remove1 (j, UnwatchAbort t) (sy_unwatches m)\<rparr>)"
| unwatch_clears: "(j, UnwatchClear) \<in> set (sy_unwatches m) \<Longrightarrow>
    sync_step m (on_state (switch_monitor session False ok)
      (job_step j (set_status (sst_monitoring_update (\<lambda>_. False))) m)
        \<lparr>sy_unwatches := remove1 (j, UnwatchClear) (sy_unwatches m)\<rparr>)"
| shutdown_begins: "sync_step m (on_state (sg_shutting_down_update (\<lambda>_. True)) m)"
| shutdown_enumerates: "sg_shutting_down (sy_state m) \<Longrightarrow> set js = ran (sg_jobs (sy_state m)) \<Longrightarrow>
    sync_step m (m\<lparr>sy_enumerated := Some js\<rparr>)"
| shutdown_cancels: "sy_enumerated m = Some js \<Longrightarrow> j \<in> set js \<Longrightarrow>
    sync_step m (job_step j (sj_cancelled_update (\<lambda>_. True)) m)"
| shutdown_takes: "sy_enumerated m = Some js \<Longrightarrow> j \<in> set js \<Longrightarrow> job_of m j = Some job \<Longrightarrow> sj_cancelled job \<Longrightarrow>
    take_turn timed_out (slot_of kind job) = (Some handle, slot) \<Longrightarrow>
    sync_step m ((job_step j (put_slot kind slot) m)\<lparr>sy_joins := (case handle of Some t \<Rightarrow> t # sy_joins m | None \<Rightarrow> sy_joins m)\<rparr>)"
| shutdown_aborts: "t \<in> set (sy_joins m) \<Longrightarrow> sync_step m (end_task t m)"
| shutdown_clears: "sy_enumerated m = Some js \<Longrightarrow>
    (\<And>j job. j \<in> set js \<Longrightarrow> job_of m j = Some job \<Longrightarrow> sj_cancelled job) \<Longrightarrow>
    (\<And>t. t \<in> set (sy_joins m) \<Longrightarrow> \<exists>j kind. is_task m t j kind Ended) \<Longrightarrow>
    sync_step m (on_state (sg_jobs_update (\<lambda>_. Map.empty)) m)"

abbreviation sync_reachable :: "sync_machine \<Rightarrow> bool" where
  "sync_reachable \<equiv> reach ((=) sync_machine_start) sync_step"

section \<open>Who may work on a ledger\<close>

text \<open>A run that has been started and has not written its outcome.\<close>

definition unsettled :: "sync_machine \<Rightarrow> nat \<Rightarrow> bool" where
  "unsettled m j \<longleftrightarrow> j \<in> set (sy_starting m) \<or>
     (\<exists>t phase. is_task m t j RunTask phase \<and> phase \<noteq> Marked \<and> phase \<noteq> Ended)"

definition names_ok :: "sync_machine \<Rightarrow> bool" where
  "names_ok m \<longleftrightarrow>
     (\<forall>j. job_of m j \<noteq> None \<longrightarrow> j < sg_next (sy_state m)) \<and>
     (\<forall>t j kind phase. is_task m t j kind phase \<longrightarrow> t < sy_next_task m \<and> job_of m j \<noteq> None) \<and>
     (\<forall>j \<in> set (sy_starting m) \<union> set (sy_checked m) \<union> set (sy_activating m) \<union> set (sy_activated m). job_of m j \<noteq> None) \<and>
     (\<forall>j \<in> ran (sg_jobs (sy_state m)). job_of m j \<noteq> None)"

definition single_run :: "sync_machine \<Rightarrow> bool" where
  "single_run m \<longleftrightarrow> distinct (sy_starting m) \<and>
     (\<forall>t j phase. is_task m t j RunTask phase \<longrightarrow> j \<notin> set (sy_starting m)) \<and>
     (\<forall>t t' j phase phase'. is_task m t j RunTask phase \<and> is_task m t' j RunTask phase' \<longrightarrow> t = t')"

definition runs_current :: "sync_machine \<Rightarrow> bool" where
  "runs_current m \<longleftrightarrow> (\<forall>j job. unsettled m j \<and> job_of m j = Some job \<and> \<not> sj_cancelled job \<longrightarrow>
     sst_running (sj_status job) \<and> sg_jobs (sy_state m) (spr_id (sj_profile job)) = Some j)"

definition locks_ok :: "sync_machine \<Rightarrow> bool" where
  "locks_ok m \<longleftrightarrow> (\<forall>t j kind phase. is_task m t j kind phase \<and> phase \<in> {Holding, Stopped, Marked} \<longrightarrow>
     sy_locks m (scope_of m j) = Some t)"

definition flags_ok :: "sync_machine \<Rightarrow> bool" where
  "flags_ok m \<longleftrightarrow> (\<forall>j job. job_of m j = Some job \<longrightarrow> \<not> (sst_running (sj_status job) \<and> sst_monitoring (sj_status job)))"

definition stops_ok :: "sync_machine \<Rightarrow> bool" where
  "stops_ok m \<longleftrightarrow> (\<forall>(pid, j, stage) \<in> set (sy_stops m). map_option sj_cancelled (job_of m j) = Some True) \<and>
     (\<forall>js. sy_enumerated m = Some js \<longrightarrow> sg_shutting_down (sy_state m) \<and> ran (sg_jobs (sy_state m)) \<subseteq> set js)"

definition sync_inv :: "sync_machine \<Rightarrow> bool" where
  "sync_inv m \<longleftrightarrow> names_ok m \<and> single_run m \<and> runs_current m \<and> locks_ok m \<and> flags_ok m \<and> stops_ok m"

lemmas sync_inv_defs = names_ok_def single_run_def runs_current_def locks_ok_def flags_ok_def stops_ok_def

lemma job_of_job_step [simp]:
  "job_of (job_step j f m) i = (if i = j then map_option f (job_of m j) else job_of m i)"
  by (simp add: job_step_def on_state_def on_job_def)

lemma job_step_simps [simp]:
  "sy_tasks (job_step j f m) = sy_tasks m" "sy_locks (job_step j f m) = sy_locks m"
  "sy_next_task (job_step j f m) = sy_next_task m" "sy_starting (job_step j f m) = sy_starting m"
  "sy_checked (job_step j f m) = sy_checked m" "sy_activating (job_step j f m) = sy_activating m"
  "sy_activated (job_step j f m) = sy_activated m" "sy_stops (job_step j f m) = sy_stops m"
  "sy_enumerated (job_step j f m) = sy_enumerated m" "sg_jobs (sy_state (job_step j f m)) = sg_jobs (sy_state m)"
  "sg_next (sy_state (job_step j f m)) = sg_next (sy_state m)"
  "sg_shutting_down (sy_state (job_step j f m)) = sg_shutting_down (sy_state m)"
  by (simp_all add: job_step_def on_state_def on_job_def)

lemma on_state_simps [simp]:
  "sy_state (on_state f m) = f (sy_state m)"
  "sy_tasks (on_state f m) = sy_tasks m" "sy_locks (on_state f m) = sy_locks m"
  "sy_next_task (on_state f m) = sy_next_task m" "sy_starting (on_state f m) = sy_starting m"
  "sy_checked (on_state f m) = sy_checked m" "sy_activating (on_state f m) = sy_activating m"
  "sy_activated (on_state f m) = sy_activated m" "sy_stops (on_state f m) = sy_stops m"
  "sy_enumerated (on_state f m) = sy_enumerated m"
  by (simp_all add: on_state_def)

lemma advance_simps [simp]:
  "sy_state (advance t ph m) = sy_state m" "sy_locks (advance t ph m) = sy_locks m"
  "sy_next_task (advance t ph m) = sy_next_task m" "sy_starting (advance t ph m) = sy_starting m"
  "sy_checked (advance t ph m) = sy_checked m" "sy_activating (advance t ph m) = sy_activating m"
  "sy_activated (advance t ph m) = sy_activated m" "sy_stops (advance t ph m) = sy_stops m"
  "sy_enumerated (advance t ph m) = sy_enumerated m"
  "scope_of (advance t ph m) j = scope_of m j"
  by (simp_all add: advance_def scope_of_def)

lemma is_task_advance [simp]:
  "is_task (advance t ph m) t' j kind ph' \<longleftrightarrow>
     (if t' = t then (\<exists>ph0. is_task m t j kind ph0) \<and> ph' = ph else is_task m t' j kind ph')"
proof -
  have "z\<lparr>tk_phase := ph\<rparr> = \<lparr>tk_job = j, tk_kind = kind, tk_phase = ph'\<rparr> \<longleftrightarrow>
      (\<exists>ph0. z = \<lparr>tk_job = j, tk_kind = kind, tk_phase = ph0\<rparr>) \<and> ph' = ph" for z :: sync_task
    by (cases z) auto
  then show ?thesis by (auto simp: is_task_def advance_def)
qed

lemma is_task_frame [simp]:
  "is_task (job_step i f m) = is_task m" "is_task (on_state g m) = is_task m"
  "is_task (end_task t m) = is_task (advance t Ended m)"
  by (simp_all add: is_task_def end_task_def fun_eq_iff)

lemma end_task_simps [simp]:
  "sy_state (end_task t m) = sy_state m"
  "sy_locks (end_task t m) scope = (if sy_locks m scope = Some t then None else sy_locks m scope)"
  "sy_next_task (end_task t m) = sy_next_task m" "sy_starting (end_task t m) = sy_starting m"
  "sy_checked (end_task t m) = sy_checked m" "sy_activating (end_task t m) = sy_activating m"
  "sy_activated (end_task t m) = sy_activated m" "sy_stops (end_task t m) = sy_stops m"
  "sy_enumerated (end_task t m) = sy_enumerated m"
  "scope_of (end_task t m) j = scope_of m j"
  by (simp_all add: end_task_def scope_of_def)

lemma unsettled_frame [simp]:
  "unsettled (job_step i f m) j = unsettled m j" "unsettled (on_state g m) j = unsettled m j"
  by (simp_all add: unsettled_def)

text \<open>Changes of the state that keep who a job is, whether it is cancelled and whether it runs, and
  that do not switch monitoring on for a job that runs.\<close>

definition calm_job :: "SyncJob \<Rightarrow> SyncJob \<Rightarrow> bool" where
  "calm_job job job' \<longleftrightarrow> sj_profile job' = sj_profile job \<and> sj_scope job' = sj_scope job \<and>
     sj_cancelled job' = sj_cancelled job \<and> sst_running (sj_status job') = sst_running (sj_status job) \<and>
     (sst_running (sj_status job) \<and> sst_monitoring (sj_status job') \<longrightarrow> sst_monitoring (sj_status job))"

definition calm :: "sync_state \<Rightarrow> sync_state \<Rightarrow> bool" where
  "calm s s' \<longleftrightarrow> sg_jobs s' = sg_jobs s \<and> sg_next s' = sg_next s \<and> sg_shutting_down s' = sg_shutting_down s \<and>
     (\<forall>j. rel_option calm_job (sg_job s j) (sg_job s' j))"

lemma calm_jobD:
  assumes "calm s s'"
  shows "sg_job s' j = Some job' \<Longrightarrow> \<exists>job. sg_job s j = Some job \<and> calm_job job job'"
    and "sg_job s' j = None \<longleftrightarrow> sg_job s j = None"
  using assms by (auto simp: calm_def elim: option.rel_cases dest!: spec[of _ j])

lemma calm_refl [simp]: "calm s s"
  by (simp add: calm_def calm_job_def option.rel_refl)

lemma inv_calm:
  assumes "sync_inv m" "calm (sy_state m) s'"
  shows "sync_inv (m\<lparr>sy_state := s'\<rparr>)"
proof -
  let ?m = "m\<lparr>sy_state := s'\<rparr>"
  have same: "sg_jobs s' = sg_jobs (sy_state m)" "sg_next s' = sg_next (sy_state m)"
    "sg_shutting_down s' = sg_shutting_down (sy_state m)"
    using assms(2) by (simp_all add: calm_def)
  note jobs = calm_jobD[OF assms(2)]
  have scopes: "scope_of ?m j = scope_of m j" for j
  proof (cases "job_of ?m j")
    case None
    then show ?thesis using jobs(2)[of j] by (simp add: scope_of_def)
  next
    case (Some job')
    then obtain job where "job_of m j = Some job" "calm_job job job'" using jobs(1)[of j job'] by auto
    then show ?thesis using Some by (simp add: scope_of_def calm_job_def)
  qed
  have tasks: "is_task ?m = is_task m" by (simp add: is_task_def fun_eq_iff)
  have live: "unsettled ?m = unsettled m" by (simp add: unsettled_def tasks fun_eq_iff)
  have "names_ok ?m"
    using assms(1) same unfolding sync_inv_def names_ok_def tasks by (simp add: jobs(2) del: not_None_eq)
  moreover have "single_run ?m" using assms(1) unfolding sync_inv_def single_run_def tasks by simp
  moreover have "runs_current ?m"
    unfolding runs_current_def live
  proof (intro allI impI)
    fix j job' assume a: "unsettled m j \<and> job_of ?m j = Some job' \<and> \<not> sj_cancelled job'"
    then obtain job where "job_of m j = Some job" "calm_job job job'" using jobs(1)[of j job'] by auto
    then show "sst_running (sj_status job') \<and> sg_jobs (sy_state ?m) (spr_id (sj_profile job')) = Some j"
      using assms(1) a same by (auto simp: sync_inv_def runs_current_def calm_job_def)
  qed
  moreover have "locks_ok ?m" using assms(1) unfolding sync_inv_def locks_ok_def tasks scopes by simp
  moreover have "flags_ok ?m"
    unfolding flags_ok_def
  proof (intro allI impI)
    fix j job' assume "job_of ?m j = Some job'"
    then obtain job where "job_of m j = Some job" "calm_job job job'" using jobs(1)[of j job'] by auto
    then show "\<not> (sst_running (sj_status job') \<and> sst_monitoring (sj_status job'))"
      using assms(1) by (auto simp: sync_inv_def flags_ok_def calm_job_def)
  qed
  moreover have "map_option sj_cancelled (sg_job s' j) = map_option sj_cancelled (job_of m j)" for j
  proof (cases "sg_job s' j")
    case (Some job')
    then obtain job where "job_of m j = Some job" "calm_job job job'" using jobs(1)[of j job'] by auto
    then show ?thesis using Some by (simp add: calm_job_def)
  qed (use jobs(2)[of j] in simp)
  then have "stops_ok ?m" using assms(1) same unfolding sync_inv_def stops_ok_def by simp
  ultimately show ?thesis by (simp add: sync_inv_def)
qed

lemma sync_invD:
  assumes "sync_inv m"
  shows "names_ok m" "single_run m" "runs_current m" "locks_ok m" "flags_ok m" "stops_ok m"
  using assms by (simp_all add: sync_inv_def)

lemma inv_same:
  assumes "sync_inv m" "sy_state m' = sy_state m" "sy_tasks m' = sy_tasks m" "sy_locks m' = sy_locks m"
    and "sy_next_task m' = sy_next_task m" "sy_starting m' = sy_starting m"
    and "set (sy_checked m') \<union> set (sy_activating m') \<union> set (sy_activated m') \<subseteq> {j. job_of m j \<noteq> None}" "stops_ok m'"
  shows "sync_inv m'"
proof -
  have same: "is_task m' = is_task m" "unsettled m' = unsettled m" "scope_of m' = scope_of m"
    using assms(2-6) by (simp_all add: is_task_def unsettled_def scope_of_def fun_eq_iff)
  have "names_ok m'"
    using assms(1-7) unfolding sync_inv_def names_ok_def same(1) by (auto simp del: not_None_eq)
  moreover have "single_run m'" using sync_invD(2)[OF assms(1)] unfolding single_run_def same(1) assms(6) .
  moreover have "runs_current m'" using sync_invD(3)[OF assms(1)] unfolding runs_current_def same(2) assms(2) .
  moreover have "locks_ok m'" using sync_invD(4)[OF assms(1)] unfolding locks_ok_def same(1,3) assms(4) .
  moreover have "flags_ok m'" using sync_invD(5)[OF assms(1)] unfolding flags_ok_def assms(2) .
  ultimately show ?thesis using assms(8) by (simp add: sync_inv_def)
qed

lemma inv_watchers_exist:
  "sync_inv m \<Longrightarrow> set (sy_checked m) \<union> set (sy_activating m) \<union> set (sy_activated m) \<subseteq> {j. job_of m j \<noteq> None}"
  unfolding sync_inv_def names_ok_def by (auto simp del: not_None_eq)

lemma inv_threads:
  assumes "sync_inv m"
  shows "sync_inv (m\<lparr>sy_unwatches := us\<rparr>)" "sync_inv (m\<lparr>sy_joins := ts\<rparr>)"
  using inv_same[OF assms, of "m\<lparr>sy_unwatches := us\<rparr>"] inv_same[OF assms, of "m\<lparr>sy_joins := ts\<rparr>"]
    inv_watchers_exist[OF assms] sync_invD(6)[OF assms]
  by (simp_all add: stops_ok_def)

lemma inv_watchers:
  assumes "sync_inv m" "set cs \<union> set as \<union> set bs \<subseteq> {j. job_of m j \<noteq> None}"
  shows "sync_inv (m\<lparr>sy_checked := cs, sy_activating := as, sy_activated := bs\<rparr>)"
  by (rule inv_same[OF assms(1)]) (use assms(2) sync_invD(6)[OF assms(1)] in \<open>simp_all add: stops_ok_def\<close>)

lemma inv_stops:
  assumes "sync_inv m" "\<And>pid j stage. (pid, j, stage) \<in> set stops \<Longrightarrow> map_option sj_cancelled (job_of m j) = Some True"
  shows "sync_inv (m\<lparr>sy_stops := stops\<rparr>)"
proof (rule inv_same[OF assms(1)])
  show "stops_ok (m\<lparr>sy_stops := stops\<rparr>)"
    using assms unfolding sync_inv_def stops_ok_def by (auto simp del: not_None_eq)
qed (use inv_watchers_exist[OF assms(1)] in simp_all)

lemma inv_retask:
  assumes "sync_inv m" "sy_state m' = sy_state m" "sy_next_task m' = sy_next_task m"
    and "sy_starting m' = sy_starting m" "sy_checked m' = sy_checked m" "sy_activating m' = sy_activating m"
    and "sy_activated m' = sy_activated m" "sy_stops m' = sy_stops m" "sy_enumerated m' = sy_enumerated m"
    and old: "\<And>t j kind p. is_task m' t j kind p \<Longrightarrow>
      \<exists>p0. is_task m t j kind p0 \<and> (p0 \<in> {Marked, Ended} \<longrightarrow> p \<in> {Marked, Ended})"
    and "locks_ok m'"
  shows "sync_inv m'"
proof -
  have live: "unsettled m j" if started: "unsettled m' j" for j
  proof (cases "j \<in> set (sy_starting m)")
    case False
    then obtain t p where "is_task m' t j RunTask p" "p \<noteq> Marked" "p \<noteq> Ended"
      using started assms(4) by (auto simp: unsettled_def)
    with old[OF this(1)] show ?thesis by (auto simp: unsettled_def)
  qed (simp add: unsettled_def)
  have known: "\<exists>p0. is_task m t j kind p0" if "is_task m' t j kind p" for t j kind p using old[OF that] by blast
  have "names_ok m'"
    using sync_invD(1)[OF assms(1)] known unfolding names_ok_def assms(2-7) by blast
  moreover have "single_run m'"
    using sync_invD(2)[OF assms(1)] known unfolding single_run_def assms(4) by meson
  moreover have "runs_current m'"
    using sync_invD(3)[OF assms(1)] live unfolding runs_current_def assms(2) by blast
  moreover have "flags_ok m'" using sync_invD(5)[OF assms(1)] unfolding flags_ok_def assms(2) .
  moreover have "stops_ok m'" using sync_invD(6)[OF assms(1)] unfolding stops_ok_def assms(2,8,9) .
  ultimately show ?thesis using assms(11) by (simp add: sync_inv_def)
qed

lemma locksD:
  "sync_inv m \<Longrightarrow> is_task m t j kind Holding \<Longrightarrow> sy_locks m (scope_of m j) = Some t"
  "sync_inv m \<Longrightarrow> is_task m t j kind Stopped \<Longrightarrow> sy_locks m (scope_of m j) = Some t"
  "sync_inv m \<Longrightarrow> is_task m t j kind Marked \<Longrightarrow> sy_locks m (scope_of m j) = Some t"
  by (auto simp: sync_inv_def locks_ok_def)

lemma namesD:
  assumes "sync_inv m" "is_task m t j kind p"
  shows "t < sy_next_task m" "t < Suc (sy_next_task m)" "\<exists>job. job_of m j = Some job"
proof -
  have "t < sy_next_task m \<and> job_of m j \<noteq> None"
    using sync_invD(1)[OF assms(1)] assms(2) unfolding names_ok_def by blast
  then show "t < sy_next_task m" "t < Suc (sy_next_task m)" "\<exists>job. job_of m j = Some job" by auto
qed

lemma single_runD:
  assumes "sync_inv m" "is_task m t j RunTask p"
  shows "j \<notin> set (sy_starting m)" "is_task m t' j RunTask p' \<Longrightarrow> t' = t"
  using sync_invD(2)[OF assms(1)] assms(2) unfolding single_run_def by blast+

lemma inv_advance:
  assumes "sync_inv m" "is_task m t j kind ph"
    and "ph' \<notin> {Holding, Stopped, Marked} \<or> ph \<in> {Holding, Stopped, Marked}"
    and "ph' = Marked \<or> ph' = Ended \<or> ph \<noteq> Marked \<and> ph \<noteq> Ended"
  shows "sync_inv (advance t ph' m)"
proof (rule inv_retask[OF assms(1)])
  have task: "is_task m t i k p \<longleftrightarrow> i = j \<and> k = kind \<and> p = ph" for i k p
    using assms(2) by (auto simp: is_task_def)
  show "locks_ok (advance t ph' m)"
    using assms(3) task locksD[OF assms(1)] unfolding locks_ok_def by (auto split: if_splits)
  show "\<exists>p0. is_task m t' i k p0 \<and> (p0 \<in> {Marked, Ended} \<longrightarrow> p \<in> {Marked, Ended})"
    if "is_task (advance t ph' m) t' i k p" for t' i k p
    using that assms(4) task by (auto split: if_splits)
qed simp_all

lemma inv_end:
  assumes "sync_inv m"
  shows "sync_inv (end_task t m)"
proof (rule inv_retask[OF assms])
  show "locks_ok (end_task t m)"
    using locksD[OF assms] unfolding locks_ok_def by (auto split: if_splits dest!: locksD[OF assms])
  show "\<exists>p0. is_task m t' i k p0 \<and> (p0 \<in> {Marked, Ended} \<longrightarrow> p \<in> {Marked, Ended})"
    if "is_task (end_task t m) t' i k p" for t' i k p
    using that by (auto split: if_splits)
qed simp_all

lemma inv_lock:
  assumes "sync_inv m" "is_task m t j kind Released" "sy_locks m (scope_of m j) = None"
  shows "sync_inv ((advance t Holding m)\<lparr>sy_locks := (sy_locks m)(scope_of m j \<mapsto> t)\<rparr>)" (is "sync_inv ?m")
proof (rule inv_retask[OF assms(1)])
  have task: "is_task m t i k p \<longleftrightarrow> i = j \<and> k = kind \<and> p = Released" for i k p
    using assms(2) by (auto simp: is_task_def)
  have tasks: "is_task ?m t' i k p \<longleftrightarrow> (if t' = t then i = j \<and> k = kind \<and> p = Holding else is_task m t' i k p)" for t' i k p
    using task is_task_advance[of t Holding m t' i k p] by (auto simp: is_task_def)
  have "scope_of ?m = scope_of m" by (simp add: scope_of_def fun_eq_iff)
  then show "locks_ok ?m"
    using assms(3) unfolding locks_ok_def tasks by (auto split: if_splits dest!: locksD[OF assms(1)])
  show "\<exists>p0. is_task m t' i k p0 \<and> (p0 \<in> {Marked, Ended} \<longrightarrow> p \<in> {Marked, Ended})"
    if "is_task ?m t' i k p" for t' i k p
    using that task unfolding tasks by (auto split: if_splits)
qed simp_all

lemma inv_spawn_run:
  assumes "sync_inv m" "j \<in> set (sy_starting m)"
  shows "sync_inv ((spawn_task j RunTask m)\<lparr>sy_starting := remove1 j (sy_starting m)\<rparr>)" (is "sync_inv ?m")
proof -
  let ?t = "sy_next_task m"
  have tasks: "is_task ?m t i k p \<longleftrightarrow> (if t = ?t then i = j \<and> k = RunTask \<and> p = Spawned else is_task m t i k p)" for t i k p
    by (auto simp: is_task_def spawn_task_def)
  have state: "sy_state ?m = sy_state m" "sy_locks ?m = sy_locks m" "sy_next_task ?m = ?t + 1" "sy_stops ?m = sy_stops m"
    "sy_enumerated ?m = sy_enumerated m" "sy_starting ?m = remove1 j (sy_starting m)" "sy_checked ?m = sy_checked m"
    "sy_activating ?m = sy_activating m" "sy_activated ?m = sy_activated m"
    by (simp_all add: spawn_task_def)
  have dist: "distinct (sy_starting m)" using sync_invD(2)[OF assms(1)] by (simp add: single_run_def)
  then have left: "i \<in> set (sy_starting ?m) \<longleftrightarrow> i \<in> set (sy_starting m) \<and> i \<noteq> j" for i by (simp add: state)
  have live: "unsettled m i" if "unsettled ?m i" for i
    using that assms(2) by (auto simp: unsettled_def tasks left split: if_splits)
  have scopes: "scope_of ?m = scope_of m" by (simp add: scope_of_def state fun_eq_iff)
  have exists: "job_of m j \<noteq> None" using sync_invD(1)[OF assms(1)] assms(2) by (auto simp: names_ok_def)
  have "names_ok ?m"
    using sync_invD(1)[OF assms(1)] exists unfolding names_ok_def tasks state(1,3,7,8,9)
    by (auto simp: state(6) dest: namesD[OF assms(1)] in_remove1 split: if_splits)
  moreover have "single_run ?m"
    using dist assms(2) unfolding single_run_def tasks
    by (auto simp: state(6) dest: single_runD[OF assms(1)] split: if_splits)
  moreover have "runs_current ?m"
    using sync_invD(3)[OF assms(1)] live unfolding runs_current_def state(1) by blast
  moreover have "locks_ok ?m"
    unfolding locks_ok_def tasks scopes state(2) by (auto split: if_splits dest!: locksD[OF assms(1)])
  moreover have "flags_ok ?m" using sync_invD(5)[OF assms(1)] unfolding flags_ok_def state(1) .
  moreover have "stops_ok ?m" using sync_invD(6)[OF assms(1)] unfolding stops_ok_def state(1,4,5) .
  ultimately show ?thesis by (simp add: sync_inv_def)
qed

lemma inv_spawn_watch:
  assumes "sync_inv m" "job_of m j \<noteq> None"
  shows "sync_inv (spawn_task j WatchTask m)" (is "sync_inv ?m")
proof -
  let ?t = "sy_next_task m"
  have tasks: "is_task ?m t i k p \<longleftrightarrow> (if t = ?t then i = j \<and> k = WatchTask \<and> p = Spawned else is_task m t i k p)" for t i k p
    by (auto simp: is_task_def spawn_task_def)
  have state: "sy_state ?m = sy_state m" "sy_locks ?m = sy_locks m" "sy_next_task ?m = ?t + 1" "sy_stops ?m = sy_stops m"
    "sy_enumerated ?m = sy_enumerated m" "sy_starting ?m = sy_starting m" "sy_checked ?m = sy_checked m"
    "sy_activating ?m = sy_activating m" "sy_activated ?m = sy_activated m"
    by (simp_all add: spawn_task_def)
  have dist: "distinct (sy_starting m)" using sync_invD(2)[OF assms(1)] by (simp add: single_run_def)
  have live: "unsettled m i" if "unsettled ?m i" for i
    using that by (auto simp: unsettled_def tasks state split: if_splits)
  have scopes: "scope_of ?m = scope_of m" by (simp add: scope_of_def state fun_eq_iff)
  have "names_ok ?m"
    using sync_invD(1)[OF assms(1)] assms(2) unfolding names_ok_def tasks state
    by (auto dest: namesD[OF assms(1)] split: if_splits)
  moreover have "single_run ?m"
    using dist unfolding single_run_def tasks state by (auto dest: single_runD[OF assms(1)] split: if_splits)
  moreover have "runs_current ?m"
    using sync_invD(3)[OF assms(1)] live unfolding runs_current_def state(1) by blast
  moreover have "locks_ok ?m"
    unfolding locks_ok_def tasks scopes state(2) by (auto split: if_splits dest!: locksD[OF assms(1)])
  moreover have "flags_ok ?m" using sync_invD(5)[OF assms(1)] unfolding flags_ok_def state(1) .
  moreover have "stops_ok ?m" using sync_invD(6)[OF assms(1)] unfolding stops_ok_def state(1,4,5) .
  ultimately show ?thesis by (simp add: sync_inv_def)
qed

text \<open>One critical section on one job.\<close>

lemma inv_job:
  assumes "sync_inv m"
    and keeps: "\<And>job. job_of m j = Some job \<Longrightarrow> sj_profile (f job) = sj_profile job \<and> sj_scope (f job) = sj_scope job \<and>
      (sj_cancelled job \<longrightarrow> sj_cancelled (f job)) \<and>
      \<not> (sst_running (sj_status (f job)) \<and> sst_monitoring (sj_status (f job))) \<and>
      (unsettled m j \<and> \<not> sj_cancelled (f job) \<longrightarrow> sst_running (sj_status (f job)))"
  shows "sync_inv (job_step j f m)" (is "sync_inv ?m")
proof -
  have exist: "job_of ?m i = None \<longleftrightarrow> job_of m i = None" for i by simp
  have scopes: "scope_of ?m = scope_of m"
    using keeps by (auto simp: scope_of_def fun_eq_iff split: option.splits)
  have "names_ok ?m" using sync_invD(1)[OF assms(1)] unfolding names_ok_def is_task_frame exist job_step_simps .
  moreover have "single_run ?m" using sync_invD(2)[OF assms(1)] unfolding single_run_def is_task_frame job_step_simps .
  moreover have "runs_current ?m"
    using sync_invD(3)[OF assms(1)] keeps unfolding runs_current_def unsettled_frame job_step_simps
    by (auto split: if_splits)
  moreover have "locks_ok ?m" using sync_invD(4)[OF assms(1)] unfolding locks_ok_def is_task_frame scopes job_step_simps .
  moreover have "flags_ok ?m"
    using sync_invD(5)[OF assms(1)] keeps unfolding flags_ok_def by (auto split: if_splits)
  moreover have "stops_ok ?m"
    using sync_invD(6)[OF assms(1)] keeps unfolding stops_ok_def job_step_simps by (fastforce split: if_splits)
  ultimately show ?thesis by (simp add: sync_inv_def)
qed

lemma currentD:
  "sync_inv m \<Longrightarrow> unsettled m j \<Longrightarrow> job_of m j = Some job \<Longrightarrow> \<not> sj_cancelled job \<Longrightarrow> sst_running (sj_status job)"
  "sync_inv m \<Longrightarrow> job_of m j = Some job \<Longrightarrow> sst_running (sj_status job) \<Longrightarrow> \<not> sst_monitoring (sj_status job)"
  unfolding sync_inv_def runs_current_def flags_ok_def by blast+

lemmas job_update_defs = set_status_def set_last_result_def put_slot_def watch_closed_def run_panicked_def

lemma inv_put_slot: "sync_inv m \<Longrightarrow> sync_inv (job_step j (put_slot kind slot) m)"
  by (rule inv_job) (auto simp: put_slot_def currentD split: task_kind.splits)

lemma inv_watch_closed: "sync_inv m \<Longrightarrow> sync_inv (job_step j watch_closed m)"
  by (rule inv_job) (auto simp: job_update_defs currentD)

lemma inv_monitoring_off: "sync_inv m \<Longrightarrow> sync_inv (job_step j (set_status (sst_monitoring_update (\<lambda>_. False))) m)"
  by (rule inv_job) (auto simp: job_update_defs currentD)

lemma inv_cancel: "sync_inv m \<Longrightarrow> sync_inv (job_step j (sj_cancelled_update (\<lambda>_. True)) m)"
  by (rule inv_job) (auto simp: currentD)

lemma settle_run_fields:
  "sj_profile (settle_run now outcome commit job) = sj_profile job"
  "sj_scope (settle_run now outcome commit job) = sj_scope job"
  "sj_cancelled (settle_run now outcome commit job) = sj_cancelled job"
  "\<not> sst_running (sj_status (settle_run now outcome commit job))"
  by (auto simp: settle_run_def job_update_defs split: sum.splits option.splits prod.splits)

lemma inv_settle: "sync_inv m \<Longrightarrow> \<not> unsettled m j \<Longrightarrow> sync_inv (job_step j (settle_run now outcome commit) m)"
  by (rule inv_job) (auto simp: settle_run_fields)

lemma inv_running_off:
  "sync_inv m \<Longrightarrow> \<not> unsettled m j \<Longrightarrow> sync_inv (job_step j (set_status (sst_running_update (\<lambda>_. False))) m)"
  by (rule inv_job) (auto simp: job_update_defs)

lemma inv_panicked:
  "sync_inv m \<Longrightarrow> map_option sj_cancelled (job_of m j) = Some True \<Longrightarrow> sync_inv (job_step j run_panicked m)"
  by (rule inv_job) (auto simp: job_update_defs)

lemma not_unsettled:
  assumes "sync_inv m" "is_task m t j RunTask p" "p = Marked \<or> p = Ended"
  shows "\<not> unsettled m j"
proof -
  have "is_task m t' j RunTask p' \<Longrightarrow> t' = t \<and> p' = p" for t' p'
    using single_runD(2)[OF assms(1,2)] assms(2) by (fastforce simp: is_task_def)
  then show ?thesis using single_runD(1)[OF assms(1,2)] assms(3) by (auto simp: unsettled_def)
qed

text \<open>Critical sections on the state.\<close>

lemma calm_on_job: "(\<And>job. sg_job s j = Some job \<Longrightarrow> calm_job job (f job)) \<Longrightarrow> calm s (on_job j f s)"
  by (auto simp: calm_def on_job_def calm_job_def option.rel_map option.rel_refl rel_option_iff split: option.splits)

lemma calm_extra [simp]:
  "calm s (s'\<lparr>sg_events := es\<rparr>) \<longleftrightarrow> calm s s'" "calm s (s'\<lparr>sg_monitor := ms\<rparr>) \<longleftrightarrow> calm s s'"
  by (simp_all add: calm_def)

lemma calm_switch [simp]: "calm s (switch_monitor i on ok s') \<longleftrightarrow> calm s s'"
  by (simp add: switch_monitor_def)

lemma calm_trans: "calm s1 s2 \<Longrightarrow> calm s2 s3 \<Longrightarrow> calm s1 s3"
proof -
  assume a: "calm s1 s2" "calm s2 s3"
  have "rel_option calm_job (sg_job s1 j) (sg_job s3 j)" for j
  proof (cases "sg_job s3 j")
    case (Some job3)
    then obtain job2 where job2: "sg_job s2 j = Some job2" "calm_job job2 job3" using calm_jobD(1)[OF a(2)] by blast
    then obtain job1 where "sg_job s1 j = Some job1" "calm_job job1 job2" using calm_jobD(1)[OF a(1)] by blast
    then show ?thesis using Some job2 by (simp add: calm_job_def)
  qed (use calm_jobD(2)[OF a(1), of j] calm_jobD(2)[OF a(2), of j] in simp)
  then show ?thesis using a by (simp add: calm_def)
qed

lemma calm_release: "calm s (release_sync_watch j s)"
  by (auto simp: release_sync_watch_def calm_job_def set_status_def split: option.splits intro!: calm_on_job)

lemma calm_reserve: "reserve_sync_watch j s = (Inr (), s') \<Longrightarrow> calm s s'"
  by (auto simp: reserve_sync_watch_def calm_job_def set_status_def split: option.splits if_splits intro!: calm_on_job)

lemma calm_activate: "activate_watch display session monitor off j s = (res, s') \<Longrightarrow> calm s s'"
  by (auto simp: activate_watch_def Let_def intro!: calm_release calm_trans[OF _ calm_release] split: option.splits sum.splits if_splits)

lemma calm_reconcile: "calm s (stop_for_reconciliation error gap ok j s)"
  by (auto simp: stop_for_reconciliation_def Let_def calm_job_def set_status_def split: option.splits intro!: calm_on_job)

lemma calm_applied: "calm s (watch_applied now result j s)"
  by (auto simp: watch_applied_def Let_def calm_job_def set_status_def set_last_result_def
      split: option.splits intro!: calm_on_job)

lemma inv_on_state: "sync_inv m \<Longrightarrow> calm (sy_state m) (f (sy_state m)) \<Longrightarrow> sync_inv (on_state f m)"
  unfolding on_state_def by (rule inv_calm)

lemma register_result:
  assumes "register_sync_job profile scope s = (Inr j, s')"
  shows "j = sg_next s" "\<not> sg_shutting_down s"
    "s' = s\<lparr>sg_jobs := (sg_jobs s)(spr_id profile \<mapsto> j),
       sg_job := (sg_job s)(j \<mapsto> set_status (sst_running_update (\<lambda>_. True)) (job_new profile scope)), sg_next := j + 1\<rparr>"
    "\<And>i job. sg_jobs s (spr_id profile) = Some i \<Longrightarrow> sg_job s i = Some job \<Longrightarrow> \<not> sst_running (sj_status job)"
  using assms by (auto simp: register_sync_job_def Let_def split: if_splits)

lemma inv_register:
  assumes "sync_inv m" "register_sync_job profile scope (sy_state m) = (Inr j, s')"
  shows "sync_inv (m\<lparr>sy_state := s', sy_starting := j # sy_starting m\<rparr>)" (is "sync_inv ?m")
proof -
  note reg = register_result[OF assms(2)]
  let ?job = "set_status (sst_running_update (\<lambda>_. True)) (job_new profile scope)"
  have fresh: "job_of m j = None"
    using sync_invD(1)[OF assms(1)] reg(1) unfolding names_ok_def by (metis less_irrefl)
  have jobs: "job_of ?m i = (if i = j then Some ?job else job_of m i)" for i using reg(3) by simp
  have tasks: "is_task ?m = is_task m" by (simp add: is_task_def fun_eq_iff)
  have new: "\<not> is_task m t j kind p" for t kind p using namesD(3)[OF assms(1)] fresh by fastforce
  have listed: "i \<noteq> j" if "i \<in> set (sy_starting m)" for i
    using that sync_invD(1)[OF assms(1)] fresh unfolding names_ok_def by blast
  have live: "unsettled ?m i \<longleftrightarrow> i = j \<or> unsettled m i" for i by (auto simp: unsettled_def tasks)
  have idle: "i \<noteq> j" if "unsettled m i" for i
    using that new listed by (auto simp: unsettled_def)
  have "names_ok ?m"
    using sync_invD(1)[OF assms(1)] reg(1) unfolding names_ok_def tasks jobs
    by (auto simp: reg(3) ran_def less_SucI split: if_splits dest: namesD[OF assms(1)])
  moreover have "single_run ?m"
    using sync_invD(2)[OF assms(1)] new listed unfolding single_run_def tasks by auto
  moreover have "runs_current ?m"
    unfolding runs_current_def live jobs
  proof (intro allI impI, elim conjE)
    fix i job assume i: "i = j \<or> unsettled m i" "(if i = j then Some ?job else job_of m i) = Some job" "\<not> sj_cancelled job"
    show "sst_running (sj_status job) \<and> sg_jobs (sy_state ?m) (spr_id (sj_profile job)) = Some i"
    proof (cases "i = j")
      case True
      then show ?thesis using i(2) reg(3) by (auto simp: set_status_def job_new_def)
    next
      case False
      then have cur: "sst_running (sj_status job)" "sg_jobs (sy_state m) (spr_id (sj_profile job)) = Some i"
        using i sync_invD(3)[OF assms(1)] unfolding runs_current_def by auto
      then have "spr_id (sj_profile job) \<noteq> spr_id profile" using reg(4)[of i job] i(2) False by auto
      then show ?thesis using cur reg(3) by simp
    qed
  qed
  moreover have "locks_ok ?m"
    unfolding locks_ok_def tasks
  proof (intro allI impI, elim conjE)
    fix t i kind p assume task: "is_task m t i kind p" "p \<in> {Holding, Stopped, Marked}"
    then have "i \<noteq> j" using new by blast
    then have "scope_of ?m i = scope_of m i" by (simp add: scope_of_def reg(3))
    then show "sy_locks ?m (scope_of ?m i) = Some t" using task locksD[OF assms(1)] by auto
  qed
  moreover have "flags_ok ?m"
    using sync_invD(5)[OF assms(1)] unfolding flags_ok_def jobs by (auto simp: set_status_def job_new_def)
  moreover have "stops_ok ?m"
    using sync_invD(6)[OF assms(1)] reg(2) fresh unfolding stops_ok_def by (fastforce simp: reg(3))
  ultimately show ?thesis by (simp add: sync_inv_def)
qed

text \<open>Rows leave the registry only with a cancelled job.\<close>

lemma inv_unregister:
  assumes "sync_inv m" "jobs \<subseteq>\<^sub>m sg_jobs (sy_state m)"
    and "\<And>pid j. sg_jobs (sy_state m) pid = Some j \<Longrightarrow> jobs pid \<noteq> Some j \<Longrightarrow> map_option sj_cancelled (job_of m j) = Some True"
  shows "sync_inv (m\<lparr>sy_state := (sy_state m)\<lparr>sg_jobs := jobs\<rparr>\<rparr>)" (is "sync_inv ?m")
proof -
  have tasks: "is_task ?m = is_task m" "unsettled ?m = unsettled m" "scope_of ?m = scope_of m"
    by (simp_all add: is_task_def unsettled_def scope_of_def fun_eq_iff)
  have sub: "j \<in> ran (sg_jobs (sy_state m))" if "j \<in> ran jobs" for j
    using that assms(2) by (auto simp: ran_def map_le_def dom_def) metis
  have "names_ok ?m" using sync_invD(1)[OF assms(1)] sub unfolding names_ok_def tasks by auto
  moreover have "single_run ?m" using sync_invD(2)[OF assms(1)] unfolding single_run_def tasks by simp
  moreover have "runs_current ?m"
    using sync_invD(3)[OF assms(1)] assms(3) unfolding runs_current_def tasks by fastforce
  moreover have "locks_ok ?m" using sync_invD(4)[OF assms(1)] unfolding locks_ok_def tasks by simp
  moreover have "flags_ok ?m" using sync_invD(5)[OF assms(1)] unfolding flags_ok_def by simp
  moreover have "stops_ok ?m" using sync_invD(6)[OF assms(1)] sub unfolding stops_ok_def by auto
  ultimately show ?thesis by (simp add: sync_inv_def)
qed

lemma inv_shutdown:
  assumes "sync_inv m"
  shows "sync_inv (on_state (sg_shutting_down_update (\<lambda>_. True)) m)" (is "sync_inv ?m")
    and "sg_shutting_down (sy_state m) \<Longrightarrow> set js = ran (sg_jobs (sy_state m)) \<Longrightarrow> sync_inv (m\<lparr>sy_enumerated := Some js\<rparr>)"
proof -
  have tasks: "is_task ?m = is_task m" "unsettled ?m = unsettled m" "scope_of ?m = scope_of m"
    by (simp_all add: scope_of_def fun_eq_iff)
  note inv = sync_invD[OF assms]
  have state: "sg_job (sy_state ?m) = sg_job (sy_state m)" "sg_jobs (sy_state ?m) = sg_jobs (sy_state m)"
    "sg_next (sy_state ?m) = sg_next (sy_state m)"
    by simp_all
  have "names_ok ?m" using inv(1) unfolding names_ok_def tasks state on_state_simps(4-8) .
  moreover have "single_run ?m" using inv(2) unfolding single_run_def tasks on_state_simps(5) .
  moreover have "runs_current ?m" using inv(3) unfolding runs_current_def tasks state .
  moreover have "locks_ok ?m" using inv(4) unfolding locks_ok_def tasks on_state_simps(3) .
  moreover have "flags_ok ?m" using inv(5) unfolding flags_ok_def state .
  moreover have "stops_ok ?m" using inv(6) unfolding stops_ok_def state on_state_simps(9,10) by simp
  ultimately show "sync_inv ?m" by (simp add: sync_inv_def)
  show "sync_inv (m\<lparr>sy_enumerated := Some js\<rparr>)" if "sg_shutting_down (sy_state m)" "set js = ran (sg_jobs (sy_state m))"
    by (rule inv_same[OF assms]) (use inv_watchers_exist[OF assms] inv(6) that in \<open>auto simp: stops_ok_def\<close>)
qed

lemma watched_job: "sync_inv m \<Longrightarrow> start_watch_check r profile_id (sy_state m) = Inr j \<Longrightarrow> job_of m j \<noteq> None"
  by (auto simp: start_watch_check_def and_then_def split: sum.splits option.splits if_splits)

lemma stopped_job:
  "sync_inv m \<Longrightarrow> (pid, j, stage) \<in> set (sy_stops m) \<Longrightarrow> map_option sj_cancelled (job_of m j) = Some True"
  unfolding sync_inv_def stops_ok_def by blast

lemma inv_stop_stage:
  assumes "sync_inv m" "sync_inv m'" "sy_stops m' = sy_stops m" "\<And>i. map_option sj_cancelled (job_of m' i) = map_option sj_cancelled (job_of m i)"
    and "(pid, j, stage) \<in> set (sy_stops m)"
  shows "sync_inv (m'\<lparr>sy_stops := (pid, j, stage') # remove1 (pid, j, stage) (sy_stops m)\<rparr>)"
    and "sync_inv (m'\<lparr>sy_stops := remove1 (pid, j, stage) (sy_stops m)\<rparr>)"
proof -
  have "map_option sj_cancelled (job_of m' i) = Some True" if "(pid', i, stage'') \<in> set (sy_stops m)" for pid' i stage''
    using stopped_job[OF assms(1) that] assms(4) by simp
  then show "sync_inv (m'\<lparr>sy_stops := (pid, j, stage') # remove1 (pid, j, stage) (sy_stops m)\<rparr>)"
    "sync_inv (m'\<lparr>sy_stops := remove1 (pid, j, stage) (sy_stops m)\<rparr>)"
    using assms(5) by (auto intro!: inv_stops[OF assms(2)] dest!: in_remove1)
qed

lemma sync_step_inv:
  assumes "sync_step m m'" "sync_inv m"
  shows "sync_inv m'"
  using assms(1)
proof (cases rule: sync_step.cases)
  case (starts r profile scope j s)
  then show ?thesis using inv_register[OF assms(2)] by (auto simp: start_sync_def split: sum.splits)
next
  case (spawns_run j)
  then show ?thesis using inv_spawn_run[OF assms(2)] by simp
next
  case (posts t j kind)
  then show ?thesis using inv_put_slot inv_advance[OF assms(2) posts(2)] by simp
next
  case (releases t j kind)
  then show ?thesis using inv_advance[OF assms(2) releases(2)] by simp
next
  case (run_dropped t j)
  have "is_task (end_task t m) t j RunTask Ended" using run_dropped(2) by auto
  then have "\<not> unsettled (end_task t m) j" by (rule not_unsettled[OF inv_end[OF assms(2)]]) simp
  then show ?thesis using run_dropped inv_running_off[OF inv_end[OF assms(2)]] by blast
next
  case (watch_dropped t j)
  then show ?thesis using inv_end[OF assms(2)] by simp
next
  case (locks t j kind)
  then show ?thesis using inv_lock[OF assms(2)] by blast
next
  case (run_settles t j now outcome commit)
  have inv: "sync_inv (advance t Marked m)" using inv_advance[OF assms(2) run_settles(2)] by simp
  have "is_task (advance t Marked m) t j RunTask Marked" using run_settles(2) by auto
  then have "\<not> unsettled (advance t Marked m) j" by (rule not_unsettled[OF inv]) simp
  then show ?thesis using run_settles inv_settle[OF inv] by blast
next
  case (run_ends t j)
  then show ?thesis using inv_put_slot[OF inv_end[OF assms(2)]] by blast
next
  case (run_panics t j)
  then show ?thesis using inv_end[OF assms(2)] by simp
next
  case (watch_applies t j now result)
  then show ?thesis using inv_on_state[OF assms(2), of "watch_applied now result j"] calm_applied by simp
next
  case (watch_lags t j lag_message missed ok)
  have "sync_inv (advance t Stopped m)" using inv_advance[OF assms(2) watch_lags(2)] by simp
  then show ?thesis using watch_lags inv_on_state[of "advance t Stopped m" "report_sync_watch_lag lag_message missed ok j"] calm_reconcile
    by (simp add: report_sync_watch_lag_def)
next
  case (watch_fails t j error ok)
  have "sync_inv (advance t Stopped m)" using inv_advance[OF assms(2) watch_fails(2)] by simp
  then show ?thesis using watch_fails inv_on_state[of "advance t Stopped m" "reconcile_required_from_error error ok j"] calm_reconcile
    by (simp add: reconcile_required_from_error_def)
next
  case (watch_closes t j)
  then show ?thesis using inv_advance[OF assms(2) watch_closes(2)] by simp
next
  case (watch_marks t j)
  then show ?thesis using inv_watch_closed inv_advance[OF assms(2) watch_marks(2)] by simp
next
  case (watch_ends t j)
  then show ?thesis using inv_put_slot[OF inv_end[OF assms(2)]] by blast
next
  case (checks_watch r profile_id j)
  then show ?thesis
    using inv_watchers[OF assms(2), of "j # sy_checked m" "sy_activating m" "sy_activated m"] inv_watchers_exist[OF assms(2)]
      watched_job[OF assms(2)] by simp
next
  case (reserves j s)
  have calm: "calm (sy_state m) s" using calm_reserve[OF reserves(3)] .
  have "job_of m j \<noteq> None" using inv_watchers_exist[OF assms(2)] reserves(2) by blast
  then have "sync_inv (m\<lparr>sy_checked := remove1 j (sy_checked m), sy_activating := j # sy_activating m, sy_activated := sy_activated m\<rparr>)"
    using inv_watchers_exist[OF assms(2)] by (intro inv_watchers[OF assms(2)]) (auto dest!: in_remove1)
  from inv_calm[OF this, of s] show ?thesis using reserves(1) calm by (cases m) simp
next
  case (activates j display session monitor off s)
  have calm: "calm (sy_state m) s" using calm_activate[OF activates(3)] .
  have "job_of m j \<noteq> None" using inv_watchers_exist[OF assms(2)] activates(2) by blast
  then have "sync_inv (m\<lparr>sy_checked := sy_checked m, sy_activating := remove1 j (sy_activating m), sy_activated := j # sy_activated m\<rparr>)"
    using inv_watchers_exist[OF assms(2)] by (intro inv_watchers[OF assms(2)]) (auto dest!: in_remove1)
  from inv_calm[OF this, of s] show ?thesis using activates(1) calm by (cases m) simp
next
  case (activation_fails j display session monitor off e s)
  have calm: "calm (sy_state m) s" using calm_activate[OF activation_fails(3)] .
  have "sync_inv (m\<lparr>sy_checked := sy_checked m, sy_activating := remove1 j (sy_activating m), sy_activated := sy_activated m\<rparr>)"
    using inv_watchers_exist[OF assms(2)] by (intro inv_watchers[OF assms(2)]) (auto dest!: in_remove1)
  from inv_calm[OF this, of s] show ?thesis using activation_fails(1) calm by (cases m) simp
next
  case (spawns_watch j)
  have "job_of m j \<noteq> None" using inv_watchers_exist[OF assms(2)] spawns_watch(2) by blast
  from inv_spawn_watch[OF assms(2) this] have inv: "sync_inv (spawn_task j WatchTask m)" .
  have "sync_inv ((spawn_task j WatchTask m)\<lparr>sy_checked := sy_checked m, sy_activating := sy_activating m,
      sy_activated := remove1 j (sy_activated m)\<rparr>)"
    using inv_watchers_exist[OF assms(2)] by (intro inv_watchers[OF inv]) (auto simp: spawn_task_def dest!: in_remove1)
  then show ?thesis using spawns_watch(1) by (simp add: spawn_task_def)
next
  case (stop_begins profile_id j)
  have "job_of m j \<noteq> None"
    using sync_invD(1)[OF assms(2)] stop_begins(2) by (auto simp: names_ok_def sync_job_for_def ran_def)
  then show ?thesis
    using stop_begins(1) stopped_job[OF assms(2)]
    by (auto intro!: inv_stops[OF inv_cancel[OF assms(2)]] split: if_splits)
next
  case (stop_takes_run profile_id j job timed_out handle slot)
  then show ?thesis
    using inv_stop_stage(1)[OF assms(2) inv_put_slot[OF assms(2)] _ _ stop_takes_run(2)]
    by (simp add: put_slot_def option.map_comp comp_def)
next
  case (stop_joins profile_id j t kind)
  then show ?thesis using inv_stop_stage(1)[OF assms(2) assms(2) refl refl stop_joins(2)] by simp
next
  case (stop_joins_panicked profile_id j t kind)
  have "sync_inv (job_step j run_panicked m)" using inv_panicked[OF assms(2)] stopped_job[OF assms(2) stop_joins_panicked(2)] .
  from inv_stop_stage(1)[OF assms(2) this _ _ stop_joins_panicked(2)] show ?thesis
    using stop_joins_panicked(1) by (simp add: run_panicked_def set_status_def option.map_comp comp_def)
next
  case (stop_aborts_run profile_id j t)
  then show ?thesis using inv_stop_stage(1)[OF assms(2) inv_end[OF assms(2)] _ _ stop_aborts_run(2)] by simp
next
  case (stop_takes_watch profile_id j job timed_out handle slot)
  then show ?thesis
    using inv_stop_stage(1)[OF assms(2) inv_put_slot[OF assms(2)] _ _ stop_takes_watch(2)]
    by (simp add: put_slot_def option.map_comp comp_def)
next
  case (stop_aborts_watch profile_id j t)
  then show ?thesis using inv_stop_stage(1)[OF assms(2) inv_end[OF assms(2)] _ _ stop_aborts_watch(2)] by simp
next
  case (stop_removes profile_id j)
  let ?m = "on_state (snd \<circ> remove_sync_job_if_current profile_id j) m"
  have "sync_inv ?m"
  proof (cases "sg_jobs (sy_state m) profile_id = Some j")
    case True
    have "sync_inv (m\<lparr>sy_state := (sy_state m)\<lparr>sg_jobs := (sg_jobs (sy_state m))(profile_id := None)\<rparr>\<rparr>)"
      by (rule inv_unregister[OF assms(2)])
        (use True stopped_job[OF assms(2) stop_removes(2)] in \<open>auto simp: map_le_def split: if_splits\<close>)
    then show ?thesis using True by (simp add: on_state_def remove_sync_job_if_current_def)
  qed (use assms(2) in \<open>simp add: on_state_def remove_sync_job_if_current_def\<close>)
  from inv_stop_stage(2)[OF assms(2) this _ _ stop_removes(2)] show ?thesis
    using stop_removes(1) by (auto simp: remove_sync_job_if_current_def)
next
  case (unwatch_begins profile_id j)
  then show ?thesis using inv_threads[OF assms(2)] by simp
next
  case (unwatch_takes j job timed_out handle slot)
  then show ?thesis using inv_threads[OF inv_put_slot[OF assms(2)]] by simp
next
  case (unwatch_aborts j t)
  then show ?thesis using inv_threads[OF inv_end[OF assms(2)]] by simp
next
  case (unwatch_clears j session ok)
  then show ?thesis
    using inv_on_state[OF inv_threads(1)[OF inv_monitoring_off[OF assms(2), of j], of "remove1 (j, UnwatchClear) (sy_unwatches m)"],
        of "switch_monitor session False ok"] by (cases m) (simp add: on_state_def job_step_def)
next
  case shutdown_begins
  then show ?thesis using inv_shutdown(1)[OF assms(2)] by simp
next
  case (shutdown_enumerates js)
  then show ?thesis using inv_shutdown(2)[OF assms(2)] by simp
next
  case (shutdown_cancels js j)
  then show ?thesis using inv_cancel[OF assms(2)] by simp
next
  case (shutdown_takes js j job timed_out kind handle slot)
  then show ?thesis using inv_threads(2)[OF inv_put_slot[OF assms(2)]] by simp
next
  case (shutdown_aborts t)
  then show ?thesis using inv_end[OF assms(2)] by simp
next
  case (shutdown_clears js)
  have "map_option sj_cancelled (job_of m j) = Some True" if "sg_jobs (sy_state m) pid = Some j" for pid j
  proof -
    have "j \<in> set js" "job_of m j \<noteq> None"
      using sync_invD(6)[OF assms(2)] sync_invD(1)[OF assms(2)] shutdown_clears(2) that
      by (auto simp: stops_ok_def names_ok_def ran_def)
    then show ?thesis using shutdown_clears(3) by auto
  qed
  then show ?thesis using inv_unregister[OF assms(2), of Map.empty] shutdown_clears(1) by (simp add: on_state_def)
qed

interpretation sync_jobs: preserved_invariant "(=) sync_machine_start" sync_step sync_inv
proof
  show "sync_inv m" if "sync_machine_start = m" for m
    using that[symmetric]
    by (simp add: sync_inv_def sync_inv_defs is_task_def unsettled_def sync_machine_start_def sync_start_state_def)
qed (rule sync_step_inv)

text \<open>C14 However starts, stops, watches, timeouts, aborts and shutdown interleave: two tasks that work
  under the lock of the same ledger are one task; no job both runs and monitors; a run that has not
  been cancelled and has not written its outcome is marked as running and is the registered job of its
  profile, so there is at most one of them per profile.\<close>

theorem sync_jobs_exclusive:
  assumes "sync_reachable m"
  shows "(\<forall>t t' j j' kind kind' p p'. is_task m t j kind p \<and> is_task m t' j' kind' p' \<and>
            {p, p'} \<subseteq> {Holding, Stopped, Marked} \<and> scope_of m j = scope_of m j' \<longrightarrow> t = t' \<and> j = j') \<and>
         (\<forall>j job. job_of m j = Some job \<longrightarrow> \<not> (sst_running (sj_status job) \<and> sst_monitoring (sj_status job))) \<and>
         (\<forall>j job. unsettled m j \<and> job_of m j = Some job \<and> \<not> sj_cancelled job \<longrightarrow>
            sst_running (sj_status job) \<and> sync_job_for (spr_id (sj_profile job)) (sy_state m) = Some j) \<and>
         (\<forall>i j job job'. unsettled m i \<and> unsettled m j \<and> job_of m i = Some job \<and> job_of m j = Some job' \<and>
            \<not> sj_cancelled job \<and> \<not> sj_cancelled job' \<and> spr_id (sj_profile job) = spr_id (sj_profile job') \<longrightarrow> i = j)"
proof -
  note inv = sync_jobs.inv_reach[OF assms]
  have tasks: "t = t'" "j = j'"
    if "is_task m t j kind p" "is_task m t' j' kind' p'" "{p, p'} \<subseteq> {Holding, Stopped, Marked}" "scope_of m j = scope_of m j'"
    for t t' j j' kind kind' p p'
  proof -
    have "sy_locks m (scope_of m j) = Some t" "sy_locks m (scope_of m j') = Some t'"
      using that(1-3) locksD[OF inv] by auto
    then show "t = t'" "j = j'" using that(1,2,4) by (simp_all add: is_task_def)
  qed
  have current: "sst_running (sj_status job)" "sync_job_for (spr_id (sj_profile job)) (sy_state m) = Some j"
    if "unsettled m j" "job_of m j = Some job" "\<not> sj_cancelled job" for j job
    using that sync_invD(3)[OF inv] unfolding runs_current_def sync_job_for_def by blast+
  have one: "i = j"
    if "unsettled m i" "unsettled m j" "job_of m i = Some job" "job_of m j = Some job'"
      "\<not> sj_cancelled job" "\<not> sj_cancelled job'" "spr_id (sj_profile job) = spr_id (sj_profile job')" for i j job job'
    using current(2)[OF that(1,3,5)] current(2)[OF that(2,4,6)] that(7) by simp
  have flags: "\<forall>j job. job_of m j = Some job \<longrightarrow> \<not> (sst_running (sj_status job) \<and> sst_monitoring (sj_status job))"
    using sync_invD(5)[OF inv] unfolding flags_ok_def .
  show ?thesis by (intro conjI flags allI impI; elim conjE) (rule tasks current one; assumption)+
qed

section \<open>A scenario\<close>

text \<open>A run is started and holds the lock of its ledger.\<close>

lemma photo_profile_valid: "validate_sync_profile_format photo_profile = Inr ()"
  by code_simp

lemma photo_ids: "spr_id photo_profile = ''x''" "spr_session_id photo_profile = 1" "spr_enabled photo_profile"
  by (simp_all add: photo_profile_def)

lemma photo_start:
  "start_sync sample_runtime photo_profile ''s'' s = register_sync_job photo_profile ''s'' s"
  by (simp add: start_sync_def ensure_open_def sample_runtime_def and_then_def photo_profile_valid)

definition photo_job :: "TaskPublication \<Rightarrow> SyncJob" where
  "photo_job slot = put_slot RunTask slot (set_status (sst_running_update (\<lambda>_. True)) (job_new photo_profile ''s''))"

definition photo_run :: sync_machine where
  "photo_run = sync_machine_start\<lparr>
     sy_state := sync_start_state\<lparr>sg_jobs := [''x'' \<mapsto> 0], sg_job := [0 \<mapsto> photo_job (Published 0)], sg_next := 1\<rparr>,
     sy_tasks := [0 \<mapsto> \<lparr>tk_job = 0, tk_kind = RunTask, tk_phase = Holding\<rparr>], sy_next_task := 1,
     sy_locks := [''s'' \<mapsto> 0]\<rparr>"

lemma photo_run_reachable: "sync_reachable photo_run"
proof -
  define m1 where "m1 = sync_machine_start\<lparr>
     sy_state := sync_start_state\<lparr>sg_jobs := [''x'' \<mapsto> 0], sg_job := [0 \<mapsto> photo_job Reserved], sg_next := 1\<rparr>, sy_starting := [0]\<rparr>"
  define m2 where "m2 = (spawn_task 0 RunTask m1)\<lparr>sy_starting := []\<rparr>"
  define m3 where "m3 = job_step 0 (put_slot RunTask (Published 0)) (advance 0 Posted m2)"
  define m4 where "m4 = advance 0 Released m3"
  note chain = m1_def m2_def m3_def m4_def sync_machine_start_def sync_start_state_def spawn_task_def photo_job_def
    put_slot_def
  have s0: "sync_reachable sync_machine_start" by (rule reach_start) simp
  have s1: "sync_step sync_machine_start m1"
    using starts[of sample_runtime photo_profile "''s''" sync_machine_start 0 "sy_state m1"]
    by (simp add: photo_start register_sync_job_def chain photo_ids set_status_def job_new_def)
  have s2: "sync_step m1 m2" using spawns_run[of 0 m1] by (simp add: chain)
  have t2: "is_task m2 0 0 RunTask Spawned" by (simp add: chain is_task_def)
  then have s3: "sync_step m2 m3" unfolding m3_def by (rule posts)
  have t3: "is_task m3 0 0 RunTask Posted" using t2 by (auto simp: m3_def)
  then have s4: "sync_step m3 m4" unfolding m4_def by (rule releases)
  have s5: "sync_step m4 photo_run"
    using locks[of m4 0 0 RunTask]
    by (simp add: photo_run_def chain is_task_def scope_of_def advance_def job_step_def on_state_def on_job_def
        set_status_def job_new_def)
  show ?thesis
    by (rule reach_step[OF reach_step[OF reach_step[OF reach_step[OF reach_step[OF s0 s1] s2] s3] s4] s5])
qed

theorem sync_jobs_exclusive_witness:
  "sync_reachable photo_run \<and> unsettled photo_run 0 \<and>
   {t. \<exists>j kind p. is_task photo_run t j kind p \<and> p \<in> {Holding, Stopped, Marked} \<and> scope_of photo_run j = ''s''} = {0} \<and>
   \<not> sst_monitoring (sj_status (photo_job (Published 0)))"
proof -
  note exclusive = sync_jobs_exclusive[OF photo_run_reachable]
  have task: "is_task photo_run 0 0 RunTask Holding" by (simp add: photo_run_def is_task_def)
  have live: "unsettled photo_run 0" unfolding unsettled_def using task by blast
  have scope: "scope_of photo_run 0 = ''s''"
    by (simp add: photo_run_def scope_of_def photo_job_def put_slot_def set_status_def job_new_def)
  have "t = 0"
    if "is_task photo_run t j kind p" "p \<in> {Holding, Stopped, Marked}" "scope_of photo_run j = ''s''" for t j kind p
    using exclusive[THEN conjunct1, rule_format, of t j kind p 0 0 RunTask Holding] that task scope by auto
  then have holders: "{t. \<exists>j kind p. is_task photo_run t j kind p \<and> p \<in> {Holding, Stopped, Marked} \<and> scope_of photo_run j = ''s''} = {0}"
    using task scope by blast
  have "job_of photo_run 0 = Some (photo_job (Published 0))" by (simp add: photo_run_def)
  moreover have "sst_running (sj_status (photo_job (Published 0)))" by (simp add: photo_job_def put_slot_def set_status_def)
  ultimately have "\<not> sst_monitoring (sj_status (photo_job (Published 0)))"
    using exclusive[THEN conjunct2, THEN conjunct1] by blast
  then show ?thesis using photo_run_reachable live holders by blast
qed

section \<open>Where the flags say more than the code\<close>

text \<open>\<open>SyncStatusDto\<close> and \<open>start_sync_watch\<close> promise that after a gap no watch starts before a full sync
  has succeeded. Starting a sync makes a new job without the flag, so one that fails lifts the gate.\<close>

lemma failed_run_lifts_gate:
  assumes "register_sync_job profile scope s = (Inr j, s')" "ensure_open r = Inr ()" "spr_enabled profile"
  shows "start_watch_check r (spr_id profile) (on_job j (settle_run now (Inl e) commit) s') = Inr j"
  using register_result[OF assms(1)] assms(2,3)
  by (simp add: start_watch_check_def and_then_def sync_job_for_def on_job_def settle_run_def set_status_def job_new_def)

text \<open>A reservation is not given back when the session is gone: the profile then refuses to run and to
  be watched until its watch is stopped.\<close>

lemma reservation_leaks:
  assumes "reserve_sync_watch j s = (Inr (), s1)" "sg_job s j = Some job" "\<not> sg_shutting_down s"
  shows "activate_watch display (Inl e) monitor off j s1 = (Inl e, s1)"
    and "\<exists>e'. reserve_sync_watch j s1 = (Inl e', s1)"
    and "spr_id profile = spr_id (sj_profile job) \<Longrightarrow> \<exists>e'. register_sync_job profile scope s1 = (Inl e', s1)"
  using assms
  by (auto simp: activate_watch_def reserve_sync_watch_def register_sync_job_def on_job_def set_status_def Let_def
      split: option.splits if_splits)

text \<open>Changes that have been received are dropped when the stream closes within the debounce window,
  and the job is not marked for reconciliation.\<close>

lemma closed_stream_drops_batch:
  "run_watch apply_batch [FilesChanged changes, RecvClosed] st = ([], Some EndClosed, st)"
  "sst_reconciliation_required (sj_status (watch_closed job)) = sst_reconciliation_required (sj_status job)"
  by (simp add: run_watch.simps) (simp add: watch_closed_def set_status_def)

text \<open>A watch that is waiting for the phone is not seen by \<open>stop_sync\<close>, which gives up after its wait:
  the watch then starts for a job that has been stopped and is no longer registered. Nothing in
  \<open>run_sync_watch\<close> reads the cancellation.\<close>

lemma watch_outlives_stop:
  assumes "j \<in> set (sy_activating m)" "(pid, j, TakeWatch) \<in> set (sy_stops m)" "job_of m j = Some job"
    and "sj_watch_task job = Reserved" "sg_jobs (sy_state m) pid = Some j" "sy_locks m (sj_scope job) = None"
    and "\<not> sg_shutting_down (sy_state m)"
  shows "\<exists>m' t. sync_step\<^sup>*\<^sup>* m m' \<and> is_task m' t j WatchTask Holding \<and> sg_jobs (sy_state m') pid = None"
proof -
  define m1 where "m1 = (job_step j (put_slot WatchTask Taken) m)\<lparr>sy_stops := (pid, j, RemoveJob) # remove1 (pid, j, TakeWatch) (sy_stops m)\<rparr>"
  define m2 where "m2 = (on_state (snd \<circ> remove_sync_job_if_current pid j) m1)\<lparr>sy_stops := remove1 (pid, j, RemoveJob) (sy_stops m1)\<rparr>"
  let ?session = "spr_session_id (sj_profile job)"
  define m3 where "m3 = m2\<lparr>sy_state := switch_monitor ?session True True (sy_state m2),
    sy_activating := remove1 j (sy_activating m2), sy_activated := j # sy_activated m2\<rparr>"
  define m4 where "m4 = (spawn_task j WatchTask m3)\<lparr>sy_activated := remove1 j (sy_activated m3)\<rparr>"
  let ?t = "sy_next_task m"
  define m5 where "m5 = job_step j (put_slot WatchTask (Published ?t)) (advance ?t Posted m4)"
  define m6 where "m6 = advance ?t Released m5"
  define m7 where "m7 = (advance ?t Holding m6)\<lparr>sy_locks := (sy_locks m6)(scope_of m6 j \<mapsto> ?t)\<rparr>"
  have "sync_step m m1"
    using stop_takes_watch[of pid j m job True None Taken] assms(2-4) by (simp add: m1_def)
  moreover have "sync_step m1 m2" unfolding m2_def by (rule stop_removes) (simp add: m1_def)
  moreover have job2: "job_of m2 j = Some (put_slot WatchTask Taken job)" "sg_jobs (sy_state m2) pid = None"
    "\<not> sg_shutting_down (sy_state m2)" "j \<in> set (sy_activating m2)" "sy_locks m2 = sy_locks m" "sy_next_task m2 = ?t"
    using assms by (simp_all add: m2_def m1_def remove_sync_job_if_current_def)
  then have "sync_step m2 m3"
    unfolding m3_def
    by (intro activates[where display = "\<lambda>_. []" and session = "Inr s" and monitor = "Inr True" and switched_off = True for s])
      (simp_all add: activate_watch_def switch_monitor_def put_slot_def)
  moreover have "sync_step m3 m4" unfolding m4_def by (rule spawns_watch) (simp add: m3_def)
  moreover have t4: "is_task m4 ?t j WatchTask Spawned"
    using job2 by (simp add: m4_def m3_def spawn_task_def is_task_def)
  then have "sync_step m4 m5" unfolding m5_def by (rule posts)
  moreover have t5: "is_task m5 ?t j WatchTask Posted" using t4 by (auto simp: m5_def)
  then have "sync_step m5 m6" unfolding m6_def by (rule releases)
  moreover have t6: "is_task m6 ?t j WatchTask Released" using t5 by (auto simp: m6_def)
  have "sy_locks m6 (scope_of m6 j) = None"
    using job2 assms(6) by (simp add: m6_def m5_def m4_def m3_def spawn_task_def scope_of_def switch_monitor_def put_slot_def)
  then have "sync_step m6 m7" unfolding m7_def using t6 by (intro locks)
  ultimately have "sync_step\<^sup>*\<^sup>* m m7" by (meson converse_rtranclp_into_rtranclp rtranclp.rtrancl_refl)
  moreover have "is_task m7 ?t j WatchTask Holding" using t6 by (auto simp: m7_def is_task_def advance_def)
  moreover have "sg_jobs (sy_state m7) pid = None"
    using job2 by (simp add: m7_def m6_def m5_def m4_def m3_def spawn_task_def switch_monitor_def)
  ultimately show ?thesis by blast
qed
end
