(* ===== verification/Texts.thy ===== *)
theory Texts
  imports Paths
begin

text \<open>
  Numbers in text, and text cut into words and lines, as the standard library of Rust does it:
  \<open>to_string\<close> and \<open>str::parse\<close> of integers, \<open>split\<close> with several separators, \<open>split_whitespace\<close>, \<open>lines\<close>.
\<close>

section \<open>Decimal numbers\<close>

fun show_nat :: "nat \<Rightarrow> string" where
  "show_nat n = (if n < 10 then [char_of (48 + n)] else show_nat (n div 10) @ [char_of (48 + n mod 10)])"

declare show_nat.simps [simp del]

definition digit_value :: "char \<Rightarrow> nat option" where
  "digit_value c = (let k = of_char c in if 48 \<le> k \<and> k \<le> 57 then Some (k - 48) else None)"

fun digits_value :: "nat \<Rightarrow> string \<Rightarrow> nat option" where
  "digits_value acc [] = Some acc"
| "digits_value acc (c # cs) = (case digit_value c of None \<Rightarrow> None | Some d \<Rightarrow> digits_value (acc * 10 + d) cs)"

text \<open>\<open>parse\<close> to an unsigned type with the given greatest value, and to \<open>i64\<close>.\<close>

definition parse_unsigned :: "nat \<Rightarrow> string \<Rightarrow> nat option" where
  "parse_unsigned bound s =
     (let ds = (if starts_with ''+'' s then drop 1 s else s) in
      if ds = [] then None
      else case digits_value 0 ds of None \<Rightarrow> None | Some n \<Rightarrow> if n \<le> bound then Some n else None)"

definition parse_i64 :: "string \<Rightarrow> int option" where
  "parse_i64 s =
     (if starts_with ''-'' s then
        (if drop 1 s = [] then None
         else case digits_value 0 (drop 1 s) of None \<Rightarrow> None | Some n \<Rightarrow> if n \<le> 2 ^ 63 then Some (- int n) else None)
      else map_option int (parse_unsigned (2 ^ 63 - 1) s))"

lemma digits_value_append:
  "digits_value acc (a @ b) = Option.bind (digits_value acc a) (\<lambda>n. digits_value n b)"
  by (induction a arbitrary: acc) (auto split: option.splits)

lemma digit_value_char: "n < 10 \<Longrightarrow> digit_value (char_of (48 + n)) = Some n"
  by (simp add: digit_value_def)

lemma digits_value_show: "digits_value 0 (show_nat n) = Some n"
proof (induction n rule: show_nat.induct)
  case (1 n)
  then show ?case by (subst show_nat.simps) (auto simp: digits_value_append digit_value_char)
qed

lemma show_nat_chars: "c \<in> set (show_nat n) \<Longrightarrow> 48 \<le> (of_char c :: nat) \<and> (of_char c :: nat) \<le> 57"
proof (induction n rule: show_nat.induct)
  case (1 n)
  have "(of_char (char_of (48 + n mod 10) :: char) :: nat) = 48 + n mod 10"
    using mod_less_divisor[of 10 n] by (simp add: of_char_of)
  then show ?case using 1 by (subst (asm) show_nat.simps) (auto split: if_splits)
qed

lemma show_nat_not_Nil [simp]: "show_nat n \<noteq> []"
  by (subst show_nat.simps) simp

lemma show_nat_excludes: "\<not> (48 \<le> (of_char c :: nat) \<and> (of_char c :: nat) \<le> 57) \<Longrightarrow> c \<notin> set (show_nat n)"
  using show_nat_chars by blast

lemma starts_with_Cons: "starts_with [c] s \<longleftrightarrow> s \<noteq> [] \<and> hd s = c"
  by (cases s) (auto simp: starts_with_def)

lemma digits_no_sign:
  assumes "\<And>c. c \<in> set s \<Longrightarrow> 48 \<le> (of_char c :: nat)"
  shows "\<not> starts_with ''+'' s" "\<not> starts_with ''-'' s"
proof -
  have "hd s \<noteq> CHR ''+'' \<and> hd s \<noteq> CHR ''-''" if "s \<noteq> []" using assms[OF hd_in_set[OF that]] by auto
  then show "\<not> starts_with ''+'' s" "\<not> starts_with ''-'' s" by (auto simp: starts_with_Cons)
qed

lemma parse_unsigned_digits:
  assumes "digits_value 0 s = Some n" "s \<noteq> []" "n \<le> bound" "\<And>c. c \<in> set s \<Longrightarrow> 48 \<le> (of_char c :: nat)"
  shows "parse_unsigned bound s = Some n"
  using assms digits_no_sign[OF assms(4)] by (simp add: parse_unsigned_def)

lemma parse_unsigned_show: "n \<le> bound \<Longrightarrow> parse_unsigned bound (show_nat n) = Some n"
  by (rule parse_unsigned_digits) (auto simp: digits_value_show dest: show_nat_chars)

lemma parse_unsigned_bound: "parse_unsigned bound s = Some n \<Longrightarrow> n \<le> bound"
  by (auto simp: parse_unsigned_def Let_def split: option.splits if_splits)

section \<open>Words and lines\<close>

fun split_when :: "(char \<Rightarrow> bool) \<Rightarrow> string \<Rightarrow> string list" where
  "split_when p [] = [[]]"
| "split_when p (x # xs) =
     (if p x then [] # split_when p xs
      else (case split_when p xs of [] \<Rightarrow> [[x]] | y # ys \<Rightarrow> (x # y) # ys))"

lemma split_when_not_Nil [simp]: "split_when p s \<noteq> []"
  by (induction s) (auto split: list.splits)

lemma split_when_plain [simp]: "\<forall>x \<in> set s. \<not> p x \<Longrightarrow> split_when p s = [s]"
  by (induction s) auto

lemma split_when_append: "\<forall>x \<in> set s. \<not> p x \<Longrightarrow> p c \<Longrightarrow> split_when p (s @ c # rest) = s # split_when p rest"
  by (induction s) auto

definition flush_word :: "string \<Rightarrow> string list \<Rightarrow> string list" where
  "flush_word w ws = (if w = [] then ws else w # ws)"

function words_from :: "string \<Rightarrow> string \<Rightarrow> string list" where
  "words_from w [] = flush_word w []"
| "words_from w (c # cs) =
     (case find (\<lambda>e. starts_with e (c # cs)) whitespace_encodings of
        None \<Rightarrow> words_from (w @ [c]) cs
      | Some e \<Rightarrow> flush_word w (words_from [] (drop (length e - 1) cs)))"
  by pat_completeness auto
termination by (relation "measure (length \<circ> snd)") auto

definition split_whitespace :: "string \<Rightarrow> string list" where
  "split_whitespace s = words_from [] s"

definition strip_cr :: "string \<Rightarrow> string" where
  "strip_cr s = (if s \<noteq> [] \<and> last s = CHR 0x0D then butlast s else s)"

definition lines :: "string \<Rightarrow> string list" where
  "lines s = (let ps = split_on (CHR 0x0A) s in
     map strip_cr (butlast ps) @ (if last ps = [] then [] else [last ps]))"

lemma whitespace_head: "graphic c \<Longrightarrow> find (\<lambda>e. starts_with e (c # cs)) whitespace_encodings = None"
proof (rule find_None)
  fix e assume "graphic c" "e \<in> set whitespace_encodings"
  then show "\<not> starts_with e (c # cs)" using whitespace_not_graphic[of e] by (cases e) (auto simp: starts_with_def)
qed

lemma words_from_graphic: "\<forall>c \<in> set s. graphic c \<Longrightarrow> words_from w (s @ rest) = words_from (w @ s) rest"
  by (induction s arbitrary: w) (auto simp: whitespace_head)

lemma find_space: "find (\<lambda>e. starts_with e (CHR '' '' # cs)) whitespace_encodings = Some '' ''"
proof -
  have space: "char_of (32 :: nat) = CHR '' ''" using char_of_char[of "CHR '' ''", where 'a = nat] by simp
  have "starts_with [char_of (n :: nat)] (CHR '' '' # cs) \<longleftrightarrow> n = 32" if "n < 256" for n
  proof -
    have "char_of n = CHR '' '' \<longleftrightarrow> n = 32"
    proof
      show "n = 32" if "char_of n = CHR '' ''"
        using that \<open>n < 256\<close> by (auto dest!: arg_cong[where f = "of_char :: char \<Rightarrow> nat"])
    qed (simp only: space)
    then show ?thesis by (auto simp: starts_with_Cons)
  qed
  then show ?thesis using space by (simp add: whitespace_encodings_def starts_with_Cons)
qed

lemma words_from_space: "words_from w (CHR '' '' # cs) = flush_word w (words_from [] cs)"
  by (simp add: find_space)

text \<open>Words without white space, separated by single spaces, come back.\<close>

definition plain_word :: "string \<Rightarrow> bool" where
  "plain_word w \<longleftrightarrow> w \<noteq> [] \<and> (\<forall>c \<in> set w. graphic c)"

lemma split_whitespace_join:
  "\<forall>w \<in> set ws. plain_word w \<Longrightarrow> split_whitespace (join_with '' '' ws) = ws"
  unfolding split_whitespace_def
proof (induction ws)
  case (Cons w ws)
  then have w: "w \<noteq> []" "\<forall>c \<in> set w. graphic c" by (auto simp: plain_word_def)
  show ?case
  proof (cases ws)
    case Nil
    then show ?thesis using words_from_graphic[OF w(2), of "[]" "[]"] w(1) by (simp add: flush_word_def)
  next
    case (Cons v vs)
    then show ?thesis
      using words_from_graphic[OF w(2), of "[]" "'' '' @ join_with '' '' ws"] w(1) Cons.IH Cons.prems
      by (simp add: words_from_space flush_word_def del: words_from.simps)
  qed
qed (simp add: flush_word_def)

lemma lines_join:
  assumes "\<And>l. l \<in> set ls \<Longrightarrow> CHR 0x0A \<notin> set l \<and> strip_cr l = l"
  shows "lines (concat (map (\<lambda>l. l @ [CHR 0x0A]) ls)) = ls"
proof -
  have "split_on (CHR 0x0A) (concat (map (\<lambda>l. l @ [CHR 0x0A]) ls)) = ls @ [[]]"
    using assms by (induction ls) (auto simp: split_on_append)
  moreover have "map strip_cr ls = ls" using assms by (intro map_idI) auto
  ultimately show ?thesis by (simp add: lines_def Let_def)
qed

end
