(* ===== verification/Exif.thy ===== *)
theory Exif
  imports Texts Domain "HOL-Library.Signed_Division"
begin

text \<open>
  The dates of photos, \<open>handshaker-core/src/exif_parser.rs\<close>: the fields that the parser takes from
  \<open>kamadak-exif\<close>, and the conversion of an EXIF date to Unix seconds. Division of \<open>i64\<close> truncates
  (\<open>sdiv\<close>); sums and products are exact up to the final conversion to \<open>u64\<close>, which reduces them modulo
  \<open>2^64\<close> as the wrapping arithmetic before it does.
\<close>

section \<open>Civil dates\<close>

definition days_from_civil :: "int \<Rightarrow> int \<Rightarrow> int \<Rightarrow> int" where
  "days_from_civil year0 month0 day =
     (let year = (if month0 \<le> 2 then year0 - 1 else year0);
          era = (if year \<ge> 0 then year else year - 399) sdiv 400;
          year_of_era = year - era * 400;
          month = month0 + (if month0 > 2 then -3 else 9);
          day_of_year = (153 * month + 2) sdiv 5 + day - 1;
          day_of_era = year_of_era * 365 + year_of_era sdiv 4 - year_of_era sdiv 100 + day_of_year
      in era * 146097 + day_of_era - 719468)"

definition exif_datetime_to_unix :: "string \<Rightarrow> nat option" where
  "exif_datetime_to_unix text =
     (let parts = split_when (\<lambda>c. c = CHR '':'' \<or> c = CHR '' '') text in
      if length parts < 6 then None
      else case (parse_i64 (parts ! 0), parse_i64 (parts ! 1), parse_i64 (parts ! 2),
                 parse_i64 (parts ! 3), parse_i64 (parts ! 4), parse_i64 (parts ! 5)) of
             (Some year, Some month, Some day, Some hour, Some minute, Some second) \<Rightarrow>
               if year < 1970 \<or> \<not> (1 \<le> month \<and> month \<le> 12) \<or> \<not> (1 \<le> day \<and> day \<le> 31) then None
               else Some (nat ((days_from_civil year month day * 86400 + hour * 3600 + minute * 60 + second) mod 2 ^ 64))
           | _ \<Rightarrow> None)"

section \<open>Fields\<close>

text \<open>A value of \<open>kamadak-exif\<close>; rationals are kept as the \<open>f64\<close> they convert to, other values as what
  \<open>display_value\<close> prints. What the library does is a parameter: the reader, \<open>display_value\<close>, the decoding
  of UTF-8 with replacement, and the sum of degrees, minutes and seconds printed with six decimals.\<close>

datatype exif_tag = Orientation | Make | Model | Software | LensModel | FocalLength | ExposureTime | FNumber
  | PhotographicSensitivity | DateTimeOriginal | GPSLatitude | GPSLatitudeRef | GPSLongitude | GPSLongitudeRef

datatype exif_value = ShortValue "nat list" | RationalValue "f64 list" | AsciiValue "bytes list" | OtherValue string

record exif_library =
  el_read :: "bytes \<Rightarrow> (exif_tag \<rightharpoonup> exif_value) option"
  el_display :: "exif_value \<Rightarrow> string"
  el_lossy :: "bytes \<Rightarrow> string"
  el_degrees :: "bool \<Rightarrow> f64 \<Rightarrow> f64 \<Rightarrow> f64 \<Rightarrow> string"

record ExifData =
  ex_orientation :: "nat option"
  ex_date_taken :: "nat option"
  ex_latitude :: "string option"
  ex_longitude :: "string option"
  ex_make :: "string option"
  ex_model :: "string option"
  ex_software :: "string option"
  ex_lens_model :: "string option"
  ex_focal_length :: "f64 option"
  ex_exposure_time :: "f64 option"
  ex_f_number :: "f64 option"
  ex_iso :: "nat option"

definition EXIF_FETCH_LIMIT :: nat where
  "EXIF_FETCH_LIMIT = 32 * 1024 * 1024"

fun short_value :: "exif_value \<Rightarrow> nat option" where
  "short_value (ShortValue (v # _)) = Some v"
| "short_value _ = None"

fun rational_value :: "exif_value option \<Rightarrow> f64 option" where
  "rational_value (Some (RationalValue (r # _))) = Some r"
| "rational_value _ = None"

fun display_string :: "exif_library \<Rightarrow> exif_value \<Rightarrow> string option" where
  "display_string lib (AsciiValue texts) =
     Some (trim (trim_end_char (CHR 0x00) (concat (map (el_lossy lib) texts))))"
| "display_string lib v = Some (el_display lib v)"

definition gps_coordinate :: "exif_library \<Rightarrow> (exif_tag \<rightharpoonup> exif_value) \<Rightarrow> exif_tag \<Rightarrow> exif_tag \<Rightarrow> string option" where
  "gps_coordinate lib exif value_tag ref_tag =
     (case exif value_tag of
        Some (RationalValue [degrees, minutes, seconds]) \<Rightarrow>
          (let reference = (case Option.bind (exif ref_tag) (display_string lib) of Some r \<Rightarrow> r | None \<Rightarrow> [])
           in Some (el_degrees lib (starts_with ''S'' reference \<or> starts_with ''W'' reference) degrees minutes seconds))
      | _ \<Rightarrow> None)"

definition exif_from_bytes :: "exif_library \<Rightarrow> bytes \<Rightarrow> ExifData core_result" where
  "exif_from_bytes lib bytes =
     (case el_read lib bytes of
        None \<Rightarrow> Inl (Protocol ''exif.parse_failed'')
      | Some exif \<Rightarrow>
          (let shown = (\<lambda>tag. Option.bind (exif tag) (display_string lib)) in
           Inr \<lparr>ex_orientation = Option.bind (exif Orientation) short_value,
                ex_date_taken = Option.bind (shown DateTimeOriginal) exif_datetime_to_unix,
                ex_latitude = gps_coordinate lib exif GPSLatitude GPSLatitudeRef,
                ex_longitude = gps_coordinate lib exif GPSLongitude GPSLongitudeRef,
                ex_make = shown Make, ex_model = shown Model, ex_software = shown Software,
                ex_lens_model = shown LensModel, ex_focal_length = rational_value (exif FocalLength),
                ex_exposure_time = rational_value (exif ExposureTime), ex_f_number = rational_value (exif FNumber),
                ex_iso = Option.bind (exif PhotographicSensitivity) short_value\<rparr>))"

section \<open>The calendar\<close>

text \<open>The Gregorian calendar, day after day.\<close>

definition leap :: "nat \<Rightarrow> bool" where
  "leap y \<longleftrightarrow> 4 dvd y \<and> (\<not> 100 dvd y \<or> 400 dvd y)"

definition month_length :: "nat \<Rightarrow> nat \<Rightarrow> nat" where
  "month_length y m = (if m = 2 then (if leap y then 29 else 28) else if m \<in> {4, 6, 9, 11} then 30 else 31)"

fun next_day :: "nat \<times> nat \<times> nat \<Rightarrow> nat \<times> nat \<times> nat" where
  "next_day (y, m, d) =
     (if d < month_length y m then (y, m, d + 1) else if m < 12 then (y, m + 1, 1) else (y + 1, 1, 1))"

definition date_after :: "nat \<Rightarrow> nat \<times> nat \<times> nat" where
  "date_after n = (next_day ^^ n) (1970, 1, 1)"

fun valid_date :: "nat \<times> nat \<times> nat \<Rightarrow> bool" where
  "valid_date (y, m, d) \<longleftrightarrow> 1970 \<le> y \<and> 1 \<le> m \<and> m \<le> 12 \<and> 1 \<le> d \<and> d \<le> month_length y m"

fun civil_day :: "nat \<times> nat \<times> nat \<Rightarrow> int" where
  "civil_day (y, m, d) = days_from_civil (int y) (int m) (int d)"

lemma sdiv_nonneg: "0 \<le> a \<Longrightarrow> 0 < b \<Longrightarrow> (a :: int) sdiv b = a div b"
  by (simp add: signed_divide_int_def sgn_if)

text \<open>The eras cancel out.\<close>

lemma days_from_civil_closed:
  assumes "1 \<le> y" "1 \<le> m" "m \<le> 12"
  shows "days_from_civil y m d =
    (let y' = (if m \<le> 2 then y - 1 else y); m' = m + (if m > 2 then -3 else 9)
     in 365 * y' + y' div 4 - y' div 100 + y' div 400 + (153 * m' + 2) div 5 + d - 719469)"
proof -
  define y' where "y' = (if m \<le> 2 then y - 1 else y)"
  have pos: "0 \<le> y'" "0 \<le> 153 * (m + (if m > 2 then -3 else 9)) + 2" "0 \<le> y' - y' div 400 * 400"
    using assms by (auto simp: y'_def)
  define e r where "e = y' div 400" and "r = y' mod 400"
  have y': "y' = 400 * e + r" "0 \<le> r" "r < 400" by (simp_all add: e_def r_def)
  have parts: "y' div 4 = 100 * e + r div 4" "y' div 100 = 4 * e + r div 100" "y' div 400 = e"
    using div_mult_self1[of 4 r "100 * e"] div_mult_self1[of 100 r "4 * e"] div_mult_self1[of 400 r e] y'(2,3)
    by (simp_all add: y'(1) algebra_simps)
  have "days_from_civil y m d = e * 146097 + ((y' - e * 400) * 365 + (y' - e * 400) div 4 - (y' - e * 400) div 100
      + ((153 * (m + (if m > 2 then -3 else 9)) + 2) div 5 + d - 1)) - 719468"
    using pos assms by (simp add: days_from_civil_def Let_def y'_def[symmetric] sdiv_nonneg e_def)
  also have "y' - e * 400 = r" using y'(1) by simp
  finally show ?thesis unfolding Let_def y'_def[symmetric] parts by (simp add: y'(1) algebra_simps)
qed

lemma div_step:
  fixes y k :: int assumes "0 < k"
  shows "y div k = (y - 1) div k + (if k dvd y then 1 else 0)"
proof -
  define q r where "q = (y - 1) div k" and "r = (y - 1) mod k"
  have y: "y = q * k + (r + 1)" "0 \<le> r" "r < k" using assms by (simp_all add: q_def r_def)
  show ?thesis
  proof (cases "r + 1 = k")
    case True
    then have "y = (q + 1) * k" using y(1) by (simp add: algebra_simps)
    then have "y div k = q + 1" "k dvd y" using assms by simp_all
    then show ?thesis by (simp only: q_def[symmetric] if_True)
  next
    case False
    then have "(r + 1) div k = 0" "(r + 1) mod k = r + 1" using y(2,3) by auto
    then have "y div k = q" "y mod k \<noteq> 0" using assms y(2) by (auto simp: y(1))
    then show ?thesis by (simp add: q_def[symmetric] dvd_eq_mod_eq_0)
  qed
qed

lemma month_cases:
  fixes m :: nat assumes "1 \<le> m" "m \<le> 12"
  obtains "m = 1" | "m = 2" | "m = 3" | "m = 4" | "m = 5" | "m = 6" | "m = 7" | "m = 8" | "m = 9" | "m = 10" | "m = 11" | "m = 12"
proof -
  have "m = 1 \<or> m = 2 \<or> m = 3 \<or> m = 4 \<or> m = 5 \<or> m = 6 \<or> m = 7 \<or> m = 8 \<or> m = 9 \<or> m = 10 \<or> m = 11 \<or> m = 12"
    using assms by presburger
  then show thesis using that by blast
qed

lemma leap_days:
  "c \<longrightarrow> b \<Longrightarrow> b \<longrightarrow> a \<Longrightarrow>
   (if a \<and> (\<not> b \<or> c) then 29 else 28 :: int) = 28 + (if a then 1 else 0) - (if b then 1 else 0) + (if c then 1 else 0)"
  by (cases a; cases b; cases c) simp_all

lemma civil_day_next:
  assumes "valid_date (y, m, d)"
  shows "civil_day (next_day (y, m, d)) = civil_day (y, m, d) + 1"
proof (cases "d < month_length y m")
  case True
  then show ?thesis using assms by (simp add: days_from_civil_closed Let_def)
next
  case False
  then have d: "d = month_length y m" using assms by simp
  have leap: "leap y \<longleftrightarrow> 4 dvd int y \<and> (\<not> 100 dvd int y \<or> 400 dvd int y)"
    using int_dvd_int_iff[of 4 y] int_dvd_int_iff[of 100 y] int_dvd_int_iff[of 400 y] by (simp add: leap_def)
  have imp: "400 dvd int y \<longrightarrow> 100 dvd int y" "100 dvd int y \<longrightarrow> 4 dvd int y"
    using dvd_trans[of 100 400 "int y"] dvd_trans[of 4 100 "int y"] by simp_all
  have steps: "int y div k = (int y - 1) div k + (if k dvd int y then 1 else 0)" if "0 < k" for k
    using that by (rule div_step)
  have m: "1 \<le> m" "m \<le> 12" "1 \<le> int y" using assms by simp_all
  show ?thesis
  proof (cases "m = 2")
    case True
    have "int d = (if leap y then 29 else 28)" using d True by (simp add: month_length_def)
    then have d': "int d = 28 + (if 4 dvd int y then 1 else 0) - (if 100 dvd int y then 1 else 0) + (if 400 dvd int y then 1 else 0)"
      unfolding leap using leap_days[OF imp] by (rule trans)
    have "civil_day (next_day (y, m, d)) = 365 * int y + int y div 4 - int y div 100 + int y div 400 + 1 - 719469"
      using False True m(3) by (simp add: days_from_civil_closed Let_def)
    moreover have "civil_day (y, m, d) =
        365 * (int y - 1) + (int y - 1) div 4 - (int y - 1) div 100 + (int y - 1) div 400 + 337 + int d - 719469"
      using True m(3) by (simp add: days_from_civil_closed Let_def)
    ultimately show ?thesis using d' steps[of 4] steps[of 100] steps[of 400] by simp
  next
    case False
    with m(1,2) show ?thesis
      by (cases rule: month_cases) (use m(3) in \<open>simp_all add: d days_from_civil_closed month_length_def Let_def\<close>)
  qed
qed

lemma next_day_valid: "valid_date p \<Longrightarrow> valid_date (next_day p)"
  by (cases p) (auto simp: month_length_def)

lemma date_after_valid: "valid_date (date_after n)"
  by (induction n) (simp_all add: date_after_def month_length_def next_day_valid del: next_day.simps)

lemma civil_day_after: "civil_day (date_after n) = int n"
proof (induction n)
  case 0
  then show ?case by (simp add: date_after_def days_from_civil_closed Let_def)
next
  case (Suc n)
  have "civil_day (next_day (date_after n)) = civil_day (date_after n) + 1"
    using date_after_valid[of n] by (cases "date_after n") (simp only: civil_day_next)
  then show ?case using Suc by (simp add: date_after_def)
qed

text \<open>Every date from 1970 on is met, and only once.\<close>

lemma date_after_next: "date_after n = p \<Longrightarrow> date_after (Suc n) = next_day p"
  by (simp add: date_after_def)

lemma month_length_pos: "1 \<le> month_length y m"
  by (simp add: month_length_def)

lemma date_after_day:
  "1 \<le> d \<Longrightarrow> d \<le> month_length y m \<Longrightarrow> \<exists>n. date_after n = (y, m, 1) \<Longrightarrow> \<exists>n. date_after n = (y, m, d)"
proof (induction d rule: dec_induct)
  case (step d)
  then obtain n where "date_after n = (y, m, d)" by auto
  then show ?case using date_after_next[of n "(y, m, d)"] step.prems(1) by (intro exI[of _ "Suc n"]) simp
qed simp

lemma date_after_month:
  "1 \<le> m \<Longrightarrow> m \<le> 12 \<Longrightarrow> \<exists>n. date_after n = (y, 1, 1) \<Longrightarrow> \<exists>n. date_after n = (y, m, 1)"
proof (induction m rule: dec_induct)
  case (step m)
  then obtain n where "date_after n = (y, m, month_length y m)"
    using date_after_day[OF month_length_pos order_refl] by auto
  then show ?case using date_after_next[of n "(y, m, month_length y m)"] step.prems(1) by (intro exI[of _ "Suc n"]) simp
qed simp

lemma date_after_year: "1970 \<le> y \<Longrightarrow> \<exists>n. date_after n = (y, 1, 1)"
proof (induction y rule: dec_induct)
  case base
  then show ?case by (intro exI[of _ 0]) (simp add: date_after_def)
next
  case (step y)
  then obtain n where "date_after n = (y, 12, month_length y 12)"
    using date_after_day[OF month_length_pos order_refl, of y 12] date_after_month[of 12 y] by auto
  then show ?case using date_after_next[of n "(y, 12, month_length y 12)"] by (intro exI[of _ "Suc n"]) simp
qed

lemma valid_date_after: "valid_date (y, m, d) \<Longrightarrow> date_after (nat (civil_day (y, m, d))) = (y, m, d)"
proof -
  assume v: "valid_date (y, m, d)"
  then obtain n where n: "date_after n = (y, m, d)"
    using date_after_day[of d y m] date_after_month[of m y] date_after_year[of y] by auto
  then have "civil_day (y, m, d) = int n" using civil_day_after[of n] by simp
  then show ?thesis using n by simp
qed

section \<open>Dates in text\<close>

text \<open>A date as EXIF writes it, \<open>YYYY:MM:DD HH:MM:SS\<close>.\<close>

definition pad2 :: "nat \<Rightarrow> string" where
  "pad2 n = (if n < 10 then CHR ''0'' # show_nat n else show_nat n)"

definition exif_text :: "nat \<Rightarrow> nat \<Rightarrow> nat \<Rightarrow> nat \<Rightarrow> nat \<Rightarrow> nat \<Rightarrow> string" where
  "exif_text y m d h mi s =
     show_nat y @ '':'' @ pad2 m @ '':'' @ pad2 d @ '' '' @ pad2 h @ '':'' @ pad2 mi @ '':'' @ pad2 s"

lemma pad2_chars: "c \<in> set (pad2 n) \<Longrightarrow> 48 \<le> (of_char c :: nat) \<and> (of_char c :: nat) \<le> 57"
  by (auto simp: pad2_def dest: show_nat_chars split: if_splits)

lemma pad2_value: "digits_value 0 (pad2 n) = Some n" "pad2 n \<noteq> []"
  by (simp_all add: pad2_def digits_value_show digit_value_def)

lemma digits_plain:
  assumes "\<And>c. c \<in> set s \<Longrightarrow> 48 \<le> (of_char c :: nat) \<and> (of_char c :: nat) \<le> 57"
  shows "\<forall>c \<in> set s. \<not> (c = CHR '':'' \<or> c = CHR '' '')"
  using assms by force

lemma parse_i64_digits:
  assumes "digits_value 0 s = Some n" "s \<noteq> []" "n < 2 ^ 63" "\<And>c. c \<in> set s \<Longrightarrow> 48 \<le> (of_char c :: nat)"
  shows "parse_i64 s = Some (int n)"
  using parse_unsigned_digits[of s n "2 ^ 63 - 1"] assms digits_no_sign[OF assms(4)] by (simp add: parse_i64_def)

lemma parse_pad2: "n < 100 \<Longrightarrow> parse_i64 (pad2 n) = Some (int n)"
  by (rule parse_i64_digits) (auto simp: pad2_value dest: pad2_chars)

lemma parse_show: "n < 2 ^ 63 \<Longrightarrow> parse_i64 (show_nat n) = Some (int n)"
  by (rule parse_i64_digits) (auto simp: digits_value_show dest: show_nat_chars)

lemma split_exif_text:
  "split_when (\<lambda>c. c = CHR '':'' \<or> c = CHR '' '') (exif_text y m d h mi s) = [show_nat y, pad2 m, pad2 d, pad2 h, pad2 mi, pad2 s]"
  using digits_plain[of "show_nat y", OF show_nat_chars] digits_plain[of "pad2 m", OF pad2_chars] digits_plain[of "pad2 d", OF pad2_chars]
    digits_plain[of "pad2 h", OF pad2_chars] digits_plain[of "pad2 mi", OF pad2_chars] digits_plain[of "pad2 s", OF pad2_chars]
  by (simp add: exif_text_def split_when_append)

text \<open>C33 The date of a photo: \<open>days_from_civil\<close> gives the \<open>n\<close>-th day after 1 January 1970 of the
  Gregorian calendar the number \<open>n\<close>, every date from then on is such a day, and the text of a valid
  date and time converts to the seconds since then.\<close>

theorem exif_dates_exact:
  "(case date_after n of (y, m, d) \<Rightarrow> days_from_civil (int y) (int m) (int d) = int n) \<and>
   (valid_date (y, m, d) \<and> y < 10000 \<and> h < 24 \<and> mi < 60 \<and> s < 60 \<longrightarrow>
      (\<exists>k. date_after k = (y, m, d) \<and>
           exif_datetime_to_unix (exif_text y m d h mi s) = Some (k * 86400 + h * 3600 + mi * 60 + s)))"
proof (intro conjI impI)
  show "case date_after n of (y, m, d) \<Rightarrow> days_from_civil (int y) (int m) (int d) = int n"
    using civil_day_after[of n] by (cases "date_after n") simp
  assume v: "valid_date (y, m, d) \<and> y < 10000 \<and> h < 24 \<and> mi < 60 \<and> s < 60"
  then obtain k where k: "date_after k = (y, m, d)" using valid_date_after by blast
  then have day: "days_from_civil (int y) (int m) (int d) = int k" using civil_day_after[of k] by simp
  have "d \<le> 31" using v by (auto simp: month_length_def split: if_splits)
  then have parsed: "parse_i64 (show_nat y) = Some (int y)" "parse_i64 (pad2 m) = Some (int m)" "parse_i64 (pad2 d) = Some (int d)"
    "parse_i64 (pad2 h) = Some (int h)" "parse_i64 (pad2 mi) = Some (int mi)" "parse_i64 (pad2 s) = Some (int s)"
    using v by (auto intro!: parse_pad2 parse_show)
  have "int k \<le> 366 * 10000"
    using v day by (auto simp: days_from_civil_closed Let_def month_length_def split: if_splits)
  then have "(int k * 86400 + int h * 3600 + int mi * 60 + int s) mod 2 ^ 64 = int (k * 86400 + h * 3600 + mi * 60 + s)"
    using v by (subst mod_pos_pos_trivial) auto
  then have "exif_datetime_to_unix (exif_text y m d h mi s) = Some (k * 86400 + h * 3600 + mi * 60 + s)"
    using v \<open>d \<le> 31\<close> by (simp add: exif_datetime_to_unix_def split_exif_text Let_def parsed day nat_int del: of_nat_add of_nat_mult)
  then show "\<exists>k. date_after k = (y, m, d) \<and> exif_datetime_to_unix (exif_text y m d h mi s) = Some (k * 86400 + h * 3600 + mi * 60 + s)"
    using k by blast
qed

theorem exif_dates_exact_witness:
  "valid_date (2023, 6, 3) \<and>
   (\<exists>k. date_after k = (2023, 6, 3) \<and> exif_datetime_to_unix ''2023:06:03 01:53:20'' = Some (k * 86400 + 1 * 3600 + 53 * 60 + 20))"
proof -
  have "exif_text 2023 6 3 1 53 20 = ''2023:06:03 01:53:20''" by code_simp
  then show ?thesis using exif_dates_exact[of 0 2023 6 3 1 53 20] by (simp add: month_length_def)
qed

text \<open>Fields that no date has are not refused: a day that its month does not have counts into the
  next month, and a negative time of day wraps around.\<close>

lemma impossible_dates_accepted:
  "exif_datetime_to_unix ''2023:02:31 00:00:00'' = exif_datetime_to_unix ''2023:03:03 00:00:00''"
  "exif_datetime_to_unix ''1970:01:01 00:00:-1'' = Some 18446744073709551615"
  by (simp_all add: exif_datetime_to_unix_def parse_i64_def parse_unsigned_def digit_value_def starts_with_def
      days_from_civil_closed Let_def)

end
