(* ===== verification/Usb.thy ===== *)
theory Usb
  imports Texts Errors Machines "HOL-Library.Sublist"
begin

text \<open>
  The USB transport, \<open>handshaker-core/src/transport/usb.rs\<close>: which devices are offered, how one is
  chosen, switched to accessory mode and opened, and the byte stream over its bulk endpoints. What
  libusb reports and answers is an argument. The stream is a reader thread and a polled receiver
  around a bounded channel; \<open>usb_step\<close> interleaves them.
\<close>

section \<open>Devices\<close>

datatype AccessoryMode = AccessoryMode | PlainMode

record UsbAccessory =
  us_location :: string
  us_bus_number :: nat
  us_serial :: "string option"
  us_vendor_id :: nat
  us_product_id :: nat
  us_mode :: AccessoryMode

text \<open>What libusb says of a device: bus, ports, vendor and product unless the descriptor cannot be
  read, and the serial number unless the device cannot be opened or has none.\<close>

record usb_device =
  ud_bus :: nat
  ud_ports :: "nat list option"
  ud_ids :: "(nat \<times> nat) option"
  ud_serial :: "string option"

definition ACCESSORY_VID :: nat where "ACCESSORY_VID = 0x18d1"

definition ACCESSORY_PIDS :: "nat list" where "ACCESSORY_PIDS = [0x2d00, 0x2d01, 0x2d02, 0x2d03]"

definition SMARTISAN_VID :: nat where "SMARTISAN_VID = 0x29a9"

definition usb_location :: "usb_device \<Rightarrow> string" where
  "usb_location d = show_nat (ud_bus d) @ ''-'' @
     join_with ''-'' (map show_nat (case ud_ports d of Some ports \<Rightarrow> ports | None \<Rightarrow> []))"

definition in_accessory_mode :: "nat \<times> nat \<Rightarrow> bool" where
  "in_accessory_mode ids \<longleftrightarrow> fst ids = ACCESSORY_VID \<and> snd ids \<in> set ACCESSORY_PIDS"

definition to_accessory :: "usb_device \<Rightarrow> UsbAccessory option" where
  "to_accessory d =
     (case ud_ids d of
        None \<Rightarrow> None
      | Some ids \<Rightarrow>
          if \<not> (in_accessory_mode ids \<or> fst ids = SMARTISAN_VID) then None
          else Some \<lparr>us_location = usb_location d, us_bus_number = ud_bus d,
                     us_serial = (case ud_serial d of Some [] \<Rightarrow> None | serial \<Rightarrow> serial),
                     us_vendor_id = fst ids, us_product_id = snd ids,
                     us_mode = (if fst ids = ACCESSORY_VID then AccessoryMode else PlainMode)\<rparr>)"

definition list_accessories :: "usb_device list option \<Rightarrow> UsbAccessory list core_result" where
  "list_accessories devices =
     (case devices of
        None \<Rightarrow> Inl (LocalIo ''usb.enumerate_failed'')
      | Some ds \<Rightarrow> Inr (List.map_filter to_accessory ds))"

definition find_device :: "usb_device list option \<Rightarrow> string \<Rightarrow> usb_device core_result" where
  "find_device devices location =
     (case devices of
        None \<Rightarrow> Inl (LocalIo ''usb.enumerate_failed'')
      | Some ds \<Rightarrow>
          (case find (\<lambda>d. usb_location d = location) ds of
             None \<Rightarrow> Inl (LocalIo ''usb.device_not_found'')
           | Some d \<Rightarrow> Inr d))"

text \<open>\<open>wait_for_accessory\<close> looks at the devices again and again; \<open>looks\<close> are the listings it gets before
  its deadline.\<close>

fun wait_for_accessory :: "string \<Rightarrow> usb_device list option list \<Rightarrow> usb_device core_result" where
  "wait_for_accessory location [] = Inl (LocalIo ''usb.aoa_switch_failed'')"
| "wait_for_accessory location (look # looks) =
     (case Option.bind look (find (\<lambda>d. (case ud_ids d of Some ids \<Rightarrow> in_accessory_mode ids | None \<Rightarrow> False) \<and> usb_location d = location)) of
        Some d \<Rightarrow> Inr d
      | None \<Rightarrow> wait_for_accessory location looks)"

section \<open>Endpoints\<close>

record usb_endpoint =
  ue_bulk :: bool
  ue_in :: bool
  ue_address :: nat

record usb_alt =
  ua_class :: nat
  ua_sub_class :: nat
  ua_endpoints :: "usb_endpoint list"

text \<open>The first bulk endpoint of each direction, and whether there is a second one for input.\<close>

fun scan_endpoints :: "usb_endpoint list \<Rightarrow> nat option \<times> nat option \<times> bool \<Rightarrow> nat option \<times> nat option \<times> bool" where
  "scan_endpoints [] st = st"
| "scan_endpoints (e # es) (bulk_in, bulk_out, extra_in) =
     scan_endpoints es
       (if \<not> ue_bulk e then (bulk_in, bulk_out, extra_in)
        else if ue_in e then (if bulk_in \<noteq> None then (bulk_in, bulk_out, True) else (Some (ue_address e), bulk_out, extra_in))
        else (bulk_in, if bulk_out = None then Some (ue_address e) else bulk_out, extra_in))"

fun search_endpoints :: "(nat \<times> usb_alt) list \<Rightarrow> (nat \<times> nat \<times> nat) list \<Rightarrow> (nat \<times> nat \<times> nat) core_result" where
  "search_endpoints [] candidates =
     (case candidates of c # _ \<Rightarrow> Inr c | [] \<Rightarrow> Inl (LocalIo ''usb.no_bulk_endpoints''))"
| "search_endpoints ((number, alt) # alts) candidates =
     (if ua_class alt \<noteq> 0xff \<or> ua_sub_class alt \<noteq> 0xff then search_endpoints alts candidates
      else case scan_endpoints (ua_endpoints alt) (None, None, False) of
             (Some bulk_in, Some bulk_out, extra_in) \<Rightarrow>
               if \<not> extra_in then Inr (number, bulk_in, bulk_out)
               else search_endpoints alts (candidates @ [(number, bulk_in, bulk_out)])
           | _ \<Rightarrow> search_endpoints alts candidates)"

text \<open>The interfaces of the active configuration, each with its alternate settings.\<close>

definition accessory_endpoints :: "(nat \<times> usb_alt list) list option \<Rightarrow> (nat \<times> nat \<times> nat) core_result" where
  "accessory_endpoints config =
     (case config of
        None \<Rightarrow> Inl (LocalIo ''usb.config_failed'')
      | Some interfaces \<Rightarrow> search_endpoints (concat (map (\<lambda>(number, alts). map (Pair number) alts) interfaces)) [])"

section \<open>Connecting\<close>

datatype control_transfer = GetProtocol | SendString nat string | StartAccessory

definition identification :: "string \<Rightarrow> control_transfer list" where
  "identification host_uuid =
     [SendString 0 ''Smartisan'', SendString 1 ''HandShaker'', SendString 2 ''HandShaker'', SendString 3 ''1.0'',
      SendString 4 host_uuid, StartAccessory]"

fun transfer_failure :: "control_transfer \<Rightarrow> string" where
  "transfer_failure StartAccessory = ''usb.aoa_start_failed''"
| "transfer_failure _ = ''usb.aoa_string_failed''"

text \<open>The transfers up to the first that fails; \<open>accepts\<close> is what the device does.\<close>

fun send_all :: "(control_transfer \<Rightarrow> bool) \<Rightarrow> control_transfer list \<Rightarrow> unit core_result \<times> control_transfer list" where
  "send_all accepts [] = (Inr (), [])"
| "send_all accepts (t # ts) =
     (if accepts t then (case send_all accepts ts of (r, sent) \<Rightarrow> (r, t # sent))
      else (Inl (LocalIo (transfer_failure t)), [t]))"

definition send_accessory_identification ::
  "(control_transfer \<Rightarrow> bool) \<Rightarrow> string \<Rightarrow> unit core_result \<times> control_transfer list" where
  "send_accessory_identification accepts host_uuid =
     (case send_all accepts (identification host_uuid) of (r, sent) \<Rightarrow> (r, GetProtocol # sent))"

text \<open>What happens while connecting: three listings, whether the device opens before and after the
  switch, how it takes control transfers, its configuration, and whether the interface is free.\<close>

record usb_env =
  ev_listed :: "usb_device list option"
  ev_found :: "usb_device list option"
  ev_looks :: "usb_device list option list"
  ev_plain_opens :: bool
  ev_accepts :: "control_transfer \<Rightarrow> bool"
  ev_opens :: "usb_device \<Rightarrow> bool"
  ev_config :: "usb_device \<Rightarrow> (nat \<times> usb_alt list) list option"
  ev_claims :: "usb_device \<Rightarrow> nat \<Rightarrow> bool"

definition select_accessory :: "string option \<Rightarrow> UsbAccessory list \<Rightarrow> UsbAccessory core_result" where
  "select_accessory location accessories =
     (case location of
        Some l \<Rightarrow>
          (case find (\<lambda>a. us_location a = l) accessories of
             Some a \<Rightarrow> Inr a
           | None \<Rightarrow> Inl (LocalIo ''usb.device_not_found''))
      | None \<Rightarrow>
          (case accessories of
             [a] \<Rightarrow> Inr a
           | _ \<Rightarrow> Inl (LocalIo ''usb.ambiguous_devices'')))"

text \<open>The device in accessory mode at the chosen place.\<close>

definition reach_accessory :: "usb_env \<Rightarrow> string \<Rightarrow> UsbAccessory \<Rightarrow> usb_device core_result \<times> control_transfer list" where
  "reach_accessory env host_uuid selected =
     (case find_device (ev_found env) (us_location selected) of
        Inl e \<Rightarrow> (Inl e, [])
      | Inr d \<Rightarrow>
          if us_mode selected \<noteq> PlainMode then (Inr d, [])
          else if \<not> ev_plain_opens env then (Inl (LocalIo ''usb.open_failed''), [])
          else (case send_accessory_identification (ev_accepts env) host_uuid of
                  (Inl e, sent) \<Rightarrow> (Inl e, sent)
                | (Inr _, sent) \<Rightarrow> (wait_for_accessory (us_location selected) (ev_looks env), sent)))"

definition usb_connect ::
  "usb_env \<Rightarrow> string option \<Rightarrow> string \<Rightarrow> (string \<times> usb_device \<times> nat \<times> nat \<times> nat) core_result \<times> control_transfer list" where
  "usb_connect env location host_uuid =
     (case and_then (list_accessories (ev_listed env)) (select_accessory location) of
        Inl e \<Rightarrow> (Inl e, [])
      | Inr selected \<Rightarrow>
          (case reach_accessory env host_uuid selected of
             (Inl e, sent) \<Rightarrow> (Inl e, sent)
           | (Inr d, sent) \<Rightarrow>
               (if \<not> ev_opens env d then (Inl (LocalIo ''usb.open_failed''), sent)
                else case accessory_endpoints (ev_config env d) of
                       Inl e \<Rightarrow> (Inl e, sent)
                     | Inr (interface, bulk_in, bulk_out) \<Rightarrow>
                         if \<not> ev_claims env d interface then (Inl (LocalIo ''usb.claim_failed''), sent)
                         else (Inr (case us_serial selected of Some serial \<Rightarrow> serial | None \<Rightarrow> us_location selected,
                                    d, interface, bulk_in, bulk_out), sent))))"

section \<open>The stream\<close>

datatype usb_error = NoDevice | NotFoundDevice | Busy | Pipe | OtherUsb

fun usb_error_key :: "usb_error \<Rightarrow> core_error" where
  "usb_error_key NoDevice = Transport ''usb.device_gone''"
| "usb_error_key NotFoundDevice = Transport ''usb.device_gone''"
| "usb_error_key Busy = Transport ''usb.busy''"
| "usb_error_key Pipe = Transport ''usb.pipe_error''"
| "usb_error_key OtherUsb = Transport ''usb.transfer_failed''"

datatype bulk_read = BulkData bytes | BulkTimeout | BulkFailed usb_error

definition CHANNEL_CAPACITY :: nat where "CHANNEL_CAPACITY = 128"

record UsbStream =
  st_channel :: "(core_error + bytes) list"
  st_reading :: bool
  st_open :: bool
  st_pending :: bytes

definition usb_stream_new :: UsbStream where
  "usb_stream_new = \<lparr>st_channel = [], st_reading = True, st_open = True, st_pending = []\<rparr>"

datatype send_outcome = Sent UsbStream | Full | ChannelClosed

definition try_send :: "core_error + bytes \<Rightarrow> UsbStream \<Rightarrow> send_outcome" where
  "try_send item s =
     (if \<not> st_open s then ChannelClosed
      else if length (st_channel s) \<ge> CHANNEL_CAPACITY then Full
      else Sent (s\<lparr>st_channel := st_channel s @ [item]\<rparr>))"

definition send_last :: "core_error + bytes \<Rightarrow> UsbStream \<Rightarrow> UsbStream" where
  "send_last item s = (case try_send item s of Sent s' \<Rightarrow> s' | _ \<Rightarrow> s)\<lparr>st_reading := False\<rparr>"

text \<open>One turn of the reader thread.\<close>

fun reader_turn :: "bulk_read \<Rightarrow> UsbStream \<Rightarrow> UsbStream" where
  "reader_turn (BulkData []) s = send_last (Inr []) s"
| "reader_turn (BulkData (b # bs)) s =
     (case try_send (Inr (b # bs)) s of
        Sent s' \<Rightarrow> s'
      | Full \<Rightarrow> s
      | ChannelClosed \<Rightarrow> s\<lparr>st_reading := False\<rparr>)"
| "reader_turn BulkTimeout s = (if st_open s then s else s\<lparr>st_reading := False\<rparr>)"
| "reader_turn (BulkFailed e) s = send_last (Inl (usb_error_key e)) s"

text \<open>\<open>fill_buffer\<close>: what goes into a buffer with room for \<open>remaining\<close> bytes, and what stays pending.\<close>

definition fill_buffer :: "nat \<Rightarrow> bytes \<Rightarrow> bytes \<Rightarrow> bytes \<times> bytes" where
  "fill_buffer remaining pending incoming =
     (if pending \<noteq> [] then (take remaining pending, drop remaining pending)
      else (take remaining incoming, drop remaining incoming))"

datatype read_poll = ReadPending | ReadReady bytes | ReadFailed core_error

definition poll_read :: "nat \<Rightarrow> UsbStream \<Rightarrow> read_poll \<times> UsbStream" where
  "poll_read remaining s =
     (if st_pending s \<noteq> [] then
        (case fill_buffer remaining (st_pending s) [] of (out, rest) \<Rightarrow> (ReadReady out, s\<lparr>st_pending := rest\<rparr>))
      else case st_channel s of
        Inr chunk # queue \<Rightarrow>
          (case fill_buffer remaining [] chunk of (out, rest) \<Rightarrow>
             (ReadReady out, s\<lparr>st_channel := queue, st_pending := rest\<rparr>))
      | Inl e # queue \<Rightarrow> (ReadFailed e, s\<lparr>st_channel := queue\<rparr>)
      | [] \<Rightarrow> (if st_reading s then ReadPending else ReadReady [], s))"

section \<open>Reader and receiver\<close>

text \<open>The history of a stream: the chunks the device has sent, those that got into the channel,
  whether one was refused because it was full, the bytes that polls have returned, and whether a poll
  has reported the end.\<close>

record usb_machine =
  um_stream :: UsbStream
  um_received :: "bytes list"
  um_accepted :: "bytes list"
  um_refused :: bool
  um_delivered :: bytes
  um_ended :: bool

definition usb_machine_start :: usb_machine where
  "usb_machine_start = \<lparr>um_stream = usb_stream_new, um_received = [], um_accepted = [], um_refused = False,
     um_delivered = [], um_ended = False\<rparr>"

fun chunk_of :: "bulk_read \<Rightarrow> bytes list" where
  "chunk_of (BulkData (b # bs)) = [b # bs]"
| "chunk_of _ = []"

definition has_room :: "UsbStream \<Rightarrow> bool" where
  "has_room s \<longleftrightarrow> length (st_channel s) < CHANNEL_CAPACITY"

fun read_bytes :: "read_poll \<Rightarrow> bytes" where
  "read_bytes (ReadReady bs) = bs"
| "read_bytes _ = []"

inductive usb_step :: "usb_machine \<Rightarrow> usb_machine \<Rightarrow> bool" where
  reads: "st_reading (um_stream m) \<Longrightarrow>
    usb_step m (m\<lparr>um_stream := reader_turn r (um_stream m), um_received := um_received m @ chunk_of r,
      um_accepted := um_accepted m @ (if st_open (um_stream m) \<and> has_room (um_stream m) then chunk_of r else []),
      um_refused := (um_refused m \<or> chunk_of r \<noteq> [] \<and> st_open (um_stream m) \<and> \<not> has_room (um_stream m))\<rparr>)"
| polls: "st_open (um_stream m) \<Longrightarrow> poll_read n (um_stream m) = (out, s) \<Longrightarrow>
    usb_step m (m\<lparr>um_stream := s, um_delivered := um_delivered m @ read_bytes out,
      um_ended := (um_ended m \<or> 0 < n \<and> out = ReadReady [])\<rparr>)"
| drops: "usb_step m (m\<lparr>um_stream := (um_stream m)\<lparr>st_open := False\<rparr>\<rparr>)"

inductive_cases usb_stepE: "usb_step m m'"

fun item_bytes :: "core_error + bytes \<Rightarrow> bytes" where
  "item_bytes (Inr bs) = bs"
| "item_bytes (Inl _) = []"

text \<open>Only the last item of a channel can be an end or an error, and then the reader has stopped.\<close>

definition channel_ok :: "UsbStream \<Rightarrow> bool" where
  "channel_ok s \<longleftrightarrow> length (st_channel s) \<le> CHANNEL_CAPACITY \<and>
     (\<forall>x \<in> set (butlast (st_channel s)). item_bytes x \<noteq> []) \<and>
     (st_channel s \<noteq> [] \<and> item_bytes (last (st_channel s)) = [] \<longrightarrow> \<not> st_reading s)"

definition usb_inv :: "usb_machine \<Rightarrow> bool" where
  "usb_inv m \<longleftrightarrow> channel_ok (um_stream m) \<and>
     um_delivered m @ st_pending (um_stream m) @ concat (map item_bytes (st_channel (um_stream m))) = concat (um_accepted m) \<and>
     subseq (um_accepted m) (um_received m) \<and>
     (st_open (um_stream m) \<and> \<not> um_refused m \<longrightarrow> um_accepted m = um_received m) \<and>
     (um_ended m \<longrightarrow> \<not> st_reading (um_stream m) \<and> st_channel (um_stream m) = [] \<and> st_pending (um_stream m) = [])"

lemma try_send_cases:
  "try_send x s = (if \<not> st_open s then ChannelClosed else if \<not> has_room s then Full
     else Sent (s\<lparr>st_channel := st_channel s @ [x]\<rparr>))"
  by (simp add: try_send_def has_room_def)

lemma channel_ok_push:
  assumes "channel_ok s" "st_reading s" "has_room s"
  shows "item_bytes x \<noteq> [] \<Longrightarrow> channel_ok (s\<lparr>st_channel := st_channel s @ [x]\<rparr>)"
    and "channel_ok (s\<lparr>st_channel := st_channel s @ [x], st_reading := False\<rparr>)"
proof -
  have "item_bytes y \<noteq> []" if "y \<in> set (st_channel s)" for y
  proof (cases "st_channel s" rule: rev_cases)
    case (snoc ys z)
    then show ?thesis using assms that by (auto simp: channel_ok_def)
  qed (use that in simp)
  then show "item_bytes x \<noteq> [] \<Longrightarrow> channel_ok (s\<lparr>st_channel := st_channel s @ [x]\<rparr>)"
    "channel_ok (s\<lparr>st_channel := st_channel s @ [x], st_reading := False\<rparr>)"
    using assms(3) by (auto simp: channel_ok_def has_room_def)
qed

lemma channel_ok_stop: "channel_ok s \<Longrightarrow> channel_ok (s\<lparr>st_reading := False\<rparr>)"
  by (simp add: channel_ok_def)

lemma send_last_cases:
  "send_last x s = (if st_open s \<and> has_room s then s\<lparr>st_channel := st_channel s @ [x], st_reading := False\<rparr>
     else s\<lparr>st_reading := False\<rparr>)"
  by (simp add: send_last_def try_send_cases)

text \<open>A turn of the reader puts its chunk into the channel or leaves it out; ends add no bytes.\<close>

lemma reader_turn_ok:
  assumes "channel_ok s" "st_reading s"
  shows "channel_ok (reader_turn r s)" "st_open (reader_turn r s) = st_open s" "st_pending (reader_turn r s) = st_pending s"
    "concat (map item_bytes (st_channel (reader_turn r s))) =
       concat (map item_bytes (st_channel s)) @ concat (if st_open s \<and> has_room s then chunk_of r else [])"
  using assms channel_ok_push[OF assms] channel_ok_stop[OF assms(1)]
  by (cases r rule: chunk_of.cases; auto simp: send_last_cases try_send_cases)+

lemma poll_read_cases:
  assumes "channel_ok s" "poll_read n s = (out, s')"
  shows "channel_ok s'" "st_open s' = st_open s" "st_reading s' = st_reading s"
    "read_bytes out @ st_pending s' @ concat (map item_bytes (st_channel s')) =
       st_pending s @ concat (map item_bytes (st_channel s))"
    "0 < n \<and> out = ReadReady [] \<longrightarrow> \<not> st_reading s' \<and> st_channel s' = [] \<and> st_pending s' = []"
    "st_channel s = [] \<and> st_pending s = [] \<longrightarrow> st_channel s' = [] \<and> st_pending s' = []"
proof -
  have queue: "channel_ok (s\<lparr>st_channel := queue\<rparr>)" "channel_ok (s\<lparr>st_channel := queue, st_pending := rest\<rparr>)"
    "item_bytes x = [] \<longrightarrow> queue = [] \<and> \<not> st_reading s"
    if "st_channel s = x # queue" for x queue rest
    using assms(1) that by (cases "queue = []"; auto simp: channel_ok_def)+
  have pending: "channel_ok (s\<lparr>st_pending := rest\<rparr>)" for rest using assms(1) by (simp add: channel_ok_def)
  note split_facts = poll_read_def fill_buffer_def
  show "channel_ok s'" "st_open s' = st_open s" "st_reading s' = st_reading s"
    "read_bytes out @ st_pending s' @ concat (map item_bytes (st_channel s')) = st_pending s @ concat (map item_bytes (st_channel s))"
    "0 < n \<and> out = ReadReady [] \<longrightarrow> \<not> st_reading s' \<and> st_channel s' = [] \<and> st_pending s' = []"
    "st_channel s = [] \<and> st_pending s = [] \<longrightarrow> st_channel s' = [] \<and> st_pending s' = []"
    using assms queue pending by (auto simp: split_facts split: if_splits list.splits sum.splits)
qed

lemma usb_step_inv: "usb_inv m \<Longrightarrow> usb_step m m' \<Longrightarrow> usb_inv m'"
proof (erule usb_stepE)
  fix r assume inv: "usb_inv m" and read: "st_reading (um_stream m)"
    and m': "m' = m\<lparr>um_stream := reader_turn r (um_stream m), um_received := um_received m @ chunk_of r,
      um_accepted := um_accepted m @ (if st_open (um_stream m) \<and> has_room (um_stream m) then chunk_of r else []),
      um_refused := (um_refused m \<or> chunk_of r \<noteq> [] \<and> st_open (um_stream m) \<and> \<not> has_room (um_stream m))\<rparr>"
  have ok: "channel_ok (um_stream m)" using inv by (simp add: usb_inv_def)
  note turn = reader_turn_ok[OF ok read, of r]
  have sub: "subseq (um_accepted m @ (if c then chunk_of r else [])) (um_received m @ chunk_of r)" for c
    using inv by (auto simp: usb_inv_def list_emb_append_mono intro: subseq_order.order_trans[OF _ list_emb_prefix])
  show "usb_inv m'" using inv read turn sub unfolding m' by (auto simp: usb_inv_def)
next
  fix n out s assume inv: "usb_inv m" and poll: "poll_read n (um_stream m) = (out, s)"
    and m': "m' = m\<lparr>um_stream := s, um_delivered := um_delivered m @ read_bytes out, um_ended := (um_ended m \<or> 0 < n \<and> out = ReadReady [])\<rparr>"
  have ok: "channel_ok (um_stream m)" using inv by (simp add: usb_inv_def)
  note poll = poll_read_cases[OF ok poll]
  show "usb_inv m'" using inv poll unfolding m' by (auto simp: usb_inv_def)
next
  assume "usb_inv m" "m' = m\<lparr>um_stream := (um_stream m)\<lparr>st_open := False\<rparr>\<rparr>"
  then show "usb_inv m'" by (simp add: usb_inv_def channel_ok_def)
qed

interpretation usb_streams: preserved_invariant "(=) usb_machine_start" usb_step usb_inv
proof
  show "usb_inv m" if "usb_machine_start = m" for m
    using that by (auto simp: usb_inv_def usb_machine_start_def usb_stream_new_def channel_ok_def)
qed (rule usb_step_inv)

text \<open>C23 The USB stream is exact: whatever the order of reads, polls of any size and the end of the
  stream, what polls return is a prefix of the chunks that got into the channel, which hold at most
  128 items and are a subsequence of what the device sent; they are all of it as long as no read
  finds the channel full; and a poll reports the end only when nothing is left to deliver.\<close>

theorem usb_stream_exact:
  assumes "reach ((=) usb_machine_start) usb_step m"
  shows "prefix (um_delivered m) (concat (um_accepted m)) \<and> subseq (um_accepted m) (um_received m) \<and>
    length (st_channel (um_stream m)) \<le> CHANNEL_CAPACITY \<and>
    (st_open (um_stream m) \<and> \<not> um_refused m \<longrightarrow> um_accepted m = um_received m) \<and>
    (um_ended m \<longrightarrow> \<not> st_reading (um_stream m) \<and> um_delivered m = concat (um_accepted m))"
proof -
  have inv: "usb_inv m" using usb_streams.inv_reach[OF assms] .
  then have "prefix (um_delivered m) (concat (um_accepted m))" unfolding usb_inv_def prefix_def by metis
  then show ?thesis using inv by (auto simp: usb_inv_def channel_ok_def)
qed

definition sample_usb :: usb_machine where
  "sample_usb = \<lparr>um_stream = usb_stream_new\<lparr>st_reading := False\<rparr>, um_received = [[1, 2, 3]], um_accepted = [[1, 2, 3]],
     um_refused = False, um_delivered = [1, 2, 3], um_ended = True\<rparr>"

lemma sample_usb_reachable: "reach ((=) usb_machine_start) usb_step sample_usb"
proof -
  let ?s = "\<lambda>channel reading pending. \<lparr>st_channel = channel, st_reading = reading, st_open = True, st_pending = pending\<rparr>"
  define m1 where "m1 = usb_machine_start\<lparr>um_stream := ?s [Inr [1, 2, 3]] True [], um_received := [[1, 2, 3]], um_accepted := [[1, 2, 3]]\<rparr>"
  define m2 where "m2 = m1\<lparr>um_stream := ?s [Inr [1, 2, 3], Inr []] False []\<rparr>"
  define m3 where "m3 = m1\<lparr>um_stream := ?s [Inr []] False [3], um_delivered := [1, 2]\<rparr>"
  define m4 where "m4 = m1\<lparr>um_stream := ?s [Inr []] False [], um_delivered := [1, 2, 3]\<rparr>"
  note ms = m1_def m2_def m3_def m4_def sample_usb_def usb_machine_start_def usb_stream_new_def
  note eval = ms try_send_cases send_last_cases has_room_def CHANNEL_CAPACITY_def poll_read_def fill_buffer_def
  have s1: "usb_step usb_machine_start m1" using reads[of usb_machine_start "BulkData [1, 2, 3]"] by (simp add: eval)
  have s2: "usb_step m1 m2" using reads[of m1 "BulkData []"] by (simp add: eval)
  have s3: "usb_step m2 m3" using polls[of m2 2 "ReadReady [1, 2]" "um_stream m3"] by (simp add: eval)
  have s4: "usb_step m3 m4" using polls[of m3 2 "ReadReady [3]" "um_stream m4"] by (simp add: eval)
  have s5: "usb_step m4 sample_usb" using polls[of m4 2 "ReadReady []" "um_stream sample_usb"] by (simp add: eval)
  have "reach ((=) usb_machine_start) usb_step usb_machine_start" by (rule reach_start) simp
  from reach_step[OF reach_step[OF reach_step[OF reach_step[OF reach_step[OF this s1] s2] s3] s4] s5] show ?thesis .
qed

theorem usb_stream_exact_witness:
  "reach ((=) usb_machine_start) usb_step sample_usb \<and> um_ended sample_usb \<and> um_received sample_usb = [[1, 2, 3]] \<and>
   um_delivered sample_usb = concat (um_accepted sample_usb)"
  using usb_stream_exact[OF sample_usb_reachable] sample_usb_reachable by (simp add: sample_usb_def)

text \<open>The comment in the reader says that it retries when the channel is full. It does not: the chunk
  is dropped and the next one is read, so a slow receiver loses bytes from the middle of the stream.\<close>

lemma full_channel_loses_chunk:
  "st_open s \<Longrightarrow> \<not> has_room s \<Longrightarrow> reader_turn (BulkData (b # bs)) s = s"
  by (simp add: try_send_cases)

section \<open>Writing\<close>

text \<open>One write is in flight at a time: its bytes, then its result for the next poll. \<open>uw_device\<close> is
  what has reached the device.\<close>

datatype write_state = NoWrite | InFlight bytes | WriteDone "core_error + nat"

record UsbWriter =
  uw_pending :: write_state
  uw_device :: bytes

datatype write_poll = WritePending | WriteReady "core_error + nat"

text \<open>\<open>poll_write\<close>; \<open>early\<close> is the result of a write that is already over when it is first polled. The
  blocking task writes a number of bytes of its buffer.\<close>

definition complete_write :: "core_error + nat \<Rightarrow> nat \<Rightarrow> UsbWriter \<Rightarrow> UsbWriter" where
  "complete_write result reached w =
     (case uw_pending w of
        InFlight data \<Rightarrow> \<lparr>uw_pending = WriteDone result, uw_device = uw_device w @ take reached data\<rparr>
      | _ \<Rightarrow> w)"

definition start_write :: "bytes \<Rightarrow> UsbWriter \<Rightarrow> UsbWriter" where
  "start_write buffer w = (if uw_pending w = NoWrite then w\<lparr>uw_pending := InFlight buffer\<rparr> else w)"

definition finish_poll :: "UsbWriter \<Rightarrow> write_poll \<times> UsbWriter" where
  "finish_poll w =
     (case uw_pending w of
        WriteDone result \<Rightarrow> (WriteReady result, w\<lparr>uw_pending := NoWrite\<rparr>)
      | _ \<Rightarrow> (WritePending, w))"

definition poll_write :: "((core_error + nat) \<times> nat) option \<Rightarrow> bytes \<Rightarrow> UsbWriter \<Rightarrow> write_poll \<times> UsbWriter" where
  "poll_write early buffer w =
     (let w1 = start_write buffer w
      in finish_poll (case early of None \<Rightarrow> w1 | Some (result, reached) \<Rightarrow> complete_write result reached w1))"

definition poll_flush :: "UsbWriter \<Rightarrow> unit core_result option \<times> UsbWriter" where
  "poll_flush w =
     (if uw_pending w = NoWrite then (Some (Inr ()), w)
      else case finish_poll w of
             (WritePending, w1) \<Rightarrow> (None, w1)
           | (WriteReady (Inr _), w1) \<Rightarrow> (Some (Inr ()), w1)
           | (WriteReady (Inl e), w1) \<Rightarrow> (Some (Inl e), w1))"

text \<open>A caller that writes all of a buffer: it polls with what is left until a write is done. A
  write that succeeds has sent as many bytes as it reports.\<close>

inductive write_step :: "bytes \<times> UsbWriter \<Rightarrow> bytes \<times> UsbWriter \<Rightarrow> bool" where
  write_waits: "poll_write early rest w = (WritePending, w') \<Longrightarrow>
    (\<And>result reached. early = Some (result, reached) \<Longrightarrow> result = Inr reached \<and> reached \<le> length rest) \<Longrightarrow>
    write_step (rest, w) (rest, w')"
| write_advances: "poll_write early rest w = (WriteReady (Inr n), w') \<Longrightarrow>
    (\<And>result reached. early = Some (result, reached) \<Longrightarrow> result = Inr reached \<and> reached \<le> length rest) \<Longrightarrow>
    write_step (rest, w) (drop n rest, w')"
| write_completes: "uw_pending w = InFlight data \<Longrightarrow> n \<le> length data \<Longrightarrow>
    write_step (rest, w) (rest, complete_write (Inr n) n w)"

text \<open>What has reached the device and what is left make up what there was to write.\<close>

fun write_ok :: "bytes \<Rightarrow> bytes \<times> UsbWriter \<Rightarrow> bool" where
  "write_ok data (rest, w) \<longleftrightarrow>
     (case uw_pending w of
        NoWrite \<Rightarrow> uw_device w @ rest = data
      | InFlight buffer \<Rightarrow> buffer = rest \<and> uw_device w @ rest = data
      | WriteDone (Inr n) \<Rightarrow> n \<le> length rest \<and> uw_device w @ drop n rest = data
      | WriteDone (Inl _) \<Rightarrow> False)"

lemma write_step_ok: "write_step st st' \<Longrightarrow> write_ok data st \<Longrightarrow> write_ok data st'"
proof (induction rule: write_step.induct)
  case (write_waits early rest w w')
  then show ?case
    by (auto simp: poll_write_def finish_poll_def start_write_def complete_write_def Let_def
        split: write_state.splits option.splits sum.splits if_splits)
next
  case (write_advances early rest w n w')
  then show ?case
    by (auto simp: poll_write_def finish_poll_def start_write_def complete_write_def Let_def
        split: write_state.splits option.splits sum.splits if_splits)
next
  case (write_completes w buffer n rest)
  then show ?case by (auto simp: complete_write_def)
qed

lemma write_all_exact:
  assumes "write_step\<^sup>*\<^sup>* (data, \<lparr>uw_pending = NoWrite, uw_device = []\<rparr>) ([], w)" "uw_pending w = NoWrite"
  shows "uw_device w = data"
proof -
  have "write_ok data st" if "write_step\<^sup>*\<^sup>* (data, \<lparr>uw_pending = NoWrite, uw_device = []\<rparr>) st" for st
    using that by (induction rule: rtranclp_induct) (auto intro: write_step_ok)
  from this[OF assms(1)] show ?thesis using assms(2) by simp
qed

section \<open>Choosing endpoints and devices\<close>

lemma scan_endpoints_found:
  "scan_endpoints es st = (Some i, Some out, extra) \<Longrightarrow>
     (fst st = Some i \<or> (\<exists>e \<in> set es. ue_bulk e \<and> ue_in e \<and> ue_address e = i)) \<and>
     (fst (snd st) = Some out \<or> (\<exists>e \<in> set es. ue_bulk e \<and> \<not> ue_in e \<and> ue_address e = out))"
  by (induction es st rule: scan_endpoints.induct) (auto split: if_splits)

text \<open>The endpoints are bulk endpoints, one for each direction, of one vendor-specific setting of the
  interface that is claimed.\<close>

lemma search_endpoints_sound:
  "search_endpoints alts candidates = Inr c \<Longrightarrow>
   c \<in> set candidates \<or>
   (\<exists>number alt i out extra. (number, alt) \<in> set alts \<and> ua_class alt = 0xff \<and> ua_sub_class alt = 0xff \<and>
      scan_endpoints (ua_endpoints alt) (None, None, False) = (Some i, Some out, extra) \<and> c = (number, i, out))"
proof (induction alts candidates rule: search_endpoints.induct)
  case (2 n alt alts candidates)
  show ?case
  proof (cases "ua_class alt \<noteq> 0xff \<or> ua_sub_class alt \<noteq> 0xff")
    case True
    then show ?thesis using 2 by fastforce
  next
    case False
    obtain i out extra where scan: "scan_endpoints (ua_endpoints alt) (None, None, False) = (i, out, extra)"
      by (metis prod.exhaust)
    show ?thesis
    proof (cases "i = None \<or> out = None")
      case True
      then have "search_endpoints alts candidates = Inr c" using "2.prems" False scan by (auto split: option.splits)
      then show ?thesis using 2 False scan True by (fastforce split: option.splits)
    next
      case found: False
      then show ?thesis using 2 False scan by (cases extra) fastforce+
    qed
  qed
qed (auto split: list.splits)

lemma accessory_endpoints_sound:
  assumes "accessory_endpoints (Some interfaces) = Inr (number, i, out)"
  shows "\<exists>alts alt. (number, alts) \<in> set interfaces \<and> alt \<in> set alts \<and> ua_class alt = 0xff \<and> ua_sub_class alt = 0xff \<and>
    (\<exists>e \<in> set (ua_endpoints alt). ue_bulk e \<and> ue_in e \<and> ue_address e = i) \<and>
    (\<exists>e \<in> set (ua_endpoints alt). ue_bulk e \<and> \<not> ue_in e \<and> ue_address e = out)"
proof -
  obtain alts alt extra where alt: "(number, alts) \<in> set interfaces" "alt \<in> set alts"
    "ua_class alt = 0xff" "ua_sub_class alt = 0xff"
    "scan_endpoints (ua_endpoints alt) (None, None, False) = (Some i, Some out, extra)"
    using search_endpoints_sound[OF assms[unfolded accessory_endpoints_def option.case]] by auto
  then show ?thesis using scan_endpoints_found[OF alt(5)] by auto
qed

text \<open>The documentation calls for exactly one endpoint in each direction; a second output endpoint is
  not noticed.\<close>

lemma extra_output_accepted:
  "accessory_endpoints (Some [(0, [\<lparr>ua_class = 0xff, ua_sub_class = 0xff, ua_endpoints =
      [\<lparr>ue_bulk = True, ue_in = True, ue_address = 0x81\<rparr>, \<lparr>ue_bulk = True, ue_in = False, ue_address = 0x01\<rparr>,
       \<lparr>ue_bulk = True, ue_in = False, ue_address = 0x02\<rparr>]\<rparr>]),
     (1, [\<lparr>ua_class = 0xff, ua_sub_class = 0xff, ua_endpoints =
      [\<lparr>ue_bulk = True, ue_in = True, ue_address = 0x83\<rparr>, \<lparr>ue_bulk = True, ue_in = False, ue_address = 0x02\<rparr>]\<rparr>])])
   = Inr (0, 0x81, 0x01)"
  by (simp add: accessory_endpoints_def)

lemma find_sound: "find P xs = Some x \<Longrightarrow> x \<in> set xs \<and> P x"
  by (induction xs) (auto split: if_splits)

lemma wait_for_accessory_sound:
  "wait_for_accessory location looks = Inr d \<Longrightarrow>
     usb_location d = location \<and> (\<exists>ids. ud_ids d = Some ids \<and> in_accessory_mode ids)"
  by (induction location looks rule: wait_for_accessory.induct)
    (auto split: option.splits bind_splits dest!: find_sound)

text \<open>Connecting over USB: the device that is opened is at the location asked for, or there was
  only one device to choose; a device that has to be switched gets the whole identification and is in
  accessory mode afterwards, any other device gets no control transfer; and the stream runs over
  bulk endpoints of the interface that was claimed.\<close>

lemma usb_connect_safe:
  assumes "usb_connect env location host_uuid = (Inr (label, d, interface, bulk_in, bulk_out), sent)"
  shows "\<exists>devices accessories a. ev_listed env = Some devices \<and> accessories = List.map_filter to_accessory devices \<and>
    a \<in> set accessories \<and> (case location of Some l \<Rightarrow> us_location a = l | None \<Rightarrow> accessories = [a]) \<and>
    usb_location d = us_location a \<and>
    (if us_mode a = PlainMode
     then sent = GetProtocol # identification host_uuid \<and> list_all (ev_accepts env) (identification host_uuid) \<and>
          (\<exists>ids. ud_ids d = Some ids \<and> in_accessory_mode ids)
     else sent = []) \<and>
    ev_claims env d interface \<and> accessory_endpoints (ev_config env d) = Inr (interface, bulk_in, bulk_out)"
proof -
  have sent_all: "sent = ts \<and> list_all accepts ts" if "send_all accepts ts = (Inr u, sent)" for accepts ts u sent
    using that by (induction ts arbitrary: sent) (auto split: if_splits prod.splits)
  obtain a where a: "and_then (list_accessories (ev_listed env)) (select_accessory location) = Inr a"
    using assms by (auto simp: usb_connect_def split: sum.splits)
  then obtain devices where devices: "ev_listed env = Some devices"
    "select_accessory location (List.map_filter to_accessory devices) = Inr a"
    by (auto simp: list_accessories_def and_then_eq_Inr split: option.splits)
  then have chosen: "a \<in> set (List.map_filter to_accessory devices)"
    "case location of Some l \<Rightarrow> us_location a = l | None \<Rightarrow> List.map_filter to_accessory devices = [a]"
    by (auto simp: select_accessory_def split: option.splits list.splits dest!: find_sound)
  have reached: "reach_accessory env host_uuid a = (Inr d, sent)" "ev_claims env d interface"
    "accessory_endpoints (ev_config env d) = Inr (interface, bulk_in, bulk_out)"
    using assms a by (auto simp: usb_connect_def split: prod.splits sum.splits if_splits)
  have "usb_location d = us_location a \<and> (if us_mode a = PlainMode
     then sent = GetProtocol # identification host_uuid \<and> list_all (ev_accepts env) (identification host_uuid) \<and>
          (\<exists>ids. ud_ids d = Some ids \<and> in_accessory_mode ids) else sent = [])"
    using reached(1)
    by (auto simp: reach_accessory_def send_accessory_identification_def find_device_def
        split: sum.splits prod.splits if_splits option.splits dest!: find_sound wait_for_accessory_sound sent_all)
  then show ?thesis using devices(1) chosen reached by blast
qed


definition sample_phone :: "nat \<times> nat \<Rightarrow> usb_device" where
  "sample_phone ids = \<lparr>ud_bus = 1, ud_ports = Some [2], ud_ids = Some ids, ud_serial = None\<rparr>"

definition sample_usb_env :: usb_env where
  "sample_usb_env = \<lparr>ev_listed = Some [sample_phone (0x29a9, 0x7020)], ev_found = Some [sample_phone (0x29a9, 0x7020)],
     ev_looks = [Some [], Some [sample_phone (0x18d1, 0x2d01)]], ev_plain_opens = True, ev_accepts = (\<lambda>_. True),
     ev_opens = (\<lambda>_. True),
     ev_config = (\<lambda>_. Some [(1, [\<lparr>ua_class = 0xff, ua_sub_class = 0xff, ua_endpoints =
       [\<lparr>ue_bulk = True, ue_in = True, ue_address = 0x83\<rparr>, \<lparr>ue_bulk = True, ue_in = False, ue_address = 0x02\<rparr>]\<rparr>])]),
     ev_claims = (\<lambda>_ _. True)\<rparr>"

lemma sample_location: "usb_location (sample_phone ids) = ''1-2''"
  by (simp add: usb_location_def sample_phone_def) code_simp

lemmas usb_ids = in_accessory_mode_def ACCESSORY_VID_def ACCESSORY_PIDS_def SMARTISAN_VID_def

lemma sample_usb_connects:
  "usb_connect sample_usb_env None ''h'' =
     (Inr (''1-2'', sample_phone (0x18d1, 0x2d01), 1, 0x83, 0x02), GetProtocol # identification ''h'')"
proof -
  let ?a = "\<lparr>us_location = ''1-2'', us_bus_number = 1, us_serial = None, us_vendor_id = 0x29a9, us_product_id = 0x7020, us_mode = PlainMode\<rparr>"
  have ids: "ud_ids (sample_phone ids) = Some ids" for ids by (simp add: sample_phone_def)
  have "to_accessory (sample_phone (0x29a9, 0x7020)) = Some ?a"
    unfolding to_accessory_def sample_location ids by (simp add: usb_ids) (simp add: sample_phone_def)
  then have "and_then (list_accessories (ev_listed sample_usb_env)) (select_accessory None) = Inr ?a"
    by (simp add: sample_usb_env_def list_accessories_def map_filter_simps select_accessory_def)
  moreover have "reach_accessory sample_usb_env ''h'' ?a = (Inr (sample_phone (0x18d1, 0x2d01)), GetProtocol # identification ''h'')"
    by (simp add: reach_accessory_def find_device_def sample_usb_env_def sample_location ids usb_ids
        send_accessory_identification_def identification_def)
  ultimately show ?thesis
    by (simp add: usb_connect_def) (simp add: sample_usb_env_def accessory_endpoints_def)
qed

lemma usb_connect_safe_witness:
  "usb_connect sample_usb_env None ''h'' =
     (Inr (''1-2'', sample_phone (0x18d1, 0x2d01), 1, 0x83, 0x02), GetProtocol # identification ''h'') \<and>
   (\<exists>ids. ud_ids (sample_phone (0x18d1, 0x2d01)) = Some ids \<and> in_accessory_mode ids)"
proof -
  obtain a :: UsbAccessory where "if us_mode a = PlainMode
     then GetProtocol # identification ''h'' = GetProtocol # identification ''h'' \<and>
          list_all (ev_accepts sample_usb_env) (identification ''h'') \<and>
          (\<exists>ids. ud_ids (sample_phone (0x18d1, 0x2d01)) = Some ids \<and> in_accessory_mode ids)
     else GetProtocol # identification ''h'' = []"
    using usb_connect_safe[OF sample_usb_connects] by blast
  then show ?thesis using sample_usb_connects by (auto split: if_splits)
qed

end
