(* ===== verification/Adb.thy ===== *)
theory Adb
  imports Texts Domain Errors
begin

text \<open>
  The ADB transport, \<open>handshaker-core/src/transport/adb.rs\<close> and the cleanup of \<open>transport/mod.rs\<close>: what is
  read from the output of \<open>adb\<close>, which device is chosen, and the port forward that a connection makes
  and removes. \<open>adb\<close> itself is an argument, a function of the commands it has been given so far; the
  model keeps these commands with what \<open>run_adb\<close> made of them.
\<close>

section \<open>Running adb\<close>

datatype adb_process =
    NotSpawned | WaitFailed | WaitTimedOut | CollectTimedOut | StdoutFailed | StderrFailed
  | Exited bool string string

fun run_adb :: "adb_process \<Rightarrow> string core_result" where
  "run_adb NotSpawned = Inl (AdbUnavailable ''adb.spawn_failed'')"
| "run_adb WaitFailed = Inl (Transport ''adb.wait_failed'')"
| "run_adb WaitTimedOut = Inl (Timeout ''adb.command_timeout'')"
| "run_adb CollectTimedOut = Inl (Timeout ''adb.collect_timeout'')"
| "run_adb StdoutFailed = Inl (Transport ''adb.read_stdout_failed'')"
| "run_adb StderrFailed = Inl (Transport ''adb.read_stderr_failed'')"
| "run_adb (Exited success out err) =
     (if success then Inr out else Inl (Transport (if trim err = [] then trim out else trim err)))"

type_synonym adb_log = "(string list \<times> string core_result) list"

type_synonym adb = "adb_log \<Rightarrow> string list \<Rightarrow> adb_process"

definition adb_call :: "adb \<Rightarrow> string list \<Rightarrow> adb_log \<Rightarrow> string core_result \<times> adb_log" where
  "adb_call adb args log = (let r = run_adb (adb log args) in (r, log @ [(args, r)]))"

section \<open>Devices\<close>

fun device_fields :: "string list \<Rightarrow> AdbDevice \<Rightarrow> AdbDevice" where
  "device_fields [] d = d"
| "device_fields (part # parts) d =
     device_fields parts
       (case str_strip_prefix ''product:'' part of
          Some value \<Rightarrow> d\<lparr>ad_product := Some value\<rparr>
        | None \<Rightarrow>
            (case str_strip_prefix ''model:'' part of
               Some value \<Rightarrow> d\<lparr>ad_model := Some value\<rparr>
             | None \<Rightarrow>
                 (case str_strip_prefix ''device:'' part of
                    Some value \<Rightarrow> d\<lparr>ad_device := Some value\<rparr>
                  | None \<Rightarrow> d)))"

definition parse_device :: "string \<Rightarrow> AdbDevice option" where
  "parse_device line =
     (let line = trim line in
      if line = [] then None
      else case split_whitespace line of
             [] \<Rightarrow> None
           | serial # rest \<Rightarrow>
               Some (device_fields (tl rest)
                 \<lparr>ad_serial = serial, ad_state = (case rest of [] \<Rightarrow> ''unknown'' | state # _ \<Rightarrow> state),
                  ad_product = None, ad_model = None, ad_device = None\<rparr>))"

definition parse_devices :: "string \<Rightarrow> AdbDevice list" where
  "parse_devices output = List.map_filter parse_device (drop 1 (lines output))"

definition select_device :: "AdbDevice list \<Rightarrow> string option \<Rightarrow> AdbDevice core_result" where
  "select_device devices requested =
     (let online = filter (\<lambda>d. ad_state d = ''device'') devices in
      case requested of
        Some serial \<Rightarrow>
          (case find (\<lambda>d. ad_serial d = serial) online of
             Some d \<Rightarrow> Inr d
           | None \<Rightarrow> Inl (DeviceSelection ''adb.device_unavailable''))
      | None \<Rightarrow>
          (case online of
             [] \<Rightarrow> Inl (DeviceSelection ''adb.no_online_device'')
           | [d] \<Rightarrow> Inr d
           | _ \<Rightarrow> Inl (DeviceSelection ''adb.multiple_devices'')))"

section \<open>Forwards\<close>

definition PHONE_PORT :: nat where "PHONE_PORT = 10086"

definition SERVICE_COMPONENT :: string where
  "SERVICE_COMPONENT = ''com.smartisanos.smartfolder.aoa/.service.ConnectionManagerService''"

definition forward_port :: "string \<Rightarrow> string \<Rightarrow> nat option" where
  "forward_port serial line =
     (case split_whitespace line of
        listed_serial # local # remote # _ \<Rightarrow>
          if listed_serial \<noteq> serial \<or> remote \<noteq> ''tcp:'' @ show_nat PHONE_PORT then None
          else Option.bind (str_strip_prefix ''tcp:'' local) (parse_unsigned 65535)
      | _ \<Rightarrow> None)"

definition parse_forward_ports :: "string \<Rightarrow> string \<Rightarrow> nat set" where
  "parse_forward_ports output serial = set (List.map_filter (forward_port serial) (lines output))"

definition unique_added_forward :: "nat set \<Rightarrow> nat set \<Rightarrow> nat option core_result" where
  "unique_added_forward before after =
     (case sorted_list_of_set (after - before) of
        [] \<Rightarrow> Inr None
      | [port] \<Rightarrow> Inr (Some port)
      | _ \<Rightarrow> Inl (Transport ''adb.forward_cleanup_ambiguous''))"

definition devices_args :: "string list" where
  "devices_args = [''devices'', ''-l'']"

definition service_args :: "string \<Rightarrow> string list" where
  "service_args serial = [''-s'', serial, ''shell'', ''am'', ''startservice'', ''--user'', ''0'', ''-n'', SERVICE_COMPONENT,
     ''--ei'', ''ADB_PORT'', show_nat PHONE_PORT]"

definition list_args :: "string \<Rightarrow> string list" where
  "list_args serial = [''-s'', serial, ''forward'', ''--list'']"

definition forward_args :: "string \<Rightarrow> string list" where
  "forward_args serial = [''-s'', serial, ''forward'', ''tcp:0'', ''tcp:'' @ show_nat PHONE_PORT]"

definition remove_args :: "string \<Rightarrow> nat \<Rightarrow> string list" where
  "remove_args serial port = [''-s'', serial, ''forward'', ''--remove'', ''tcp:'' @ show_nat port]"

definition list_devices :: "adb \<Rightarrow> adb_log \<Rightarrow> AdbDevice list core_result \<times> adb_log" where
  "list_devices adb log = map_prod (map_sum id parse_devices) id (adb_call adb devices_args log)"

definition list_forward_ports :: "adb \<Rightarrow> string \<Rightarrow> adb_log \<Rightarrow> nat set core_result \<times> adb_log" where
  "list_forward_ports adb serial log =
     map_prod (map_sum id (\<lambda>output. parse_forward_ports output serial)) id (adb_call adb (list_args serial) log)"

definition cleanup_new_forwards :: "adb \<Rightarrow> string \<Rightarrow> nat set \<Rightarrow> adb_log \<Rightarrow> unit core_result \<times> adb_log" where
  "cleanup_new_forwards adb serial before log =
     (case list_forward_ports adb serial log of
        (Inl e, log1) \<Rightarrow> (Inl e, log1)
      | (Inr after, log1) \<Rightarrow>
          (case unique_added_forward before after of
             Inl e \<Rightarrow> (Inl e, log1)
           | Inr None \<Rightarrow> (Inr (), log1)
           | Inr (Some port) \<Rightarrow> map_prod (map_sum id (\<lambda>_. ())) id (adb_call adb (remove_args serial port) log1)))"

record AdbForward =
  af_serial :: string
  af_local_port :: nat
  af_cleaned :: bool

definition forward_cleanup :: "adb \<Rightarrow> AdbForward \<Rightarrow> adb_log \<Rightarrow> unit core_result \<times> AdbForward \<times> adb_log" where
  "forward_cleanup adb f log =
     (if af_cleaned f then (Inr (), f, log)
      else case adb_call adb (remove_args (af_serial f) (af_local_port f)) log of
             (Inl e, log1) \<Rightarrow> (Inl e, f, log1)
           | (Inr _, log1) \<Rightarrow> (Inr (), f\<lparr>af_cleaned := True\<rparr>, log1))"

text \<open>Dropping a forward that has not been removed tries once more and ignores the outcome.\<close>

definition forward_drop :: "adb \<Rightarrow> AdbForward \<Rightarrow> adb_log \<Rightarrow> adb_log" where
  "forward_drop adb f log =
     (if af_cleaned f then log else snd (adb_call adb (remove_args (af_serial f) (af_local_port f)) log))"

text \<open>\<open>TransportCleanup::cleanup\<close> takes the forward, so it is dropped at the end.\<close>

definition transport_cleanup :: "adb \<Rightarrow> AdbForward option \<Rightarrow> adb_log \<Rightarrow> unit core_result \<times> adb_log" where
  "transport_cleanup adb cleanup log =
     (case cleanup of
        None \<Rightarrow> (Inr (), log)
      | Some f \<Rightarrow> (case forward_cleanup adb f log of (r, f1, log1) \<Rightarrow> (r, forward_drop adb f1 log1)))"

section \<open>Connecting\<close>

text \<open>\<open>attempts\<close>: whether each connection to the forwarded port succeeds, up to the one after the
  deadline; the loop stops at the first that does.\<close>

definition open_forward ::
  "adb \<Rightarrow> string \<Rightarrow> bool list \<Rightarrow> bool \<Rightarrow> adb_log \<Rightarrow> (string \<times> AdbForward) core_result \<times> adb_log" where
  "open_forward adb serial attempts nodelay log1 =
     (case adb_call adb (service_args serial) log1 of
        (Inl e, log2) \<Rightarrow> (Inl e, log2)
      | (Inr _, log2) \<Rightarrow>
     (case list_forward_ports adb serial log2 of
        (Inl e, log3) \<Rightarrow> (Inl e, log3)
      | (Inr before, log3) \<Rightarrow>
     (case adb_call adb (forward_args serial) log3 of
        (Inl e, log4) \<Rightarrow> (Inl e, log4)
      | (Inr answer, log4) \<Rightarrow>
     (case parse_unsigned 65535 (trim answer) of
        None \<Rightarrow>
          (case cleanup_new_forwards adb serial before log4 of
             (Inl e, log5) \<Rightarrow> (Inl e, log5)
           | (Inr _, log5) \<Rightarrow> (Inl (Transport ''adb.port_parse_failed''), log5))
      | Some port \<Rightarrow>
          (let f = \<lparr>af_serial = serial, af_local_port = port, af_cleaned = False\<rparr> in
           if True \<notin> set attempts then (Inl (Transport ''adb.forward_connect_failed''), forward_drop adb f log4)
           else if \<not> nodelay then (Inl (Transport ''adb.nodelay_failed''), forward_drop adb f log4)
           else (Inr (serial, f), log4))))))"

definition adb_connect ::
  "adb \<Rightarrow> string option \<Rightarrow> bool list \<Rightarrow> bool \<Rightarrow> adb_log \<Rightarrow> (string \<times> AdbForward) core_result \<times> adb_log" where
  "adb_connect adb requested attempts nodelay log =
     (case list_devices adb log of
        (Inl e, log1) \<Rightarrow> (Inl e, log1)
      | (Inr devices, log1) \<Rightarrow>
          (case select_device devices requested of
             Inl e \<Rightarrow> (Inl e, log1)
           | Inr device \<Rightarrow> open_forward adb (ad_serial device) attempts nodelay log1))"

section \<open>Forwards are owned\<close>

definition reported :: "adb_log \<Rightarrow> (string \<times> nat) set" where
  "reported log = {(serial, port). \<exists>out. (forward_args serial, Inr out) \<in> set log \<and> parse_unsigned 65535 (trim out) = Some port}"

definition removed :: "adb_log \<Rightarrow> (string \<times> nat) set" where
  "removed log = {(serial, port). \<exists>r. (remove_args serial port, r) \<in> set log}"

lemma show_nat_inject [simp]: "show_nat m = show_nat n \<longleftrightarrow> m = n"
  using digits_value_show by (metis option.inject)

lemma args_inject [simp]:
  "remove_args s p = remove_args s' p' \<longleftrightarrow> s = s' \<and> p = p'" "forward_args s = forward_args s' \<longleftrightarrow> s = s'"
  "list_args s = list_args s' \<longleftrightarrow> s = s'"
  by (auto simp: remove_args_def forward_args_def list_args_def)

lemma args_distinct [simp]:
  "devices_args \<noteq> remove_args s p" "service_args s' \<noteq> remove_args s p" "list_args s' \<noteq> remove_args s p" "forward_args s' \<noteq> remove_args s p"
  "devices_args \<noteq> forward_args s" "service_args s' \<noteq> forward_args s" "list_args s' \<noteq> forward_args s" "remove_args s' p \<noteq> forward_args s"
  "devices_args \<noteq> list_args s" "service_args s' \<noteq> list_args s" "forward_args s' \<noteq> list_args s" "remove_args s' p \<noteq> list_args s"
  by (auto simp: devices_args_def service_args_def remove_args_def forward_args_def list_args_def)

lemmas args_distinct_sym [simp] = args_distinct [symmetric]

lemma args_target [simp]:
  "take 2 (service_args s) = [''-s'', s]" "take 2 (list_args s) = [''-s'', s]" "take 2 (forward_args s) = [''-s'', s]"
  "take 2 (remove_args s p) = [''-s'', s]"
  by (simp_all add: service_args_def remove_args_def forward_args_def list_args_def)

lemma log_sets [simp]:
  "reported [] = {}" "removed [] = {}"
  "reported (log @ log') = reported log \<union> reported log'" "removed (log @ log') = removed log \<union> removed log'"
  by (auto simp: reported_def removed_def)

lemma log_pairs [simp]:
  "reported (x # y # log) = reported [x] \<union> reported (y # log)" "removed (x # y # log) = removed [x] \<union> removed (y # log)"
  using log_sets(3,4)[of "[x]" "y # log"] by simp_all

lemma removed_single [simp]:
  "removed [(devices_args, r)] = {}" "removed [(service_args s, r)] = {}" "removed [(list_args s, r)] = {}"
  "removed [(forward_args s, r)] = {}" "removed [(remove_args s p, r)] = {(s, p)}"
  by (auto simp: removed_def)

lemma reported_single [simp]:
  "reported [(devices_args, r)] = {}" "reported [(service_args s, r)] = {}" "reported [(list_args s, r)] = {}"
  "reported [(remove_args s p, r)] = {}" "reported [(forward_args s, Inl e)] = {}"
  "reported [(forward_args s, Inr out)] = (case parse_unsigned 65535 (trim out) of Some p \<Rightarrow> {(s, p)} | None \<Rightarrow> {})"
  by (auto simp: reported_def split: option.splits)

lemma unique_added_forward_Some: "unique_added_forward before after = Inr (Some port) \<Longrightarrow> port \<in> after - before"
proof -
  assume "unique_added_forward before after = Inr (Some port)"
  then have l: "sorted_list_of_set (after - before) = [port]" by (auto simp: unique_added_forward_def split: list.splits)
  then have "finite (after - before)" by (metis list.distinct(1) sorted_list_of_set.fold_insort_key.infinite)
  then show ?thesis using l by (metis list.set_intros(1) set_sorted_list_of_set)
qed

text \<open>The cleanup after a forward whose port could not be read.\<close>

definition listed_new :: "adb_log \<Rightarrow> string \<Rightarrow> nat \<Rightarrow> bool" where
  "listed_new log serial port \<longleftrightarrow> (\<exists>before after. (list_args serial, Inr before) \<in> set log \<and> (list_args serial, Inr after) \<in> set log \<and>
     port \<in> parse_forward_ports after serial - parse_forward_ports before serial)"

lemma cleanup_new_forwards_log:
  assumes "cleanup_new_forwards adb serial (parse_forward_ports listing serial) log = (r, log')"
    and "(list_args serial, Inr listing) \<in> set log"
  shows "\<exists>more. log' = log @ more \<and> reported more = {} \<and> removed more \<subseteq> {(serial, port) | port. listed_new log' serial port} \<and>
    (\<forall>(args, r) \<in> set more. take 2 args = [''-s'', serial])"
proof -
  obtain after where call: "adb_call adb (list_args serial) log = (after, log @ [(list_args serial, after)])"
    by (simp add: adb_call_def Let_def)
  show ?thesis
  proof (cases after)
    case (Inl e)
    then show ?thesis using assms(1) call by (auto simp: cleanup_new_forwards_def list_forward_ports_def)
  next
    case (Inr out)
    show ?thesis
    proof (cases "\<exists>port. unique_added_forward (parse_forward_ports listing serial) (parse_forward_ports out serial) = Inr (Some port)")
      case True
      then obtain port where port: "unique_added_forward (parse_forward_ports listing serial) (parse_forward_ports out serial) = Inr (Some port)" ..
      then have log': "\<exists>r. log' = log @ [(list_args serial, Inr out), (remove_args serial port, r)]"
        using assms(1) call Inr by (auto simp: cleanup_new_forwards_def list_forward_ports_def adb_call_def Let_def)
      then have "listed_new log' serial port"
        unfolding listed_new_def using unique_added_forward_Some[OF port] assms(2)
        by (intro exI[of _ listing] exI[of _ out]) auto
      then show ?thesis using log' removed_single(5) log_sets(4)[of "[_]" "[_]"] by (auto simp: removed_def reported_def)
    next
      case False
      then have "log' = log @ [(list_args serial, Inr out)]"
        using assms(1) call Inr by (auto simp: cleanup_new_forwards_def list_forward_ports_def split: sum.splits option.splits)
      then show ?thesis by auto
    qed
  qed
qed

text \<open>What a forward that is opened leaves in the log.\<close>

definition targets :: "string \<Rightarrow> adb_log \<Rightarrow> bool" where
  "targets serial log \<longleftrightarrow> (\<forall>(args, r) \<in> set log. take 2 args = [''-s'', serial])"

lemma open_forward_log:
  assumes "open_forward adb s attempts nodelay log = (result, log')"
  shows "\<exists>more. log' = log @ more \<and> targets s more \<and>
    (case result of
       Inr (serial, f) \<Rightarrow> serial = s \<and> af_serial f = s \<and> \<not> af_cleaned f \<and> reported more = {(s, af_local_port f)} \<and> removed more = {}
     | Inl e \<Rightarrow> reported more \<subseteq> removed more \<and>
         (\<forall>(serial, port) \<in> removed more. (serial, port) \<in> reported more \<or> listed_new log' serial port))"
proof -
  have call: "\<exists>r. adb_call adb args l = (r, l @ [(args, r)])" for args l by (simp add: adb_call_def Let_def)
  obtain r2 where r2: "adb_call adb (service_args s) log = (r2, log @ [(service_args s, r2)])" using call by blast
  define log2 where "log2 = log @ [(service_args s, r2)]"
  obtain r3 where r3: "adb_call adb (list_args s) log2 = (r3, log2 @ [(list_args s, r3)])" using call by blast
  define log3 where "log3 = log2 @ [(list_args s, r3)]"
  obtain r4 where r4: "adb_call adb (forward_args s) log3 = (r4, log3 @ [(forward_args s, r4)])" using call by blast
  define log4 where "log4 = log3 @ [(forward_args s, r4)]"
  note logs = log2_def log3_def log4_def and calls = r2[folded log2_def] r3[folded log3_def] r4[folded log4_def]
  note body = assms[unfolded open_forward_def list_forward_ports_def]
  let ?new = "[(service_args s, r2), (list_args s, r3), (forward_args s, r4)]"
  have new: "log4 = log @ ?new" "targets s ?new" "removed ?new = {}" "reported ?new = reported [(forward_args s, r4)]"
    using log_sets(3,4)[of "[(service_args s, r2)]" "[(list_args s, r3), (forward_args s, r4)]"]
      log_sets(3,4)[of "[(list_args s, r3)]" "[(forward_args s, r4)]"]
    by (simp_all add: logs targets_def)
  consider (stopped) e l where "result = Inl e" "log' = log @ l" "l = [(service_args s, r2)] \<or> l = [(service_args s, r2), (list_args s, r3)]"
    | (failed) e where "result = Inl e" "r4 = Inl e" "log' = log4"
    | (unread) listing answer e r where "r3 = Inr listing" "r4 = Inr answer" "parse_unsigned 65535 (trim answer) = None" "result = Inl e"
        "cleanup_new_forwards adb s (parse_forward_ports listing s) log4 = (r, log')"
    | (lost) answer port e where "r4 = Inr answer" "parse_unsigned 65535 (trim answer) = Some port" "result = Inl e"
        "log' = forward_drop adb \<lparr>af_serial = s, af_local_port = port, af_cleaned = False\<rparr> log4"
    | (made) answer port where "r4 = Inr answer" "parse_unsigned 65535 (trim answer) = Some port"
        "result = Inr (s, \<lparr>af_serial = s, af_local_port = port, af_cleaned = False\<rparr>)" "log' = log4"
    using body calls by (cases r2; cases r3; cases r4) (auto simp: Let_def logs split: option.splits if_splits sum.splits prod.splits)
  then show ?thesis
  proof cases
    case stopped
    then have "targets s l \<and> reported l = {} \<and> removed l = {}"
      using log_sets(3,4)[of "[(service_args s, r2)]" "[(list_args s, r3)]"] by (auto simp: targets_def)
    then show ?thesis using stopped by auto
  next
    case failed
    then show ?thesis using new by (intro exI[of _ ?new]) simp
  next
    case unread
    have "(list_args s, Inr listing) \<in> set log4" using unread by (simp add: logs)
    from cleanup_new_forwards_log[OF unread(5) this] obtain more where more: "log' = log4 @ more" "reported more = {}"
      "removed more \<subseteq> {(s, port) | port. listed_new log' s port}" "\<forall>(args, r) \<in> set more. take 2 args = [''-s'', s]" by blast
    then show ?thesis using new unread log_sets(3,4)[of ?new more]
      by (intro exI[of _ "?new @ more"]) (auto simp: targets_def)
  next
    case lost
    then obtain r where "log' = log4 @ [(remove_args s port, r)]" using call by (auto simp: forward_drop_def adb_call_def Let_def)
    then show ?thesis using new lost log_sets(3,4)[of ?new "[(remove_args s port, r)]"]
      by (intro exI[of _ "?new @ [(remove_args s port, r)]"]) (auto simp: targets_def)
  next
    case made
    then show ?thesis using new by (intro exI[of _ ?new]) simp
  qed
qed

lemma transport_cleanup_removes:
  assumes "\<not> af_cleaned f"
  shows "removed (snd (transport_cleanup adb (Some f) log)) = insert (af_serial f, af_local_port f) (removed log)"
  using assms by (auto simp: transport_cleanup_def forward_cleanup_def forward_drop_def adb_call_def Let_def split: sum.splits)



section \<open>The listing of devices\<close>

text \<open>A device as \<open>adb devices -l\<close> prints it, with further fields at the end of the line.\<close>

definition field_words :: "string \<Rightarrow> string option \<Rightarrow> string list" where
  "field_words name value = (case value of Some v \<Rightarrow> [name @ v] | None \<Rightarrow> [])"

definition device_words :: "AdbDevice \<Rightarrow> string list \<Rightarrow> string list" where
  "device_words d extra = [ad_serial d, ad_state d] @ field_words ''product:'' (ad_product d) @ field_words ''model:'' (ad_model d)
     @ field_words ''device:'' (ad_device d) @ extra"

definition print_devices :: "(AdbDevice \<times> string list) list \<Rightarrow> string" where
  "print_devices ds = concat (map (\<lambda>l. l @ [CHR 0x0A])
     (''List of devices attached'' # map (\<lambda>(d, extra). join_with '' '' (device_words d extra)) ds))"

definition printable_device :: "AdbDevice \<times> string list \<Rightarrow> bool" where
  "printable_device p \<longleftrightarrow> (\<forall>w \<in> set (device_words (fst p) (snd p)). plain_word w) \<and>
     (\<forall>w \<in> set (snd p). \<forall>name \<in> {''product:'', ''model:'', ''device:''}. \<not> starts_with name w)"

lemma join_plain:
  assumes "ws \<noteq> []" "\<forall>w \<in> set ws. plain_word w"
  shows "join_with '' '' ws \<noteq> [] \<and> graphic (hd (join_with '' '' ws)) \<and> graphic (last (join_with '' '' ws)) \<and>
    (\<forall>c \<in> set (join_with '' '' ws). graphic c \<or> c = CHR '' '')"
  using assms
proof (induction ws rule: list_nonempty_induct)
  case (single w)
  then show ?case by (auto simp: plain_word_def)
next
  case (cons w ws)
  then obtain v vs where "ws = v # vs" by (cases ws) auto
  then show ?case using cons by (auto simp: plain_word_def hd_append)
qed

lemma device_fields_extra:
  "\<forall>w \<in> set ws. \<forall>name \<in> {''product:'', ''model:'', ''device:''}. \<not> starts_with name w \<Longrightarrow> device_fields ws d = d"
  by (induction ws) (auto simp: str_strip_prefix_def)

lemma device_fields_words:
  assumes "\<forall>w \<in> set extra. \<forall>name \<in> {''product:'', ''model:'', ''device:''}. \<not> starts_with name w"
  shows "device_fields (field_words ''product:'' p @ field_words ''model:'' mo @ field_words ''device:'' dv @ extra)
     \<lparr>ad_serial = s, ad_state = st, ad_product = None, ad_model = None, ad_device = None\<rparr>
   = \<lparr>ad_serial = s, ad_state = st, ad_product = p, ad_model = mo, ad_device = dv\<rparr>"
  using device_fields_extra[OF assms]
  by (cases p; cases mo; cases dv) (simp_all add: field_words_def str_strip_prefix_def starts_with_def)

lemma parse_device_print:
  assumes "printable_device (d, extra)"
  shows "parse_device (join_with '' '' (device_words d extra)) = Some d"
proof -
  have plain: "\<forall>w \<in> set (device_words d extra). plain_word w" using assms by (simp add: printable_device_def)
  have ne: "device_words d extra \<noteq> []" by (simp add: device_words_def)
  have "trim (join_with '' '' (device_words d extra)) = join_with '' '' (device_words d extra)"
    using join_plain[OF ne plain] by (auto intro: trim_graphic)
  then show ?thesis
    using join_plain[OF ne plain] split_whitespace_join[OF plain] device_fields_words[of extra] assms
    by (cases d) (simp add: parse_device_def Let_def device_words_def printable_device_def)
qed

text \<open>What \<open>adb\<close> prints of its devices is read back exactly.\<close>

lemma parse_devices_print:
  assumes "\<forall>p \<in> set ds. printable_device p"
  shows "parse_devices (print_devices ds) = map fst ds"
proof -
  have "CHR 0x0A \<notin> set l \<and> strip_cr l = l"
    if l: "l \<in> set (''List of devices attached'' # map (\<lambda>(d, extra). join_with '' '' (device_words d extra)) ds)" for l
  proof (cases "l = ''List of devices attached''")
    case True
    then show ?thesis by (simp add: strip_cr_def)
  next
    case False
    then obtain d extra where "(d, extra) \<in> set ds" "l = join_with '' '' (device_words d extra)" using l by auto
    then have "l \<noteq> [] \<and> graphic (last l) \<and> (\<forall>c \<in> set l. graphic c \<or> c = CHR '' '')"
      using join_plain[of "device_words d extra"] assms by (fastforce simp: device_words_def printable_device_def)
    then show ?thesis by (auto simp: strip_cr_def graphic_def)
  qed
  then have "lines (print_devices ds) = ''List of devices attached'' # map (\<lambda>(d, extra). join_with '' '' (device_words d extra)) ds"
    unfolding print_devices_def by (rule lines_join)
  moreover have "List.map_filter parse_device (map (\<lambda>(d, extra). join_with '' '' (device_words d extra)) ds) = map fst ds"
    using assms parse_device_print by (induction ds) (auto simp: map_filter_simps)
  ultimately show ?thesis by (simp add: parse_devices_def)
qed

section \<open>A failing connection\<close>

definition sample_listing :: string where
  "sample_listing = print_devices [(\<lparr>ad_serial = ''ABC'', ad_state = ''device'', ad_product = None, ad_model = Some ''M'', ad_device = None\<rparr>,
     [''transport_id:1''])]"

definition sample_adb :: adb where
  "sample_adb log args =
     (if args = devices_args then Exited True sample_listing []
      else if args = forward_args ''ABC'' then Exited True ''41001'' []
      else Exited True [] [])"

lemma sample_selected: "select_device (parse_devices sample_listing) None =
  Inr \<lparr>ad_serial = ''ABC'', ad_state = ''device'', ad_product = None, ad_model = Some ''M'', ad_device = None\<rparr>"
  unfolding sample_listing_def
  by (subst parse_devices_print)
    (simp_all add: select_device_def printable_device_def device_words_def field_words_def plain_word_def graphic_def starts_with_def)

lemma sample_adb_fails:
  "\<exists>log. adb_connect sample_adb None [False, False] True [] = (Inl (Transport ''adb.forward_connect_failed''), log) \<and>
     reported log = {(''ABC'', 41001)}"
proof -
  have port: "parse_unsigned 65535 (trim ''41001'') = Some 41001"
    by (simp add: trim_graphic graphic_def parse_unsigned_def starts_with_def digit_value_def)
  have out: "run_adb (sample_adb log devices_args) = Inr sample_listing" "run_adb (sample_adb log (forward_args ''ABC'')) = Inr ''41001''"
    "run_adb (sample_adb log (service_args ''ABC'')) = Inr []" "run_adb (sample_adb log (list_args ''ABC'')) = Inr []" for log
    by (simp_all add: sample_adb_def) (simp add: devices_args_def service_args_def)
  show ?thesis
    by (simp add: adb_connect_def list_devices_def adb_call_def out sample_selected open_forward_def list_forward_ports_def port
        forward_drop_def Let_def)
qed


end
