(* ===== verification/Discovery.thy ===== *)
theory Discovery
  imports Usb Adb Runtime Handshake "HOL-Library.Product_Lexorder"
begin

text \<open>
  Finding devices and managing trust: the mDNS browser of \<open>handshaker-core/src/discovery.rs\<close>, the
  descriptors, deduplication and order of \<open>handshaker-application/src/discovery.rs\<close>, the sweep over the
  transports and the trust service of \<open>runtime.rs\<close> and \<open>trust.rs\<close>. What the mDNS daemon resolves is an
  argument, with the addresses in the order in which it enumerates them.
\<close>

section \<open>Browsing\<close>

datatype ip_addr = V4 string | V6 string

fun ip_text :: "ip_addr \<Rightarrow> string" where
  "ip_text (V4 s) = s"
| "ip_text (V6 s) = s"

fun ip_rank :: "ip_addr \<Rightarrow> nat" where
  "ip_rank (V4 _) = 0"
| "ip_rank (V6 _) = 1"

record ResolvedService =
  rs_fullname :: string
  rs_host :: string
  rs_port :: nat
  rs_addresses :: "ip_addr list"
  rs_txt :: "(string \<times> string) list"

datatype service_event = ServiceResolved ResolvedService | OtherServiceEvent

definition instance_name :: "string \<Rightarrow> string" where
  "instance_name fullname = hd (split_on (CHR ''.'') fullname)"

definition resolved_to_device :: "ResolvedService \<Rightarrow> WifiDevice" where
  "resolved_to_device service =
     \<lparr>wd_instance = instance_name (rs_fullname service), wd_host = trim_end_char (CHR ''.'') (rs_host service),
      wd_addresses = map ip_text (sort_key ip_rank (rs_addresses service)), wd_port = rs_port service,
      wd_txt = fold (\<lambda>(k, v). bt_insert k v) (rs_txt service) []\<rparr>"

fun note_event :: "service_event \<Rightarrow> (string, WifiDevice) btree \<Rightarrow> (string, WifiDevice) btree" where
  "note_event (ServiceResolved service) devices =
     bt_insert (trim_end_char (CHR ''.'') (rs_host service)) (resolved_to_device service) devices"
| "note_event OtherServiceEvent devices = devices"

text \<open>\<open>events\<close> are those that arrive before the deadline or the end of the channel.\<close>

definition discover_wifi_devices :: "bool \<Rightarrow> bool \<Rightarrow> service_event list \<Rightarrow> WifiDevice list core_result" where
  "discover_wifi_devices daemon_ok browse_ok events =
     (if \<not> daemon_ok then Inl (Configuration ''wifi.mdns_init_failed'')
      else if \<not> browse_ok then Inl (Configuration ''wifi.mdns_browse_failed'')
      else Inr (map snd (fold note_event events [])))"

section \<open>Descriptors\<close>

definition hex_digit :: "nat \<Rightarrow> char" where
  "hex_digit n = ''0123456789abcdef'' ! (n mod 16)"

definition hex4 :: "nat \<Rightarrow> string" where
  "hex4 n = [hex_digit (n div 4096), hex_digit (n div 256), hex_digit (n div 16), hex_digit n]"

definition adb_device_to_descriptor :: "AdbDevice \<Rightarrow> DeviceDescriptor" where
  "adb_device_to_descriptor d =
     \<lparr>dd_id = ad_serial d, dd_stable_id = None, dd_display_name = Some (ad_serial d), dd_model = ad_model d,
      dd_transport = TransportKind.Adb, dd_transport_address = ad_serial d, dd_available = (ad_state d = ''device''),
      dd_adb = Some \<lparr>add_state = ad_state d, add_product = ad_product d, add_model = ad_model d, add_device = ad_device d\<rparr>,
      dd_usb = None\<rparr>"

definition wifi_device_to_descriptor :: "WifiDevice \<Rightarrow> DeviceDescriptor" where
  "wifi_device_to_descriptor d =
     (let address = (case wd_addresses d of a # _ \<Rightarrow> a | [] \<Rightarrow> wd_host d) in
      \<lparr>dd_id = ''wifi-endpoint:'' @ wd_instance d @ '':'' @ address @ '':'' @ show_nat (wd_port d), dd_stable_id = None,
       dd_display_name = Some (wd_host d), dd_model = None, dd_transport = Wifi,
       dd_transport_address = address @ '':'' @ show_nat (wd_port d), dd_available = True, dd_adb = None, dd_usb = None\<rparr>)"

fun mode_text :: "AccessoryMode \<Rightarrow> string" where
  "mode_text AccessoryMode = ''Accessory''"
| "mode_text PlainMode = ''Plain''"

definition usb_device_to_descriptor :: "UsbAccessory \<Rightarrow> DeviceDescriptor" where
  "usb_device_to_descriptor d =
     \<lparr>dd_id = us_location d, dd_stable_id = None,
      dd_display_name = (case us_serial d of Some s \<Rightarrow> Some s | None \<Rightarrow> Some (us_location d)), dd_model = None,
      dd_transport = TransportKind.UsbAccessory,
      dd_transport_address = ''0x'' @ hex4 (us_vendor_id d) @ '':0x'' @ hex4 (us_product_id d), dd_available = True,
      dd_adb = None,
      dd_usb = Some \<lparr>udd_bus_number = us_bus_number d, udd_serial = us_serial d, udd_vendor_id = us_vendor_id d,
        udd_product_id = us_product_id d, udd_mode = mode_text (us_mode d)\<rparr>\<rparr>"

section \<open>The sweep\<close>

definition device_key :: "DeviceDescriptor \<Rightarrow> TransportKind \<times> string" where
  "device_key d = (dd_transport d, dd_id d)"

fun retain_new :: "(TransportKind \<times> string) set \<Rightarrow> DeviceDescriptor list \<Rightarrow> DeviceDescriptor list" where
  "retain_new seen [] = []"
| "retain_new seen (d # ds) =
     (if device_key d \<in> seen then retain_new seen ds else d # retain_new (insert (device_key d) seen) ds)"

definition deduplicate_discovered_devices :: "DeviceDescriptor list \<Rightarrow> DeviceDescriptor list" where
  "deduplicate_discovered_devices devices = retain_new {} devices"

fun transport_rank :: "TransportKind \<Rightarrow> nat" where
  "transport_rank TransportKind.Adb = 0"
| "transport_rank Wifi = 1"
| "transport_rank TransportKind.UsbAccessory = 2"

definition device_sort_key :: "DeviceDescriptor \<Rightarrow> nat \<times> string \<times> string" where
  "device_sort_key d = (transport_rank (dd_transport d), dd_transport_address d,
     case dd_display_name d of Some n \<Rightarrow> n | None \<Rightarrow> [])"

definition sort_discovered_devices :: "DeviceDescriptor list \<Rightarrow> DeviceDescriptor list" where
  "sort_discovered_devices devices = sort_key device_sort_key devices"

record ListDevicesRequest =
  ld_include_adb :: bool
  ld_include_wifi :: bool
  ld_include_usb :: bool

record DeviceDiscoveryWarning =
  dw_transport :: TransportKind
  dw_error :: PublicError

record DeviceDiscoveryResult =
  dr_devices :: "DeviceDescriptor list"
  dr_warnings :: "DeviceDiscoveryWarning list"

definition sweep ::
  "(core_error \<Rightarrow> string) \<Rightarrow> TransportKind \<Rightarrow> string \<Rightarrow> ('a \<Rightarrow> DeviceDescriptor) \<Rightarrow> bool \<Rightarrow> 'a list core_result
   \<Rightarrow> DeviceDescriptor list \<times> DeviceDiscoveryWarning list" where
  "sweep display transport operation describe included found =
     (if \<not> included then ([], [])
      else case found of
             Inr ds \<Rightarrow> (map describe ds, [])
           | Inl e \<Rightarrow> ([], [\<lparr>dw_transport = transport, dw_error = from_core_error display e operation\<rparr>]))"

text \<open>The three transports answer with \<open>adb\<close>, \<open>wifi\<close> and \<open>usb\<close>.\<close>

definition discover_devices ::
  "(core_error \<Rightarrow> string) \<Rightarrow> RuntimeInner \<Rightarrow> ListDevicesRequest \<Rightarrow> AdbDevice list core_result \<Rightarrow> WifiDevice list core_result
   \<Rightarrow> UsbAccessory list core_result \<Rightarrow> DeviceDiscoveryResult app_result" where
  "discover_devices display r req adb wifi usb =
     and_then (ensure_open r) (\<lambda>_.
       let (d1, w1) = sweep display TransportKind.Adb ''discover_devices.adb'' adb_device_to_descriptor (ld_include_adb req) adb;
           (d2, w2) = sweep display Wifi ''discover_devices.wifi'' wifi_device_to_descriptor (ld_include_wifi req) wifi;
           (d3, w3) = sweep display TransportKind.UsbAccessory ''discover_devices.usb'' usb_device_to_descriptor (ld_include_usb req) usb
       in Inr \<lparr>dr_devices = sort_discovered_devices (deduplicate_discovered_devices (d1 @ d2 @ d3)), dr_warnings = w1 @ w2 @ w3\<rparr>)"

definition runtime_list_devices ::
  "(core_error \<Rightarrow> string) \<Rightarrow> RuntimeInner \<Rightarrow> ListDevicesRequest \<Rightarrow> AdbDevice list core_result \<Rightarrow> WifiDevice list core_result
   \<Rightarrow> UsbAccessory list core_result \<Rightarrow> DeviceDescriptor list app_result" where
  "runtime_list_devices display r req adb wifi usb = map_sum id dr_devices (discover_devices display r req adb wifi usb)"

section \<open>Trust\<close>

record TrustRecordDto =
  td_device_id :: string
  td_device_name :: "string option"
  td_updated_at_ms :: nat

definition parse_phone_device_id :: "string \<Rightarrow> string app_result" where
  "parse_phone_device_id device_id =
     (case str_strip_prefix ''phone:'' device_id of
        Some uuid \<Rightarrow>
          if trim uuid = []
          then Inl (with_operation (public_error_new InvalidArgument ''expected a phone device id in the form phone:<uuid>'') ''trust'')
          else Inr uuid
      | None \<Rightarrow> Inl (with_operation (public_error_new InvalidArgument ''expected a phone device id in the form phone:<uuid>'') ''trust''))"

definition saturating_mul_u64 :: "nat \<Rightarrow> nat \<Rightarrow> nat" where
  "saturating_mul_u64 a b = min (a * b) (2 ^ 64 - 1)"

text \<open>The state directory may not be found; then \<open>store\<close> is the error.\<close>

definition list_trust_records ::
  "(core_error \<Rightarrow> string) \<Rightarrow> RuntimeInner \<Rightarrow> unit app_result \<Rightarrow> state_codec \<Rightarrow> state_io \<Rightarrow> string \<Rightarrow> state_file
   \<Rightarrow> TrustRecordDto list app_result \<times> state_file" where
  "list_trust_records display r store codec io new_uuid file =
     (case and_then (ensure_open r) (\<lambda>_. store) of
        Inl e \<Rightarrow> (Inl e, file)
      | Inr _ \<Rightarrow>
          (case list_trusted_devices codec io new_uuid file of
             (Inl e, file1) \<Rightarrow> (Inl (from_core_error display e ''trust.list''), file1)
           | (Inr records, file1) \<Rightarrow>
               (Inr (map (\<lambda>rec. \<lparr>td_device_id = ''phone:'' @ ti_device_uuid rec, td_device_name = ti_device_name rec,
                   td_updated_at_ms = saturating_mul_u64 (ti_updated_at rec) 1000\<rparr>) records), file1)))"

definition remove_trust_record ::
  "(core_error \<Rightarrow> string) \<Rightarrow> RuntimeInner \<Rightarrow> unit app_result \<Rightarrow> state_codec \<Rightarrow> state_io \<Rightarrow> state_io \<Rightarrow> string \<Rightarrow> string \<Rightarrow> state_file
   \<Rightarrow> bool app_result \<times> state_file" where
  "remove_trust_record display r store codec io_load io_save new_uuid device_id file =
     (case and_then (ensure_open r) (\<lambda>_. and_then (parse_phone_device_id device_id) (\<lambda>uuid. and_then store (\<lambda>_. Inr uuid))) of
        Inl e \<Rightarrow> (Inl e, file)
      | Inr uuid \<Rightarrow>
          (case remove_trust codec io_load io_save new_uuid uuid file of
             (Inl e, file1) \<Rightarrow> (Inl (from_core_error display e ''trust.remove''), file1)
           | (Inr existed, file1) \<Rightarrow> (Inr existed, file1)))"

definition reset_trust ::
  "(core_error \<Rightarrow> string) \<Rightarrow> (string \<Rightarrow> string option) \<Rightarrow> RuntimeInner \<Rightarrow> unit app_result \<Rightarrow> state_codec \<Rightarrow> state_io \<Rightarrow> wifi_env \<Rightarrow> string
   \<Rightarrow> string option \<Rightarrow> string \<Rightarrow> string \<Rightarrow> unit core_result \<Rightarrow> state_file \<Rightarrow> bytes \<Rightarrow> unit app_result \<times> wifi_sent list \<times> state_file" where
  "reset_trust display parse_address r store codec io env new_uuid host_name endpoint expected_device_id closed file stream =
     (case and_then (ensure_open r) (\<lambda>_.
             case parse_address endpoint of
               None \<Rightarrow> Inl (with_operation (public_error_new InvalidArgument ''invalid wifi endpoint'') ''trust.reset'')
             | Some _ \<Rightarrow> and_then (parse_phone_device_id expected_device_id) (\<lambda>uuid. and_then store (\<lambda>_. Inr uuid))) of
        Inl e \<Rightarrow> (Inl e, [], file)
      | Inr uuid \<Rightarrow>
          (case reset_wifi_trust codec io env new_uuid host_name uuid closed file stream of
             (Inl e, sent, file1) \<Rightarrow> (Inl (from_core_error display e ''trust.reset''), sent, file1)
           | (Inr _, sent, file1) \<Rightarrow> (Inr (), sent, file1)))"

section \<open>What a sweep finds\<close>

definition reported_first :: "DeviceDescriptor list \<Rightarrow> DeviceDescriptor \<Rightarrow> bool" where
  "reported_first found d \<longleftrightarrow> (\<exists>before after. found = before @ d # after \<and> device_key d \<notin> device_key ` set before)"

lemma reported_first_Cons:
  "reported_first (x # ds) d \<longleftrightarrow> x = d \<or> device_key x \<noteq> device_key d \<and> reported_first ds d"
  unfolding reported_first_def by (auto simp: Cons_eq_append_conv) (metis image_insert insert_iff list.simps(15))

lemma retain_new_mem: "d \<in> set (retain_new seen ds) \<longleftrightarrow> device_key d \<notin> seen \<and> reported_first ds d"
proof (induction seen ds rule: retain_new.induct)
  case (1 seen)
  then show ?case by (simp add: reported_first_def)
qed (auto simp: reported_first_Cons)

lemma retain_new_keys: "device_key ` set (retain_new seen ds) = device_key ` set ds - seen"
  by (induction seen ds rule: retain_new.induct) auto

lemma retain_new_distinct: "distinct (map device_key (retain_new seen ds))"
proof (induction seen ds rule: retain_new.induct)
  case (2 seen d ds)
  have "device_key d \<notin> device_key ` set (retain_new (insert (device_key d) seen) ds)" unfolding retain_new_keys by blast
  then show ?case using 2 by (simp add: image_iff)
qed simp

text \<open>What the included transports report, one after the other.\<close>

definition found_devices ::
  "ListDevicesRequest \<Rightarrow> AdbDevice list core_result \<Rightarrow> WifiDevice list core_result \<Rightarrow> UsbAccessory list core_result \<Rightarrow> DeviceDescriptor list" where
  "found_devices req adb wifi usb =
     (if ld_include_adb req then map adb_device_to_descriptor (case adb of Inr ds \<Rightarrow> ds | Inl _ \<Rightarrow> []) else []) @
     (if ld_include_wifi req then map wifi_device_to_descriptor (case wifi of Inr ds \<Rightarrow> ds | Inl _ \<Rightarrow> []) else []) @
     (if ld_include_usb req then map usb_device_to_descriptor (case usb of Inr ds \<Rightarrow> ds | Inl _ \<Rightarrow> []) else [])"

text \<open>A sweep over the transports fails only when the runtime is closed. Otherwise it returns, in
  the order ADB, Wi-Fi, USB and by address and name within a transport, the first device reported for
  each pair of transport and id, one device for every such pair that an included transport reported;
  and one warning for every included transport that failed.\<close>

lemma discover_devices_complete:
  "case discover_devices display r req adb wifi usb of
      Inl e \<Rightarrow> ensure_open r = Inl e
    | Inr result \<Rightarrow> ensure_open r = Inr () \<and>
        sorted (map device_sort_key (dr_devices result)) \<and> distinct (map device_key (dr_devices result)) \<and>
        set (dr_devices result) = Collect (reported_first (found_devices req adb wifi usb)) \<and>
        device_key ` set (dr_devices result) = device_key ` set (found_devices req adb wifi usb) \<and>
        map dw_transport (dr_warnings result) =
          (if ld_include_adb req \<and> \<not> is_ok adb then [TransportKind.Adb] else []) @
          (if ld_include_wifi req \<and> \<not> is_ok wifi then [Wifi] else []) @
          (if ld_include_usb req \<and> \<not> is_ok usb then [TransportKind.UsbAccessory] else [])"
proof (cases "ensure_open r")
  case (Inl e)
  then show ?thesis by (simp add: discover_devices_def and_then_def)
next
  case (Inr u)
  have sweep: "sweep display t op f c x = (if c then map f (case x of Inr ds \<Rightarrow> ds | Inl _ \<Rightarrow> []) else [],
      if c \<and> \<not> is_ok x then [\<lparr>dw_transport = t, dw_error = from_core_error display (projl x) op\<rparr>] else [])"
    for t op c and f :: "'x \<Rightarrow> DeviceDescriptor" and x
    by (cases x) (auto simp: sweep_def is_ok_def)
  have "discover_devices display r req adb wifi usb = Inr \<lparr>dr_devices = sort_discovered_devices (retain_new {} (found_devices req adb wifi usb)),
      dr_warnings = (if ld_include_adb req \<and> \<not> is_ok adb
          then [\<lparr>dw_transport = TransportKind.Adb, dw_error = from_core_error display (projl adb) ''discover_devices.adb''\<rparr>] else []) @
        (if ld_include_wifi req \<and> \<not> is_ok wifi
          then [\<lparr>dw_transport = Wifi, dw_error = from_core_error display (projl wifi) ''discover_devices.wifi''\<rparr>] else []) @
        (if ld_include_usb req \<and> \<not> is_ok usb
          then [\<lparr>dw_transport = TransportKind.UsbAccessory, dw_error = from_core_error display (projl usb) ''discover_devices.usb''\<rparr>] else [])\<rparr>"
    unfolding discover_devices_def Inr and_then_def sum.case sweep Let_def prod.case found_devices_def deduplicate_discovered_devices_def by simp
  moreover have "distinct (map device_key (sort_discovered_devices (retain_new {} (found_devices req adb wifi usb))))"
    using retain_new_distinct[of "{}" "found_devices req adb wifi usb"]
    by (simp add: sort_discovered_devices_def distinct_map)
  ultimately show ?thesis
    using Inr retain_new_mem[of _ "{}" "found_devices req adb wifi usb"] retain_new_keys[of "{}" "found_devices req adb wifi usb"] by (auto simp: sort_discovered_devices_def)
qed

text \<open>A browse returns one device per host, the one resolved last.\<close>

fun resolves :: "string \<Rightarrow> service_event \<Rightarrow> bool" where
  "resolves host (ServiceResolved s) \<longleftrightarrow> trim_end_char (CHR ''.'') (rs_host s) = host"
| "resolves host OtherServiceEvent \<longleftrightarrow> False"

lemma note_events_get:
  "bt_get (fold note_event events m) host =
   (case find (resolves host) (rev events) of Some (ServiceResolved s) \<Rightarrow> Some (resolved_to_device s) | _ \<Rightarrow> bt_get m host)"
proof (induction events rule: rev_induct)
  case (snoc event events)
  then show ?case by (cases event) auto
qed simp

lemma note_events_ok: "bt_ok m \<Longrightarrow> bt_ok (fold note_event events m)"
proof (induction events arbitrary: m)
  case (Cons event events)
  then show ?case by (cases event) auto
qed simp

lemma discover_wifi_latest:
  assumes "discover_wifi_devices True True events = Inr ds"
  shows "d \<in> set ds \<longleftrightarrow> (\<exists>host s. find (resolves host) (rev events) = Some (ServiceResolved s) \<and> d = resolved_to_device s)"
proof -
  let ?m = "fold note_event events []"
  have "bt_ok ?m" by (rule note_events_ok) (simp add: bt_ok_def bt_keys_def)
  then have "d \<in> set ds \<longleftrightarrow> (\<exists>host. bt_get ?m host = Some d)"
    using assms by (force simp: discover_wifi_devices_def bt_get_iff)
  also have "\<dots> \<longleftrightarrow> (\<exists>host s. find (resolves host) (rev events) = Some (ServiceResolved s) \<and> d = resolved_to_device s)"
  proof -
    have "(case x of Some (ServiceResolved s) \<Rightarrow> Some (resolved_to_device s) | _ \<Rightarrow> None) = Some d \<longleftrightarrow>
        (\<exists>s. x = Some (ServiceResolved s) \<and> d = resolved_to_device s)" for x
      by (auto split: option.splits service_event.splits)
    moreover have "bt_get ([] :: (string, WifiDevice) btree) host = None" for host by (simp add: bt_get_def)
    ultimately show ?thesis unfolding note_events_get by (simp only:)
  qed
  finally show ?thesis .
qed

lemma insort_rank:
  assumes "\<forall>a \<in> set as. ip_rank a = 0" "\<forall>b \<in> set bs. ip_rank b = 1"
  shows "insort_key ip_rank x (as @ bs) = (if ip_rank x = 0 then x # as @ bs else as @ x # bs)"
proof (cases x)
  case (V4 t)
  then show ?thesis by (cases "as @ bs") auto
next
  case (V6 t)
  then show ?thesis using assms
  proof (induction as)
    case Nil
    then show ?case by (cases bs) auto
  qed auto
qed

text \<open>IPv4 addresses come first, each kind in the order of the daemon.\<close>

lemma resolved_addresses:
  "wd_addresses (resolved_to_device s) = map ip_text (filter (\<lambda>a. ip_rank a = 0) (rs_addresses s) @ filter (\<lambda>a. ip_rank a = 1) (rs_addresses s))"
proof -
  have "sort_key ip_rank as = filter (\<lambda>a. ip_rank a = 0) as @ filter (\<lambda>a. ip_rank a = 1) as" for as
  proof (induction as)
    case (Cons a as)
    have "ip_rank a = 0 \<or> ip_rank a = 1" by (cases a) auto
    moreover have "sort_key ip_rank (a # as) = (if ip_rank a = 0
        then a # filter (\<lambda>a. ip_rank a = 0) as @ filter (\<lambda>a. ip_rank a = 1) as
        else filter (\<lambda>a. ip_rank a = 0) as @ a # filter (\<lambda>a. ip_rank a = 1) as)"
    proof -
      have "sort_key ip_rank (a # as) = insort_key ip_rank a (sort_key ip_rank as)" by simp
      then show ?thesis unfolding Cons by (rule trans) (rule insort_rank; auto)
    qed
    ultimately show ?case by (elim disjE) simp_all
  qed simp
  then show ?thesis by (simp add: resolved_to_device_def)
qed

section \<open>Trust records\<close>

text \<open>The id of a listed record is accepted for removal, unless the uuid is blank.\<close>

lemma parse_listed_id: "trim uuid \<noteq> [] \<Longrightarrow> parse_phone_device_id (''phone:'' @ uuid) = Inr uuid"
  by (simp add: parse_phone_device_id_def str_strip_prefix_def starts_with_def)

text \<open>\<open>trust.rs\<close> and \<open>reset_wifi_trust\<close> of the runtime say that a reset deletes the local record after the
  phone has cleared its own. Nothing deletes it: the file is left as loading found it.\<close>

lemma reset_keeps_local_record:
  "snd (snd (reset_trust display parse_address r store codec io env new_uuid host_name endpoint expected_device_id closed file stream))
   \<in> {file, snd (load_or_create codec io new_uuid file)}"
  by (auto simp: reset_trust_def reset_wifi_trust_def Let_def split: sum.splits prod.splits option.splits)

lemma reset_still_trusted:
  assumes "faithful codec" "all_ok io" "stores codec file new_uuid h"
    and "reset_trust display parse_address r store codec io env new_uuid host_name endpoint expected_device_id closed file stream = (res, sent, file')"
  shows "stores codec file' new_uuid h"
  using reset_keeps_local_record[of display parse_address r store codec io env new_uuid host_name endpoint expected_device_id closed "file" stream]
    load_stores[OF assms(1-3)] assms(3,4) by auto

section \<open>Addresses without brackets\<close>

text \<open>A socket address with an IPv6 host is written in brackets. The descriptor of a phone that is only
  reachable over IPv6 has none, so a parser that insists on them refuses to connect to it.\<close>

lemma ipv6_only_not_connectable:
  assumes brackets: "\<And>s. parse_address s \<noteq> None \<Longrightarrow> 2 \<le> length (filter (\<lambda>c. c = CHR '':'') s) \<Longrightarrow> starts_with ''['' s"
    and "rs_addresses s = [V6 ''fe80::1'']"
  shows "\<exists>e. connection_target_for parse_address (wifi_device_to_descriptor (resolved_to_device s)) = Inl e"
proof -
  let ?t = "''fe80::1'' @ '':'' @ show_nat (rs_port s)"
  have "parse_address ?t = None"
    using brackets[of ?t] by (cases "parse_address ?t") (simp_all add: starts_with_def)
  then show ?thesis
    using assms(2) by (simp add: connection_target_for_def wifi_device_to_descriptor_def resolved_to_device_def)
qed
end
