(* ===== verification/BatchPlan.thy ===== *)
theory BatchPlan
  imports Runtime TransferFacts Batch Texts
begin

text \<open>
  Transfers of many files through the application runtime: \<open>batch_download\<close>, \<open>batch_upload\<close>,
  \<open>start_batch_transfer\<close>, \<open>execute_file_plan\<close> and the background task of \<open>start_batch_plan\<close> of
  \<open>handshaker-application/src/runtime.rs\<close>. The core calls are those of \<open>Batch\<close>. One call is a
  record of what it meets: the state of the phone, the run of its batch, the time it returns and
  what others do to the runtime meanwhile.
\<close>

section \<open>Requests and results\<close>

record TreeTransferDto =
  tt_source :: string
  tt_target :: string

record BatchTransferRequest =
  bq_session_id :: nat
  bq_files :: "BatchTransferItemDto list"
  bq_trees :: "TreeTransferDto list"
  bq_overwrite :: bool

record ExecuteFilePlanRequest =
  xp_plan :: FileOperationPlan
  xp_overwrite :: bool
  xp_concurrency :: nat

text \<open>The options of a batch without the progress callback, which is never given; a token is present
  or not.\<close>

record BatchTransferOptions =
  bo_overwrite :: bool
  bo_offset :: nat
  bo_concurrency :: nat
  bo_cancel :: bool

definition core_batch_items :: "BatchTransferItemDto list \<Rightarrow> BatchTransferItem list" where
  "core_batch_items items = map (\<lambda>item. \<lparr>bi_source = bid_source item, bi_target = bid_target item\<rparr>) items"

definition batch_options :: "BatchTransferRequest \<Rightarrow> BatchTransferOptions" where
  "batch_options req =
     \<lparr>bo_overwrite = bq_overwrite req, bo_offset = 0, bo_concurrency = 1, bo_cancel = False\<rparr>"

definition plan_options :: "bool \<Rightarrow> nat \<Rightarrow> BatchTransferOptions" where
  "plan_options overwrite concurrency =
     \<lparr>bo_overwrite = overwrite, bo_offset = 0, bo_concurrency = concurrency, bo_cancel = True\<rparr>"

definition empty_batch :: BatchTransferResult where
  "empty_batch = \<lparr>br_ok = [], br_failures = []\<rparr>"

definition merge_core_batch :: "BatchTransferResult \<Rightarrow> BatchTransferResult \<Rightarrow> BatchTransferResult" where
  "merge_core_batch target partial =
     \<lparr>br_ok = br_ok target @ br_ok partial, br_failures = br_failures target @ br_failures partial\<rparr>"

definition batch_result_to_dto :: "BatchTransferResult \<Rightarrow> BatchTransferResultDto" where
  "batch_result_to_dto result =
     \<lparr>brd_ok = map (\<lambda>item. \<lparr>bid_source = bi_source item, bid_target = bi_target item\<rparr>) (br_ok result),
      brd_failures = map (\<lambda>failure. \<lparr>tfd_source = bf_source failure, tfd_target = bf_target failure,
        tfd_message = bf_message failure\<rparr>) (br_failures result)\<rparr>"

section \<open>Core calls\<close>

record 'p plan_call =
  pl_phone :: 'p
  pl_events :: "batch_event list"
  pl_now :: nat
  pl_meanwhile :: "RuntimeInner \<Rightarrow> RuntimeInner"

text \<open>The core client behind the session with the local file system it works on.\<close>

record 'p plan_core =
  pc_client :: "'p client"
  pc_mkdir :: "path \<Rightarrow> bool"
  pc_tree :: "string \<Rightarrow> (string \<times> dir_entry) list option"

text \<open>\<open>upload_many\<close> and \<open>download_many\<close>: without a token a batch meets no cancellation. \<open>None\<close> if
  the events do not make up a whole run.\<close>

definition core_many ::
  "BatchTransferOptions \<Rightarrow> BatchTransferItem list \<Rightarrow> batch_event list \<Rightarrow> BatchTransferResult core_result option" where
  "core_many options items evs =
     map_option fst (batch_transfer (bo_concurrency options) items
       (if bo_cancel options then evs else filter (\<lambda>ev. ev \<noteq> CancelBatch) evs))"

definition core_tree ::
  "'p plan_core \<Rightarrow> TransferDirectionDto \<Rightarrow> BatchTransferOptions \<Rightarrow> TreeTransferDto \<Rightarrow> 'p plan_call
   \<Rightarrow> BatchTransferResult core_result option" where
  "core_tree core direction options tree call =
     (case (case direction of
              DownloadDto \<Rightarrow> fst (download_tree (pc_client core) (pc_mkdir core) (tt_source tree)
                               (components (tt_target tree)) (pl_phone call))
            | UploadDto \<Rightarrow> fst (upload_tree (pc_client core) (components (tt_source tree)) (tt_target tree)
                             (pc_tree core (tt_source tree)) (pl_phone call))) of
        Inl e \<Rightarrow> Some (Inl e)
      | Inr items \<Rightarrow> core_many options items (pl_events call))"

section \<open>Batches the caller waits for\<close>

text \<open>The loop over the trees; \<open>calls\<close> are the core calls in order.\<close>

fun batch_trees ::
  "(core_error \<Rightarrow> string) \<Rightarrow> 'p plan_core \<Rightarrow> TransferDirectionDto \<Rightarrow> BatchTransferOptions \<Rightarrow> string
   \<Rightarrow> (nat \<Rightarrow> 'p plan_call) \<Rightarrow> nat \<Rightarrow> TreeTransferDto list \<Rightarrow> BatchTransferResult
   \<Rightarrow> BatchTransferResult app_result option" where
  "batch_trees display core direction options operation calls k [] result = Some (Inr result)"
| "batch_trees display core direction options operation calls k (tree # trees) result =
     (case core_tree core direction options tree (calls k) of
        None \<Rightarrow> None
      | Some outcome \<Rightarrow>
          (case map_core display operation outcome of
             Inl e \<Rightarrow> Some (Inl e)
           | Inr partial \<Rightarrow> batch_trees display core direction options operation calls (Suc k) trees
                              (merge_core_batch result partial)))"

definition run_batch ::
  "(core_error \<Rightarrow> string) \<Rightarrow> 'p plan_core \<Rightarrow> TransferDirectionDto \<Rightarrow> BatchTransferOptions \<Rightarrow> string
   \<Rightarrow> (nat \<Rightarrow> 'p plan_call) \<Rightarrow> TreeTransferDto list \<Rightarrow> BatchTransferItemDto list
   \<Rightarrow> BatchTransferResultDto app_result option" where
  "run_batch display core direction options operation calls trees files =
     (case batch_trees display core direction options operation calls 0 trees empty_batch of
        None \<Rightarrow> None
      | Some (Inl e) \<Rightarrow> Some (Inl e)
      | Some (Inr result) \<Rightarrow>
          (case core_many options (core_batch_items files) (pl_events (calls (length trees))) of
             None \<Rightarrow> None
           | Some outcome \<Rightarrow>
               (case map_core display operation outcome of
                  Inl e \<Rightarrow> Some (Inl e)
                | Inr partial \<Rightarrow> Some (Inr (batch_result_to_dto (merge_core_batch result partial))))))"

definition resolve_source_file :: "string \<Rightarrow> BatchTransferItemDto \<Rightarrow> BatchTransferItemDto" where
  "resolve_source_file root item = item\<lparr>bid_source := resolve_remote_path root (bid_source item)\<rparr>"

definition resolve_target_file :: "string \<Rightarrow> BatchTransferItemDto \<Rightarrow> BatchTransferItemDto" where
  "resolve_target_file root item = item\<lparr>bid_target := resolve_remote_path root (bid_target item)\<rparr>"

definition resolve_source_tree :: "string \<Rightarrow> TreeTransferDto \<Rightarrow> TreeTransferDto" where
  "resolve_source_tree root tree = tree\<lparr>tt_source := resolve_remote_path root (tt_source tree)\<rparr>"

definition resolve_target_tree :: "string \<Rightarrow> TreeTransferDto \<Rightarrow> TreeTransferDto" where
  "resolve_target_tree root tree = tree\<lparr>tt_target := resolve_remote_path root (tt_target tree)\<rparr>"

text \<open>What others do while the core calls are under way does not enter the result, so the runtime
  returned is the one after the activity of the session is recorded.\<close>

definition batch_download ::
  "(core_error \<Rightarrow> string) \<Rightarrow> 'p plan_core \<Rightarrow> (nat \<Rightarrow> 'p plan_call) \<Rightarrow> nat \<Rightarrow> BatchTransferRequest \<Rightarrow> RuntimeInner
   \<Rightarrow> (BatchTransferResultDto app_result \<times> RuntimeInner) option" where
  "batch_download display core calls now req r =
     (case and_then (ensure_open r) (\<lambda>_. session_handle (bq_session_id req) r) of
        Inl e \<Rightarrow> Some (Inl e, r)
      | Inr _ \<Rightarrow>
          (let root = root_path (pc_client core) in
           map_option (\<lambda>result. (result, record_activity now (bq_session_id req) r))
             (run_batch display core DownloadDto (batch_options req) ''batch_download'' calls
               (map (resolve_source_tree root) (bq_trees req))
               (map (resolve_source_file root) (bq_files req)))))"

definition batch_upload ::
  "(core_error \<Rightarrow> string) \<Rightarrow> 'p plan_core \<Rightarrow> (nat \<Rightarrow> 'p plan_call) \<Rightarrow> nat \<Rightarrow> BatchTransferRequest \<Rightarrow> RuntimeInner
   \<Rightarrow> (BatchTransferResultDto app_result \<times> RuntimeInner) option" where
  "batch_upload display core calls now req r =
     (case and_then (ensure_open r) (\<lambda>_. session_handle (bq_session_id req) r) of
        Inl e \<Rightarrow> Some (Inl e, r)
      | Inr _ \<Rightarrow>
          (let root = root_path (pc_client core) in
           map_option (\<lambda>result. (result, record_activity now (bq_session_id req) r))
             (run_batch display core UploadDto (batch_options req) ''batch_upload'' calls
               (map (resolve_target_tree root) (bq_trees req))
               (map (resolve_target_file root) (bq_files req)))))"

section \<open>Plans as background transfers\<close>

definition plan_files :: "FileOperationPlan \<Rightarrow> BatchTransferItemDto list" where
  "plan_files plan = map (\<lambda>item. \<lparr>bid_source = fi_source item, bid_target = fi_destination item\<rparr>)
     (filter (\<lambda>item. \<not> fi_is_directory item) (fp_items plan))"

definition plan_trees :: "FileOperationPlan \<Rightarrow> TreeTransferDto list" where
  "plan_trees plan = map (\<lambda>item. \<lparr>tt_source = fi_source item, tt_target = fi_destination item\<rparr>)
     (filter fi_is_directory (fp_items plan))"

definition plan_direction :: "FileOperationPlan \<Rightarrow> TransferDirectionDto" where
  "plan_direction plan = (case fp_direction plan of DownloadPlan \<Rightarrow> DownloadDto | UploadPlan \<Rightarrow> UploadDto)"

definition on_transfers :: "(TransferRegistry \<Rightarrow> TransferRegistry) \<Rightarrow> RuntimeInner \<Rightarrow> RuntimeInner" where
  "on_transfers f r = r\<lparr>ri_transfers := f (ri_transfers r)\<rparr>"

text \<open>The registration: one transfer for the whole plan, with the totals of the plan.\<close>

definition register_plan ::
  "(nat \<Rightarrow> bool) \<Rightarrow> (transfers \<Rightarrow> transfers) \<Rightarrow> nat \<Rightarrow> FileOperationPlan \<Rightarrow> TransferRegistry
   \<Rightarrow> nat \<times> TransferRegistry" where
  "register_plan task_done iter now plan reg =
     (case snapshot_for now (fp_session_id plan) (plan_direction plan)
             (join_with '', '' (map fi_source (fp_items plan)))
             (join_with '', '' (map fi_destination (fp_items plan))) reg of
        (snapshot, reg1) \<Rightarrow>
          (ts_id snapshot,
           register task_done iter now
             (snapshot\<lparr>ts_total_bytes := fp_total_bytes plan, ts_item_count := length (fp_items plan)\<rparr>) reg1))"

text \<open>The variables of the task between two of its steps.\<close>

record plan_state =
  ps_runtime :: RuntimeInner
  ps_result :: BatchTransferResult
  ps_completed_items :: nat
  ps_failed_items :: nat

fun plan_tree_loop ::
  "(core_error \<Rightarrow> string) \<Rightarrow> 'p plan_core \<Rightarrow> TransferDirectionDto \<Rightarrow> BatchTransferOptions \<Rightarrow> nat
   \<Rightarrow> (nat \<Rightarrow> 'p plan_call) \<Rightarrow> nat \<Rightarrow> TreeTransferDto list \<Rightarrow> plan_state
   \<Rightarrow> (unit app_result \<times> plan_state) option" where
  "plan_tree_loop display core direction options i calls k [] st = Some (Inr (), st)"
| "plan_tree_loop display core direction options i calls k (tree # trees) st =
     (case core_tree core direction options tree (calls k) of
        None \<Rightarrow> None
      | Some outcome \<Rightarrow>
          (let r1 = pl_meanwhile (calls k) (ps_runtime st) in
           case map_core display ''execute_file_plan'' outcome of
             Inl e \<Rightarrow> Some (Inl e, st\<lparr>ps_runtime := r1\<rparr>)
           | Inr partial \<Rightarrow>
               plan_tree_loop display core direction options i calls (Suc k) trees
                 \<lparr>ps_runtime = on_transfers (set_batch_items (pl_now (calls k)) i (ps_completed_items st + 1)
                                 (ps_failed_items st) (Some (tt_source tree))) r1,
                  ps_result = merge_core_batch (ps_result st) partial,
                  ps_completed_items = ps_completed_items st + 1,
                  ps_failed_items = ps_failed_items st\<rparr>))"

definition plan_file_part ::
  "(core_error \<Rightarrow> string) \<Rightarrow> BatchTransferOptions \<Rightarrow> nat \<Rightarrow> 'p plan_call \<Rightarrow> BatchTransferItemDto list \<Rightarrow> plan_state
   \<Rightarrow> (unit app_result \<times> plan_state) option" where
  "plan_file_part display options i call files st =
     (if files = [] then Some (Inr (), st)
      else case core_many options (core_batch_items files) (pl_events call) of
             None \<Rightarrow> None
           | Some outcome \<Rightarrow>
               (let r1 = pl_meanwhile call (ps_runtime st) in
                case map_core display ''execute_file_plan'' outcome of
                  Inl e \<Rightarrow> Some (Inl e, st\<lparr>ps_runtime := r1\<rparr>)
                | Inr partial \<Rightarrow>
                    (let completed = ps_completed_items st + length (br_ok partial);
                         failed = ps_failed_items st + length (br_failures partial)
                     in Some (Inr (),
                          \<lparr>ps_runtime = on_transfers (set_batch_items (pl_now call) i completed failed
                                          (Some (bid_source (last files)))) r1,
                           ps_result = merge_core_batch (ps_result st) partial,
                           ps_completed_items = completed, ps_failed_items = failed\<rparr>))))"

text \<open>The body of the task, from its first registry call to the outcome.\<close>

definition plan_body ::
  "(core_error \<Rightarrow> string) \<Rightarrow> 'p plan_core \<Rightarrow> bool \<Rightarrow> nat \<Rightarrow> FileOperationPlan \<Rightarrow> nat \<Rightarrow> (nat \<Rightarrow> 'p plan_call) \<Rightarrow> nat
   \<Rightarrow> RuntimeInner \<Rightarrow> (unit app_result \<times> plan_state) option" where
  "plan_body display core overwrite concurrency plan i calls now r =
     (let options = plan_options overwrite (max concurrency 1);
          st = \<lparr>ps_runtime = on_transfers (task_running now i) r, ps_result = empty_batch,
                ps_completed_items = 0, ps_failed_items = 0\<rparr>
      in case plan_tree_loop display core (plan_direction plan) options i calls 0 (plan_trees plan) st of
           None \<Rightarrow> None
         | Some (Inl e, st1) \<Rightarrow> Some (Inl e, st1)
         | Some (Inr _, st1) \<Rightarrow>
             plan_file_part display options i (calls (length (plan_trees plan))) (plan_files plan) st1)"

definition partial_error :: "bool \<Rightarrow> nat \<Rightarrow> nat \<Rightarrow> PublicError" where
  "partial_error connection_closed failures item_count =
     (public_error_new (if connection_closed then ConnectionLost else PublicRemoteIo)
        (show_nat failures @ '' file(s) failed across '' @ show_nat item_count @ '' plan items''))
       \<lparr>pe_operation := Some ''execute_file_plan''\<rparr>"

text \<open>What the task does with the outcome.\<close>

definition plan_finish ::
  "FileOperationPlan \<Rightarrow> nat \<Rightarrow> nat \<Rightarrow> unit app_result \<times> plan_state \<Rightarrow> RuntimeInner" where
  "plan_finish plan i now body =
     (case body of (outcome, st) \<Rightarrow>
        let r = ps_runtime st; result = ps_result st;
            lost = (\<lambda>closed r'. if closed then mark_connection_lost now (fp_session_id plan) r' else r')
        in case outcome of
             Inr _ \<Rightarrow>
               if br_failures result = []
               then on_transfers (\<lambda>reg.
                      transition_published now i Completed
                        (set_batch_result i (batch_result_to_dto result)
                          (case fp_total_bytes plan of
                             None \<Rightarrow> reg
                           | Some tot \<Rightarrow> set_progress now i tot tot reg))) r
               else (let connection_closed = list_ex (\<lambda>f. bf_code f = Some TransportCode) (br_failures result)
                     in lost connection_closed
                          (on_transfers (\<lambda>reg.
                             transition_published now i Failed
                               (set_batch_result i (batch_result_to_dto result)
                                 (set_error i (partial_error connection_closed (length (br_failures result))
                                    (length (fp_items plan))) reg))) r))
           | Inl e \<Rightarrow>
               if pe_code e = TransferCancelled then on_transfers (publish_current i) r
               else lost (connection_lost_code (pe_code e))
                      (on_transfers (\<lambda>reg.
                         transition_published now i Failed
                           (set_error i e (set_batch_result i (batch_result_to_dto result) reg))) r))"

definition start_batch_plan ::
  "(nat \<Rightarrow> bool) \<Rightarrow> (transfers \<Rightarrow> transfers) \<Rightarrow> nat \<Rightarrow> ExecuteFilePlanRequest \<Rightarrow> RuntimeInner
   \<Rightarrow> nat app_result \<times> RuntimeInner" where
  "start_batch_plan task_done iter now req r =
     (let session_id = fp_session_id (xp_plan req) in
      case session_handle session_id r of
        Inl e \<Rightarrow> (Inl e, r)
      | Inr _ \<Rightarrow>
          (let r1 = record_activity now session_id r in
           case register_plan task_done iter now (xp_plan req) (ri_transfers r1) of
             (i, reg) \<Rightarrow> (Inr i, r1\<lparr>ri_transfers := reg\<rparr>)))"

definition execute_file_plan ::
  "(nat \<Rightarrow> bool) \<Rightarrow> (transfers \<Rightarrow> transfers) \<Rightarrow> nat \<Rightarrow> ExecuteFilePlanRequest \<Rightarrow> RuntimeInner
   \<Rightarrow> nat app_result \<times> RuntimeInner" where
  "execute_file_plan task_done iter now req r =
     (case ensure_open r of
        Inl e \<Rightarrow> (Inl e, r)
      | Inr _ \<Rightarrow>
          if \<not> is_executable_with (xp_plan req) (xp_overwrite req)
          then (Inl ((public_error_new InvalidState ''plan contains unresolved conflicts for the given options'')
                       \<lparr>pe_operation := Some ''execute_file_plan''\<rparr>), r)
          else (case session_handle (fp_session_id (xp_plan req)) r of
                  Inl e \<Rightarrow> (Inl e, r)
                | Inr _ \<Rightarrow> start_batch_plan task_done iter now req r))"

definition batch_item :: "bool \<Rightarrow> string \<Rightarrow> string \<Rightarrow> FilePlanItem" where
  "batch_item directory source destination =
     \<lparr>fi_source = source, fi_destination = destination, fi_is_directory = directory, fi_size = None\<rparr>"

definition batch_plan_items :: "FilePlanDirection \<Rightarrow> string \<Rightarrow> BatchTransferRequest \<Rightarrow> FilePlanItem list" where
  "batch_plan_items direction root req =
     (case direction of
        DownloadPlan \<Rightarrow>
          map (\<lambda>f. batch_item False (resolve_remote_path root (bid_source f)) (bid_target f)) (bq_files req) @
          map (\<lambda>t. batch_item True (resolve_remote_path root (tt_source t)) (tt_target t)) (bq_trees req)
      | UploadPlan \<Rightarrow>
          map (\<lambda>f. batch_item False (bid_source f) (resolve_remote_path root (bid_target f))) (bq_files req) @
          map (\<lambda>t. batch_item True (tt_source t) (resolve_remote_path root (tt_target t))) (bq_trees req))"

fun count_items :: "nat \<times> nat \<Rightarrow> FilePlanItem \<Rightarrow> nat \<times> nat" where
  "count_items (files, dirs) item = (if fi_is_directory item then (files, dirs + 1) else (files + 1, dirs))"

definition batch_request_plan :: "FilePlanDirection \<Rightarrow> string \<Rightarrow> BatchTransferRequest \<Rightarrow> FileOperationPlan" where
  "batch_request_plan direction root req =
     (let items = batch_plan_items direction root req;
          (file_count, directory_count) = foldl count_items (0, 0) items
      in \<lparr>fp_direction = direction, fp_session_id = bq_session_id req, fp_items = items,
          fp_conflicts = [], fp_file_count = file_count, fp_directory_count = directory_count,
          fp_total_bytes = None, fp_requires_recursive = (directory_count > 0), fp_executable = True\<rparr>)"

definition start_batch_transfer ::
  "string \<Rightarrow> (nat \<Rightarrow> bool) \<Rightarrow> (transfers \<Rightarrow> transfers) \<Rightarrow> nat \<Rightarrow> BatchTransferRequest \<Rightarrow> FilePlanDirection \<Rightarrow> RuntimeInner
   \<Rightarrow> nat app_result \<times> RuntimeInner" where
  "start_batch_transfer root task_done iter now req direction r =
     (case and_then (ensure_open r) (\<lambda>_. session_handle (bq_session_id req) r) of
        Inl e \<Rightarrow> (Inl e, r)
      | Inr _ \<Rightarrow>
          execute_file_plan task_done iter now
            \<lparr>xp_plan = batch_request_plan direction root req, xp_overwrite = bq_overwrite req, xp_concurrency = 1\<rparr>
            (record_activity now (bq_session_id req) r))"

definition start_batch_download ::
  "string \<Rightarrow> (nat \<Rightarrow> bool) \<Rightarrow> (transfers \<Rightarrow> transfers) \<Rightarrow> nat \<Rightarrow> BatchTransferRequest \<Rightarrow> RuntimeInner
   \<Rightarrow> nat app_result \<times> RuntimeInner" where
  "start_batch_download root task_done iter now req r =
     start_batch_transfer root task_done iter now req DownloadPlan r"

definition start_batch_upload ::
  "string \<Rightarrow> (nat \<Rightarrow> bool) \<Rightarrow> (transfers \<Rightarrow> transfers) \<Rightarrow> nat \<Rightarrow> BatchTransferRequest \<Rightarrow> RuntimeInner
   \<Rightarrow> nat app_result \<times> RuntimeInner" where
  "start_batch_upload root task_done iter now req r =
     start_batch_transfer root task_done iter now req UploadPlan r"

section \<open>Items are counted once\<close>

lemma core_many_accounts:
  assumes "core_many options items evs = Some (Inr result)"
  shows "accounted result = mset (map item_key items)"
proof -
  obtain evs' st where run: "batch_steps (bo_concurrency options) (length items) evs' (batch_start items) = Some st"
    and over: "batch_over st" and r: "result = bb_result st"
    using assms
    by (auto simp: core_many_def batch_transfer_def batch_return_def split: option.splits if_splits)
  have "batch_inv (bo_concurrency options) items st" using batch_steps_inv[OF batch_start_inv run] .
  then show ?thesis using over r by (simp add: batch_inv_def batch_over_def)
qed

lemma accounted_size: "size (accounted result) = length (br_ok result) + length (br_failures result)"
  by (simp add: accounted_def)

lemma core_many_length:
  assumes "core_many options items evs = Some (Inr result)"
  shows "length (br_ok result) + length (br_failures result) = length items"
  using arg_cong[OF core_many_accounts[OF assms], of size] by (simp add: accounted_size)

lemma accounted_merge [simp]: "accounted (merge_core_batch a b) = accounted a + accounted b"
  by (simp add: accounted_def merge_core_batch_def)

lemma merge_empty: "merge_core_batch result \<lparr>br_ok = [], br_failures = []\<rparr> = result"
  by (cases result) (simp add: merge_core_batch_def)

lemma map_core_simps [simp]:
  "map_core display operation (Inr x) = Inr x"
  "map_core display operation (Inl e) = Inl (from_core_error display e operation)"
  by (simp_all add: map_core_def)

lemma plan_split: "length (plan_trees plan) + length (plan_files plan) = length (fp_items plan)"
  by (simp add: plan_trees_def plan_files_def sum_length_filter_compl)

lemma plan_tree_loop_counts:
  assumes "plan_tree_loop display core direction options i calls k trees st = Some (outcome, st')"
  shows "ps_failed_items st' = ps_failed_items st \<and>
    (case outcome of
       Inr _ \<Rightarrow> ps_completed_items st' = ps_completed_items st + length trees
     | Inl _ \<Rightarrow> ps_completed_items st' < ps_completed_items st + length trees)"
  using assms
proof (induction trees arbitrary: k st)
  case (Cons tree trees)
  then obtain result where call: "core_tree core direction options tree (calls k) = Some result"
    by (auto split: option.splits)
  show ?case
  proof (cases result)
    case (Inr partial)
    then show ?thesis using Cons.prems call Cons.IH by (fastforce simp: Let_def split: sum.splits)
  qed (use Cons.prems call in \<open>auto simp: Let_def\<close>)
qed auto

lemma plan_file_part_counts:
  assumes "plan_file_part display options i call files st = Some (outcome, st')"
  shows "case outcome of
       Inr _ \<Rightarrow> ps_completed_items st' + ps_failed_items st' =
                 ps_completed_items st + ps_failed_items st + length files \<and>
               accounted (ps_result st') = accounted (ps_result st) + mset (map item_key (core_batch_items files))
     | Inl _ \<Rightarrow> ps_completed_items st' = ps_completed_items st \<and> ps_failed_items st' = ps_failed_items st"
proof (cases "files = []")
  case True
  then show ?thesis using assms by (auto simp: plan_file_part_def core_batch_items_def)
next
  case False
  then obtain result where call: "core_many options (core_batch_items files) (pl_events call) = Some result"
    using assms by (auto simp: plan_file_part_def split: option.splits)
  show ?thesis
  proof (cases result)
    case (Inr partial)
    note facts = core_many_accounts[OF call[unfolded Inr]] core_many_length[OF call[unfolded Inr]]
    show ?thesis
      using assms False call Inr facts by (auto simp: plan_file_part_def Let_def core_batch_items_def)
  qed (use assms False call in \<open>auto simp: plan_file_part_def Let_def\<close>)
qed

definition plan_start :: "nat \<Rightarrow> nat \<Rightarrow> RuntimeInner \<Rightarrow> plan_state" where
  "plan_start now i r = \<lparr>ps_runtime = on_transfers (task_running now i) r, ps_result = empty_batch,
                         ps_completed_items = 0, ps_failed_items = 0\<rparr>"

lemma plan_body_cases:
  assumes "plan_body display core overwrite concurrency plan i calls now r = Some (outcome, st)"
  obtains (tree) e where "outcome = Inl e"
      "plan_tree_loop display core (plan_direction plan) (plan_options overwrite (max concurrency 1)) i calls 0
         (plan_trees plan) (plan_start now i r) = Some (Inl e, st)"
  | (files) st1 where
      "plan_tree_loop display core (plan_direction plan) (plan_options overwrite (max concurrency 1)) i calls 0
         (plan_trees plan) (plan_start now i r) = Some (Inr (), st1)"
      "plan_file_part display (plan_options overwrite (max concurrency 1)) i (calls (length (plan_trees plan)))
         (plan_files plan) st1 = Some (outcome, st)"
  using assms by (auto simp: plan_body_def plan_start_def Let_def split: option.splits sum.splits)

lemma plan_body_counts:
  assumes "plan_body display core overwrite concurrency plan i calls now r = Some (outcome, st)"
  shows "case outcome of
      Inr _ \<Rightarrow> ps_completed_items st + ps_failed_items st = length (fp_items plan)
    | Inl _ \<Rightarrow> ps_completed_items st + ps_failed_items st < length (fp_items plan)"
  using assms
proof (cases rule: plan_body_cases)
  case (tree e)
  then show ?thesis using plan_tree_loop_counts[OF tree(2)] plan_split[of plan] by (simp add: plan_start_def)
next
  case (files st1)
  have nonempty: "plan_files plan \<noteq> []" if "outcome = Inl e" for e
    using files(2) that by (auto simp: plan_file_part_def)
  show ?thesis
    using plan_tree_loop_counts[OF files(1)] plan_file_part_counts[OF files(2)] plan_split[of plan] nonempty
    by (cases outcome) (auto simp: plan_start_def simp flip: length_greater_0_conv)
qed

text \<open>On success the registry holds the final counts, unless the plan is empty.\<close>

lemma set_batch_items_get:
  "bt_get (tr_transfers (set_batch_items now i completed failed current reg)) i = Some e \<Longrightarrow>
   ts_completed_items (at_snapshot e) = completed \<and> ts_failed_items (at_snapshot e) = failed"
  by (auto simp: set_batch_items_def throttled_update_def update_entry_get Let_def
      split: option.splits if_splits prod.splits)

lemma on_transfers_get [simp]: "ri_transfers (on_transfers f r) = f (ri_transfers r)"
  by (simp add: on_transfers_def)

definition counted :: "nat \<Rightarrow> plan_state \<Rightarrow> bool" where
  "counted i st \<longleftrightarrow> (\<forall>e. bt_get (tr_transfers (ri_transfers (ps_runtime st))) i = Some e \<longrightarrow>
     ts_completed_items (at_snapshot e) = ps_completed_items st \<and>
     ts_failed_items (at_snapshot e) = ps_failed_items st)"

lemma plan_tree_loop_counted:
  assumes "plan_tree_loop display core direction options i calls k trees st = Some (Inr u, st')"
    and "trees \<noteq> [] \<or> counted i st"
  shows "counted i st'"
  using assms
proof (induction trees arbitrary: k st)
  case (Cons tree trees)
  obtain outcome where call: "core_tree core direction options tree (calls k) = Some outcome"
    using Cons.prems(1) by (auto split: option.splits)
  then obtain partial where "map_core display ''execute_file_plan'' outcome = Inr partial"
    using Cons.prems(1) by (auto simp: Let_def split: sum.splits)
  with Cons.prems(1) call show ?case
    by (auto simp: Let_def intro!: Cons.IH disjI2) (auto simp: counted_def dest: set_batch_items_get)
qed simp

lemma plan_body_counted:
  assumes "plan_body display core overwrite concurrency plan i calls now r = Some (Inr u, st)"
    and "fp_items plan \<noteq> []"
  shows "counted i st"
  using assms(1)
proof (cases rule: plan_body_cases)
  case (files st1)
  show ?thesis
  proof (cases "plan_files plan = []")
    case True
    then have "plan_trees plan \<noteq> []" using assms(2) plan_split[of plan] by auto
    then show ?thesis using plan_tree_loop_counted[OF files(1)] files(2) True by (simp add: plan_file_part_def)
  next
    case False
    then show ?thesis
      using files(2) set_batch_items_get
      by (auto simp: plan_file_part_def counted_def Let_def split: option.splits sum.splits)
  qed
qed simp

section \<open>How a plan ends\<close>

text \<open>The final state of a plan by what its body returned, for a transfer nobody ended before.\<close>

definition plan_final :: "unit app_result \<Rightarrow> plan_state \<Rightarrow> TransferState" where
  "plan_final outcome st =
     (case outcome of Inr _ \<Rightarrow> if br_failures (ps_result st) = [] then Completed else Failed | Inl _ \<Rightarrow> Failed)"

text \<open>A snapshot that has gone through the end of a task: ended, with the result attached, unless it
  was ended already; the counters stay.\<close>

definition ended_by ::
  "TransferState \<Rightarrow> BatchTransferResultDto \<Rightarrow> TransferSnapshot \<Rightarrow> TransferSnapshot \<Rightarrow> bool" where
  "ended_by final result s s' \<longleftrightarrow>
     (if terminal (ts_state s)
      then ts_state s' = ts_state s \<and> ts_batch_result s' = ts_batch_result s
      else ts_state s' = final \<and> ts_batch_result s' = Some result) \<and>
     ts_completed_items s' = ts_completed_items s \<and> ts_failed_items s' = ts_failed_items s"

lemma lost_keeps_ended:
  assumes "transfers_ok (ri_transfers r)" "bt_get (tr_transfers (ri_transfers r)) i = Some e"
    and "terminal (ts_state (at_snapshot e))"
  shows "\<exists>e'. bt_get (tr_transfers (ri_transfers (mark_connection_lost now session r))) i = Some e' \<and>
    at_snapshot e' = at_snapshot e"
proof (cases "lost_begin session r")
  case None
  then show ?thesis using assms(2) by (simp add: mark_connection_lost_def)
next
  case (Some p)
  then obtain snap r1 where p: "lost_begin session r = Some (snap, r1)" by (cases p) auto
  then have "ri_transfers r1 = ri_transfers r"
    by (auto simp: lost_begin_def Let_def split: option.splits if_splits)
  then have "ri_transfers (mark_connection_lost now session r) =
      fst (cancel_for_session now session (ri_transfers r))"
    using p by (simp add: mark_connection_lost_def lost_finish_def runtime_publish_def Let_def)
  then show ?thesis
    using cancel_for_session_get[OF assms(1,2), of now session] assms(3) by (simp add: cancelled_entry_def)
qed

lemma lost_if_ended:
  assumes "transfers_ok (ri_transfers r)" "bt_get (tr_transfers (ri_transfers r)) i = Some e1"
    and "terminal (ts_state (at_snapshot e1))" "ended_by final d s (at_snapshot e1)"
  shows "\<exists>e'. bt_get (tr_transfers (ri_transfers (if c then mark_connection_lost now session r else r))) i = Some e' \<and>
    ended_by final d s (at_snapshot e')"
proof -
  obtain e2 where "bt_get (tr_transfers (ri_transfers (mark_connection_lost now session r))) i = Some e2"
    "at_snapshot e2 = at_snapshot e1"
    using lost_keeps_ended[OF assms(1-3)] by blast
  then show ?thesis using assms(2,4) by (cases c) auto
qed

lemma finished_ok:
  assumes "transfers_ok reg" "terminal final"
  shows "transfers_ok (transition_published now i final (set_batch_result i d (set_error i err reg)))"
    and "transfers_ok (transition_published now i final (set_error i err (set_batch_result i d reg)))"
  using assms
  by (meson kept_ok kept_set_batch_result kept_set_error kept_transition_published)+

lemma finished_get:
  assumes "bt_get (tr_transfers reg) i = Some e" "terminal final"
  shows "\<exists>e'. bt_get (tr_transfers (transition_published now i final (set_batch_result i d (set_error i err reg)))) i = Some e' \<and>
      terminal (ts_state (at_snapshot e')) \<and> ended_by final d (at_snapshot e) (at_snapshot e')"
    and "\<exists>e'. bt_get (tr_transfers (transition_published now i final (set_error i err (set_batch_result i d reg)))) i = Some e' \<and>
      terminal (ts_state (at_snapshot e')) \<and> ended_by final d (at_snapshot e) (at_snapshot e')"
  using assms
  by (auto simp: transition_published_transfers transition_cases update_entry_get set_error_def set_batch_result_def
      transition_snapshot_def ended_by_def Let_def)

lemma completed_get:
  assumes "bt_get (tr_transfers reg) i = Some e"
    and "reg1 = (case tot of None \<Rightarrow> reg | Some t \<Rightarrow> set_progress now i t t reg)"
  shows "\<exists>e'. bt_get (tr_transfers (transition_published now i Completed (set_batch_result i d reg1))) i = Some e' \<and>
      ended_by Completed d (at_snapshot e) (at_snapshot e')"
proof -
  obtain e1 where e1: "bt_get (tr_transfers reg1) i = Some e1"
    "terminal (ts_state (at_snapshot e1)) = terminal (ts_state (at_snapshot e))"
    "terminal (ts_state (at_snapshot e)) \<Longrightarrow> ts_state (at_snapshot e1) = ts_state (at_snapshot e)"
    "ts_batch_result (at_snapshot e1) = ts_batch_result (at_snapshot e)"
    "ts_completed_items (at_snapshot e1) = ts_completed_items (at_snapshot e)"
    "ts_failed_items (at_snapshot e1) = ts_failed_items (at_snapshot e)"
    using assms
    by (cases tot) (auto simp: set_progress_def throttled_update_def update_entry_get Let_def split: prod.splits)
  then show ?thesis
    by (auto simp: transition_published_transfers transition_cases update_entry_get set_batch_result_def
        transition_snapshot_def ended_by_def Let_def)
qed

lemma plan_finish_ended:
  assumes ok: "transfers_ok (ri_transfers (ps_runtime st))"
    and e: "bt_get (tr_transfers (ri_transfers (ps_runtime st))) i = Some e"
    and live: "\<And>err. outcome = Inl err \<Longrightarrow> pe_code err \<noteq> TransferCancelled"
  shows "\<exists>e'. bt_get (tr_transfers (ri_transfers (plan_finish plan i now (outcome, st)))) i = Some e' \<and>
     ended_by (plan_final outcome st) (batch_result_to_dto (ps_result st)) (at_snapshot e) (at_snapshot e')"
proof (cases outcome)
  case (Inr u)
  show ?thesis
  proof (cases "br_failures (ps_result st) = []")
    case True
    then show ?thesis
      using Inr completed_get[OF e refl] by (simp add: plan_finish_def plan_final_def Let_def)
  next
    case False
    let ?c = "list_ex (\<lambda>f. bf_code f = Some TransportCode) (br_failures (ps_result st))"
    let ?r = "on_transfers (\<lambda>reg. transition_published now i Failed
        (set_batch_result i (batch_result_to_dto (ps_result st))
          (set_error i (partial_error ?c (length (br_failures (ps_result st))) (length (fp_items plan))) reg)))
        (ps_runtime st)"
    obtain e1 where e1: "bt_get (tr_transfers (ri_transfers ?r)) i = Some e1" "terminal (ts_state (at_snapshot e1))"
      "ended_by Failed (batch_result_to_dto (ps_result st)) (at_snapshot e) (at_snapshot e1)"
      using finished_get(1)[OF e, of Failed] by fastforce
    have "transfers_ok (ri_transfers ?r)" using finished_ok(1)[OF ok, of Failed] by simp
    from lost_if_ended[OF this e1, of ?c now "fp_session_id plan"] show ?thesis
      using Inr False by (simp add: plan_finish_def plan_final_def Let_def)
  qed
next
  case (Inl err)
  let ?r = "on_transfers (\<lambda>reg. transition_published now i Failed
      (set_error i err (set_batch_result i (batch_result_to_dto (ps_result st)) reg))) (ps_runtime st)"
  obtain e1 where e1: "bt_get (tr_transfers (ri_transfers ?r)) i = Some e1" "terminal (ts_state (at_snapshot e1))"
    "ended_by Failed (batch_result_to_dto (ps_result st)) (at_snapshot e) (at_snapshot e1)"
    using finished_get(2)[OF e, of Failed] by fastforce
  have "transfers_ok (ri_transfers ?r)" using finished_ok(2)[OF ok, of Failed] by simp
  from lost_if_ended[OF this e1, of "connection_lost_code (pe_code err)" now "fp_session_id plan"] show ?thesis
    using Inl live by (simp add: plan_finish_def plan_final_def Let_def)
qed


section \<open>The background batch is the blocking batch\<close>

lemma batch_plan_parts:
  "plan_files (batch_request_plan DownloadPlan root req) = map (resolve_source_file root) (bq_files req)"
  "plan_trees (batch_request_plan DownloadPlan root req) = map (resolve_source_tree root) (bq_trees req)"
  "plan_files (batch_request_plan UploadPlan root req) = map (resolve_target_file root) (bq_files req)"
  "plan_trees (batch_request_plan UploadPlan root req) = map (resolve_target_tree root) (bq_trees req)"
  by (auto simp: plan_files_def plan_trees_def batch_request_plan_def batch_plan_items_def batch_item_def
      resolve_source_file_def resolve_source_tree_def resolve_target_file_def resolve_target_tree_def
      Let_def o_def split: prod.split)

lemma plan_direction_batch [simp]:
  "plan_direction (batch_request_plan DownloadPlan root req) = DownloadDto"
  "plan_direction (batch_request_plan UploadPlan root req) = UploadDto"
  by (simp_all add: plan_direction_def batch_request_plan_def Let_def split: prod.split)

lemma core_many_untouched:
  assumes "CancelBatch \<notin> set evs"
  shows "core_many (plan_options overwrite 1) items evs = core_many (batch_options req) items evs"
proof -
  have "filter (\<lambda>ev. ev \<noteq> CancelBatch) evs = evs" using assms by (auto simp: filter_id_conv)
  then show ?thesis by (simp add: core_many_def plan_options_def batch_options_def)
qed

lemma core_tree_untouched:
  assumes "CancelBatch \<notin> set (pl_events call)"
  shows "core_tree core direction (plan_options overwrite 1) tree call =
    core_tree core direction (batch_options req) tree call"
  using core_many_untouched[OF assms, of overwrite _ req] by (simp add: core_tree_def cong: sum.case_cong)

lemma plan_tree_loop_batch:
  assumes "plan_tree_loop display core direction (plan_options overwrite 1) i calls k trees st = Some (Inr u, st')"
    and "\<And>j. CancelBatch \<notin> set (pl_events (calls j))"
  shows "batch_trees display core direction (batch_options req) operation calls k trees (ps_result st) =
    Some (Inr (ps_result st'))"
  using assms(1)
proof (induction trees arbitrary: k st)
  case (Cons tree trees)
  obtain outcome where call: "core_tree core direction (plan_options overwrite 1) tree (calls k) = Some outcome"
    using Cons.prems by (auto split: option.splits)
  then obtain partial where partial: "outcome = Inr partial"
    using Cons.prems by (cases outcome) (auto simp: Let_def)
  define st1 where "st1 = \<lparr>ps_runtime = on_transfers (set_batch_items (pl_now (calls k)) i (ps_completed_items st + 1)
       (ps_failed_items st) (Some (tt_source tree))) (pl_meanwhile (calls k) (ps_runtime st)),
     ps_result = merge_core_batch (ps_result st) partial, ps_completed_items = ps_completed_items st + 1,
     ps_failed_items = ps_failed_items st\<rparr>"
  have "plan_tree_loop display core direction (plan_options overwrite 1) i calls (Suc k) trees st1 = Some (Inr u, st')"
    using Cons.prems call partial by (simp add: Let_def st1_def)
  moreover have "core_tree core direction (batch_options req) tree (calls k) = Some (Inr partial)"
    using call partial core_tree_untouched[OF assms(2), of core direction overwrite tree k req] by simp
  ultimately show ?case using Cons.IH[of "Suc k" st1] by (simp add: st1_def)
qed simp

lemma plan_body_batch:
  assumes "plan_body display core overwrite 1 plan i calls now r = Some (Inr u, st)"
    and calm: "\<And>j. CancelBatch \<notin> set (pl_events (calls j))"
    and none: "plan_files plan = [] \<Longrightarrow> pl_events (calls (length (plan_trees plan))) = []"
  shows "run_batch display core (plan_direction plan) (batch_options req) operation calls (plan_trees plan) (plan_files plan)
    = Some (Inr (batch_result_to_dto (ps_result st)))"
  using assms(1)
proof (cases rule: plan_body_cases)
  case (files st1)
  let ?call = "calls (length (plan_trees plan))"
  have trees: "batch_trees display core (plan_direction plan) (batch_options req) operation calls 0 (plan_trees plan) empty_batch
      = Some (Inr (ps_result st1))"
    using plan_tree_loop_batch[where req = req and operation = operation, OF _ calm] files(1)
    by (fastforce simp: plan_start_def)
  show ?thesis
  proof (cases "plan_files plan = []")
    case True
    then show ?thesis
      using trees none files(2)
      by (simp add: run_batch_def plan_file_part_def core_many_def batch_transfer_def batch_options_def batch_start_def
          batch_over_def batch_return_def core_batch_items_def merge_empty)
  next
    case False
    then obtain outcome where call: "core_many (plan_options overwrite 1) (core_batch_items (plan_files plan))
        (pl_events ?call) = Some outcome"
      using files(2) by (auto simp: plan_file_part_def split: option.splits)
    moreover obtain partial where "outcome = Inr partial"
      using False files(2) call by (cases outcome) (auto simp: plan_file_part_def Let_def)
    ultimately show ?thesis
      using trees files(2) False core_many_untouched[OF calm, of overwrite _ _ req]
      by (auto simp: run_batch_def plan_file_part_def Let_def)
  qed
qed simp

text \<open>C36 A batch download in the background does what the blocking one does: with the same answers
  of the phone and no cancellation, a plan made from the request whose body runs to its end attaches
  exactly the result \<open>batch_download\<close> returns.\<close>

theorem background_batch_same:
  assumes "plan_body display core (bq_overwrite req) 1 (batch_request_plan DownloadPlan (root_path (pc_client core)) req)
      i calls now r = Some (Inr (), st)"
    and "\<And>j. CancelBatch \<notin> set (pl_events (calls j))"
    and "bq_files req = [] \<Longrightarrow> pl_events (calls (length (bq_trees req))) = []"
    and "ensure_open r1 = Inr ()" "session_handle (bq_session_id req) r1 = Inr a"
  shows "batch_download display core calls now1 req r1 =
    Some (Inr (batch_result_to_dto (ps_result st)), record_activity now1 (bq_session_id req) r1)"
  using plan_body_batch[OF assms(1,2), of req "''batch_download''"] assms(3-5)
  by (simp add: batch_download_def batch_plan_parts Let_def)

section \<open>Examples\<close>

text \<open>A plan with one tree, of which the phone lists one file, and one further file.\<close>

definition sample_plan :: FileOperationPlan where
  "sample_plan = \<lparr>fp_direction = DownloadPlan, fp_session_id = 7,
     fp_items = [batch_item False ''/b'' ''y'', batch_item True ''/D'' ''x''], fp_conflicts = [],
     fp_file_count = 1, fp_directory_count = 1, fp_total_bytes = None, fp_requires_recursive = True,
     fp_executable = True\<rparr>"

definition sample_core :: "unit plan_core" where
  "sample_core = \<lparr>pc_client = listing_client [ssp_file ''/D/a'' False None], pc_mkdir = (\<lambda>_. True),
     pc_tree = (\<lambda>_. None)\<rparr>"

definition sample_call :: "batch_event list \<Rightarrow> unit plan_call" where
  "sample_call evs = \<lparr>pl_phone = (), pl_events = evs, pl_now = 60, pl_meanwhile = id\<rparr>"

definition sample_calls :: "nat core_result \<Rightarrow> nat \<Rightarrow> unit plan_call" where
  "sample_calls outcome k = sample_call [StartItem, FinishItem 0 (if k = 0 then Inr 5 else outcome)]"

definition sample_runtime :: RuntimeInner where
  "sample_runtime = \<lparr>ri_sessions = Map.empty, ri_next_session_id = 8, ri_shutting_down = False, ri_event_hub = hub_new,
     ri_transfers = sample_registry, ri_media = \<lparr>mk_epoch = 0, mk_snapshots = Map.empty\<rparr>\<rparr>"

lemmas plan_eval = sample_plan_def sample_core_def sample_call_def sample_calls_def batch_item_def plan_body_def
  plan_trees_def plan_files_def plan_direction_def plan_options_def plan_file_part_def core_tree_def core_many_def
  core_batch_items_def batch_transfer_def batch_start_def batch_over_def batch_return_def entry_outcome_def push_ok_def
  push_failure_def merge_core_batch_def empty_batch_def

lemma sample_download_tree:
  "download_tree (listing_client [ssp_file ''/D/a'' False None]) (\<lambda>_. True) ''/D'' (components ''x'') () =
     (Inr [\<lparr>bi_source = ''/D/a'', bi_target = ''x/a''\<rparr>], [[Normal ''x'']], ())"
  by (simp add: download_tree_def listing_client_def list_dir_def ask_def op_then_def session_request_def decoded_def
      client_remote_file_def ssp_file_def the_or_def trim_end_char_def tree_target_def str_strip_prefix_def
      components_def part_component_def starts_with_def escapes_def path_join_def is_absolute_def strip_prefix_def
      render_def Let_def)

lemma sample_plan_body:
  "\<exists>st. plan_body (\<lambda>_. []) sample_core False 1 sample_plan 2 (sample_calls outcome) 55 sample_runtime = Some (Inr (), st) \<and>
     ps_result st = \<lparr>br_ok = \<lparr>bi_source = ''/D/a'', bi_target = ''x/a''\<rparr> #
         (case outcome of Inr _ \<Rightarrow> [\<lparr>bi_source = ''/b'', bi_target = ''y''\<rparr>] | Inl _ \<Rightarrow> []),
       br_failures = (case outcome of Inr _ \<Rightarrow> [] | Inl e \<Rightarrow>
         [\<lparr>bf_source = ''/b'', bf_target = ''y'', bf_message = error_text e, bf_code = Some (error_code e)\<rparr>])\<rparr> \<and>
     ri_transfers (ps_runtime st) = set_batch_items 60 2 (if is_ok outcome then 2 else 1) (if is_ok outcome then 0 else 1)
       (Some ''/b'') (set_batch_items 60 2 1 0 (Some ''/D'') (task_running 55 2 sample_registry))"
  by (cases outcome) (simp_all add: plan_eval sample_download_tree sample_runtime_def Let_def numeral_2_eq_2)

lemma set_batch_items_live:
  assumes "bt_get (tr_transfers reg) i = Some e" "\<not> terminal (ts_state (at_snapshot e))"
  shows "\<exists>e'. bt_get (tr_transfers (set_batch_items now i completed failed current reg)) i = Some e' \<and>
    \<not> terminal (ts_state (at_snapshot e'))"
  using assms
  by (auto simp: set_batch_items_def throttled_update_def update_entry_get Let_def terminal_def split: prod.splits)

lemma sample_plan_entry:
  "\<exists>e. bt_get (tr_transfers (set_batch_items 60 2 c f (Some ''/b'')
       (set_batch_items 60 2 1 0 (Some ''/D'') (task_running 55 2 sample_registry)))) 2 = Some e \<and>
     \<not> terminal (ts_state (at_snapshot e))"
proof -
  obtain e where e: "bt_get (tr_transfers (task_running 55 2 sample_registry)) 2 = Some e" "\<not> terminal (ts_state (at_snapshot e))"
    using transition_get[OF sample_transfers(1), of 55 Running]
    by (auto simp: task_running_def transition_snapshot_def terminal_def)
  show ?thesis using set_batch_items_live[OF e, of 60 1 0 "Some ''/D''"] set_batch_items_live by blast
qed

lemma sample_plan_ok:
  "transfers_ok (set_batch_items 60 2 c f (Some ''/b'') (set_batch_items 60 2 1 0 (Some ''/D'')
     (task_running 55 2 sample_registry)))"
  using registries.inv_reach[OF sample_reachable] kept_ok kept_set_batch_items kept_task_running by meson


definition sample_request :: BatchTransferRequest where
  "sample_request = \<lparr>bq_session_id = 7, bq_files = [\<lparr>bid_source = ''/b'', bid_target = ''y''\<rparr>],
     bq_trees = [\<lparr>tt_source = ''/D'', tt_target = ''x''\<rparr>], bq_overwrite = False\<rparr>"

lemma sample_request_plan: "batch_request_plan DownloadPlan ''/sdcard'' sample_request = sample_plan"
proof -
  have "resolve_remote_path ''/sdcard'' ''/b'' = ''/b''" by code_simp
  moreover have "resolve_remote_path ''/sdcard'' ''/D'' = ''/D''" by code_simp
  ultimately show ?thesis
    by (simp add: sample_plan_def sample_request_def batch_request_plan_def batch_plan_items_def batch_item_def Let_def)
qed

definition sample_session :: ActiveSession where
  "sample_session = \<lparr>as_device = \<lparr>dd_id = ''s'', dd_stable_id = None, dd_display_name = None, dd_model = None,
       dd_transport = Adb, dd_transport_address = ''s'', dd_available = True, dd_adb = None, dd_usb = None\<rparr>,
     as_device_info = device_info_to_dto sample_device, as_connected_at_ms = 1, as_last_activity_at_ms = 1,
     as_state = Ready, as_event_task = True\<rparr>"

theorem background_batch_same_witness:
  "map_option fst (batch_download (\<lambda>_. []) sample_core (sample_calls (Inr 3)) 9 sample_request
      (sample_runtime\<lparr>ri_sessions := [7 \<mapsto> sample_session]\<rparr>)) =
    Some (Inr \<lparr>brd_ok = [\<lparr>bid_source = ''/D/a'', bid_target = ''x/a''\<rparr>, \<lparr>bid_source = ''/b'', bid_target = ''y''\<rparr>],
      brd_failures = []\<rparr>)"
proof -
  let ?r = "sample_runtime\<lparr>ri_sessions := [7 \<mapsto> sample_session]\<rparr>"
  have root: "root_path (pc_client sample_core) = ''/sdcard''"
    by (simp add: root_path_def sample_core_def listing_client_def sample_device_def)
  obtain st where st: "plan_body (\<lambda>_. []) sample_core (bq_overwrite sample_request) 1
      (batch_request_plan DownloadPlan (root_path (pc_client sample_core)) sample_request) 2 (sample_calls (Inr 3)) 55
      sample_runtime = Some (Inr (), st)"
    "ps_result st = \<lparr>br_ok = [\<lparr>bi_source = ''/D/a'', bi_target = ''x/a''\<rparr>, \<lparr>bi_source = ''/b'', bi_target = ''y''\<rparr>],
       br_failures = []\<rparr>"
    using sample_plan_body[of "Inr 3"] by (auto simp: root sample_request_plan) (simp add: sample_request_def)
  have "batch_download (\<lambda>_. []) sample_core (sample_calls (Inr 3)) 9 sample_request ?r =
    Some (Inr (batch_result_to_dto (ps_result st)), record_activity 9 (bq_session_id sample_request) ?r)"
    by (rule background_batch_same[OF st(1)])
       (simp_all add: sample_calls_def sample_call_def sample_request_def ensure_open_def session_handle_def
          sample_runtime_def sample_session_def)
  then show ?thesis by (simp add: st(2) batch_result_to_dto_def)
qed

section \<open>Registration and failure of trees\<close>

text \<open>A plan is one transfer of the registry: queued, with the number of its items.\<close>

lemma register_plan_present:
  assumes "transfers_ok reg" "\<And>m. set (iter m) = set m" "register_plan task_done iter now plan reg = (i, reg')"
  shows "i = tr_next_id reg \<and> transfers_ok reg' \<and> (\<exists>e. bt_get (tr_transfers reg') i = Some e \<and>
    ts_state (at_snapshot e) = Queued \<and> ts_item_count (at_snapshot e) = length (fp_items plan) \<and>
    ts_total_bytes (at_snapshot e) = fp_total_bytes plan \<and> ts_session_id (at_snapshot e) = fp_session_id plan)"
proof -
  define s where "s = (fst (snapshot_for now (fp_session_id plan) (plan_direction plan)
      (join_with '', '' (map fi_source (fp_items plan))) (join_with '', '' (map fi_destination (fp_items plan))) reg))
      \<lparr>ts_total_bytes := fp_total_bytes plan, ts_item_count := length (fp_items plan)\<rparr>"
  define entry where "entry = \<lparr>at_snapshot = s, at_cancelled = False, at_join = Reserved,
      at_throttle = \<lparr>pt_last_emit_ms = 0, pt_last_emit_bytes = 0\<rparr>\<rparr>"
  define reg1 where "reg1 = reg\<lparr>tr_next_id := tr_next_id reg + 1,
      tr_transfers := bt_insert (tr_next_id reg) entry (tr_transfers reg)\<rparr>"
  have reg': "i = tr_next_id reg" "reg' = reap_locked task_done iter now reg1"
    using assms(3)
    by (auto simp: register_plan_def register_def snapshot_for_def Let_def reg1_def entry_def s_def)
  have ok: "transfers_ok reg1"
    using assms(1) by (auto simp: reg1_def entry_def s_def snapshot_for_def transfers_ok_def stamped_def less_Suc_eq
        split: if_splits)
  have evicts: "evicts task_done (tr_transfers reg1) (tr_transfers reg')"
    unfolding reg'(2) using assms(2) ok by (intro reap_locked_evicts) (auto simp: transfers_ok_def)
  have "bt_get (tr_transfers reg1) i = Some entry" by (simp add: reg1_def reg'(1))
  from evicts_le[OF evicts this] have "bt_get (tr_transfers reg') i = Some entry"
    by (auto simp: entry_def can_evict_def s_def snapshot_for_def)
  moreover have "transfers_ok reg'"
    using evicts_ok[OF evicts ok] by (simp add: reg'(2) reap_locked_def)
  ultimately show ?thesis using reg'(1) by (simp add: entry_def s_def snapshot_for_def)
qed

text \<open>A tree that cannot be listed or created ends the plan: the trees after it and all files of the
  plan are never attempted, and nothing of the plan appears in the result.\<close>

theorem tree_error_aborts_plan:
  assumes "plan_trees plan = tree # trees"
    and "core_tree core (plan_direction plan) (plan_options overwrite (max concurrency 1)) tree (calls 0) = Some (Inl e)"
  shows "\<exists>st. plan_body display core overwrite concurrency plan i calls now r =
      Some (Inl (from_core_error display e ''execute_file_plan''), st) \<and>
    ps_result st = empty_batch \<and> ps_completed_items st = 0 \<and> ps_failed_items st = 0"
  using assms by (simp add: plan_body_def Let_def)

end
