(* ===== verification/Services.thy ===== *)
theory Services
  imports BatchPlan Exif
begin

text \<open>
  The services of the application runtime that ask the phone once: files, clipboard, media and ping,
  \<open>handshaker-application/src/runtime.rs\<close>. Every service is \<open>request\<close> around one operation of the
  core client, so the state is that of the runtime with that of the phone.
\<close>

section \<open>Requests\<close>

record ListFilesRequest =
  lq_session_id :: nat
  lq_path :: string
  lq_depth :: u32

record CountFilesRequest =
  cq_session_id :: nat
  cq_path :: string
  cq_depth :: u32
  cq_exclusions :: "string list"

record StatFileRequest =
  sq_session_id :: nat
  sq_path :: string

record CreateDirectoryRequest =
  dq_session_id :: nat
  dq_path :: string

record MovePathRequest =
  vq_session_id :: nat
  vq_source :: string
  vq_target :: string

record DeletePathsRequest =
  eq_session_id :: nat
  eq_paths :: "string list"
  eq_trash :: bool
  eq_sync :: bool

record DeleteResultDto =
  der_deleted :: "FileEntryDto list"

record UpdateFileInfoItemDto =
  ui_path :: string
  ui_size :: nat
  ui_created_at :: "nat option"
  ui_modified_at :: "nat option"
  ui_is_directory :: bool
  ui_checksum :: "string option"
  ui_is_trash :: "bool option"
  ui_id :: "nat option"
  ui_ext_data :: "string option"

record UpdateFileInfoRequest =
  uq_session_id :: nat
  uq_files :: "UpdateFileInfoItemDto list"
  uq_is_sync :: bool

record PingResultDto =
  png_round_trip_ms :: nat

record ExifDataDto =
  dex_orientation :: "nat option"
  dex_date_taken :: "nat option"
  dex_latitude :: "string option"
  dex_longitude :: "string option"
  dex_make :: "string option"
  dex_model :: "string option"
  dex_software :: "string option"
  dex_lens_model :: "string option"
  dex_focal_length :: "f64 option"
  dex_exposure_time :: "f64 option"
  dex_f_number :: "f64 option"
  dex_iso :: "nat option"

definition exif_data_dto :: "ExifData \<Rightarrow> ExifDataDto" where
  "exif_data_dto x =
     \<lparr>dex_orientation = ex_orientation x, dex_date_taken = ex_date_taken x, dex_latitude = ex_latitude x,
      dex_longitude = ex_longitude x, dex_make = ex_make x, dex_model = ex_model x, dex_software = ex_software x,
      dex_lens_model = ex_lens_model x, dex_focal_length = ex_focal_length x,
      dex_exposure_time = ex_exposure_time x, dex_f_number = ex_f_number x, dex_iso = ex_iso x\<rparr>"

definition dto_to_remote_file :: "UpdateFileInfoItemDto \<Rightarrow> RemoteFile" where
  "dto_to_remote_file item =
     \<lparr>rf_path = ui_path item, rf_size = ui_size item, rf_created_at = ui_created_at item,
      rf_modified_at = ui_modified_at item, rf_is_directory = ui_is_directory item, rf_checksum = ui_checksum item,
      rf_is_trash = ui_is_trash item, rf_id = ui_id item, rf_ext_data = ui_ext_data item\<rparr>"

section \<open>One request to the phone\<close>

text \<open>What a service meets: the client of each session, the text of errors, the clocks, what others do
  to the runtime meanwhile, and for EXIF the download of a file into memory and the parser library.\<close>

record 'p app_env =
  ae_display :: "core_error \<Rightarrow> string"
  ae_client :: "nat \<Rightarrow> 'p client"
  ae_now :: nat
  ae_elapsed :: nat
  ae_meanwhile :: "RuntimeInner \<Rightarrow> RuntimeInner"
  ae_download_bytes :: "nat \<Rightarrow> string \<Rightarrow> nat \<Rightarrow> ('p, bytes) op"
  ae_exif :: exif_library

type_synonym 'p app_state = "RuntimeInner \<times> 'p"

type_synonym ('p, 'a) app_op = "'p app_state \<Rightarrow> 'a app_result \<times> 'p app_state"

text \<open>\<open>request\<close>: the client is only asked if the runtime is open and the session ready.\<close>

definition service ::
  "'p app_env \<Rightarrow> nat \<Rightarrow> string \<Rightarrow> ('p client \<Rightarrow> ('p, 'a) op) \<Rightarrow> ('p, 'a) app_op" where
  "service env session_id operation f state =
     (case state of (r, ph) \<Rightarrow>
        case and_then (ensure_open r) (\<lambda>_. session_handle session_id r) of
          Inl e \<Rightarrow> (Inl e, (r, ph))
        | Inr _ \<Rightarrow>
            (case f (ae_client env session_id) ph of
               (outcome, ph1) \<Rightarrow>
                 (case request (ae_display env) (ae_now env) session_id operation outcome (ae_meanwhile env) r of
                    (x, r1) \<Rightarrow> (x, (r1, ph1)))))"

definition op_map :: "('a \<Rightarrow> 'b) \<Rightarrow> ('p, 'a) op \<Rightarrow> ('p, 'b) op" where
  "op_map f m = op_then m (\<lambda>x. op_return (Inr (f x)))"

definition resolved :: "'p client \<Rightarrow> string \<Rightarrow> string" where
  "resolved c p = resolve_remote_path (root_path c) p"

section \<open>Files\<close>

definition app_ping :: "'p app_env \<Rightarrow> nat \<Rightarrow> ('p, PingResultDto) app_op" where
  "app_ping env session_id =
     service env session_id ''ping''
       (\<lambda>c. op_map (\<lambda>result. \<lparr>png_round_trip_ms = pg_round_trip_ms result\<rparr>) (ping c (ae_now env) (ae_elapsed env)))"

definition list_files :: "'p app_env \<Rightarrow> ListFilesRequest \<Rightarrow> ('p, FileEntryDto list) app_op" where
  "list_files env req =
     service env (lq_session_id req) ''list_files''
       (\<lambda>c. op_map (map remote_file_to_dto) (list_dir c (resolved c (lq_path req)) (lq_depth req)))"

definition count_files :: "'p app_env \<Rightarrow> CountFilesRequest \<Rightarrow> ('p, nat) app_op" where
  "count_files env req =
     service env (cq_session_id req) ''count_files''
       (\<lambda>c. file_count c (resolved c (cq_path req)) (cq_depth req) (cq_exclusions req))"

definition app_stat_file :: "'p app_env \<Rightarrow> StatFileRequest \<Rightarrow> ('p, FileEntryDto option) app_op" where
  "app_stat_file env req =
     service env (sq_session_id req) ''stat_file''
       (\<lambda>c. op_map (map_option remote_file_to_dto) (client_stat c (resolved c (sq_path req))))"

definition app_monitor_folder :: "'p app_env \<Rightarrow> nat \<Rightarrow> string \<Rightarrow> bool \<Rightarrow> ('p, unit) app_op" where
  "app_monitor_folder env session_id p enabled =
     service env session_id ''monitor_folder'' (\<lambda>c. monitor_folder c (resolved c p) enabled)"

definition create_directory :: "'p app_env \<Rightarrow> CreateDirectoryRequest \<Rightarrow> ('p, unit) app_op" where
  "create_directory env req =
     service env (dq_session_id req) ''create_directory''
       (\<lambda>c. op_map (\<lambda>_. ()) (create_dir c (resolved c (dq_path req))))"

definition move_path :: "'p app_env \<Rightarrow> MovePathRequest \<Rightarrow> ('p, unit) app_op" where
  "move_path env req =
     service env (vq_session_id req) ''move_path''
       (\<lambda>c. rename_remote c (resolved c (vq_source req)) (resolved c (vq_target req)))"

definition delete_paths :: "'p app_env \<Rightarrow> DeletePathsRequest \<Rightarrow> ('p, DeleteResultDto) app_op" where
  "delete_paths env req =
     service env (eq_session_id req) ''delete_paths''
       (\<lambda>c. op_map (\<lambda>deleted. \<lparr>der_deleted = map remote_file_to_dto deleted\<rparr>)
          (delete_remote c (map (resolved c) (eq_paths req)) \<lparr>do_trash = eq_trash req, do_sync = eq_sync req\<rparr>))"

definition app_update_files_info :: "'p app_env \<Rightarrow> UpdateFileInfoRequest \<Rightarrow> ('p, bool) app_op" where
  "app_update_files_info env req =
     service env (uq_session_id req) ''update_file_info''
       (\<lambda>c. update_files_info c (map dto_to_remote_file (uq_files req)) (uq_is_sync req))"

section \<open>Clipboard and media\<close>

definition list_clipboards :: "'p app_env \<Rightarrow> nat \<Rightarrow> ('p, ClipboardEntryDto list) app_op" where
  "list_clipboards env session_id =
     service env session_id ''list_clipboards''
       (\<lambda>c. op_map (map (\<lambda>entry. \<lparr>dce_text = ce_text entry, dce_timestamp_ms = ce_timestamp_ms entry\<rparr>))
          (clipboard_list c))"

definition set_clipboard :: "'p app_env \<Rightarrow> nat \<Rightarrow> string \<Rightarrow> ('p, unit) app_op" where
  "set_clipboard env session_id txt =
     service env session_id ''set_clipboard'' (\<lambda>c. clipboard_set c (int (ae_now env)) txt)"

definition delete_clipboard :: "'p app_env \<Rightarrow> nat \<Rightarrow> int \<Rightarrow> ('p, unit) app_op" where
  "delete_clipboard env session_id timestamp_ms =
     service env session_id ''delete_clipboard'' (\<lambda>c. clipboard_delete c timestamp_ms)"

definition clear_clipboards :: "'p app_env \<Rightarrow> nat \<Rightarrow> ('p, unit) app_op" where
  "clear_clipboards env session_id = service env session_id ''clear_clipboards'' clipboard_clear"

definition app_get_thumbnails ::
  "'p app_env \<Rightarrow> nat \<Rightarrow> ImageFileDto list \<Rightarrow> VideoFileDto list \<Rightarrow> AudioAlbumDto list \<Rightarrow> ('p, ThumbnailsDto) app_op" where
  "app_get_thumbnails env session_id images videos audio_albums =
     service env session_id ''get_thumbnails''
       (\<lambda>c. op_map thumbnails_dto (get_thumbnails c (map dto_to_image_file images) (map dto_to_video_file videos)
          (map dto_to_audio_album audio_albums)))"

definition client_fetch_exif :: "'p app_env \<Rightarrow> nat \<Rightarrow> string \<Rightarrow> ('p, ExifData) op" where
  "client_fetch_exif env session_id p =
     op_then (ae_download_bytes env session_id p EXIF_FETCH_LIMIT)
       (\<lambda>bytes. op_return (exif_from_bytes (ae_exif env) bytes))"

definition fetch_exif :: "'p app_env \<Rightarrow> nat \<Rightarrow> string \<Rightarrow> ('p, ExifDataDto) app_op" where
  "fetch_exif env session_id p =
     service env session_id ''fetch_exif'' (\<lambda>_. op_map exif_data_dto (client_fetch_exif env session_id p))"

section \<open>A lost session is not asked again\<close>

lemma lost_session_refused: "\<exists>e. session_handle i (mark_connection_lost now i r) = Inl e"
proof (cases "lost_begin i r")
  case None
  then show ?thesis
    by (auto simp: mark_connection_lost_def lost_begin_def session_handle_def Let_def split: option.splits if_splits)
next
  case (Some p)
  then show ?thesis
    by (auto simp: mark_connection_lost_def lost_begin_def session_handle_def Let_def split: option.splits if_splits)
qed

lemma request_lost:
  assumes "request display now i operation outcome meanwhile r = (Inl e, r1)" "connection_lost_code (pe_code e)"
    and "ensure_open r = Inr ()" "session_handle i r = Inr a"
  shows "\<exists>e1. session_handle i r1 = Inl e1"
  using assms lost_session_refused by (auto simp: request_def Let_def split: sum.splits)

lemma service_cases:
  assumes "service env i operation f (r, ph) = (x, (r1, ph1))"
  obtains (refused) e where "x = Inl e" "r1 = r" "ph1 = ph"
      "and_then (ensure_open r) (\<lambda>_. session_handle i r) = Inl e"
  | (asked) a outcome where "ensure_open r = Inr ()" "session_handle i r = Inr a"
      "f (ae_client env i) ph = (outcome, ph1)"
      "request (ae_display env) (ae_now env) i operation outcome (ae_meanwhile env) r = (x, r1)"
  using assms by (auto simp: service_def and_then_def split: sum.splits prod.splits)

text \<open>The phone is not asked again over a connection that is lost: after a service has returned an
  error that means a lost connection, every further service of the same session returns an error,
  the phone is not reached and the runtime stays as it was.\<close>

lemma lost_session_not_asked:
  assumes "service env i operation f (r, ph) = (Inl e, (r1, ph1))" "connection_lost_code (pe_code e)"
    and "ensure_open r = Inr ()" "session_handle i r = Inr a"
  shows "\<exists>e1. service env1 i operation1 g (r1, ph2) = (Inl e1, (r1, ph2))"
  using assms(1)
proof (cases rule: service_cases)
  case (refused e1)
  then show ?thesis using assms(3,4) by simp
next
  case (asked b outcome)
  obtain e1 where "session_handle i r1 = Inl e1"
    using request_lost[OF asked(4) assms(2-4)] by blast
  then show ?thesis by (cases "ensure_open r1") (auto simp: service_def)
qed

definition dead_client :: "unit client" where
  "dead_client = (listing_client [])\<lparr>cl_request := (\<lambda>_. op_return (Inl (Transport ''gone'')))\<rparr>"

definition dead_env :: "unit app_env" where
  "dead_env = \<lparr>ae_display = (\<lambda>_. ''lost''), ae_client = (\<lambda>_. dead_client), ae_now = 5, ae_elapsed = 0,
     ae_meanwhile = id, ae_download_bytes = (\<lambda>_ _ _. op_return (Inl (Transport ''gone''))),
     ae_exif = \<lparr>el_read = (\<lambda>_. None), el_display = (\<lambda>_. []), el_lossy = (\<lambda>_. []), el_degrees = (\<lambda>_ _ _ _. [])\<rparr>\<rparr>"

lemma lost_session_not_asked_witness:
  "\<exists>e r1 e1. list_files dead_env \<lparr>lq_session_id = 7, lq_path = ''/'', lq_depth = 1\<rparr>
       (sample_runtime\<lparr>ri_sessions := [7 \<mapsto> sample_session]\<rparr>, ()) = (Inl e, (r1, ())) \<and>
     pe_code e = ConnectFailed \<and>
     clear_clipboards dead_env 7 (r1, ()) = (Inl e1, (r1, ()))"
proof -
  let ?r = "sample_runtime\<lparr>ri_sessions := [7 \<mapsto> sample_session]\<rparr>"
  let ?f = "\<lambda>c. op_map (map remote_file_to_dto) (list_dir c (resolved c ''/'') 1)"
  have ready: "ensure_open ?r = Inr ()" "session_handle 7 ?r = Inr sample_session"
    by (simp_all add: ensure_open_def session_handle_def sample_runtime_def sample_session_def)
  have asked: "?f dead_client () = (Inl (Transport ''gone''), ())"
    by (simp add: dead_client_def op_map_def list_dir_def ask_def op_then_def session_request_def listing_client_def)
  obtain r1 where run: "service dead_env 7 ''list_files'' ?f (?r, ()) =
      (Inl (from_core_error (\<lambda>_. ''lost'') (Transport ''gone'') ''list_files''), (r1, ()))"
    using ready asked by (simp add: service_def dead_env_def request_def Let_def)
  have code: "pe_code (from_core_error (\<lambda>_. ''lost'') (Transport ''gone'') ''list_files'') = ConnectFailed"
    by (simp add: from_core_error_def)
  obtain e1 where "service dead_env 7 ''clear_clipboards'' clipboard_clear (r1, ()) = (Inl e1, (r1, ()))"
    using lost_session_not_asked[OF run _ ready, of dead_env "''clear_clipboards''" clipboard_clear "()"] code
    by (auto simp: connection_lost_code_def)
  then show ?thesis using run code by (simp add: list_files_def clear_clipboards_def)
qed

end
