(* ===== verification/Abi.thy ===== *)
theory Abi
  imports Services
begin

named_theorems abi_intros

text \<open>
  The ground of the C interface, \<open>handshaker-ffi/src/buffer.rs\<close>, \<open>result.rs\<close> and \<open>lib.rs\<close>: owned
  buffers, call results, isolation of panics, handles and the quota of event subscriptions. The
  memory that Rust hands out is a list of allocations; a call that would touch memory it does not
  own is \<open>Undefined\<close>. The allocator, the JSON library, the asynchronous executor and the application
  runtime are arguments.
\<close>

section \<open>The world behind the interface\<close>

text \<open>A call returns, unwinds with a panic, or has no defined behaviour.\<close>

datatype 'x run = Return 'x | Unwind | Undefined

record HsByteBuffer =
  hb_ptr :: nat
  hb_len :: nat
  hb_capacity :: nat

record HsCallResult =
  hc_status :: int
  hc_value :: HsByteBuffer
  hc_error :: HsByteBuffer

text \<open>The subscription counter is shared by a runtime and its subscriptions, which may outlive the
  runtime, so counters are values of their own.\<close>

record 'a HsRuntime =
  hr_app :: 'a
  hr_subscriptions :: nat

record HsSubscription =
  hu_counter :: nat

text \<open>A file of the thumbnail cache with its bytes and whether it can be opened, or something that is
  no regular file, and whether following it finds anything (a dangling link does not).\<close>

datatype cache_file = CacheFile bytes bool | CacheOther bool

record 'a ffi =
  fw_heap :: "(nat \<times> string) list"
  fw_runtimes :: "(nat \<times> 'a HsRuntime) list"
  fw_subscriptions :: "(nat \<times> HsSubscription) list"
  fw_counters :: "u64 list"
  fw_slots :: "nat \<Rightarrow> nat"
  fw_cache :: "string \<rightharpoonup> cache_file"

text \<open>The allocator gives an address by the addresses in use; 0 is NULL.\<close>

type_synonym allocator = "nat list \<Rightarrow> nat"

definition allocator_ok :: "allocator \<Rightarrow> bool" where
  "allocator_ok fresh \<longleftrightarrow> (\<forall>used. fresh used \<noteq> 0 \<and> fresh used \<notin> set used)"

definition used_addresses :: "'a ffi \<Rightarrow> nat list" where
  "used_addresses w = map fst (fw_heap w) @ map fst (fw_runtimes w) @ map fst (fw_subscriptions w)"

section \<open>Buffers\<close>

definition empty_buffer :: HsByteBuffer where
  "empty_buffer = \<lparr>hb_ptr = 0, hb_len = 0, hb_capacity = 0\<rparr>"

definition from_bytes :: "allocator \<Rightarrow> string \<Rightarrow> 'a ffi \<Rightarrow> HsByteBuffer \<times> 'a ffi" where
  "from_bytes fresh bytes w =
     (if bytes = [] then (empty_buffer, w)
      else let ptr = fresh (used_addresses w)
           in (\<lparr>hb_ptr = ptr, hb_len = length bytes, hb_capacity = length bytes\<rparr>,
               w\<lparr>fw_heap := (ptr, bytes) # fw_heap w\<rparr>))"

definition malformed :: "HsByteBuffer \<Rightarrow> bool" where
  "malformed buffer \<longleftrightarrow> hb_ptr buffer = 0 \<or> hb_len buffer = 0 \<or> hb_len buffer > hb_capacity buffer"

text \<open>\<open>free_buffer\<close>: giving back memory that is not an allocation of this capacity is undefined.\<close>

definition free_buffer :: "HsByteBuffer \<Rightarrow> 'a ffi \<Rightarrow> unit run \<times> 'a ffi" where
  "free_buffer buffer w =
     (if malformed buffer then (Return (), w)
      else case map_of (fw_heap w) (hb_ptr buffer) of
             None \<Rightarrow> (Undefined, w)
           | Some bytes \<Rightarrow>
               if length bytes \<noteq> hb_capacity buffer then (Undefined, w)
               else (Return (), w\<lparr>fw_heap := filter (\<lambda>(p, _). p \<noteq> hb_ptr buffer) (fw_heap w)\<rparr>))"

definition into_vec :: "HsByteBuffer \<Rightarrow> 'a ffi \<Rightarrow> string run \<times> 'a ffi" where
  "into_vec buffer w =
     (if malformed buffer then (Return [], w)
      else case map_of (fw_heap w) (hb_ptr buffer) of
             None \<Rightarrow> (Undefined, w)
           | Some bytes \<Rightarrow>
               if length bytes \<noteq> hb_capacity buffer then (Undefined, w)
               else (Return (take (hb_len buffer) bytes),
                     w\<lparr>fw_heap := filter (\<lambda>(p, _). p \<noteq> hb_ptr buffer) (fw_heap w)\<rparr>))"

section \<open>Results\<close>

definition with_detail :: "PublicError \<Rightarrow> string \<Rightarrow> PublicError" where
  "with_detail e detail = e\<lparr>pe_detail := Some detail\<rparr>"

text \<open>How values and errors become JSON, with the allocator. A value of any type is serialized by
  the function given for it.\<close>

datatype json_scalar = JBool bool | JNumber nat | JText string

record abi_env =
  en_fresh :: allocator
  en_error_json :: "PublicError \<Rightarrow> string + string"
  en_object_json :: "(string \<times> json_scalar) list \<Rightarrow> string + string"

definition error_fallback :: string where
  "error_fallback =
     ''{'' @ [CHR 0x22] @ ''code'' @ [CHR 0x22] @ '':'' @ [CHR 0x22] @ ''internal'' @ [CHR 0x22] @ '','' @
     [CHR 0x22] @ ''message'' @ [CHR 0x22] @ '':'' @ [CHR 0x22] @ ''error serialization failed'' @ [CHR 0x22] @ '','' @
     [CHR 0x22] @ ''detail'' @ [CHR 0x22] @ '':null,'' @ [CHR 0x22] @ ''retryable'' @ [CHR 0x22] @ '':false,'' @
     [CHR 0x22] @ ''operation'' @ [CHR 0x22] @ '':null}''"

definition abi_err :: "abi_env \<Rightarrow> PublicError \<Rightarrow> 'a ffi \<Rightarrow> HsCallResult \<times> 'a ffi" where
  "abi_err env e w =
     (let json = (case en_error_json env e of Inl _ \<Rightarrow> error_fallback | Inr t \<Rightarrow> t)
      in case from_bytes (en_fresh env) json w of
           (buffer, w1) \<Rightarrow> (\<lparr>hc_status = 1, hc_value = empty_buffer, hc_error = buffer\<rparr>, w1))"

definition abi_ok :: "abi_env \<Rightarrow> ('v \<Rightarrow> string + string) \<Rightarrow> 'v \<Rightarrow> 'a ffi \<Rightarrow> HsCallResult \<times> 'a ffi" where
  "abi_ok env to_json v w =
     (case to_json v of
        Inr json \<Rightarrow> (case from_bytes (en_fresh env) json w of
                      (buffer, w1) \<Rightarrow> (\<lparr>hc_status = 0, hc_value = buffer, hc_error = empty_buffer\<rparr>, w1))
      | Inl e \<Rightarrow> abi_err env (with_detail (public_error_new Internal ''serialization failed'') e) w)"

definition free_result :: "HsCallResult \<Rightarrow> 'a ffi \<Rightarrow> unit run \<times> 'a ffi" where
  "free_result result w =
     (case free_buffer (hc_value result) w of
        (Return _, w1) \<Rightarrow> free_buffer (hc_error result) w1
      | (other, w1) \<Rightarrow> (other, w1))"

text \<open>\<open>hs_byte_buffer_free\<close> and \<open>hs_call_result_free\<close>: a panic is swallowed.\<close>

definition swallow :: "unit run \<times> 'a ffi \<Rightarrow> unit run \<times> 'a ffi" where
  "swallow out = (case out of (Unwind, w) \<Rightarrow> (Return (), w) | other \<Rightarrow> other)"

definition hs_byte_buffer_free :: "HsByteBuffer \<Rightarrow> 'a ffi \<Rightarrow> unit run \<times> 'a ffi" where
  "hs_byte_buffer_free buffer w = swallow (free_buffer buffer w)"

definition hs_call_result_free :: "HsCallResult \<Rightarrow> 'a ffi \<Rightarrow> unit run \<times> 'a ffi" where
  "hs_call_result_free result w = swallow (free_result result w)"

section \<open>Bodies of calls\<close>

type_synonym 'a abi_body = "'a ffi \<Rightarrow> HsCallResult run \<times> 'a ffi"

text \<open>A step of a body either hands a value on or is the result of the call already.\<close>

type_synonym ('a, 'x) abi_step = "'a ffi \<Rightarrow> (HsCallResult + 'x) run \<times> 'a ffi"

definition finish :: "('a ffi \<Rightarrow> HsCallResult \<times> 'a ffi) \<Rightarrow> 'a abi_body" where
  "finish f w = (case f w of (result, w1) \<Rightarrow> (Return result, w1))"

definition ffi_try :: "('a, 'x) abi_step \<Rightarrow> ('x \<Rightarrow> 'a abi_body) \<Rightarrow> 'a abi_body" where
  "ffi_try step body w =
     (case step w of
        (Return (Inl result), w1) \<Rightarrow> (Return result, w1)
      | (Return (Inr x), w1) \<Rightarrow> body x w1
      | (Unwind, w1) \<Rightarrow> (Unwind, w1)
      | (Undefined, w1) \<Rightarrow> (Undefined, w1))"

definition give :: "'x \<Rightarrow> ('a, 'x) abi_step" where
  "give x w = (Return (Inr x), w)"

definition refuse :: "abi_env \<Rightarrow> PublicError \<Rightarrow> ('a, 'x) abi_step" where
  "refuse env e w = (case abi_err env e w of (result, w1) \<Rightarrow> (Return (Inl result), w1))"

definition abi_catch :: "abi_env \<Rightarrow> string \<Rightarrow> 'a abi_body \<Rightarrow> 'a abi_body" where
  "abi_catch env operation body w =
     (case body w of
        (Unwind, w1) \<Rightarrow>
          finish (abi_err env (with_operation (public_error_new Internal ''internal panic'') operation)) w1
      | other \<Rightarrow> other)"

section \<open>Arguments\<close>

text \<open>\<open>std::str::from_utf8\<close>: the well-formed byte sequences of Unicode.\<close>

definition between :: "nat \<Rightarrow> nat \<Rightarrow> char \<Rightarrow> bool" where
  "between lo hi c \<longleftrightarrow> lo \<le> of_char c \<and> (of_char c :: nat) \<le> hi"

fun valid_utf8 :: "string \<Rightarrow> bool" where
  "valid_utf8 [] = True"
| "valid_utf8 (a # rest) =
     (if between 0 0x7F a then valid_utf8 rest
      else case rest of
             [] \<Rightarrow> False
           | b # rest1 \<Rightarrow>
               if between 0xC2 0xDF a then between 0x80 0xBF b \<and> valid_utf8 rest1
               else (case rest1 of
                       [] \<Rightarrow> False
                     | c # rest2 \<Rightarrow>
                         if between 0xE0 0xE0 a then between 0xA0 0xBF b \<and> between 0x80 0xBF c \<and> valid_utf8 rest2
                         else if between 0xE1 0xEC a \<or> between 0xEE 0xEF a
                         then between 0x80 0xBF b \<and> between 0x80 0xBF c \<and> valid_utf8 rest2
                         else if between 0xED 0xED a
                         then between 0x80 0x9F b \<and> between 0x80 0xBF c \<and> valid_utf8 rest2
                         else (case rest2 of
                                 [] \<Rightarrow> False
                               | d # rest3 \<Rightarrow>
                                   (if between 0xF0 0xF0 a then between 0x90 0xBF b
                                    else if between 0xF1 0xF3 a then between 0x80 0xBF b
                                    else if between 0xF4 0xF4 a then between 0x80 0x8F b
                                    else False) \<and>
                                   between 0x80 0xBF c \<and> between 0x80 0xBF d \<and> valid_utf8 rest3)))"

text \<open>An input of the caller: \<open>None\<close> is a NULL pointer, otherwise the bytes it describes.\<close>

type_synonym abi_input = "string option"

definition input_str :: "abi_env \<Rightarrow> abi_input \<Rightarrow> string \<Rightarrow> ('a, string) abi_step" where
  "input_str env input operation =
     (case input of
        None \<Rightarrow> refuse env (with_operation (public_error_new InvalidArgument ''NULL input'') operation)
      | Some bytes \<Rightarrow>
          if valid_utf8 bytes then give bytes
          else refuse env (with_operation (public_error_new InvalidArgument ''input is not valid UTF-8'') operation))"

definition out_slot :: "abi_env \<Rightarrow> nat \<Rightarrow> string \<Rightarrow> ('a, nat) abi_step" where
  "out_slot env out operation =
     (if out = 0
      then refuse env (with_operation (public_error_new InvalidArgument ''NULL output slot'') operation)
      else give out)"

definition runtime_ref :: "abi_env \<Rightarrow> nat \<Rightarrow> string \<Rightarrow> ('a, nat) abi_step" where
  "runtime_ref env runtime operation w =
     (if runtime = 0
      then refuse env (with_operation (public_error_new InvalidArgument ''NULL runtime handle'') operation) w
      else if runtime \<notin> fst ` set (fw_runtimes w) then (Undefined, w)
      else give runtime w)"

text \<open>A request in JSON: the parser of its type, and the error when it does not parse.\<close>

definition parse_json ::
  "abi_env \<Rightarrow> (string \<Rightarrow> string + 'x) \<Rightarrow> (string \<Rightarrow> PublicError) \<Rightarrow> string \<Rightarrow> ('a, 'x) abi_step" where
  "parse_json env parse failure json =
     (case parse json of Inr x \<Rightarrow> give x | Inl e \<Rightarrow> refuse env (failure e))"

definition invalid_request_json :: "string \<Rightarrow> PublicError" where
  "invalid_request_json e = with_detail (public_error_new InvalidArgument ''invalid request JSON'') e"

text \<open>A call of the application runtime behind a handle; \<open>None\<close> is a panic.\<close>

type_synonym ('a, 'x) api = "'a \<Rightarrow> 'x option \<times> 'a"

definition app_step :: "nat \<Rightarrow> ('a, 'x) api \<Rightarrow> ('a, 'x) abi_step" where
  "app_step runtime method w =
     (case map_of (fw_runtimes w) runtime of
        None \<Rightarrow> (Undefined, w)
      | Some rt \<Rightarrow>
          (case method (hr_app rt) of
             (out, app1) \<Rightarrow>
               let w1 = w\<lparr>fw_runtimes := map (\<lambda>(p, x). (p, if p = runtime then x\<lparr>hr_app := app1\<rparr> else x)) (fw_runtimes w)\<rparr>
               in case out of None \<Rightarrow> (Unwind, w1) | Some x \<Rightarrow> (Return (Inr x), w1)))"

text \<open>The answer to the outcome of a call: its value as JSON, or its error.\<close>

definition respond :: "abi_env \<Rightarrow> ('v \<Rightarrow> string + string) \<Rightarrow> 'v app_result \<Rightarrow> 'a abi_body" where
  "respond env to_json outcome =
     finish (case outcome of Inr v \<Rightarrow> abi_ok env to_json v | Inl e \<Rightarrow> abi_err env e)"

definition answer_object :: "abi_env \<Rightarrow> (string \<times> json_scalar) list \<Rightarrow> 'a abi_body" where
  "answer_object env obj = finish (abi_ok env (en_object_json env) obj)"

definition fail_with :: "abi_env \<Rightarrow> PublicError \<Rightarrow> 'a abi_body" where
  "fail_with env e = finish (abi_err env e)"

section \<open>Runtimes\<close>

record FfiRuntimeConfig =
  fr_adb_path_utf8 :: "string option"
  fr_default_timeout_ms :: "nat option"
  fr_heartbeat_interval_ms :: "nat option"
  fr_host_name_utf8 :: "string option"
  fr_state_dir_utf8 :: "string option"
  fr_wire_log_utf8 :: "string option"
  fr_wire_log_payload :: "bool option"
  fr_event_capacity :: "nat option"
  fr_transfer_history_capacity :: "nat option"
  fr_transfer_history_ttl_ms :: "nat option"

text \<open>Durations are in milliseconds.\<close>

record RuntimeConfig =
  rg_adb_path :: string
  rg_default_timeout :: nat
  rg_heartbeat_interval :: nat
  rg_host_name :: "string option"
  rg_state_dir :: "string option"
  rg_wire_log :: "string option"
  rg_wire_log_payload :: bool
  rg_event_capacity :: nat
  rg_transfer_history_capacity :: nat
  rg_transfer_history_ttl :: "nat option"

definition runtime_config_default :: RuntimeConfig where
  "runtime_config_default =
     \<lparr>rg_adb_path = ''adb'', rg_default_timeout = 30 * 1000, rg_heartbeat_interval = 10 * 1000, rg_host_name = None,
      rg_state_dir = None, rg_wire_log = None, rg_wire_log_payload = False, rg_event_capacity = 1024,
      rg_transfer_history_capacity = 64, rg_transfer_history_ttl = None\<rparr>"

definition runtime_config :: "FfiRuntimeConfig \<Rightarrow> RuntimeConfig" where
  "runtime_config f =
     \<lparr>rg_adb_path = the_or ''adb'' (fr_adb_path_utf8 f),
      rg_default_timeout = the_or 30000 (fr_default_timeout_ms f),
      rg_heartbeat_interval = the_or 10000 (fr_heartbeat_interval_ms f), rg_host_name = fr_host_name_utf8 f,
      rg_state_dir = fr_state_dir_utf8 f, rg_wire_log = fr_wire_log_utf8 f,
      rg_wire_log_payload = the_or False (fr_wire_log_payload f),
      rg_event_capacity = the_or 1024 (fr_event_capacity f),
      rg_transfer_history_capacity = the_or 64 (fr_transfer_history_capacity f),
      rg_transfer_history_ttl = fr_transfer_history_ttl_ms f\<rparr>"

definition config_from_json :: "abi_env \<Rightarrow> (string \<Rightarrow> string + FfiRuntimeConfig) \<Rightarrow> string \<Rightarrow> ('a, RuntimeConfig) abi_step" where
  "config_from_json env parse json =
     parse_json env (\<lambda>t. map_sum id runtime_config (parse t))
       (with_detail (public_error_new InvalidArgument ''invalid config JSON'')) json"

definition tokio_failed :: "string \<Rightarrow> PublicError" where
  "tokio_failed e = with_detail (public_error_new Internal ''tokio runtime creation failed'') e"

text \<open>The new runtime gets a counter of its own; the slot is written last before the answer.\<close>

definition box_runtime :: "abi_env \<Rightarrow> 'a \<Rightarrow> nat \<Rightarrow> 'a ffi \<Rightarrow> 'a ffi" where
  "box_runtime env app slot w =
     (let ptr = en_fresh env (used_addresses w)
      in w\<lparr>fw_counters := fw_counters w @ [0],
            fw_runtimes := (ptr, \<lparr>hr_app = app, hr_subscriptions = length (fw_counters w)\<rparr>) # fw_runtimes w,
            fw_slots := (fw_slots w)(slot := ptr)\<rparr>)"

text \<open>\<open>built\<close> is the error of building the executor, \<open>create\<close> the creation of the application runtime;
  it may panic.\<close>

definition hs_runtime_create ::
  "abi_env \<Rightarrow> (string \<Rightarrow> string + FfiRuntimeConfig) \<Rightarrow> string option \<Rightarrow> (RuntimeConfig \<Rightarrow> 'a app_result option)
   \<Rightarrow> abi_input \<Rightarrow> nat \<Rightarrow> 'a abi_body" where
  "hs_runtime_create env parse built create input out =
     abi_catch env ''runtime_create''
       (ffi_try (out_slot env out ''runtime_create'') (\<lambda>slot.
        ffi_try (input_str env input ''runtime_create'') (\<lambda>json.
        ffi_try (config_from_json env parse json) (\<lambda>config.
          case built of
            Some e \<Rightarrow> fail_with env (tokio_failed e)
          | None \<Rightarrow>
              (case create config of
                 None \<Rightarrow> (\<lambda>w. (Unwind, w))
               | Some (Inl e) \<Rightarrow> fail_with env e
               | Some (Inr app) \<Rightarrow>
                   (\<lambda>w. answer_object env [(''created'', JBool True)] (box_runtime env app slot w)))))))"

definition hs_runtime_shutdown :: "abi_env \<Rightarrow> ('a, unit app_result) api \<Rightarrow> nat \<Rightarrow> 'a abi_body" where
  "hs_runtime_shutdown env shutdown runtime =
     abi_catch env ''runtime_shutdown''
       (if runtime = 0 then answer_object env [(''shutdown'', JBool True)]
        else ffi_try (app_step runtime shutdown) (\<lambda>outcome.
          case outcome of
            Inr _ \<Rightarrow> answer_object env [(''shutdown'', JBool True)]
          | Inl e \<Rightarrow> fail_with env e))"

text \<open>\<open>hs_runtime_destroy\<close>: the box is dropped also when the shutdown panics.\<close>

definition hs_runtime_destroy :: "nat \<Rightarrow> 'a ffi \<Rightarrow> unit run \<times> 'a ffi" where
  "hs_runtime_destroy runtime w =
     (if runtime = 0 then (Return (), w)
      else if runtime \<notin> fst ` set (fw_runtimes w) then (Undefined, w)
      else (Return (), w\<lparr>fw_runtimes := filter (\<lambda>(p, _). p \<noteq> runtime) (fw_runtimes w)\<rparr>))"

section \<open>Event subscriptions\<close>

definition MAX_SUBSCRIPTIONS :: nat where
  "MAX_SUBSCRIPTIONS = 64"

text \<open>The two atomic steps of \<open>acquire\<close>: the addition, which tells whether the quota is granted, and
  the subtraction that takes a refused one back. \<open>release\<close> is also the drop of an armed reservation
  and the end of a subscription.\<close>

definition reserve :: "u64 \<Rightarrow> bool \<times> u64" where
  "reserve counter = (unat counter < MAX_SUBSCRIPTIONS, counter + 1)"

definition release :: "u64 \<Rightarrow> u64" where
  "release counter = counter - 1"

definition acquire :: "u64 \<Rightarrow> bool \<times> u64" where
  "acquire counter = (case reserve counter of (True, c) \<Rightarrow> (True, c) | (False, c) \<Rightarrow> (False, release c))"

definition too_many_subscriptions :: PublicError where
  "too_many_subscriptions =
     with_operation (public_error_new InvalidState
       (''too many live event subscriptions (max '' @ show_nat MAX_SUBSCRIPTIONS @ ''); destroy some first''))
       ''subscribe_events''"

definition on_counter :: "nat \<Rightarrow> (u64 \<Rightarrow> u64) \<Rightarrow> 'a ffi \<Rightarrow> 'a ffi" where
  "on_counter k f w = w\<lparr>fw_counters := (fw_counters w)[k := f (fw_counters w ! k)]\<rparr>"

definition box_subscription :: "abi_env \<Rightarrow> nat \<Rightarrow> nat \<Rightarrow> 'a ffi \<Rightarrow> 'a ffi" where
  "box_subscription env k slot w =
     (let ptr = en_fresh env (used_addresses w)
      in w\<lparr>fw_subscriptions := (ptr, \<lparr>hu_counter = k\<rparr>) # fw_subscriptions w, fw_slots := (fw_slots w)(slot := ptr)\<rparr>)"

text \<open>The body once the quota is granted: subscribing may panic and building the executor may fail,
  and on both ways the reservation is dropped.\<close>

definition subscribe_reserved ::
  "abi_env \<Rightarrow> ('a, unit) api \<Rightarrow> string option \<Rightarrow> nat \<Rightarrow> nat \<Rightarrow> nat \<Rightarrow> 'a abi_body" where
  "subscribe_reserved env subscribe built runtime k slot w =
     (case app_step runtime subscribe w of
        (Return (Inr _), w1) \<Rightarrow>
          (case built of
             Some e \<Rightarrow> (case fail_with env (tokio_failed e) w1 of (result, w2) \<Rightarrow> (result, on_counter k release w2))
           | None \<Rightarrow> answer_object env [(''subscribed'', JBool True)] (box_subscription env k slot w1))
      | (Return (Inl result), w1) \<Rightarrow> (Return result, on_counter k release w1)
      | (Unwind, w1) \<Rightarrow> (Unwind, on_counter k release w1)
      | (Undefined, w1) \<Rightarrow> (Undefined, w1))"

definition hs_subscribe_events ::
  "abi_env \<Rightarrow> ('a, unit) api \<Rightarrow> string option \<Rightarrow> nat \<Rightarrow> nat \<Rightarrow> 'a abi_body" where
  "hs_subscribe_events env subscribe built runtime out =
     abi_catch env ''subscribe_events''
       (ffi_try (runtime_ref env runtime ''subscribe_events'') (\<lambda>rt.
        ffi_try (out_slot env out ''subscribe_events'') (\<lambda>slot w.
          case map_of (fw_runtimes w) rt of
            None \<Rightarrow> (Undefined, w)
          | Some x \<Rightarrow>
              (let k = hr_subscriptions x; (granted, c) = acquire (fw_counters w ! k); w1 = on_counter k (\<lambda>_. c) w
               in if \<not> granted then fail_with env too_many_subscriptions w1
                  else subscribe_reserved env subscribe built rt k slot w1))))"

datatype recv_outcome = Received EventEnvelope | RecvClosed | RecvLagged nat | RecvElapsed

definition hs_subscription_next ::
  "abi_env \<Rightarrow> (EventEnvelope \<Rightarrow> string + string) \<Rightarrow> recv_outcome \<Rightarrow> nat \<Rightarrow> 'a abi_body" where
  "hs_subscription_next env to_json outcome subscription =
     abi_catch env ''subscription_next''
       (if subscription = 0 then answer_object env [(''closed'', JBool True)]
        else (\<lambda>w. if subscription \<notin> fst ` set (fw_subscriptions w) then (Undefined, w)
          else (case outcome of
                  Received event \<Rightarrow> finish (abi_ok env to_json event)
                | RecvClosed \<Rightarrow> answer_object env [(''closed'', JBool True)]
                | RecvLagged skipped \<Rightarrow>
                    fail_with env (with_detail (public_error_new InvalidState ''subscription lagged'')
                      (''skipped '' @ show_nat skipped @ '' events''))
                | RecvElapsed \<Rightarrow> answer_object env [(''timeout'', JBool True)]) w))"

definition hs_subscription_destroy :: "nat \<Rightarrow> 'a ffi \<Rightarrow> unit run \<times> 'a ffi" where
  "hs_subscription_destroy subscription w =
     (if subscription = 0 then (Return (), w)
      else case map_of (fw_subscriptions w) subscription of
             None \<Rightarrow> (Undefined, w)
           | Some u \<Rightarrow>
               (Return (), (on_counter (hu_counter u) release w)
                  \<lparr>fw_subscriptions := filter (\<lambda>(p, _). p \<noteq> subscription) (fw_subscriptions w)\<rparr>))"

section \<open>Every call is answered\<close>

definition env_ok :: "abi_env \<Rightarrow> bool" where
  "env_ok env \<longleftrightarrow> allocator_ok (en_fresh env) \<and> (\<forall>e. en_error_json env e \<noteq> Inr []) \<and>
     (\<forall>obj. en_object_json env obj \<noteq> Inr [])"

text \<open>A buffer that owns a new allocation.\<close>

definition stored :: "'a ffi \<Rightarrow> 'a ffi \<Rightarrow> HsByteBuffer \<Rightarrow> bool" where
  "stored w w' buffer \<longleftrightarrow> (\<exists>ptr t. t \<noteq> [] \<and> ptr \<noteq> 0 \<and> ptr \<notin> fst ` set (fw_heap w) \<and>
     buffer = \<lparr>hb_ptr = ptr, hb_len = length t, hb_capacity = length t\<rparr> \<and> fw_heap w' = (ptr, t) # fw_heap w)"

definition answered :: "'a ffi \<Rightarrow> HsCallResult \<Rightarrow> 'a ffi \<Rightarrow> bool" where
  "answered w result w' \<longleftrightarrow>
     hc_status result = 0 \<and> stored w w' (hc_value result) \<and> hc_error result = empty_buffer \<or>
     hc_status result = 1 \<and> hc_value result = empty_buffer \<and> stored w w' (hc_error result)"

definition live :: "nat \<Rightarrow> 'a ffi \<Rightarrow> bool" where
  "live runtime w \<longleftrightarrow> runtime = 0 \<or> runtime \<in> fst ` set (fw_runtimes w)"

definition live_subscription :: "nat \<Rightarrow> 'a ffi \<Rightarrow> bool" where
  "live_subscription subscription w \<longleftrightarrow> subscription = 0 \<or> subscription \<in> fst ` set (fw_subscriptions w)"

text \<open>Under \<open>P\<close> a body answers, or unwinds without leaving an allocation; a step does so or hands on a
  value for which \<open>Q\<close> holds, with \<open>P\<close> kept.\<close>

definition settles :: "('a ffi \<Rightarrow> bool) \<Rightarrow> 'a abi_body \<Rightarrow> bool" where
  "settles P body \<longleftrightarrow> (\<forall>w. P w \<longrightarrow>
     (case body w of
        (Return result, w') \<Rightarrow> answered w result w'
      | (Unwind, w') \<Rightarrow> fw_heap w' = fw_heap w
      | (Undefined, w') \<Rightarrow> False))"

definition passes :: "('a ffi \<Rightarrow> bool) \<Rightarrow> ('a, 'x) abi_step \<Rightarrow> ('x \<Rightarrow> bool) \<Rightarrow> bool" where
  "passes P step Q \<longleftrightarrow> (\<forall>w. P w \<longrightarrow>
     (case step w of
        (Return (Inl result), w') \<Rightarrow> answered w result w'
      | (Return (Inr x), w') \<Rightarrow> fw_heap w' = fw_heap w \<and> P w' \<and> Q x
      | (Unwind, w') \<Rightarrow> fw_heap w' = fw_heap w
      | (Undefined, w') \<Rightarrow> False))"

lemma answered_heap: "fw_heap w1 = fw_heap w \<Longrightarrow> answered w1 result w' = answered w result w'"
  by (simp add: answered_def stored_def)

lemma from_bytes_stored:
  assumes "allocator_ok fresh" "t \<noteq> []"
  shows "stored w (snd (from_bytes fresh t w)) (fst (from_bytes fresh t w))"
proof -
  have "fresh (used_addresses w) \<noteq> 0" "fresh (used_addresses w) \<notin> set (used_addresses w)"
    using assms(1) by (auto simp: allocator_ok_def)
  then show ?thesis using assms(2) by (auto simp: from_bytes_def stored_def used_addresses_def Let_def)
qed

lemma abi_err_answered:
  assumes "env_ok env" "abi_err env e w = (result, w')"
  shows "answered w result w' \<and> hc_status result = 1"
proof -
  define t where "t = (case en_error_json env e of Inl _ \<Rightarrow> error_fallback | Inr t \<Rightarrow> t)"
  have "t \<noteq> []" using assms(1) by (auto simp: t_def env_ok_def error_fallback_def split: sum.splits)
  from from_bytes_stored[OF _ this, of "en_fresh env" w] show ?thesis
    using assms by (auto simp: abi_err_def t_def answered_def env_ok_def Let_def split: prod.splits)
qed

lemma abi_ok_answered:
  assumes "env_ok env" "to_json v \<noteq> Inr []" "abi_ok env to_json v w = (result, w')"
  shows "answered w result w'"
proof (cases "to_json v")
  case (Inl e)
  then have "abi_err env (with_detail (public_error_new Internal ''serialization failed'') e) w = (result, w')"
    using assms(3) by (simp add: abi_ok_def)
  from abi_err_answered[OF assms(1) this] show ?thesis by simp
next
  case (Inr t)
  then have "t \<noteq> []" using assms(2) by auto
  from from_bytes_stored[OF _ this, of "en_fresh env" w] show ?thesis
    using assms Inr by (auto simp: abi_ok_def answered_def env_ok_def split: prod.splits)
qed

lemma settles_fail [abi_intros]: "env_ok env \<Longrightarrow> settles P (fail_with env e)"
  using abi_err_answered by (fastforce simp: settles_def fail_with_def finish_def split: prod.splits)

lemma settles_ok [abi_intros]:
  "env_ok env \<Longrightarrow> (\<And>v. to_json v \<noteq> Inr []) \<Longrightarrow> settles P (finish (abi_ok env to_json v))"
  using abi_ok_answered by (fastforce simp: settles_def finish_def split: prod.splits)

lemma settles_object [abi_intros]: "env_ok env \<Longrightarrow> settles P (answer_object env obj)"
  unfolding answer_object_def by (rule settles_ok) (auto simp: env_ok_def)

lemma settles_respond [abi_intros]:
  "env_ok env \<Longrightarrow> (\<And>v. to_json v \<noteq> Inr []) \<Longrightarrow> settles P (respond env to_json outcome)"
  by (cases outcome)
     (simp_all add: respond_def settles_ok settles_fail flip: fail_with_def)

lemma settles_try:
  assumes "passes P step Q" "\<And>x. Q x \<Longrightarrow> settles P (body x)"
  shows "settles P (ffi_try step body)"
  unfolding settles_def
proof (intro allI impI)
  fix w
  assume P: "P w"
  obtain out w1 where step: "step w = (out, w1)" by fastforce
  show "case ffi_try step body w of (Return result, w') \<Rightarrow> answered w result w'
      | (Unwind, w') \<Rightarrow> fw_heap w' = fw_heap w | (Undefined, w') \<Rightarrow> False"
  proof (cases out)
    case (Return r)
    show ?thesis
    proof (cases r)
      case (Inl result)
      then show ?thesis using Return step P assms(1) by (auto simp: ffi_try_def passes_def dest!: spec[of _ w])
    next
      case (Inr x)
      then have "fw_heap w1 = fw_heap w" "P w1" "Q x"
        using Return step P assms(1) by (auto simp: passes_def dest!: spec[of _ w])
      then have "case body x w1 of (Return result, w') \<Rightarrow> answered w1 result w'
          | (Unwind, w') \<Rightarrow> fw_heap w' = fw_heap w1 | (Undefined, w') \<Rightarrow> False"
        using assms(2)[of x] by (simp add: settles_def)
      then show ?thesis
        using Return Inr step answered_heap[OF \<open>fw_heap w1 = fw_heap w\<close>] \<open>fw_heap w1 = fw_heap w\<close>
        by (cases "body x w1") (simp add: ffi_try_def split: run.splits)
    qed
  qed (use step P assms(1) in \<open>auto simp: ffi_try_def passes_def dest!: spec[of _ w]\<close>)
qed

lemma passes_refuse: "env_ok env \<Longrightarrow> passes P (refuse env e) Q"
  using abi_err_answered by (fastforce simp: passes_def refuse_def split: prod.splits)

lemma passes_give: "Q x \<Longrightarrow> passes P (give x) Q"
  by (simp add: passes_def give_def)

lemma passes_input: "env_ok env \<Longrightarrow> passes P (input_str env input operation) valid_utf8"
  by (simp add: input_str_def passes_refuse passes_give split: option.split)

lemma passes_slot: "env_ok env \<Longrightarrow> passes P (out_slot env out operation) (\<lambda>s. s = out \<and> s \<noteq> 0)"
  by (simp add: out_slot_def passes_refuse passes_give)

lemma passes_json: "env_ok env \<Longrightarrow> passes P (parse_json env parse failure json) (\<lambda>_. True)"
  by (simp add: parse_json_def passes_refuse passes_give split: sum.split)

lemma passes_config: "env_ok env \<Longrightarrow> passes P (config_from_json env parse json) (\<lambda>_. True)"
  unfolding config_from_json_def by (rule passes_json)

lemma passes_runtime:
  assumes "env_ok env"
  shows "passes (live runtime) (runtime_ref env runtime operation) (\<lambda>rt. rt = runtime \<and> rt \<noteq> 0)"
proof -
  have refuse: "passes (live runtime) (refuse env e) (\<lambda>rt. rt = runtime \<and> rt \<noteq> 0)" for e
    using assms by (rule passes_refuse)
  show ?thesis
  proof (cases "runtime = 0")
    case True
    then show ?thesis
      using refuse[of "with_operation (public_error_new InvalidArgument ''NULL runtime handle'') operation"]
      unfolding passes_def runtime_ref_def by simp
  next
    case False
    then show ?thesis by (simp add: passes_def runtime_ref_def give_def live_def)
  qed
qed

lemma app_step_handles:
  "app_step runtime method w = (out, w') \<Longrightarrow>
   map fst (fw_runtimes w') = map fst (fw_runtimes w) \<and> fw_heap w' = fw_heap w \<and>
   fw_subscriptions w' = fw_subscriptions w \<and> fw_counters w' = fw_counters w \<and>
   map (hr_subscriptions \<circ> snd) (fw_runtimes w') = map (hr_subscriptions \<circ> snd) (fw_runtimes w)"
  by (auto simp: app_step_def Let_def case_prod_beta split: option.splits)

lemma passes_app:
  assumes "runtime \<noteq> 0"
  shows "passes (live runtime) (app_step runtime method) (\<lambda>_. True)"
  unfolding passes_def
proof (intro allI impI)
  fix w :: "'a ffi"
  assume "live runtime w"
  then obtain rt where rt: "map_of (fw_runtimes w) runtime = Some rt"
    using assms by (cases "map_of (fw_runtimes w) runtime") (auto simp: live_def map_of_eq_None_iff)
  have keys: "fst ` set (map (\<lambda>(p, x). (p, if p = runtime then x\<lparr>hr_app := app1\<rparr> else x)) xs) = fst ` set xs"
    for xs :: "(nat \<times> 'a HsRuntime) list" and app1 by force
  show "case app_step runtime method w of
      (Return (Inl result), w') \<Rightarrow> answered w result w'
    | (Return (Inr x), w') \<Rightarrow> fw_heap w' = fw_heap w \<and> live runtime w' \<and> True
    | (Unwind, w') \<Rightarrow> fw_heap w' = fw_heap w | (Undefined, w') \<Rightarrow> False"
    using rt \<open>live runtime w\<close> keys
    by (auto simp: app_step_def live_def Let_def split: prod.splits option.splits)
qed

lemma settles_catch:
  assumes "env_ok env" "settles P body"
  shows "P w \<Longrightarrow> \<exists>result w'. abi_catch env operation body w = (Return result, w') \<and> answered w result w'"
proof -
  assume P: "P w"
  obtain out w1 where body: "body w = (out, w1)" by fastforce
  show ?thesis
  proof (cases out)
    case (Return result)
    then show ?thesis using body P assms(2) by (auto simp: abi_catch_def settles_def dest!: spec[of _ w])
  next
    case Unwind
    then have heap: "fw_heap w1 = fw_heap w" using body P assms(2) by (auto simp: settles_def dest!: spec[of _ w])
    obtain result w2 where err: "abi_err env (with_operation (public_error_new Internal ''internal panic'') operation) w1
        = (result, w2)" by fastforce
    from abi_err_answered[OF assms(1) this] have "answered w result w2" using answered_heap[OF heap] by simp
    then show ?thesis using Unwind body err by (simp add: abi_catch_def finish_def)
  next
    case Undefined
    then show ?thesis using body P assms(2) by (auto simp: settles_def dest!: spec[of _ w])
  qed
qed

section \<open>Results are freed once\<close>

lemma stored_buffer:
  assumes "stored w w' buffer" "distinct (map fst (fw_heap w))"
  shows "\<not> malformed buffer"
    and "\<exists>w''. free_buffer buffer w' = (Return (), w'') \<and> fw_heap w'' = fw_heap w \<and> free_buffer buffer w'' = (Undefined, w'')"
    and "distinct (map fst (fw_heap w'))"
proof -
  obtain ptr t where b: "t \<noteq> []" "ptr \<noteq> 0" "ptr \<notin> fst ` set (fw_heap w)"
    "buffer = \<lparr>hb_ptr = ptr, hb_len = length t, hb_capacity = length t\<rparr>" "fw_heap w' = (ptr, t) # fw_heap w"
    using assms(1) by (auto simp: stored_def)
  show "\<not> malformed buffer" "distinct (map fst (fw_heap w'))"
    using b assms(2) by (auto simp: malformed_def)
  have "filter (\<lambda>(p, _). p \<noteq> ptr) (fw_heap w) = fw_heap w" using b(3) by (force simp: filter_id_conv)
  moreover have "map_of (fw_heap w) ptr = None" using b(3) by (simp add: map_of_eq_None_iff)
  ultimately show "\<exists>w''. free_buffer buffer w' = (Return (), w'') \<and> fw_heap w'' = fw_heap w \<and>
      free_buffer buffer w'' = (Undefined, w'')"
    using b by (simp add: free_buffer_def malformed_def)
qed

lemma free_empty [simp]: "free_buffer empty_buffer w = (Return (), w)"
  by (simp add: free_buffer_def malformed_def empty_buffer_def)

text \<open>Giving the result of a call back restores the memory as it was before the call.\<close>

lemma answered_freed:
  assumes "answered w result w'" "distinct (map fst (fw_heap w))"
  shows "\<exists>w''. hs_call_result_free result w' = (Return (), w'') \<and> fw_heap w'' = fw_heap w \<and>
    fst (hs_call_result_free result w'') = Undefined"
  using assms(1) unfolding answered_def
proof (elim disjE conjE)
  assume r: "stored w w' (hc_value result)" "hc_error result = empty_buffer"
  from stored_buffer(2)[OF r(1) assms(2)] obtain w'' where f: "free_buffer (hc_value result) w' = (Return (), w'')"
    "fw_heap w'' = fw_heap w" "free_buffer (hc_value result) w'' = (Undefined, w'')" by blast
  then show ?thesis using r(2) by (simp add: hs_call_result_free_def free_result_def swallow_def)
next
  assume r: "hc_value result = empty_buffer" "stored w w' (hc_error result)"
  from stored_buffer(2)[OF r(2) assms(2)] obtain w'' where f: "free_buffer (hc_error result) w' = (Return (), w'')"
    "fw_heap w'' = fw_heap w" "free_buffer (hc_error result) w'' = (Undefined, w'')" by blast
  then show ?thesis using r(1) by (simp add: hs_call_result_free_def free_result_def swallow_def)
qed

section \<open>Lifecycle calls are answered\<close>

lemma settles_at:
  assumes "settles P body" "P w1" "fw_heap w1 = fw_heap w"
  shows "case body w1 of (Return result, w') \<Rightarrow> answered w result w'
      | (Unwind, w') \<Rightarrow> fw_heap w' = fw_heap w | (Undefined, w') \<Rightarrow> False"
proof -
  have "case body w1 of (Return result, w') \<Rightarrow> answered w1 result w'
      | (Unwind, w') \<Rightarrow> fw_heap w' = fw_heap w1 | (Undefined, w') \<Rightarrow> False"
    using assms(1,2) by (simp add: settles_def)
  then show ?thesis
    using answered_heap[OF assms(3)] assms(3) by (cases "body w1") (simp split: run.splits)
qed

lemma settles_box:
  assumes "\<And>P. settles P body" "\<And>w. fw_heap (f w) = fw_heap w"
  shows "settles P (\<lambda>w. body (f w))"
  unfolding settles_def
proof (intro allI impI)
  fix w
  show "case body (f w) of (Return result, w') \<Rightarrow> answered w result w'
      | (Unwind, w') \<Rightarrow> fw_heap w' = fw_heap w | (Undefined, w') \<Rightarrow> False"
    by (rule settles_at[OF assms(1)[of "\<lambda>_. True"] TrueI assms(2)])
qed

lemma box_heap [simp]:
  "fw_heap (box_runtime env app slot w) = fw_heap w"
  "fw_heap (box_subscription env k slot w) = fw_heap w"
  "fw_heap (on_counter k f w) = fw_heap w"
  by (simp_all add: box_runtime_def box_subscription_def on_counter_def Let_def)

lemma settles_unwind [abi_intros]: "settles P (\<lambda>w. (Unwind, w))"
  by (simp add: settles_def)

text \<open>The rules for bodies, one per kind of step.\<close>

lemma settles_input [abi_intros]:
  "env_ok env \<Longrightarrow> (\<And>x. settles P (body x)) \<Longrightarrow> settles P (ffi_try (input_str env input operation) body)"
  by (rule settles_try[OF passes_input])

lemma settles_json [abi_intros]:
  "env_ok env \<Longrightarrow> (\<And>x. settles P (body x)) \<Longrightarrow> settles P (ffi_try (parse_json env parse failure json) body)"
  by (rule settles_try[OF passes_json])

lemma settles_config [abi_intros]:
  "env_ok env \<Longrightarrow> (\<And>x. settles P (body x)) \<Longrightarrow> settles P (ffi_try (config_from_json env parse json) body)"
  by (rule settles_try[OF passes_config])

lemma settles_slot [abi_intros]:
  "env_ok env \<Longrightarrow> (\<And>x. settles P (body x)) \<Longrightarrow> settles P (ffi_try (out_slot env out operation) body)"
  by (rule settles_try[OF passes_slot])

lemma settles_runtime [abi_intros]:
  "env_ok env \<Longrightarrow> (runtime \<noteq> 0 \<Longrightarrow> settles (live runtime) (body runtime)) \<Longrightarrow>
   settles (live runtime) (ffi_try (runtime_ref env runtime operation) body)"
  by (rule settles_try[OF passes_runtime]) auto

lemma settles_app [abi_intros]:
  "runtime \<noteq> 0 \<Longrightarrow> (\<And>x. settles (live runtime) (body x)) \<Longrightarrow>
   settles (live runtime) (ffi_try (app_step runtime method) body)"
  by (rule settles_try[OF passes_app])

lemma settles_sum [abi_intros]:
  "(\<And>e. settles P (f e)) \<Longrightarrow> (\<And>x. settles P (g x)) \<Longrightarrow> settles P (case out of Inl e \<Rightarrow> f e | Inr x \<Rightarrow> g x)"
  by (cases out) simp_all

lemma settles_option [abi_intros]:
  "settles P f \<Longrightarrow> (\<And>x. settles P (g x)) \<Longrightarrow> settles P (case out of None \<Rightarrow> f | Some x \<Rightarrow> g x)"
  by (cases out) simp_all

lemma settles_if [abi_intros]:
  "settles P f \<Longrightarrow> settles P g \<Longrightarrow> settles P (if c then f else g)"
  by simp

lemma settles_boxed:
  assumes "env_ok env"
  shows "settles P (\<lambda>w. answer_object env obj (box_runtime env app slot w))"
    and "settles P (\<lambda>w. answer_object env obj (box_subscription env k slot w))"
  by (rule settles_box[where body = "answer_object env obj", OF settles_object[OF assms]], simp)+

lemma runtime_create_settles:
  assumes "env_ok env"
  shows "\<exists>result w'. hs_runtime_create env parse built create input out w = (Return result, w') \<and> answered w result w'"
  unfolding hs_runtime_create_def
  by (intro settles_catch[where P = "\<lambda>_. True"] abi_intros settles_boxed assms TrueI)

lemma runtime_shutdown_settles:
  assumes "env_ok env" "live runtime w"
  shows "\<exists>result w'. hs_runtime_shutdown env shutdown runtime w = (Return result, w') \<and> answered w result w'"
proof (cases "runtime = 0")
  case True
  then have "hs_runtime_shutdown env shutdown runtime =
      abi_catch env ''runtime_shutdown'' (answer_object env [(''shutdown'', JBool True)])"
    by (simp add: hs_runtime_shutdown_def)
  then show ?thesis by (simp only:) (intro settles_catch[where P = "\<lambda>_. True"] abi_intros assms TrueI)
next
  case False
  show ?thesis
    unfolding hs_runtime_shutdown_def using False
    by (simp only: if_False) (intro settles_catch[where P = "live runtime"] abi_intros assms)
qed

lemma settles_counter:
  assumes "settles P body" "\<And>w. fw_heap (f w) = fw_heap w"
  shows "settles P (\<lambda>w. case body w of (out, w1) \<Rightarrow> (out, f w1))"
  unfolding settles_def
proof (intro allI impI)
  fix w
  assume "P w"
  have same: "answered w result (f w1) = answered w result w1" for result w1
    by (simp add: answered_def stored_def assms(2))
  obtain out w1 where body: "body w = (out, w1)" by fastforce
  then show "case case body w of (out, w1) \<Rightarrow> (out, f w1) of (Return result, w') \<Rightarrow> answered w result w'
      | (Unwind, w') \<Rightarrow> fw_heap w' = fw_heap w | (Undefined, w') \<Rightarrow> False"
    using assms(1) \<open>P w\<close> same assms(2) by (cases out) (auto simp: settles_def dest!: spec[of _ w])
qed

lemma subscribe_reserved_settles:
  assumes "env_ok env" "runtime \<noteq> 0"
  shows "settles (live runtime) (subscribe_reserved env subscribe built runtime k slot)"
  unfolding settles_def
proof (intro allI impI)
  fix w :: "'a ffi"
  assume live: "live runtime w"
  obtain out w1 where step: "app_step runtime subscribe w = (out, w1)" by fastforce
  have heap: "fw_heap w1 = fw_heap w" using app_step_handles[OF step] by simp
  have no_result: "out \<noteq> Return (Inl result)" for result
    using step by (auto simp: app_step_def Let_def split: option.splits prod.splits)
  have defined: "out \<noteq> Undefined"
    using passes_app[OF assms(2), of subscribe] live step by (auto simp: passes_def dest!: spec[of _ w])
  have failed: "settles (\<lambda>_. True) (\<lambda>w. case fail_with env (tokio_failed e) w of (result, w2) \<Rightarrow> (result, on_counter k release w2))" for e
    by (rule settles_counter[OF settles_fail[OF assms(1)]]) simp
  have boxed: "settles (\<lambda>_. True) (\<lambda>w. answer_object env [(''subscribed'', JBool True)] (box_subscription env k slot w))"
    by (rule settles_boxed(2)[OF assms(1)])
  show "case subscribe_reserved env subscribe built runtime k slot w of (Return result, w') \<Rightarrow> answered w result w'
      | (Unwind, w') \<Rightarrow> fw_heap w' = fw_heap w | (Undefined, w') \<Rightarrow> False"
  proof (cases out)
    case (Return r)
    then obtain x where "out = Return (Inr x)" using no_result by (cases r) auto
    then show ?thesis
      using step settles_at[OF boxed TrueI heap] settles_at[OF failed TrueI heap]
      by (cases built) (simp_all add: subscribe_reserved_def)
  qed (use step heap defined in \<open>auto simp: subscribe_reserved_def\<close>)
qed

lemma subscribe_settles:
  assumes "env_ok env" "live runtime w"
  shows "\<exists>result w'. hs_subscribe_events env subscribe built runtime out w = (Return result, w') \<and> answered w result w'"
proof -
  let ?body = "\<lambda>rt slot w. case map_of (fw_runtimes w) rt of
            None \<Rightarrow> (Undefined, w)
          | Some x \<Rightarrow>
              (let k = hr_subscriptions x; (granted, c) = acquire (fw_counters w ! k); w1 = on_counter k (\<lambda>_. c) w
               in if \<not> granted then fail_with env too_many_subscriptions w1
                  else subscribe_reserved env subscribe built rt k slot w1)"
  have "settles (live runtime) (?body runtime slot)" if nz: "runtime \<noteq> 0" for slot
    unfolding settles_def
  proof (intro allI impI)
    fix w :: "'a ffi"
    assume live: "live runtime w"
    then obtain x where x: "map_of (fw_runtimes w) runtime = Some x"
      using nz by (cases "map_of (fw_runtimes w) runtime") (auto simp: live_def map_of_eq_None_iff)
    obtain granted c where acq: "acquire (fw_counters w ! hr_subscriptions x) = (granted, c)" by fastforce
    let ?w1 = "on_counter (hr_subscriptions x) (\<lambda>_. c) w"
    have live1: "live runtime ?w1" using live by (simp add: live_def on_counter_def)
    show "case ?body runtime slot w of (Return result, w') \<Rightarrow> answered w result w'
      | (Unwind, w') \<Rightarrow> fw_heap w' = fw_heap w | (Undefined, w') \<Rightarrow> False"
      using x acq settles_at[OF settles_fail[OF assms(1)] TrueI, of ?w1 w too_many_subscriptions]
        settles_at[OF subscribe_reserved_settles[OF assms(1) nz] live1, of w subscribe built "hr_subscriptions x" slot]
      by (simp add: Let_def)
  qed
  then show ?thesis
    unfolding hs_subscribe_events_def
    by (intro settles_catch[where P = "live runtime"] settles_runtime settles_slot assms)
qed

lemma subscription_next_settles:
  assumes "env_ok env" "live_subscription subscription w" "\<And>event. to_json event \<noteq> Inr []"
  shows "\<exists>result w'. hs_subscription_next env to_json outcome subscription w = (Return result, w') \<and> answered w result w'"
proof (cases "subscription = 0")
  case True
  then have "hs_subscription_next env to_json outcome subscription w =
      abi_catch env ''subscription_next'' (answer_object env [(''closed'', JBool True)]) w"
    by (simp add: hs_subscription_next_def)
  then show ?thesis by (simp only:) (intro settles_catch[where P = "\<lambda>_. True"] abi_intros assms TrueI)
next
  case False
  let ?tail = "case outcome of
                  Received event \<Rightarrow> finish (abi_ok env to_json event)
                | RecvClosed \<Rightarrow> answer_object env [(''closed'', JBool True)]
                | RecvLagged skipped \<Rightarrow>
                    fail_with env (with_detail (public_error_new InvalidState ''subscription lagged'')
                      (''skipped '' @ show_nat skipped @ '' events''))
                | RecvElapsed \<Rightarrow> answer_object env [(''timeout'', JBool True)]"
  have tail: "settles P ?tail" for P
    using assms(3) by (cases outcome) (simp_all add: settles_ok settles_object settles_fail assms(1))
  have "settles (live_subscription subscription)
      (\<lambda>w. if subscription \<notin> fst ` set (fw_subscriptions w) then (Undefined, w) else ?tail w)"
    using tail[of "live_subscription subscription"] False by (auto simp: settles_def live_subscription_def)
  then show ?thesis
    unfolding hs_subscription_next_def using False
    by (simp only: if_False) (intro settles_catch[where P = "live_subscription subscription"] assms)
qed

section \<open>The quota of subscriptions\<close>

text \<open>Threads at work on one counter: refused ones that have not taken their addition back yet,
  holders of an armed reservation, and live subscriptions.\<close>

record quota =
  qu_counter :: u64
  qu_refused :: nat
  qu_reserved :: nat
  qu_live :: nat

inductive quota_step :: "quota \<Rightarrow> quota \<Rightarrow> bool" where
  granted: "reserve (qu_counter q) = (True, c) \<Longrightarrow>
    quota_step q (q\<lparr>qu_counter := c, qu_reserved := qu_reserved q + 1\<rparr>)"
| refused: "reserve (qu_counter q) = (False, c) \<Longrightarrow> unat (qu_counter q) + 1 < usize_bound \<Longrightarrow>
    quota_step q (q\<lparr>qu_counter := c, qu_refused := qu_refused q + 1\<rparr>)"
| taken_back: "qu_refused q > 0 \<Longrightarrow>
    quota_step q (q\<lparr>qu_counter := release (qu_counter q), qu_refused := qu_refused q - 1\<rparr>)"
| dropped: "qu_reserved q > 0 \<Longrightarrow>
    quota_step q (q\<lparr>qu_counter := release (qu_counter q), qu_reserved := qu_reserved q - 1\<rparr>)"
| disarmed: "qu_reserved q > 0 \<Longrightarrow>
    quota_step q (q\<lparr>qu_reserved := qu_reserved q - 1, qu_live := qu_live q + 1\<rparr>)"
| destroyed: "qu_live q > 0 \<Longrightarrow>
    quota_step q (q\<lparr>qu_counter := release (qu_counter q), qu_live := qu_live q - 1\<rparr>)"

definition quota_new :: "quota \<Rightarrow> bool" where
  "quota_new q \<longleftrightarrow> q = \<lparr>qu_counter = 0, qu_refused = 0, qu_reserved = 0, qu_live = 0\<rparr>"

definition quota_ok :: "quota \<Rightarrow> bool" where
  "quota_ok q \<longleftrightarrow> unat (qu_counter q) = qu_refused q + qu_reserved q + qu_live q \<and>
     qu_reserved q + qu_live q \<le> MAX_SUBSCRIPTIONS"

lemma unat_add_one: "unat c + 1 < usize_bound \<Longrightarrow> unat (c + 1 :: u64) = unat c + 1"
  by (simp add: usize_bound_def unat_word_ariths)

lemma unat_release: "unat c > 0 \<Longrightarrow> unat (release c) = unat c - 1"
  unfolding release_def by (rule unat_minus_one) auto

lemma quota_step_ok: "quota_step q q' \<Longrightarrow> quota_ok q \<Longrightarrow> quota_ok q'"
proof (induction rule: quota_step.induct)
  case (granted q c)
  then have "unat (qu_counter q) < MAX_SUBSCRIPTIONS" "c = qu_counter q + 1" by (auto simp: reserve_def)
  then show ?case
    using granted unat_add_one[of "qu_counter q"] by (simp add: quota_ok_def MAX_SUBSCRIPTIONS_def usize_bound_def)
next
  case (refused q c)
  then show ?case using unat_add_one[of "qu_counter q"] by (auto simp: quota_ok_def reserve_def)
qed (auto simp: quota_ok_def unat_release)

interpretation quotas: preserved_invariant quota_new quota_step quota_ok
  by unfold_locales (auto simp: quota_new_def quota_ok_def MAX_SUBSCRIPTIONS_def dest: quota_step_ok)



end
