(* ===== verification/Ffi.thy ===== *)
theory Ffi
  imports Abi Discovery SyncJobs
begin

text \<open>
  The exported calls of the C interface: \<open>handshaker-ffi/src/lib.rs\<close>, \<open>files.rs\<close>, \<open>clipboard.rs\<close>,
  \<open>trust.rs\<close>, \<open>batch.rs\<close>, \<open>monitor.rs\<close>, \<open>sync.rs\<close>, \<open>diagnostics.rs\<close> and, without thumbnails,
  \<open>media.rs\<close>. A call reads its arguments, fills in defaults, calls one method of the application
  runtime and answers with JSON. The parsers and printers of JSON are arguments; so are the methods
  of the application runtime, as the record \<open>app_api\<close>, so that a method may also panic.
\<close>

section \<open>Requests\<close>

record FfiListDevicesRequest =
  fd_include_adb :: "bool option"
  fd_include_wifi :: "bool option"
  fd_include_usb :: "bool option"
  fd_wifi_browse_timeout_ms :: "nat option"

record FfiListFilesRequest =
  fl_path :: "string option"
  fl_depth :: "u32 option"

record FfiTransferPaths =
  ft_remote_path :: string
  ft_local_path :: string
  ft_overwrite :: "bool option"

record FfiCountFilesRequest =
  fn_path :: "string option"
  fn_depth :: "u32 option"
  fn_exclusions :: "string list"

record FfiMovePathRequest =
  fm_source :: string
  fm_target :: string

record FfiDeletePathsRequest =
  fx_paths :: "string list"
  fx_trash :: bool
  fx_sync :: bool

record FfiUpdateFileInfoRequest =
  fu_files :: "UpdateFileInfoItemDto list"
  fu_is_sync :: bool

record FfiTrustResetRequest =
  fz_endpoint :: string
  fz_expected_device_id :: string

record FfiBatchRequest =
  fb_files :: "BatchTransferItemDto list"
  fb_trees :: "TreeTransferDto list"
  fb_overwrite :: "bool option"

record FfiMonitorFolderRequest =
  fo_path :: string
  fo_enabled :: "bool option"

record MediaPageRequestRaw =
  mq_limit :: "nat option"
  mq_cursor :: "nat option"

datatype MediaPageRequest = FullLibrary | LibraryPage "nat option" "nat option"

text \<open>The fields \<open>parse_profile\<close> looks up in a JSON value, where they are strings or booleans.\<close>

record profile_fields =
  pf_device_uuid :: "string option"
  pf_local_root :: "string option"
  pf_id :: "string option"
  pf_remote_root :: "string option"
  pf_enabled :: "bool option"

record DownloadRequest =
  dw_session_id :: nat
  dw_remote_path :: string
  dw_local_path :: string
  dw_overwrite :: bool

record UploadRequest =
  up_session_id :: nat
  up_local_path :: string
  up_remote_path :: string
  up_overwrite :: bool

record diagnostics =
  dg_abi :: string
  dg_application_api :: string
  dg_json_contract :: nat
  dg_crate_version :: string
  dg_platform :: string
  dg_arch :: string
  dg_adb_path :: string
  dg_adb_available :: bool
  dg_adb_version :: "string option"
  dg_state_dir :: "string option"
  dg_wire_log_enabled :: bool
  dg_wire_log_payload :: bool
  dg_active_sessions :: nat
  dg_active_transfers :: int
  dg_active_subscriptions :: u64
  dg_capabilities :: "string list"

section \<open>Replies and methods\<close>

datatype reply =
    RDevices "DeviceDescriptor list"
  | RDiscovery DeviceDiscoveryResult
  | RSession SessionSnapshot
  | RFiles "FileEntryDto list"
  | RFile "FileEntryDto option"
  | RDeleted DeleteResultDto
  | RPing PingResultDto
  | RTransfer TransferSnapshot
  | RTransfers "TransferSnapshot list"
  | RClipboards "ClipboardEntryDto list"
  | RTrust "TrustRecordDto list"
  | RRemoved bool
  | RSyncPlan SyncPlanDto
  | RSyncStatus SyncStatusDto
  | RPhotos PhotoLibraryDto
  | RVideos VideoLibraryDto
  | RAudio AudioLibraryDto
  | RExif ExifDataDto
  | RDiagnostics diagnostics

text \<open>The JSON library: printing a reply, and parsing each type of request.\<close>

record ffi_json =
  js_reply :: "reply \<Rightarrow> string + string"
  js_list_devices :: "string \<Rightarrow> string + FfiListDevicesRequest"
  js_device :: "string \<Rightarrow> string + DeviceDescriptor"
  js_list_files :: "string \<Rightarrow> string + FfiListFilesRequest"
  js_path :: "string \<Rightarrow> string + string"
  js_optional_path :: "string \<Rightarrow> string + string option"
  js_transfer_paths :: "string \<Rightarrow> string + FfiTransferPaths"
  js_count_files :: "string \<Rightarrow> string + FfiCountFilesRequest"
  js_move_path :: "string \<Rightarrow> string + FfiMovePathRequest"
  js_delete_paths :: "string \<Rightarrow> string + FfiDeletePathsRequest"
  js_update_file_info :: "string \<Rightarrow> string + FfiUpdateFileInfoRequest"
  js_text :: "string \<Rightarrow> string + string"
  js_timestamp :: "string \<Rightarrow> string + int"
  js_device_id :: "string \<Rightarrow> string + string"
  js_trust_reset :: "string \<Rightarrow> string + FfiTrustResetRequest"
  js_batch :: "string \<Rightarrow> string + FfiBatchRequest"
  js_monitor :: "string \<Rightarrow> string + FfiMonitorFolderRequest"
  js_profile :: "string \<Rightarrow> string + profile_fields"
  js_page :: "string \<Rightarrow> string + MediaPageRequestRaw"
  js_photo_library :: "string \<Rightarrow> string + PhotoLibraryDto"
  js_video_library :: "string \<Rightarrow> string + VideoLibraryDto"
  js_audio_library :: "string \<Rightarrow> string + AudioLibraryDto"
  js_media_change :: "string \<Rightarrow> string + MediaChangeDto"

text \<open>The methods of \<open>HandShakerRuntime\<close> the calls use.\<close>

type_synonym ('a, 'x) app_method = "('a, 'x app_result) api"

record 'a app_api =
  ap_list_devices :: "ListDevicesRequest \<Rightarrow> nat \<Rightarrow> ('a, DeviceDescriptor list) app_method"
  ap_discover_devices :: "ListDevicesRequest \<Rightarrow> nat \<Rightarrow> ('a, DeviceDiscoveryResult) app_method"
  ap_connect :: "DeviceDescriptor \<Rightarrow> ('a, nat) app_method"
  ap_disconnect :: "nat \<Rightarrow> ('a, unit) app_method"
  ap_get_session_snapshot :: "nat \<Rightarrow> ('a, SessionSnapshot) app_method"
  ap_list_files :: "ListFilesRequest \<Rightarrow> ('a, FileEntryDto list) app_method"
  ap_create_directory :: "CreateDirectoryRequest \<Rightarrow> ('a, unit) app_method"
  ap_ping :: "nat \<Rightarrow> ('a, PingResultDto) app_method"
  ap_start_download :: "DownloadRequest \<Rightarrow> ('a, nat) app_method"
  ap_start_upload :: "UploadRequest \<Rightarrow> ('a, nat) app_method"
  ap_cancel_transfer :: "nat \<Rightarrow> ('a, unit) app_method"
  ap_get_transfer :: "nat \<Rightarrow> ('a, TransferSnapshot) app_method"
  ap_list_transfers :: "('a, TransferSnapshot list) app_method"
  ap_stat_file :: "StatFileRequest \<Rightarrow> ('a, FileEntryDto option) app_method"
  ap_count_files :: "CountFilesRequest \<Rightarrow> ('a, nat) app_method"
  ap_move_path :: "MovePathRequest \<Rightarrow> ('a, unit) app_method"
  ap_delete_paths :: "DeletePathsRequest \<Rightarrow> ('a, DeleteResultDto) app_method"
  ap_update_files_info :: "UpdateFileInfoRequest \<Rightarrow> ('a, bool) app_method"
  ap_list_clipboards :: "nat \<Rightarrow> ('a, ClipboardEntryDto list) app_method"
  ap_set_clipboard :: "nat \<Rightarrow> string \<Rightarrow> ('a, unit) app_method"
  ap_delete_clipboard :: "nat \<Rightarrow> int \<Rightarrow> ('a, unit) app_method"
  ap_clear_clipboards :: "nat \<Rightarrow> ('a, unit) app_method"
  ap_list_trust_records :: "('a, TrustRecordDto list) app_method"
  ap_remove_trust_record :: "string \<Rightarrow> ('a, bool) app_method"
  ap_reset_wifi_trust :: "string \<Rightarrow> string \<Rightarrow> ('a, unit) app_method"
  ap_start_batch_download :: "BatchTransferRequest \<Rightarrow> ('a, nat) app_method"
  ap_start_batch_upload :: "BatchTransferRequest \<Rightarrow> ('a, nat) app_method"
  ap_monitor_folder :: "nat \<Rightarrow> string \<Rightarrow> bool \<Rightarrow> ('a, unit) app_method"
  ap_plan_sync :: "SyncProfileDto \<Rightarrow> ('a, SyncPlanDto) app_method"
  ap_start_sync :: "SyncProfileDto \<Rightarrow> ('a, string) app_method"
  ap_get_sync_status :: "string \<Rightarrow> ('a, SyncStatusDto) app_method"
  ap_stop_sync :: "string \<Rightarrow> ('a, unit) app_method"
  ap_start_sync_watch :: "string \<Rightarrow> ('a, unit) app_method"
  ap_stop_sync_watch :: "string \<Rightarrow> ('a, unit) app_method"
  ap_get_photo_library :: "nat \<Rightarrow> ('a, PhotoLibraryDto) app_method"
  ap_get_video_library :: "nat \<Rightarrow> ('a, VideoLibraryDto) app_method"
  ap_get_audio_library :: "nat \<Rightarrow> ('a, AudioLibraryDto) app_method"
  ap_get_photo_library_page :: "nat \<Rightarrow> nat option \<Rightarrow> nat option \<Rightarrow> ('a, PhotoLibraryDto) app_method"
  ap_get_video_library_page :: "nat \<Rightarrow> nat option \<Rightarrow> nat option \<Rightarrow> ('a, VideoLibraryDto) app_method"
  ap_get_audio_library_page :: "nat \<Rightarrow> nat option \<Rightarrow> nat option \<Rightarrow> ('a, AudioLibraryDto) app_method"
  ap_get_thumbnails :: "nat \<Rightarrow> ImageFileDto list \<Rightarrow> VideoFileDto list \<Rightarrow> AudioAlbumDto list \<Rightarrow> ('a, ThumbnailsDto) app_method"
  ap_fetch_exif :: "nat \<Rightarrow> string \<Rightarrow> ('a, ExifDataDto) app_method"
  ap_session_count :: "('a, nat) api"
  ap_config :: "'a \<Rightarrow> RuntimeConfig"
  ap_display :: "core_error \<Rightarrow> string"

text \<open>A fixed answer to a method that returns nothing of interest.\<close>

definition acknowledge :: "abi_env \<Rightarrow> string \<Rightarrow> 'x app_result \<Rightarrow> 'a abi_body" where
  "acknowledge env field outcome =
     (case outcome of Inr _ \<Rightarrow> answer_object env [(field, JBool True)] | Inl e \<Rightarrow> fail_with env e)"

definition answer_number :: "abi_env \<Rightarrow> string \<Rightarrow> nat app_result \<Rightarrow> 'a abi_body" where
  "answer_number env field outcome =
     (case outcome of Inr n \<Rightarrow> answer_object env [(field, JNumber n)] | Inl e \<Rightarrow> fail_with env e)"

definition reply_with :: "abi_env \<Rightarrow> ffi_json \<Rightarrow> ('x \<Rightarrow> reply) \<Rightarrow> 'x app_result \<Rightarrow> 'a abi_body" where
  "reply_with env js wrap outcome = respond env (\<lambda>x. js_reply js (wrap x)) outcome"

section \<open>Devices and sessions\<close>

definition list_devices_request :: "FfiListDevicesRequest \<Rightarrow> ListDevicesRequest \<times> nat" where
  "list_devices_request ffi =
     (\<lparr>ld_include_adb = the_or True (fd_include_adb ffi), ld_include_wifi = the_or True (fd_include_wifi ffi),
       ld_include_usb = the_or True (fd_include_usb ffi)\<rparr>, the_or 3000 (fd_wifi_browse_timeout_ms ffi))"

definition hs_list_devices :: "abi_env \<Rightarrow> ffi_json \<Rightarrow> 'a app_api \<Rightarrow> nat \<Rightarrow> abi_input \<Rightarrow> 'a abi_body" where
  "hs_list_devices env js api runtime input =
     abi_catch env ''list_devices''
       (ffi_try (runtime_ref env runtime ''list_devices'') (\<lambda>rt.
        ffi_try (input_str env input ''list_devices'') (\<lambda>json.
        ffi_try (parse_json env (js_list_devices js) invalid_request_json json) (\<lambda>ffi.
        ffi_try (app_step rt (case list_devices_request ffi of (req, timeout) \<Rightarrow> ap_list_devices api req timeout)) (
          reply_with env js RDevices)))))"

definition hs_connect :: "abi_env \<Rightarrow> ffi_json \<Rightarrow> 'a app_api \<Rightarrow> nat \<Rightarrow> abi_input \<Rightarrow> 'a abi_body" where
  "hs_connect env js api runtime input =
     abi_catch env ''connect''
       (ffi_try (runtime_ref env runtime ''connect'') (\<lambda>rt.
        ffi_try (input_str env input ''connect'') (\<lambda>json.
        ffi_try (parse_json env (js_device js) (with_detail (public_error_new InvalidArgument ''invalid device JSON'')) json) (\<lambda>device.
        ffi_try (app_step rt (ap_connect api device)) (
          answer_number env ''session_id'')))))"

definition hs_disconnect :: "abi_env \<Rightarrow> ffi_json \<Rightarrow> 'a app_api \<Rightarrow> nat \<Rightarrow> nat \<Rightarrow> 'a abi_body" where
  "hs_disconnect env js api runtime session_id =
     abi_catch env ''disconnect''
       (ffi_try (runtime_ref env runtime ''disconnect'') (\<lambda>rt.
        ffi_try (app_step rt (ap_disconnect api session_id)) (
          acknowledge env ''disconnected'')))"

definition hs_get_session :: "abi_env \<Rightarrow> ffi_json \<Rightarrow> 'a app_api \<Rightarrow> nat \<Rightarrow> nat \<Rightarrow> 'a abi_body" where
  "hs_get_session env js api runtime session_id =
     abi_catch env ''get_session''
       (ffi_try (runtime_ref env runtime ''get_session'') (\<lambda>rt.
        ffi_try (app_step rt (ap_get_session_snapshot api session_id)) (
          reply_with env js RSession)))"

definition hs_list_files :: "abi_env \<Rightarrow> ffi_json \<Rightarrow> 'a app_api \<Rightarrow> nat \<Rightarrow> nat \<Rightarrow> abi_input \<Rightarrow> 'a abi_body" where
  "hs_list_files env js api runtime session_id input =
     abi_catch env ''list_files''
       (ffi_try (runtime_ref env runtime ''list_files'') (\<lambda>rt.
        ffi_try (input_str env input ''list_files'') (\<lambda>json.
        ffi_try (parse_json env (js_list_files js) invalid_request_json json) (\<lambda>ffi.
        ffi_try (app_step rt (ap_list_files api \<lparr>lq_session_id = session_id, lq_path = the_or ''.'' (fl_path ffi),
          lq_depth = the_or 1 (fl_depth ffi)\<rparr>)) (
          reply_with env js RFiles)))))"

definition hs_create_directory :: "abi_env \<Rightarrow> ffi_json \<Rightarrow> 'a app_api \<Rightarrow> nat \<Rightarrow> nat \<Rightarrow> abi_input \<Rightarrow> 'a abi_body" where
  "hs_create_directory env js api runtime session_id input =
     abi_catch env ''create_directory''
       (ffi_try (runtime_ref env runtime ''create_directory'') (\<lambda>rt.
        ffi_try (input_str env input ''create_directory'') (\<lambda>json.
        ffi_try (parse_json env (js_path js) invalid_request_json json) (\<lambda>p.
        ffi_try (app_step rt (ap_create_directory api \<lparr>dq_session_id = session_id, dq_path = p\<rparr>)) (
          acknowledge env ''created'')))))"

definition hs_ping :: "abi_env \<Rightarrow> ffi_json \<Rightarrow> 'a app_api \<Rightarrow> nat \<Rightarrow> nat \<Rightarrow> 'a abi_body" where
  "hs_ping env js api runtime session_id =
     abi_catch env ''ping''
       (ffi_try (runtime_ref env runtime ''ping'') (\<lambda>rt.
        ffi_try (app_step rt (ap_ping api session_id)) (
          reply_with env js RPing)))"

section \<open>Transfers\<close>

definition ffi_transfer_paths :: "FfiTransferPaths \<Rightarrow> string \<times> string \<times> bool" where
  "ffi_transfer_paths ffi = (ft_remote_path ffi, ft_local_path ffi, the_or False (ft_overwrite ffi))"

definition hs_transfer_start_download :: "abi_env \<Rightarrow> ffi_json \<Rightarrow> 'a app_api \<Rightarrow> nat \<Rightarrow> nat \<Rightarrow> abi_input \<Rightarrow> 'a abi_body" where
  "hs_transfer_start_download env js api runtime session_id input =
     abi_catch env ''transfer_start_download''
       (ffi_try (runtime_ref env runtime ''transfer_start_download'') (\<lambda>rt.
        ffi_try (input_str env input ''transfer_start_download'') (\<lambda>json.
        ffi_try (parse_json env (js_transfer_paths js) invalid_request_json json) (\<lambda>ffi.
        ffi_try (app_step rt (case ffi_transfer_paths ffi of (remote_path, local_path, replace) \<Rightarrow>
          ap_start_download api \<lparr>dw_session_id = session_id, dw_remote_path = remote_path, dw_local_path = local_path,
            dw_overwrite = replace\<rparr>)) (
          answer_number env ''transfer_id'')))))"

definition hs_transfer_start_upload :: "abi_env \<Rightarrow> ffi_json \<Rightarrow> 'a app_api \<Rightarrow> nat \<Rightarrow> nat \<Rightarrow> abi_input \<Rightarrow> 'a abi_body" where
  "hs_transfer_start_upload env js api runtime session_id input =
     abi_catch env ''transfer_start_upload''
       (ffi_try (runtime_ref env runtime ''transfer_start_upload'') (\<lambda>rt.
        ffi_try (input_str env input ''transfer_start_upload'') (\<lambda>json.
        ffi_try (parse_json env (js_transfer_paths js) invalid_request_json json) (\<lambda>ffi.
        ffi_try (app_step rt (case ffi_transfer_paths ffi of (remote_path, local_path, replace) \<Rightarrow>
          ap_start_upload api \<lparr>up_session_id = session_id, up_local_path = local_path, up_remote_path = remote_path,
            up_overwrite = replace\<rparr>)) (
          answer_number env ''transfer_id'')))))"

definition hs_transfer_cancel :: "abi_env \<Rightarrow> ffi_json \<Rightarrow> 'a app_api \<Rightarrow> nat \<Rightarrow> nat \<Rightarrow> 'a abi_body" where
  "hs_transfer_cancel env js api runtime transfer_id =
     abi_catch env ''transfer_cancel''
       (ffi_try (runtime_ref env runtime ''transfer_cancel'') (\<lambda>rt.
        ffi_try (app_step rt (ap_cancel_transfer api transfer_id)) (
          acknowledge env ''cancelled'')))"

definition hs_transfer_get :: "abi_env \<Rightarrow> ffi_json \<Rightarrow> 'a app_api \<Rightarrow> nat \<Rightarrow> nat \<Rightarrow> 'a abi_body" where
  "hs_transfer_get env js api runtime transfer_id =
     abi_catch env ''transfer_get''
       (ffi_try (runtime_ref env runtime ''transfer_get'') (\<lambda>rt.
        ffi_try (app_step rt (ap_get_transfer api transfer_id)) (
          reply_with env js RTransfer)))"

definition hs_transfer_list :: "abi_env \<Rightarrow> ffi_json \<Rightarrow> 'a app_api \<Rightarrow> nat \<Rightarrow> 'a abi_body" where
  "hs_transfer_list env js api runtime =
     abi_catch env ''transfer_list''
       (ffi_try (runtime_ref env runtime ''transfer_list'') (\<lambda>rt.
        ffi_try (app_step rt (ap_list_transfers api)) (
          reply_with env js RTransfers)))"

definition batch_request :: "nat \<Rightarrow> FfiBatchRequest \<Rightarrow> BatchTransferRequest" where
  "batch_request session_id ffi =
     \<lparr>bq_session_id = session_id, bq_files = fb_files ffi, bq_trees = fb_trees ffi,
      bq_overwrite = the_or False (fb_overwrite ffi)\<rparr>"

definition hs_transfer_start_batch_download :: "abi_env \<Rightarrow> ffi_json \<Rightarrow> 'a app_api \<Rightarrow> nat \<Rightarrow> nat \<Rightarrow> abi_input \<Rightarrow> 'a abi_body" where
  "hs_transfer_start_batch_download env js api runtime session_id input =
     abi_catch env ''transfer_start_batch_download''
       (ffi_try (runtime_ref env runtime ''transfer_start_batch_download'') (\<lambda>rt.
        ffi_try (input_str env input ''transfer_start_batch_download'') (\<lambda>json.
        ffi_try (parse_json env (js_batch js) invalid_request_json json) (\<lambda>ffi.
        ffi_try (app_step rt (ap_start_batch_download api (batch_request session_id ffi))) (
          answer_number env ''transfer_id'')))))"

definition hs_transfer_start_batch_upload :: "abi_env \<Rightarrow> ffi_json \<Rightarrow> 'a app_api \<Rightarrow> nat \<Rightarrow> nat \<Rightarrow> abi_input \<Rightarrow> 'a abi_body" where
  "hs_transfer_start_batch_upload env js api runtime session_id input =
     abi_catch env ''transfer_start_batch_upload''
       (ffi_try (runtime_ref env runtime ''transfer_start_batch_upload'') (\<lambda>rt.
        ffi_try (input_str env input ''transfer_start_batch_upload'') (\<lambda>json.
        ffi_try (parse_json env (js_batch js) invalid_request_json json) (\<lambda>ffi.
        ffi_try (app_step rt (ap_start_batch_upload api (batch_request session_id ffi))) (
          answer_number env ''transfer_id'')))))"

section \<open>Files\<close>

definition hs_stat_file :: "abi_env \<Rightarrow> ffi_json \<Rightarrow> 'a app_api \<Rightarrow> nat \<Rightarrow> nat \<Rightarrow> abi_input \<Rightarrow> 'a abi_body" where
  "hs_stat_file env js api runtime session_id input =
     abi_catch env ''stat_file''
       (ffi_try (runtime_ref env runtime ''stat_file'') (\<lambda>rt.
        ffi_try (input_str env input ''stat_file'') (\<lambda>json.
        ffi_try (parse_json env (js_optional_path js) invalid_request_json json) (\<lambda>p.
        ffi_try (app_step rt (ap_stat_file api \<lparr>sq_session_id = session_id, sq_path = the_or ''.'' p\<rparr>)) (
          reply_with env js RFile)))))"

definition hs_count_files :: "abi_env \<Rightarrow> ffi_json \<Rightarrow> 'a app_api \<Rightarrow> nat \<Rightarrow> nat \<Rightarrow> abi_input \<Rightarrow> 'a abi_body" where
  "hs_count_files env js api runtime session_id input =
     abi_catch env ''count_files''
       (ffi_try (runtime_ref env runtime ''count_files'') (\<lambda>rt.
        ffi_try (input_str env input ''count_files'') (\<lambda>json.
        ffi_try (parse_json env (js_count_files js) invalid_request_json json) (\<lambda>ffi.
        ffi_try (app_step rt (ap_count_files api \<lparr>cq_session_id = session_id, cq_path = the_or ''.'' (fn_path ffi),
          cq_depth = the_or 1 (fn_depth ffi), cq_exclusions = fn_exclusions ffi\<rparr>)) (
          answer_number env ''count'')))))"

definition hs_move_path :: "abi_env \<Rightarrow> ffi_json \<Rightarrow> 'a app_api \<Rightarrow> nat \<Rightarrow> nat \<Rightarrow> abi_input \<Rightarrow> 'a abi_body" where
  "hs_move_path env js api runtime session_id input =
     abi_catch env ''move_path''
       (ffi_try (runtime_ref env runtime ''move_path'') (\<lambda>rt.
        ffi_try (input_str env input ''move_path'') (\<lambda>json.
        ffi_try (parse_json env (js_move_path js) invalid_request_json json) (\<lambda>ffi.
        ffi_try (app_step rt (ap_move_path api \<lparr>vq_session_id = session_id, vq_source = fm_source ffi, vq_target = fm_target ffi\<rparr>)) (
          acknowledge env ''moved'')))))"

definition hs_delete_paths :: "abi_env \<Rightarrow> ffi_json \<Rightarrow> 'a app_api \<Rightarrow> nat \<Rightarrow> nat \<Rightarrow> abi_input \<Rightarrow> 'a abi_body" where
  "hs_delete_paths env js api runtime session_id input =
     abi_catch env ''delete_paths''
       (ffi_try (runtime_ref env runtime ''delete_paths'') (\<lambda>rt.
        ffi_try (input_str env input ''delete_paths'') (\<lambda>json.
        ffi_try (parse_json env (js_delete_paths js) invalid_request_json json) (\<lambda>ffi.
        ffi_try (app_step rt (ap_delete_paths api \<lparr>eq_session_id = session_id, eq_paths = fx_paths ffi, eq_trash = fx_trash ffi,
          eq_sync = fx_sync ffi\<rparr>)) (
          reply_with env js RDeleted)))))"

definition hs_update_file_info :: "abi_env \<Rightarrow> ffi_json \<Rightarrow> 'a app_api \<Rightarrow> nat \<Rightarrow> nat \<Rightarrow> abi_input \<Rightarrow> 'a abi_body" where
  "hs_update_file_info env js api runtime session_id input =
     abi_catch env ''update_file_info''
       (ffi_try (runtime_ref env runtime ''update_file_info'') (\<lambda>rt.
        ffi_try (input_str env input ''update_file_info'') (\<lambda>json.
        ffi_try (parse_json env (js_update_file_info js) (\<lambda>e. with_operation (invalid_request_json e) ''update_file_info'') json) (\<lambda>ffi.
        ffi_try (app_step rt (ap_update_files_info api \<lparr>uq_session_id = session_id, uq_files = fu_files ffi, uq_is_sync = fu_is_sync ffi\<rparr>)) (
          acknowledge env ''updated'')))))"

definition hs_monitor_folder :: "abi_env \<Rightarrow> ffi_json \<Rightarrow> 'a app_api \<Rightarrow> nat \<Rightarrow> nat \<Rightarrow> abi_input \<Rightarrow> 'a abi_body" where
  "hs_monitor_folder env js api runtime session_id input =
     abi_catch env ''monitor_folder''
       (ffi_try (runtime_ref env runtime ''monitor_folder'') (\<lambda>rt.
        ffi_try (input_str env input ''monitor_folder'') (\<lambda>json.
        ffi_try (parse_json env (js_monitor js) invalid_request_json json) (\<lambda>ffi.
        ffi_try (app_step rt (ap_monitor_folder api session_id (fo_path ffi) (the_or True (fo_enabled ffi)))) (
          acknowledge env ''registered'')))))"

section \<open>Clipboard\<close>

definition hs_clipboard_list :: "abi_env \<Rightarrow> ffi_json \<Rightarrow> 'a app_api \<Rightarrow> nat \<Rightarrow> nat \<Rightarrow> 'a abi_body" where
  "hs_clipboard_list env js api runtime session_id =
     abi_catch env ''clipboard_list''
       (ffi_try (runtime_ref env runtime ''clipboard_list'') (\<lambda>rt.
        ffi_try (app_step rt (ap_list_clipboards api session_id)) (
          reply_with env js RClipboards)))"

definition hs_clipboard_set :: "abi_env \<Rightarrow> ffi_json \<Rightarrow> 'a app_api \<Rightarrow> nat \<Rightarrow> nat \<Rightarrow> abi_input \<Rightarrow> 'a abi_body" where
  "hs_clipboard_set env js api runtime session_id input =
     abi_catch env ''clipboard_set''
       (ffi_try (runtime_ref env runtime ''clipboard_set'') (\<lambda>rt.
        ffi_try (input_str env input ''clipboard_set'') (\<lambda>json.
        ffi_try (parse_json env (js_text js) invalid_request_json json) (\<lambda>txt.
        ffi_try (app_step rt (ap_set_clipboard api session_id txt)) (
          acknowledge env ''set'')))))"

definition hs_clipboard_delete :: "abi_env \<Rightarrow> ffi_json \<Rightarrow> 'a app_api \<Rightarrow> nat \<Rightarrow> nat \<Rightarrow> abi_input \<Rightarrow> 'a abi_body" where
  "hs_clipboard_delete env js api runtime session_id input =
     abi_catch env ''clipboard_delete''
       (ffi_try (runtime_ref env runtime ''clipboard_delete'') (\<lambda>rt.
        ffi_try (input_str env input ''clipboard_delete'') (\<lambda>json.
        ffi_try (parse_json env (js_timestamp js) invalid_request_json json) (\<lambda>timestamp_ms.
        ffi_try (app_step rt (ap_delete_clipboard api session_id timestamp_ms)) (
          acknowledge env ''deleted'')))))"

definition hs_clipboard_clear :: "abi_env \<Rightarrow> ffi_json \<Rightarrow> 'a app_api \<Rightarrow> nat \<Rightarrow> nat \<Rightarrow> 'a abi_body" where
  "hs_clipboard_clear env js api runtime session_id =
     abi_catch env ''clipboard_clear''
       (ffi_try (runtime_ref env runtime ''clipboard_clear'') (\<lambda>rt.
        ffi_try (app_step rt (ap_clear_clipboards api session_id)) (
          acknowledge env ''cleared'')))"

section \<open>Trust\<close>

definition normalize_device_id :: "string \<Rightarrow> string" where
  "normalize_device_id device = (if starts_with ''phone:'' device then device else ''phone:'' @ device)"

definition hs_trust_list :: "abi_env \<Rightarrow> ffi_json \<Rightarrow> 'a app_api \<Rightarrow> nat \<Rightarrow> 'a abi_body" where
  "hs_trust_list env js api runtime =
     abi_catch env ''trust_list''
       (ffi_try (runtime_ref env runtime ''trust_list'') (\<lambda>rt.
        ffi_try (app_step rt (ap_list_trust_records api)) (
          reply_with env js RTrust)))"

definition hs_trust_remove :: "abi_env \<Rightarrow> ffi_json \<Rightarrow> 'a app_api \<Rightarrow> nat \<Rightarrow> abi_input \<Rightarrow> 'a abi_body" where
  "hs_trust_remove env js api runtime input =
     abi_catch env ''trust_remove''
       (ffi_try (runtime_ref env runtime ''trust_remove'') (\<lambda>rt.
        ffi_try (input_str env input ''trust_remove'') (\<lambda>json.
        ffi_try (parse_json env (js_device_id js) invalid_request_json json) (\<lambda>device.
        ffi_try (app_step rt (ap_remove_trust_record api (normalize_device_id device))) (
          reply_with env js RRemoved)))))"

definition hs_trust_reset :: "abi_env \<Rightarrow> ffi_json \<Rightarrow> 'a app_api \<Rightarrow> nat \<Rightarrow> abi_input \<Rightarrow> 'a abi_body" where
  "hs_trust_reset env js api runtime input =
     abi_catch env ''trust_reset''
       (ffi_try (runtime_ref env runtime ''trust_reset'') (\<lambda>rt.
        ffi_try (input_str env input ''trust_reset'') (\<lambda>json.
        ffi_try (parse_json env (js_trust_reset js) invalid_request_json json) (\<lambda>ffi.
        ffi_try (app_step rt (ap_reset_wifi_trust api (fz_endpoint ffi) (normalize_device_id (fz_expected_device_id ffi)))) (
          acknowledge env ''reset'')))))"

definition list_devices_default :: ListDevicesRequest where
  "list_devices_default = \<lparr>ld_include_adb = True, ld_include_wifi = True, ld_include_usb = True\<rparr>"

definition hs_discover_devices :: "abi_env \<Rightarrow> ffi_json \<Rightarrow> 'a app_api \<Rightarrow> nat \<Rightarrow> 'a abi_body" where
  "hs_discover_devices env js api runtime =
     abi_catch env ''discover_devices''
       (ffi_try (runtime_ref env runtime ''discover_devices'') (\<lambda>rt.
        ffi_try (app_step rt (ap_discover_devices api list_devices_default 3000)) (
          reply_with env js RDiscovery)))"

section \<open>Synchronization\<close>

definition DEFAULT_SYNC_ROOT :: string where
  "DEFAULT_SYNC_ROOT = ''/storage/emulated/0/DCIM/Camera''"

definition FFI_MAX_ID_LEN :: nat where
  "FFI_MAX_ID_LEN = 128"

definition MAX_PATH_LEN :: nat where
  "MAX_PATH_LEN = 4096"

definition id_char :: "char \<Rightarrow> bool" where
  "id_char c \<longleftrightarrow> between 0x30 0x39 c \<or> between 0x41 0x5A c \<or> between 0x61 0x7A c \<or> c = CHR ''-'' \<or> c = CHR ''_''"

definition normalize_device_uuid :: "string \<Rightarrow> string option" where
  "normalize_device_uuid raw =
     (let r = the_or raw (str_strip_prefix ''phone:'' raw) in
      if r = [] \<or> length r > FFI_MAX_ID_LEN then None
      else if \<not> list_all id_char r then None
      else Some r)"

definition bounded_text :: "nat \<Rightarrow> string option \<Rightarrow> string option" where
  "bounded_text bound t = (case t of Some s \<Rightarrow> if s \<noteq> [] \<and> length s \<le> bound then Some s else None | None \<Rightarrow> None)"

definition parse_profile ::
  "abi_env \<Rightarrow> (string \<Rightarrow> string + profile_fields) \<Rightarrow> nat \<Rightarrow> string \<Rightarrow> string \<Rightarrow> ('a, SyncProfileDto) abi_step" where
  "parse_profile env parse session_id json operation =
     (case parse json of
        Inl e \<Rightarrow> refuse env (with_operation (with_detail (public_error_new InvalidArgument ''invalid JSON request'') e) operation)
      | Inr vals \<Rightarrow>
          (case Option.bind (pf_device_uuid vals) normalize_device_uuid of
             None \<Rightarrow> refuse env (with_operation (public_error_new InvalidArgument
                       ''device_uuid is required and must match [A-Za-z0-9_-]+'') operation)
           | Some device_uuid \<Rightarrow>
               (case bounded_text MAX_PATH_LEN (pf_local_root vals) of
                  None \<Rightarrow> refuse env (with_operation (public_error_new InvalidArgument ''local_root is required'') operation)
                | Some local_root \<Rightarrow>
                    give \<lparr>spr_id = the_or device_uuid (bounded_text FFI_MAX_ID_LEN (pf_id vals)),
                          spr_session_id = session_id, spr_device_uuid = device_uuid,
                          spr_remote_root = the_or DEFAULT_SYNC_ROOT (bounded_text MAX_PATH_LEN (pf_remote_root vals)),
                          spr_local_root = local_root, spr_enabled = the_or True (pf_enabled vals)\<rparr>)))"

definition hs_sync_plan :: "abi_env \<Rightarrow> ffi_json \<Rightarrow> 'a app_api \<Rightarrow> nat \<Rightarrow> nat \<Rightarrow> abi_input \<Rightarrow> 'a abi_body" where
  "hs_sync_plan env js api runtime session_id input =
     abi_catch env ''sync.plan''
       (ffi_try (runtime_ref env runtime ''sync.plan'') (\<lambda>rt.
        ffi_try (input_str env input ''sync.plan'') (\<lambda>json.
        ffi_try (parse_profile env (js_profile js) session_id json ''sync.plan'') (\<lambda>profile.
        ffi_try (app_step rt (ap_plan_sync api profile)) (
          reply_with env js RSyncPlan)))))"

definition answer_text :: "abi_env \<Rightarrow> string \<Rightarrow> string app_result \<Rightarrow> 'a abi_body" where
  "answer_text env field outcome =
     (case outcome of Inr t \<Rightarrow> answer_object env [(field, JText t)] | Inl e \<Rightarrow> fail_with env e)"

definition hs_sync_start :: "abi_env \<Rightarrow> ffi_json \<Rightarrow> 'a app_api \<Rightarrow> nat \<Rightarrow> nat \<Rightarrow> abi_input \<Rightarrow> 'a abi_body" where
  "hs_sync_start env js api runtime session_id input =
     abi_catch env ''sync.start''
       (ffi_try (runtime_ref env runtime ''sync.start'') (\<lambda>rt.
        ffi_try (input_str env input ''sync.start'') (\<lambda>json.
        ffi_try (parse_profile env (js_profile js) session_id json ''sync.start'') (\<lambda>profile.
        ffi_try (app_step rt (ap_get_session_snapshot api session_id)) (\<lambda>snapshot.
          case snapshot of
            Inl _ \<Rightarrow> fail_with env (with_operation (public_error_new SessionNotFound ''session not found'') ''sync.start'')
          | Inr _ \<Rightarrow>
        ffi_try (app_step rt (ap_start_sync api profile)) (
          answer_text env ''profile_id''))))))"

definition hs_sync_status :: "abi_env \<Rightarrow> ffi_json \<Rightarrow> 'a app_api \<Rightarrow> nat \<Rightarrow> abi_input \<Rightarrow> 'a abi_body" where
  "hs_sync_status env js api runtime input =
     abi_catch env ''sync.status''
       (ffi_try (runtime_ref env runtime ''sync.status'') (\<lambda>rt.
        ffi_try (input_str env input ''sync.status'') (\<lambda>profile_id.
        ffi_try (app_step rt (ap_get_sync_status api profile_id)) (
          reply_with env js RSyncStatus))))"

definition hs_sync_stop :: "abi_env \<Rightarrow> ffi_json \<Rightarrow> 'a app_api \<Rightarrow> nat \<Rightarrow> abi_input \<Rightarrow> 'a abi_body" where
  "hs_sync_stop env js api runtime input =
     abi_catch env ''sync.stop''
       (ffi_try (runtime_ref env runtime ''sync.stop'') (\<lambda>rt.
        ffi_try (input_str env input ''sync.stop'') (\<lambda>profile_id.
        ffi_try (app_step rt (ap_stop_sync api profile_id)) (
          acknowledge env ''stopped''))))"

definition hs_sync_start_watch :: "abi_env \<Rightarrow> ffi_json \<Rightarrow> 'a app_api \<Rightarrow> nat \<Rightarrow> abi_input \<Rightarrow> 'a abi_body" where
  "hs_sync_start_watch env js api runtime input =
     abi_catch env ''sync.start_watch''
       (ffi_try (runtime_ref env runtime ''sync.start_watch'') (\<lambda>rt.
        ffi_try (input_str env input ''sync.start_watch'') (\<lambda>profile_id.
        ffi_try (app_step rt (ap_start_sync_watch api profile_id)) (
          acknowledge env ''started''))))"

definition hs_sync_stop_watch :: "abi_env \<Rightarrow> ffi_json \<Rightarrow> 'a app_api \<Rightarrow> nat \<Rightarrow> abi_input \<Rightarrow> 'a abi_body" where
  "hs_sync_stop_watch env js api runtime input =
     abi_catch env ''sync.stop_watch''
       (ffi_try (runtime_ref env runtime ''sync.stop_watch'') (\<lambda>rt.
        ffi_try (input_str env input ''sync.stop_watch'') (\<lambda>profile_id.
        ffi_try (app_step rt (ap_stop_sync_watch api profile_id)) (
          acknowledge env ''stopped''))))"

section \<open>Media\<close>

definition parse_page_request :: "(string \<Rightarrow> string + MediaPageRequestRaw) \<Rightarrow> string \<Rightarrow> string \<Rightarrow> MediaPageRequest app_result" where
  "parse_page_request parse json operation =
     (case parse json of
        Inl e \<Rightarrow> Inl (with_operation (with_detail (public_error_new InvalidArgument ''invalid media library request'') e) operation)
      | Inr req \<Rightarrow>
          (case mq_limit req of
             None \<Rightarrow> (case mq_cursor req of None \<Rightarrow> Inr FullLibrary | Some cursor \<Rightarrow> Inr (LibraryPage (Some cursor) None))
           | Some limit \<Rightarrow>
               if limit = 0 \<or> limit > MEDIA_PAGE_MAX_LIMIT
               then Inl (with_operation (public_error_new InvalidArgument
                      (''limit must be 1..='' @ show_nat MEDIA_PAGE_MAX_LIMIT)) operation)
               else Inr (LibraryPage (mq_cursor req) (Some limit))))"

definition hs_media_photo_library :: "abi_env \<Rightarrow> ffi_json \<Rightarrow> 'a app_api \<Rightarrow> nat \<Rightarrow> nat \<Rightarrow> abi_input \<Rightarrow> 'a abi_body" where
  "hs_media_photo_library env js api runtime session_id input =
     abi_catch env ''media_photo_library''
       (ffi_try (runtime_ref env runtime ''media_photo_library'') (\<lambda>rt.
        ffi_try (input_str env input ''media_photo_library'') (\<lambda>json.
        case parse_page_request (js_page js) json ''media_photo_library'' of
          Inl e \<Rightarrow> fail_with env e
        | Inr FullLibrary \<Rightarrow>
        ffi_try (app_step rt (ap_get_photo_library api session_id)) (
          reply_with env js RPhotos)
        | Inr (LibraryPage cursor limit) \<Rightarrow>
        ffi_try (app_step rt (ap_get_photo_library_page api session_id cursor limit)) (
          reply_with env js RPhotos))))"

definition hs_media_video_library :: "abi_env \<Rightarrow> ffi_json \<Rightarrow> 'a app_api \<Rightarrow> nat \<Rightarrow> nat \<Rightarrow> abi_input \<Rightarrow> 'a abi_body" where
  "hs_media_video_library env js api runtime session_id input =
     abi_catch env ''media_video_library''
       (ffi_try (runtime_ref env runtime ''media_video_library'') (\<lambda>rt.
        ffi_try (input_str env input ''media_video_library'') (\<lambda>json.
        case parse_page_request (js_page js) json ''media_video_library'' of
          Inl e \<Rightarrow> fail_with env e
        | Inr FullLibrary \<Rightarrow>
        ffi_try (app_step rt (ap_get_video_library api session_id)) (
          reply_with env js RVideos)
        | Inr (LibraryPage cursor limit) \<Rightarrow>
        ffi_try (app_step rt (ap_get_video_library_page api session_id cursor limit)) (
          reply_with env js RVideos))))"

definition hs_media_audio_library :: "abi_env \<Rightarrow> ffi_json \<Rightarrow> 'a app_api \<Rightarrow> nat \<Rightarrow> nat \<Rightarrow> abi_input \<Rightarrow> 'a abi_body" where
  "hs_media_audio_library env js api runtime session_id input =
     abi_catch env ''media_audio_library''
       (ffi_try (runtime_ref env runtime ''media_audio_library'') (\<lambda>rt.
        ffi_try (input_str env input ''media_audio_library'') (\<lambda>json.
        case parse_page_request (js_page js) json ''media_audio_library'' of
          Inl e \<Rightarrow> fail_with env e
        | Inr FullLibrary \<Rightarrow>
        ffi_try (app_step rt (ap_get_audio_library api session_id)) (
          reply_with env js RAudio)
        | Inr (LibraryPage cursor limit) \<Rightarrow>
        ffi_try (app_step rt (ap_get_audio_library_page api session_id cursor limit)) (
          reply_with env js RAudio))))"

definition hs_media_fetch_exif :: "abi_env \<Rightarrow> ffi_json \<Rightarrow> 'a app_api \<Rightarrow> nat \<Rightarrow> nat \<Rightarrow> abi_input \<Rightarrow> 'a abi_body" where
  "hs_media_fetch_exif env js api runtime session_id input =
     abi_catch env ''media_fetch_exif''
       (ffi_try (runtime_ref env runtime ''media_fetch_exif'') (\<lambda>rt.
        ffi_try (input_str env input ''media_fetch_exif'') (\<lambda>json.
        ffi_try (parse_json env (js_path js) invalid_request_json json) (\<lambda>p.
        ffi_try (app_step rt (ap_fetch_exif api session_id p)) (
          reply_with env js RExif)))))"

definition invalid_json :: "string \<Rightarrow> PublicError" where
  "invalid_json e = with_operation (with_detail (public_error_new InvalidArgument ''invalid JSON'') e) ''media_merge_change''"

text \<open>The printed kind stands between two quotation marks.\<close>

definition hs_media_merge_change ::
  "abi_env \<Rightarrow> ffi_json \<Rightarrow> 'a app_api \<Rightarrow> nat \<Rightarrow> abi_input \<Rightarrow> abi_input \<Rightarrow> abi_input \<Rightarrow> 'a abi_body" where
  "hs_media_merge_change env js api runtime kind_input library_input change_input =
     abi_catch env ''media_merge_change''
       (ffi_try (runtime_ref env runtime ''media_merge_change'') (\<lambda>_.
        ffi_try (input_str env kind_input ''media_merge_change'') (\<lambda>kind.
        ffi_try (input_str env library_input ''media_merge_change'') (\<lambda>library_json.
        ffi_try (input_str env change_input ''media_merge_change'') (\<lambda>change_json.
        ffi_try (parse_json env (js_media_change js) invalid_json change_json) (\<lambda>change.
          if kind = ''photo'' then
            ffi_try (parse_json env (js_photo_library js) invalid_json library_json) (\<lambda>library.
              reply_with env js RPhotos (merge_photo_library (ap_display api) library change))
          else if kind = ''video'' then
            ffi_try (parse_json env (js_video_library js) invalid_json library_json) (\<lambda>library.
              reply_with env js RVideos (merge_video_library (ap_display api) library change))
          else if kind = ''audio'' then
            ffi_try (parse_json env (js_audio_library js) invalid_json library_json) (\<lambda>library.
              reply_with env js RAudio (merge_audio_library (ap_display api) library change))
          else fail_with env (with_operation (public_error_new InvalidArgument
                 (''invalid media kind '' @ [CHR 0x22] @ kind @ [CHR 0x22])) ''media_merge_change'')))))))"

section \<open>Diagnostics\<close>

text \<open>Polling the child process: it has exited, it runs, or polling failed; with the time of each poll.
  \<open>None\<close> if the polls given do not reach the end.\<close>

datatype child_poll = Exited bool | StillRunning | PollError

fun probe_wait :: "nat \<Rightarrow> (nat \<times> child_poll) list \<Rightarrow> bool option option" where
  "probe_wait deadline [] = None"
| "probe_wait deadline ((now, Exited success) # polls) = Some (Some success)"
| "probe_wait deadline ((now, StillRunning) # polls) =
     (if now \<ge> deadline then Some None else probe_wait deadline polls)"
| "probe_wait deadline ((now, PollError) # polls) = Some None"

definition ADB_PROBE_TIMEOUT :: nat where
  "ADB_PROBE_TIMEOUT = 5000"

definition first_line :: "string \<Rightarrow> string option" where
  "first_line stdout =
     (if stdout = [] then None
      else let line = trim (hd (split_on (CHR 0x0A) stdout)) in if line = [] then None else Some line)"

text \<open>\<open>adb_probe\<close>: whether the process starts, its polls, and its output as text if it can be read.\<close>

definition adb_probe ::
  "bool \<Rightarrow> nat \<Rightarrow> (nat \<times> child_poll) list \<Rightarrow> string option \<Rightarrow> (bool \<times> string option) option" where
  "adb_probe spawned start polls stdout =
     (if \<not> spawned then Some (False, None)
      else case probe_wait (start + ADB_PROBE_TIMEOUT) polls of
             None \<Rightarrow> None
           | Some (Some True) \<Rightarrow> (case stdout of None \<Rightarrow> Some (False, None) | Some t \<Rightarrow> Some (True, first_line t))
           | Some _ \<Rightarrow> Some (False, None))"

text \<open>An \<open>adb\<close> that succeeds without any output counts as available, without a version.\<close>

theorem adb_probe_silent:
  "adb_probe True start [(now, Exited True)] (Some []) = Some (True, None)"
  by (simp add: adb_probe_def first_line_def)

text \<open>The probe ends: whatever polling gives, once a poll comes at or after the deadline there is a
  result, and it never waits on.\<close>

lemma probe_wait_ends:
  "\<exists>(now, poll) \<in> set polls. deadline \<le> now \<or> poll \<noteq> StillRunning \<Longrightarrow> probe_wait deadline polls \<noteq> None"
  by (induction deadline polls rule: probe_wait.induct) auto

definition active_transfers :: "TransferSnapshot list app_result \<Rightarrow> int" where
  "active_transfers outcome =
     (case outcome of
        Inr snapshots \<Rightarrow> int (length (filter (\<lambda>s. \<not> terminal (ts_state s)) snapshots))
      | Inl _ \<Rightarrow> - 1)"

definition capabilities :: "string list" where
  "capabilities = [''files'', ''clipboard'', ''trust'', ''media'', ''batch'', ''sync'', ''monitor'', ''events'',
     ''discovery'', ''diagnostics'', ''update_file_info'', ''media_merge'']"

text \<open>Version, platform and architecture of the build.\<close>

record build_info =
  bi_crate_version :: string
  bi_platform :: string
  bi_arch :: string

definition ABI_VERSION :: "u32 \<times> u32 \<times> u32" where
  "ABI_VERSION = (1, 5, 0)"

definition abi_version_text :: string where
  "abi_version_text = (case ABI_VERSION of (major, minor, patch) \<Rightarrow>
     show_nat (unat major) @ ''.'' @ show_nat (unat minor) @ ''.'' @ show_nat (unat patch))"

definition APPLICATION_API_VERSION :: string where
  "APPLICATION_API_VERSION = ''1.0.0''"

definition JSON_CONTRACT_VERSION :: nat where
  "JSON_CONTRACT_VERSION = 1"

definition hs_runtime_diagnostics ::
  "abi_env \<Rightarrow> ffi_json \<Rightarrow> 'a app_api \<Rightarrow> nat \<Rightarrow> build_info \<Rightarrow> bool \<times> string option \<Rightarrow> 'a abi_body" where
  "hs_runtime_diagnostics env js api runtime build probe =
     abi_catch env ''runtime_diagnostics''
       (ffi_try (runtime_ref env runtime ''runtime_diagnostics'') (\<lambda>rt.
        ffi_try (app_step rt (\<lambda>app. (Some (ap_config api app), app))) (\<lambda>config.
        ffi_try (app_step rt (ap_session_count api)) (\<lambda>sessions.
        ffi_try (app_step rt (ap_list_transfers api)) (\<lambda>outcome w.
          finish (abi_ok env (\<lambda>x. js_reply js (RDiagnostics x))
            \<lparr>dg_abi = abi_version_text, dg_application_api = APPLICATION_API_VERSION,
             dg_json_contract = JSON_CONTRACT_VERSION, dg_crate_version = bi_crate_version build,
             dg_platform = bi_platform build, dg_arch = bi_arch build, dg_adb_path = rg_adb_path config, dg_adb_available = fst probe,
             dg_adb_version = snd probe, dg_state_dir = rg_state_dir config,
             dg_wire_log_enabled = (rg_wire_log config \<noteq> None), dg_wire_log_payload = rg_wire_log_payload config,
             dg_active_sessions = sessions, dg_active_transfers = active_transfers outcome,
             dg_active_subscriptions = (case map_of (fw_runtimes w) rt of
                Some x \<Rightarrow> fw_counters w ! hr_subscriptions x | None \<Rightarrow> 0),
             dg_capabilities = capabilities\<rparr>) w)))))"

end
