(* ===== verification/Thumbs.thy ===== *)
theory Thumbs
  imports Ffi
begin

unbundle bit_operations_syntax

text \<open>
  The thumbnail cache of the C interface, \<open>handshaker-ffi/src/media.rs\<close>: names of cache files, the
  split of a request into hits and misses, storing what the phone answers, and the account of what
  failed. The cache directory is a map from paths to files; the outcomes of file operations, the
  text \<open>Debug\<close> prints for a string and the suffix of temporary names are arguments.
\<close>

section \<open>Requests and results\<close>

record FfiThumbnailImageItem =
  ti_path :: "string option"
  ti_media_id :: "nat option"
  ti_album_id :: "nat option"
  ti_size :: "nat option"
  ti_modified_at :: "nat option"
  ti_mini_thumb_magic :: "string option"

record FfiThumbnailVideoItem =
  tv_path :: "string option"
  tv_media_id :: "nat option"
  tv_album_id :: "nat option"
  tv_size :: "nat option"
  tv_modified_at :: "nat option"

record FfiThumbnailAudioItem =
  tu_path :: "string option"
  tu_album_id :: "nat option"
  tu_name :: "string option"
  tu_artist_id :: "nat option"
  tu_artist :: "string option"
  tu_year :: "nat option"

record FfiThumbnailRequest =
  tq_images :: "FfiThumbnailImageItem list"
  tq_videos :: "FfiThumbnailVideoItem list"
  tq_audio_albums :: "FfiThumbnailAudioItem list"

record FfiThumbnailCacheEntry =
  tc_path :: string
  tc_cache_path :: string
  tc_size :: nat

record FfiThumbnailFailure =
  tf_path :: "string option"
  tf_media_id :: "nat option"
  tf_album_id :: "nat option"
  tf_reason :: string

record FfiThumbnailResult =
  tr_images :: "FfiThumbnailCacheEntry list"
  tr_videos :: "FfiThumbnailCacheEntry list"
  tr_audio_albums :: "FfiThumbnailCacheEntry list"
  tr_failed_images :: "FfiThumbnailFailure list"
  tr_failed_videos :: "FfiThumbnailFailure list"
  tr_failed_audio_albums :: "FfiThumbnailFailure list"

text \<open>What the trait \<open>ThumbnailResponseItem\<close> gives for an answer of the phone.\<close>

record thumbnail_response =
  tp_path :: "string option"
  tp_media_id :: "nat option"
  tp_album_id :: "nat option"
  tp_thumbnail :: "bytes option"
  tp_error :: bool

definition image_response :: "ImageFileDto \<Rightarrow> thumbnail_response" where
  "image_response x = \<lparr>tp_path = dim_path x, tp_media_id = dim_media_id x, tp_album_id = dim_album_id x,
     tp_thumbnail = dim_thumbnail x, tp_error = dim_thumbnail_error x\<rparr>"

definition video_response :: "VideoFileDto \<Rightarrow> thumbnail_response" where
  "video_response x = \<lparr>tp_path = dvf_path x, tp_media_id = dvf_media_id x, tp_album_id = dvf_album_id x,
     tp_thumbnail = dvf_thumbnail x, tp_error = dvf_thumbnail_error x\<rparr>"

definition audio_response :: "AudioAlbumDto \<Rightarrow> thumbnail_response" where
  "audio_response x = \<lparr>tp_path = daa_path x, tp_media_id = None, tp_album_id = daa_album_id x,
     tp_thumbnail = daa_thumbnail x, tp_error = daa_thumbnail_error x\<rparr>"

section \<open>Names of cache files\<close>

definition fnv1a64 :: "string \<Rightarrow> u64" where
  "fnv1a64 input =
     foldl (\<lambda>hash byte. (hash XOR word_of_nat (of_char byte)) * 0x100000001b3) 0xcbf29ce484222325 input"

text \<open>The format \<open>016x\<close>.\<close>

definition hex16 :: "u64 \<Rightarrow> string" where
  "hex16 n = map (\<lambda>k. hex_digit (unat (drop_bit (4 * k) n))) (rev [0..<16])"

definition sanitize_cache_component :: "string \<Rightarrow> string" where
  "sanitize_cache_component input = take 64 (filter id_char input)"

definition cache_path_for :: "string \<Rightarrow> string \<Rightarrow> string \<Rightarrow> string \<Rightarrow> string \<Rightarrow> string" where
  "cache_path_for cache_dir kind phone_key remote_path revision =
     (let device = sanitize_cache_component phone_key;
          digest = (if revision = [] then fnv1a64 (phone_key @ [CHR 0x00] @ remote_path)
                    else fnv1a64 (phone_key @ [CHR 0x00] @ remote_path @ [CHR 0x00] @ revision))
      in join_name cache_dir (device @ ''-'' @ kind @ ''-'' @ hex16 digest @ ''.thumb''))"

section \<open>Environment\<close>

datatype target_os = MacOs | Linux | Windows | OtherOs

record thumb_env =
  te_os :: target_os
  te_var :: "string \<Rightarrow> string option"
  te_debug :: "string \<Rightarrow> string"
  te_mkdir :: "string \<Rightarrow> string option"
  te_remove :: "string \<Rightarrow> string option"
  te_write :: "string \<Rightarrow> (string \<times> cache_file option) option"
  te_rename :: "string \<Rightarrow> string option"
  te_suffix :: string

definition default_state_dir :: "thumb_env \<Rightarrow> string option" where
  "default_state_dir te =
     (case te_os te of
        MacOs \<Rightarrow> map_option (\<lambda>home. join_name home ''Library/Application Support/handshaker'') (te_var te ''HOME'')
      | Linux \<Rightarrow> (case te_var te ''XDG_CONFIG_HOME'' of
                    Some xdg \<Rightarrow> Some (join_name xdg ''handshaker'')
                  | None \<Rightarrow> map_option (\<lambda>home. join_name home ''.config/handshaker'') (te_var te ''HOME''))
      | Windows \<Rightarrow> map_option (\<lambda>appdata. join_name appdata ''handshaker'') (te_var te ''APPDATA'')
      | OtherOs \<Rightarrow> None)"

definition thumbnail_cache_dir :: "thumb_env \<Rightarrow> RuntimeConfig \<Rightarrow> string \<Rightarrow> string app_result" where
  "thumbnail_cache_dir te config operation =
     (case (case rg_state_dir config of Some dir \<Rightarrow> Some dir | None \<Rightarrow> default_state_dir te) of
        None \<Rightarrow> Inl (with_operation (public_error_new InvalidArgument ''state_dir is not configured'') operation)
      | Some base \<Rightarrow>
          (let dir = join_name base ''thumbnails'' in
           case te_mkdir te dir of
             Some e \<Rightarrow> Inl (with_operation (with_detail (public_error_new Internal ''cannot create thumbnail cache dir'')
                              (dir @ '': '' @ e)) operation)
           | None \<Rightarrow> Inr dir))"

section \<open>Identities and revisions\<close>

definition id_key :: "nat \<Rightarrow> string" where
  "id_key n = ''id:'' @ show_nat n"

definition path_key :: "string \<Rightarrow> string" where
  "path_key p = ''path:'' @ p"

definition thumbnail_identity :: "string option \<Rightarrow> nat option \<Rightarrow> string" where
  "thumbnail_identity p i =
     (case i of
        Some n \<Rightarrow> id_key n
      | None \<Rightarrow> (case p of Some t \<Rightarrow> path_key t | None \<Rightarrow> ''missing''))"

definition mark_thumbnail_response :: "string set \<Rightarrow> string option \<Rightarrow> nat option \<Rightarrow> string set" where
  "mark_thumbnail_response seen p i =
     (let seen1 = (case i of Some n \<Rightarrow> insert (id_key n) seen | None \<Rightarrow> seen)
      in case p of Some t \<Rightarrow> insert (path_key t) seen1 | None \<Rightarrow> seen1)"

definition thumbnail_response_seen :: "string set \<Rightarrow> string option \<Rightarrow> nat option \<Rightarrow> bool" where
  "thumbnail_response_seen seen p i \<longleftrightarrow>
     (case i of Some n \<Rightarrow> id_key n \<in> seen | None \<Rightarrow> False) \<or> (case p of Some t \<Rightarrow> path_key t \<in> seen | None \<Rightarrow> False)"

text \<open>The format \<open>{:?}\<close> of an optional value.\<close>

definition debug_option :: "('v \<Rightarrow> string) \<Rightarrow> 'v option \<Rightarrow> string" where
  "debug_option f v = (case v of None \<Rightarrow> ''None'' | Some x \<Rightarrow> ''Some('' @ f x @ '')'')"

definition image_cache_revision :: "thumb_env \<Rightarrow> FfiThumbnailImageItem \<Rightarrow> string" where
  "image_cache_revision te item =
     (if ti_media_id item = None \<and> ti_size item = None \<and> ti_modified_at item = None \<and> ti_mini_thumb_magic item = None
      then []
      else ''media_id='' @ debug_option show_nat (ti_media_id item) @ '';size='' @ debug_option show_nat (ti_size item) @
           '';modified_at='' @ debug_option show_nat (ti_modified_at item) @ '';mini_thumb_magic='' @
           debug_option (te_debug te) (ti_mini_thumb_magic item))"

definition video_cache_revision :: "FfiThumbnailVideoItem \<Rightarrow> string" where
  "video_cache_revision item =
     (if tv_media_id item = None \<and> tv_size item = None \<and> tv_modified_at item = None then []
      else ''media_id='' @ debug_option show_nat (tv_media_id item) @ '';size='' @ debug_option show_nat (tv_size item) @
           '';modified_at='' @ debug_option show_nat (tv_modified_at item))"

definition audio_cache_revision :: "thumb_env \<Rightarrow> FfiThumbnailAudioItem \<Rightarrow> string" where
  "audio_cache_revision te item =
     (if tu_album_id item = None \<and> tu_name item = None \<and> tu_artist_id item = None \<and> tu_artist item = None \<and>
         tu_year item = None then []
      else ''album_id='' @ debug_option show_nat (tu_album_id item) @ '';name='' @ debug_option (te_debug te) (tu_name item) @
           '';artist_id='' @ debug_option show_nat (tu_artist_id item) @ '';artist='' @
           debug_option (te_debug te) (tu_artist item) @ '';year='' @ debug_option show_nat (tu_year item))"

section \<open>Cache files\<close>

definition valid_cache_file_size :: "(string \<rightharpoonup> cache_file) \<Rightarrow> string \<Rightarrow> nat option" where
  "valid_cache_file_size cache p =
     (case cache p of
        Some (CacheFile bytes opens) \<Rightarrow> if bytes = [] then None else if opens then Some (length bytes) else None
      | _ \<Rightarrow> None)"

definition cache_path_string :: "string \<Rightarrow> string \<Rightarrow> string app_result" where
  "cache_path_string p operation =
     (if valid_utf8 p then Inr p
      else Inl (with_operation (public_error_new InvalidArgument ''thumbnail cache path is not valid UTF-8'') operation))"

definition cache_error :: "string \<Rightarrow> string \<Rightarrow> string \<Rightarrow> string \<Rightarrow> PublicError" where
  "cache_error message p e operation =
     with_operation (with_detail (public_error_new Internal message) (p @ '': '' @ e)) operation"

text \<open>\<open>Path::exists\<close>.\<close>

definition cache_exists :: "(string \<rightharpoonup> cache_file) \<Rightarrow> string \<Rightarrow> bool" where
  "cache_exists cache p = (case cache p of None \<Rightarrow> False | Some (CacheFile _ _) \<Rightarrow> True | Some (CacheOther found) \<Rightarrow> found)"

text \<open>\<open>cache_thumbnail\<close>: the temporary file is written and renamed over the entry, which is removed
  first if it is not valid. A failed write may leave anything under the temporary name.\<close>

definition cache_thumbnail ::
  "thumb_env \<Rightarrow> string \<Rightarrow> string \<Rightarrow> string \<Rightarrow> string \<Rightarrow> string \<Rightarrow> bytes \<Rightarrow> string \<Rightarrow> (string \<rightharpoonup> cache_file)
   \<Rightarrow> string app_result \<times> (string \<rightharpoonup> cache_file)" where
  "cache_thumbnail te cache_dir kind phone_key remote_path revision bytes operation cache =
     (let p = cache_path_for cache_dir kind phone_key remote_path revision in
      if valid_cache_file_size cache p \<noteq> None then (cache_path_string p operation, cache)
      else case (if cache_exists cache p then te_remove te p else None) of
             Some e \<Rightarrow> (Inl (cache_error ''invalid thumbnail cache entry cannot be replaced'' p e operation), cache)
           | None \<Rightarrow>
               (let cache1 = (if cache_exists cache p then cache(p := None) else cache); tmp = p @ te_suffix te @ ''.tmp'' in
                case te_write te tmp of
                  Some (e, left) \<Rightarrow> (Inl (cache_error ''thumbnail cache write failed'' tmp e operation), cache1(tmp := left))
                | None \<Rightarrow>
                    (case te_rename te p of
                       Some e \<Rightarrow> (Inl (cache_error ''thumbnail cache commit failed'' p e operation),
                                   cache1(tmp \<mapsto> CacheFile bytes True))
                     | None \<Rightarrow> (cache_path_string p operation, cache1(p \<mapsto> CacheFile bytes True)))))"

section \<open>What the phone answers\<close>

definition response_failure :: "thumbnail_response \<Rightarrow> string \<Rightarrow> FfiThumbnailFailure" where
  "response_failure item reason = \<lparr>tf_path = tp_path item, tf_media_id = tp_media_id item, tf_album_id = tp_album_id item,
     tf_reason = reason\<rparr>"

record cached_responses =
  cr_cached :: "FfiThumbnailCacheEntry list"
  cr_failed :: "FfiThumbnailFailure list"
  cr_responded :: "string set"

definition response_id :: "thumbnail_response \<Rightarrow> nat option" where
  "response_id item = (case tp_media_id item of Some n \<Rightarrow> Some n | None \<Rightarrow> tp_album_id item)"

text \<open>The loop of \<open>cache_thumbnail_responses\<close>.\<close>

fun cache_responses ::
  "thumb_env \<Rightarrow> string \<Rightarrow> string \<Rightarrow> string \<Rightarrow> (string \<rightharpoonup> string) \<Rightarrow> string \<Rightarrow> thumbnail_response list \<Rightarrow> cached_responses
   \<Rightarrow> (string \<rightharpoonup> cache_file) \<Rightarrow> cached_responses app_result \<times> (string \<rightharpoonup> cache_file)" where
  "cache_responses te cache_dir kind phone_key revisions operation [] acc cache = (Inr acc, cache)"
| "cache_responses te cache_dir kind phone_key revisions operation (item # items) acc cache =
     (let acc1 = acc\<lparr>cr_responded := mark_thumbnail_response (cr_responded acc) (tp_path item) (response_id item)\<rparr>;
          failed = (\<lambda>reason. acc1\<lparr>cr_failed := cr_failed acc1 @ [response_failure item reason]\<rparr>);
          go = (\<lambda>acc2 cache2. cache_responses te cache_dir kind phone_key revisions operation items acc2 cache2)
      in if tp_error item then go (failed ''thumbnail_error'') cache
         else case tp_path item of
                None \<Rightarrow> go (failed ''missing_path'') cache
              | Some p \<Rightarrow>
                  (case tp_thumbnail item of
                     None \<Rightarrow> go (failed ''missing_data'') cache
                   | Some bytes \<Rightarrow>
                       if bytes = [] then go (failed ''missing_data'') cache
                       else (case cache_thumbnail te cache_dir kind phone_key p (the_or [] (revisions p)) bytes operation cache of
                               (Inl e, cache1) \<Rightarrow> (Inl e, cache1)
                             | (Inr cache_path, cache1) \<Rightarrow>
                                 go (acc1\<lparr>cr_cached := cr_cached acc1 @
                                       [\<lparr>tc_path = p, tc_cache_path = cache_path, tc_size = length bytes\<rparr>]\<rparr>) cache1)))"

definition cache_thumbnail_responses ::
  "thumb_env \<Rightarrow> string \<Rightarrow> string \<Rightarrow> string \<Rightarrow> (string \<rightharpoonup> string) \<Rightarrow> string \<Rightarrow> thumbnail_response list
   \<Rightarrow> (string \<rightharpoonup> cache_file) \<Rightarrow> cached_responses app_result \<times> (string \<rightharpoonup> cache_file)" where
  "cache_thumbnail_responses te cache_dir kind phone_key revisions operation items cache =
     cache_responses te cache_dir kind phone_key revisions operation items
       \<lparr>cr_cached = [], cr_failed = [], cr_responded = {}\<rparr> cache"

section \<open>Hits and misses\<close>

text \<open>One category of the request: its name, and for an item the path, the id, the revision and the
  failure to report if the phone does not answer.\<close>

record 'i category =
  ct_kind :: string
  ct_path :: "'i \<Rightarrow> string option"
  ct_id :: "'i \<Rightarrow> nat option"
  ct_revision :: "'i \<Rightarrow> string"
  ct_failure :: "'i \<Rightarrow> FfiThumbnailFailure"

record 'i split_request =
  sr_hits :: "FfiThumbnailCacheEntry list"
  sr_revisions :: "string \<rightharpoonup> string"
  sr_identities :: "string set"
  sr_misses :: "'i list"
  sr_pending :: "FfiThumbnailFailure list"

definition no_items :: "'i split_request" where
  "no_items = \<lparr>sr_hits = [], sr_revisions = Map.empty, sr_identities = {}, sr_misses = [], sr_pending = []\<rparr>"

definition schedule :: "'i category \<Rightarrow> 'i \<Rightarrow> 'i split_request \<Rightarrow> 'i split_request" where
  "schedule ct item st =
     (let identity = thumbnail_identity (ct_path ct item) (ct_id ct item) in
      if identity \<in> sr_identities st then st
      else st\<lparr>sr_identities := insert identity (sr_identities st), sr_misses := sr_misses st @ [item],
              sr_pending := sr_pending st @ [ct_failure ct item]\<rparr>)"

fun split_items ::
  "string \<Rightarrow> string \<Rightarrow> (string \<rightharpoonup> cache_file) \<Rightarrow> 'i category \<Rightarrow> 'i list \<Rightarrow> 'i split_request \<Rightarrow> 'i split_request app_result" where
  "split_items cache_dir phone_key cache ct [] st = Inr st"
| "split_items cache_dir phone_key cache ct (item # items) st =
     (case ct_path ct item of
        None \<Rightarrow> split_items cache_dir phone_key cache ct items (schedule ct item st)
      | Some p \<Rightarrow>
          (let revision = ct_revision ct item; st1 = st\<lparr>sr_revisions := (sr_revisions st)(p \<mapsto> revision)\<rparr>;
               cache_path = cache_path_for cache_dir (ct_kind ct) phone_key p revision
           in case valid_cache_file_size cache cache_path of
                None \<Rightarrow> split_items cache_dir phone_key cache ct items (schedule ct item st1)
              | Some sz \<Rightarrow>
                  (case cache_path_string cache_path ''media_thumbnail'' of
                     Inl e \<Rightarrow> Inl e
                   | Inr text \<Rightarrow>
                       split_items cache_dir phone_key cache ct items
                         (st1\<lparr>sr_hits := sr_hits st1 @ [\<lparr>tc_path = p, tc_cache_path = text, tc_size = sz\<rparr>]\<rparr>))))"

definition missing_response :: "string option \<Rightarrow> nat option \<Rightarrow> nat option \<Rightarrow> FfiThumbnailFailure" where
  "missing_response p media_id album_id =
     \<lparr>tf_path = p, tf_media_id = media_id, tf_album_id = album_id, tf_reason = ''missing_response''\<rparr>"

definition image_category :: "thumb_env \<Rightarrow> FfiThumbnailImageItem category" where
  "image_category te = \<lparr>ct_kind = ''image'', ct_path = ti_path, ct_id = ti_media_id, ct_revision = image_cache_revision te,
     ct_failure = (\<lambda>i. missing_response (ti_path i) (ti_media_id i) (ti_album_id i))\<rparr>"

definition video_category :: "FfiThumbnailVideoItem category" where
  "video_category = \<lparr>ct_kind = ''video'', ct_path = tv_path, ct_id = tv_media_id, ct_revision = video_cache_revision,
     ct_failure = (\<lambda>i. missing_response (tv_path i) (tv_media_id i) (tv_album_id i))\<rparr>"

definition audio_category :: "thumb_env \<Rightarrow> FfiThumbnailAudioItem category" where
  "audio_category te = \<lparr>ct_kind = ''audio'', ct_path = tu_path, ct_id = tu_album_id, ct_revision = audio_cache_revision te,
     ct_failure = (\<lambda>i. missing_response (tu_path i) None (tu_album_id i))\<rparr>"

text \<open>What the phone is asked for a miss.\<close>

definition image_query :: "FfiThumbnailImageItem \<Rightarrow> ImageFileDto" where
  "image_query i =
     \<lparr>dim_path = ti_path i, dim_size = ti_size i, dim_created_at = None, dim_modified_at = ti_modified_at i,
      dim_width = None, dim_height = None, dim_orientation = None, dim_media_id = ti_media_id i,
      dim_album_id = ti_album_id i, dim_mime_type = None, dim_thumbnail = None, dim_album_name = None,
      dim_date_taken = None, dim_latitude = None, dim_longitude = None, dim_mini_thumb_magic = ti_mini_thumb_magic i,
      dim_title = None, dim_thumbnail_error = False, dim_starred = False\<rparr>"

definition video_query :: "FfiThumbnailVideoItem \<Rightarrow> VideoFileDto" where
  "video_query i =
     \<lparr>dvf_path = tv_path i, dvf_size = tv_size i, dvf_created_at = None, dvf_modified_at = tv_modified_at i,
      dvf_width = None, dvf_height = None, dvf_orientation = None, dvf_media_id = tv_media_id i,
      dvf_album_id = tv_album_id i, dvf_mime_type = None, dvf_thumbnail = None, dvf_thumbnail_error = False,
      dvf_duration = None\<rparr>"

definition audio_query :: "FfiThumbnailAudioItem \<Rightarrow> AudioAlbumDto" where
  "audio_query i =
     \<lparr>daa_path = tu_path i, daa_album_id = tu_album_id i, daa_name = tu_name i, daa_artist_id = tu_artist_id i,
      daa_artist = tu_artist i, daa_year = tu_year i, daa_thumbnail = None, daa_thumbnail_error = False\<rparr>"

text \<open>The failures of misses the phone did not answer; the id is that of the category.\<close>

definition unanswered :: "(FfiThumbnailFailure \<Rightarrow> nat option) \<Rightarrow> string set \<Rightarrow> FfiThumbnailFailure list \<Rightarrow> FfiThumbnailFailure list" where
  "unanswered failure_id responded pending =
     filter (\<lambda>f. \<not> thumbnail_response_seen responded (tf_path f) (failure_id f)) pending"

section \<open>The call\<close>

definition checked :: "abi_env \<Rightarrow> 'x app_result \<Rightarrow> ('a, 'x) abi_step" where
  "checked env r = (case r of Inr x \<Rightarrow> give x | Inl e \<Rightarrow> refuse env e)"

definition on_cache ::
  "abi_env \<Rightarrow> ((string \<rightharpoonup> cache_file) \<Rightarrow> 'x app_result \<times> (string \<rightharpoonup> cache_file)) \<Rightarrow> ('a, 'x) abi_step" where
  "on_cache env f w =
     (case f (fw_cache w) of (r, cache) \<Rightarrow> checked env r (w\<lparr>fw_cache := cache\<rparr>))"

definition unnamed_item :: "FfiThumbnailRequest \<Rightarrow> bool" where
  "unnamed_item ffi \<longleftrightarrow>
     list_ex (\<lambda>i. ti_path i = None \<and> ti_media_id i = None) (tq_images ffi) \<or>
     list_ex (\<lambda>i. tv_path i = None \<and> tv_media_id i = None) (tq_videos ffi) \<or>
     list_ex (\<lambda>i. tu_path i = None \<and> tu_album_id i = None) (tq_audio_albums ffi)"

definition cache_owner :: "SessionSnapshot \<Rightarrow> string" where
  "cache_owner snapshot =
     (case ddi_phone_id (ss_device_info snapshot) of
        Some phone \<Rightarrow> phone
      | None \<Rightarrow> the_or (dd_id (ss_device snapshot)) (dd_stable_id (ss_device snapshot)))"

definition hits_only ::
  "FfiThumbnailImageItem split_request \<Rightarrow> FfiThumbnailVideoItem split_request \<Rightarrow> FfiThumbnailAudioItem split_request
   \<Rightarrow> FfiThumbnailResult" where
  "hits_only images videos audio =
     \<lparr>tr_images = sr_hits images, tr_videos = sr_hits videos, tr_audio_albums = sr_hits audio, tr_failed_images = [],
      tr_failed_videos = [], tr_failed_audio_albums = []\<rparr>"

definition thumbnail_result ::
  "FfiThumbnailImageItem split_request \<Rightarrow> FfiThumbnailVideoItem split_request \<Rightarrow> FfiThumbnailAudioItem split_request
   \<Rightarrow> cached_responses \<Rightarrow> cached_responses \<Rightarrow> cached_responses \<Rightarrow> FfiThumbnailResult" where
  "thumbnail_result images videos audio image_responses video_responses audio_responses =
     \<lparr>tr_images = sr_hits images @ cr_cached image_responses,
      tr_videos = sr_hits videos @ cr_cached video_responses,
      tr_audio_albums = sr_hits audio @ cr_cached audio_responses,
      tr_failed_images = cr_failed image_responses @ unanswered tf_media_id (cr_responded image_responses) (sr_pending images),
      tr_failed_videos = cr_failed video_responses @ unanswered tf_media_id (cr_responded video_responses) (sr_pending videos),
      tr_failed_audio_albums = cr_failed audio_responses @
        unanswered tf_album_id (cr_responded audio_responses) (sr_pending audio)\<rparr>"

definition hs_media_thumbnail ::
  "abi_env \<Rightarrow> (string \<Rightarrow> string + FfiThumbnailRequest) \<Rightarrow> (FfiThumbnailResult \<Rightarrow> string + string) \<Rightarrow> thumb_env
   \<Rightarrow> 'a app_api \<Rightarrow> nat \<Rightarrow> nat \<Rightarrow> abi_input \<Rightarrow> 'a abi_body" where
  "hs_media_thumbnail env parse print te api runtime session_id input =
     abi_catch env ''media_thumbnail''
       (ffi_try (runtime_ref env runtime ''media_thumbnail'') (\<lambda>rt.
        ffi_try (input_str env input ''media_thumbnail'') (\<lambda>json.
        ffi_try (parse_json env parse invalid_request_json json) (\<lambda>ffi.
        if unnamed_item ffi
        then fail_with env (with_operation (public_error_new InvalidArgument
               ''thumbnail entries require a path or category id'') ''media_thumbnail'')
        else
        ffi_try (app_step rt (ap_get_session_snapshot api session_id)) (\<lambda>outcome.
        ffi_try (checked env outcome) (\<lambda>snapshot.
        ffi_try (app_step rt (\<lambda>app. (Some (ap_config api app), app))) (\<lambda>config.
        ffi_try (checked env (thumbnail_cache_dir te config ''media_thumbnail'')) (\<lambda>cache_dir.
        ffi_try (on_cache env (\<lambda>cache. (split_items cache_dir (cache_owner snapshot) cache (image_category te)
                   (tq_images ffi) no_items, cache))) (\<lambda>images.
        ffi_try (on_cache env (\<lambda>cache. (split_items cache_dir (cache_owner snapshot) cache video_category
                   (tq_videos ffi) no_items, cache))) (\<lambda>videos.
        ffi_try (on_cache env (\<lambda>cache. (split_items cache_dir (cache_owner snapshot) cache (audio_category te)
                   (tq_audio_albums ffi) no_items, cache))) (\<lambda>audio.
        if sr_misses images = [] \<and> sr_misses videos = [] \<and> sr_misses audio = []
        then finish (abi_ok env print (hits_only images videos audio))
        else
        ffi_try (app_step rt (ap_get_thumbnails api session_id (map image_query (sr_misses images))
                   (map video_query (sr_misses videos)) (map audio_query (sr_misses audio)))) (\<lambda>outcome2.
        ffi_try (checked env outcome2) (\<lambda>thumbnails.
        ffi_try (on_cache env (cache_thumbnail_responses te cache_dir ''image'' (cache_owner snapshot)
                   (sr_revisions images) ''media_thumbnail'' (map image_response (dtn_images thumbnails)))) (\<lambda>image_responses.
        ffi_try (on_cache env (cache_thumbnail_responses te cache_dir ''video'' (cache_owner snapshot)
                   (sr_revisions videos) ''media_thumbnail'' (map video_response (dtn_videos thumbnails)))) (\<lambda>video_responses.
        ffi_try (on_cache env (cache_thumbnail_responses te cache_dir ''audio'' (cache_owner snapshot)
                   (sr_revisions audio) ''media_thumbnail'' (map audio_response (dtn_audio_albums thumbnails)))) (\<lambda>audio_responses.
          finish (abi_ok env print (thumbnail_result images videos audio image_responses video_responses
            audio_responses))))))))))))))))))"

lemma passes_checked: "env_ok env \<Longrightarrow> passes P (checked env r) (\<lambda>_. True)"
  by (simp add: checked_def passes_refuse passes_give split: sum.split)

lemma settles_checked [abi_intros]:
  "env_ok env \<Longrightarrow> (\<And>x. settles P (body x)) \<Longrightarrow> settles P (ffi_try (checked env r) body)"
  by (rule settles_try[OF passes_checked])

lemma checked_cases:
  "checked env r w = (case r of Inr x \<Rightarrow> (Return (Inr x), w)
     | Inl e \<Rightarrow> (Return (Inl (fst (abi_err env e w))), snd (abi_err env e w)))"
  by (simp add: checked_def give_def refuse_def case_prod_beta split: sum.split)

lemma passes_on_cache:
  assumes "env_ok env"
  shows "passes (live runtime) (on_cache env f) (\<lambda>_. True)"
  unfolding passes_def
proof (intro allI impI)
  fix w :: "'a ffi"
  assume live: "live runtime w"
  obtain r cache where f: "f (fw_cache w) = (r, cache)" by fastforce
  let ?w1 = "w\<lparr>fw_cache := cache\<rparr>"
  have "live runtime ?w1" using live by (simp add: live_def)
  moreover have "answered w (fst (abi_err env e ?w1)) (snd (abi_err env e ?w1))" for e
    using abi_err_answered[OF assms, of e ?w1] answered_heap[of ?w1 w] by simp
  ultimately show "case on_cache env f w of
      (Return (Inl result), w') \<Rightarrow> answered w result w'
    | (Return (Inr x), w') \<Rightarrow> fw_heap w' = fw_heap w \<and> live runtime w' \<and> True
    | (Unwind, w') \<Rightarrow> fw_heap w' = fw_heap w | (Undefined, w') \<Rightarrow> False"
    using f by (cases r) (simp_all add: on_cache_def checked_cases)
qed

lemma settles_on_cache [abi_intros]:
  "env_ok env \<Longrightarrow> (\<And>x. settles (live runtime) (body x)) \<Longrightarrow> settles (live runtime) (ffi_try (on_cache env f) body)"
  by (rule settles_try[OF passes_on_cache])

lemma thumbnail_settles:
  assumes "env_ok env" "live runtime w" "\<And>v. print v \<noteq> Inr []"
  shows "\<exists>result w'. hs_media_thumbnail env parse print te api runtime session_id input w = (Return result, w') \<and>
    answered w result w'"
  unfolding hs_media_thumbnail_def
  by (intro settles_catch[where P = "live runtime"] abi_intros assms)

end
