(* ===== verification/ThumbFacts.thy ===== *)
theory ThumbFacts
  imports Thumbs
begin

text \<open>
  Facts about the thumbnail cache: what a request is split into, that no item is lost between the
  request and the answer, that a stored thumbnail is a hit from then on, and where cache files lie.
\<close>

section \<open>Names\<close>

lemma id_char_no_slash: "id_char c \<Longrightarrow> c \<noteq> CHR ''/''"
  by (auto simp: id_char_def between_def)

lemma hex_digit_no_slash: "Discovery.hex_digit n \<noteq> CHR ''/''"
proof -
  have "Discovery.hex_digit n \<in> set ''0123456789abcdef''"
    unfolding Discovery.hex_digit_def by (rule nth_mem) simp
  then show ?thesis by auto
qed

definition cache_name :: "string \<Rightarrow> bool" where
  "cache_name name \<longleftrightarrow> CHR ''/'' \<notin> set name \<and> (\<exists>stem. name = stem @ ''.thumb'')"

lemma cache_path_in_dir:
  assumes "CHR ''/'' \<notin> set kind"
  shows "\<exists>name. cache_path_for cache_dir kind phone_key remote_path revision = join_name cache_dir name \<and> cache_name name"
proof -
  have "CHR ''/'' \<notin> set (sanitize_cache_component phone_key)"
    by (auto simp: sanitize_cache_component_def dest!: in_set_takeD dest: id_char_no_slash)
  moreover have "CHR ''/'' \<notin> set (hex16 n)" for n
    using hex_digit_no_slash by (auto simp: hex16_def) metis
  ultimately have "cache_name (sanitize_cache_component phone_key @ ''-'' @ kind @ ''-'' @ hex16 n @ ''.thumb'')" for n
    using assms unfolding cache_name_def
    by (intro conjI exI[of _ "sanitize_cache_component phone_key @ ''-'' @ kind @ ''-'' @ hex16 n"]) auto
  then show ?thesis unfolding cache_path_for_def Let_def by blast
qed

definition ascii :: "string \<Rightarrow> bool" where
  "ascii t \<longleftrightarrow> list_all (between 0 0x7F) t"

lemma ascii_simps [simp]:
  "ascii []" "ascii (c # t) \<longleftrightarrow> between 0 0x7F c \<and> ascii t" "ascii (s @ t) \<longleftrightarrow> ascii s \<and> ascii t"
  by (simp_all add: ascii_def)

lemma ascii_utf8: "ascii t \<Longrightarrow> valid_utf8 t"
  by (induction t) simp_all

lemma hex16_ascii: "ascii (hex16 n)"
proof -
  have "between 0 0x7F (Discovery.hex_digit k)" for k
  proof -
    have "Discovery.hex_digit k \<in> set ''0123456789abcdef''"
      unfolding Discovery.hex_digit_def by (rule nth_mem) simp
    then show ?thesis by (auto simp: between_def)
  qed
  then show ?thesis by (simp add: hex16_def ascii_def list_all_iff)
qed

text \<open>The name of a cache file is plain ASCII, so its path is UTF-8 when that of the directory is.\<close>

lemma cache_path_utf8:
  assumes "ascii cache_dir" "ascii kind"
  shows "valid_utf8 (cache_path_for cache_dir kind phone_key remote_path revision)"
proof -
  have "ascii (sanitize_cache_component phone_key)"
    by (auto simp: ascii_def list_all_iff sanitize_cache_component_def id_char_def between_def dest!: in_set_takeD)
  moreover have "ascii (join_name cache_dir t)" if "ascii t" for t
    using that assms(1) by (simp add: join_name_def between_def)
  ultimately show ?thesis
    using assms(2) hex16_ascii by (auto simp: cache_path_for_def Let_def between_def intro!: ascii_utf8)
qed

section \<open>Identities\<close>

lemma id_key_inject [simp]: "id_key m = id_key n \<longleftrightarrow> m = n"
  by (metis append_same_eq digits_value_show id_key_def option.inject same_append_eq)

lemma path_key_inject [simp]: "path_key p = path_key q \<longleftrightarrow> p = q"
  by (simp add: path_key_def)

lemma id_path_key [simp]: "id_key n \<noteq> path_key p" "path_key p \<noteq> id_key n"
  by (simp_all add: id_key_def path_key_def)

lemma mark_response_keys:
  "id_key n \<in> mark_thumbnail_response seen p i \<longleftrightarrow> id_key n \<in> seen \<or> i = Some n"
  "path_key q \<in> mark_thumbnail_response seen p i \<longleftrightarrow> path_key q \<in> seen \<or> p = Some q"
  by (auto simp: mark_thumbnail_response_def Let_def split: option.splits)

section \<open>Storing answers\<close>

lemma cache_thumbnail_ok:
  assumes "cache_thumbnail te cache_dir kind phone_key remote_path revision bytes operation cache = (Inr t, cache')"
    and "bytes \<noteq> []"
  shows "t = cache_path_for cache_dir kind phone_key remote_path revision" "valid_utf8 t"
    and "valid_cache_file_size cache' t \<noteq> None"
    and "\<And>q sz. valid_cache_file_size cache q = Some sz \<Longrightarrow> valid_cache_file_size cache' q = Some sz"
proof -
  define p where "p = cache_path_for cache_dir kind phone_key remote_path revision"
  have t: "cache_path_string p operation = Inr t"
    and cache': "cache' = cache \<and> valid_cache_file_size cache p \<noteq> None \<or>
      valid_cache_file_size cache p = None \<and>
      (cache' = cache(p := None, p \<mapsto> CacheFile bytes True) \<or> cache' = cache(p \<mapsto> CacheFile bytes True))"
    using assms(1) by (auto simp: cache_thumbnail_def Let_def simp flip: p_def split: if_splits option.splits)
  show p: "t = cache_path_for cache_dir kind phone_key remote_path revision" "valid_utf8 t"
    using t by (auto simp: cache_path_string_def p_def split: if_splits)
  show "valid_cache_file_size cache' t \<noteq> None"
    using cache' assms(2) p by (auto simp: valid_cache_file_size_def p_def)
  show "valid_cache_file_size cache' q = Some sz" if "valid_cache_file_size cache q = Some sz" for q sz
    using cache' that by (auto simp: valid_cache_file_size_def split: if_splits)
qed

text \<open>What an entry of the answer promises about the cache.\<close>

definition entry_ok ::
  "string \<Rightarrow> string \<Rightarrow> string \<Rightarrow> (string \<rightharpoonup> string) \<Rightarrow> (string \<rightharpoonup> cache_file) \<Rightarrow> FfiThumbnailCacheEntry \<Rightarrow> bool" where
  "entry_ok cache_dir kind phone_key revisions cache entry \<longleftrightarrow>
     tc_cache_path entry = cache_path_for cache_dir kind phone_key (tc_path entry) (the_or [] (revisions (tc_path entry))) \<and>
     valid_utf8 (tc_cache_path entry) \<and> valid_cache_file_size cache (tc_cache_path entry) \<noteq> None"

lemma cache_responses_step:
  assumes "cache_responses te cache_dir kind phone_key revisions operation (item # items) acc cache = (Inr rs, cache')"
  obtains acc1 cache1 where
    "cache_responses te cache_dir kind phone_key revisions operation items acc1 cache1 = (Inr rs, cache')"
    "cr_responded acc1 = mark_thumbnail_response (cr_responded acc) (tp_path item) (response_id item)"
    "length (cr_cached acc1) + length (cr_failed acc1) = Suc (length (cr_cached acc) + length (cr_failed acc))"
    "\<And>entry. entry_ok cache_dir kind phone_key revisions cache entry \<Longrightarrow>
       entry_ok cache_dir kind phone_key revisions cache1 entry"
    "\<And>entry. entry \<in> set (cr_cached acc1) \<Longrightarrow> entry \<in> set (cr_cached acc) \<or>
       entry_ok cache_dir kind phone_key revisions cache1 entry"
proof -
  let ?acc1 = "acc\<lparr>cr_responded := mark_thumbnail_response (cr_responded acc) (tp_path item) (response_id item)\<rparr>"
  let ?failed = "\<lambda>reason. ?acc1\<lparr>cr_failed := cr_failed ?acc1 @ [response_failure item reason]\<rparr>"
  consider reason where "cache_responses te cache_dir kind phone_key revisions operation items (?failed reason) cache = (Inr rs, cache')"
    | p bytes t cache1 where "bytes \<noteq> []"
        "cache_thumbnail te cache_dir kind phone_key p (the_or [] (revisions p)) bytes operation cache = (Inr t, cache1)"
        "cache_responses te cache_dir kind phone_key revisions operation items
          (?acc1\<lparr>cr_cached := cr_cached acc @ [\<lparr>tc_path = p, tc_cache_path = t, tc_size = length bytes\<rparr>]\<rparr>) cache1 = (Inr rs, cache')"
    using assms by (auto simp: Let_def split: if_splits option.splits prod.splits sum.splits)
  then show thesis
  proof cases
    case 1
    then show ?thesis by (rule that) auto
  next
    case 2
    note stored = cache_thumbnail_ok[OF 2(2,1)]
    show ?thesis
    proof (rule that[OF 2(3)])
      show "entry_ok cache_dir kind phone_key revisions cache1 entry"
        if "entry_ok cache_dir kind phone_key revisions cache entry" for entry
        using that stored(4) by (fastforce simp: entry_ok_def)
    qed (use stored(1-3) in \<open>auto simp: entry_ok_def\<close>)
  qed
qed

lemma cache_responses_ok:
  assumes "cache_responses te cache_dir kind phone_key revisions operation responses acc cache = (Inr rs, cache')"
  shows "length (cr_cached rs) + length (cr_failed rs) = length (cr_cached acc) + length (cr_failed acc) + length responses"
    and "id_key n \<in> cr_responded rs \<longleftrightarrow> id_key n \<in> cr_responded acc \<or> (\<exists>r \<in> set responses. response_id r = Some n)"
    and "path_key q \<in> cr_responded rs \<longleftrightarrow> path_key q \<in> cr_responded acc \<or> (\<exists>r \<in> set responses. tp_path r = Some q)"
    and "\<forall>entry \<in> set (cr_cached acc). entry_ok cache_dir kind phone_key revisions cache entry \<Longrightarrow>
       entry \<in> set (cr_cached rs) \<Longrightarrow> entry_ok cache_dir kind phone_key revisions cache' entry"
  using assms
proof (induction responses arbitrary: acc cache)
  case (Cons item items)
  {
    case 1
    then show ?case by (elim cache_responses_step) (use Cons.IH(1) in fastforce)
  next
    case 2
    then show ?case by (elim cache_responses_step) (use Cons.IH(2) in \<open>auto simp: mark_response_keys\<close>)
  next
    case 3
    then show ?case by (elim cache_responses_step) (use Cons.IH(3) in \<open>auto simp: mark_response_keys\<close>)
  next
    case 4
    from 4(3) show ?case by (elim cache_responses_step) (use Cons.IH(4) 4(1,2) in blast)
  }
qed simp_all

section \<open>The split of a request\<close>

text \<open>The entry an item is answered with from the cache, if it is there.\<close>

definition hit_entry ::
  "string \<Rightarrow> string \<Rightarrow> (string \<rightharpoonup> cache_file) \<Rightarrow> 'i category \<Rightarrow> 'i \<Rightarrow> FfiThumbnailCacheEntry option" where
  "hit_entry cache_dir phone_key cache ct item =
     (case ct_path ct item of
        None \<Rightarrow> None
      | Some p \<Rightarrow>
          (let cache_path = cache_path_for cache_dir (ct_kind ct) phone_key p (ct_revision ct item)
           in map_option (\<lambda>sz. \<lparr>tc_path = p, tc_cache_path = cache_path, tc_size = sz\<rparr>)
                (valid_cache_file_size cache cache_path)))"

definition identity_of :: "'i category \<Rightarrow> 'i \<Rightarrow> string" where
  "identity_of ct item = thumbnail_identity (ct_path ct item) (ct_id ct item)"

text \<open>What the split of the items seen so far has recorded.\<close>

definition split_ok ::
  "string \<Rightarrow> string \<Rightarrow> (string \<rightharpoonup> cache_file) \<Rightarrow> 'i category \<Rightarrow> 'i list \<Rightarrow> 'i split_request \<Rightarrow> bool" where
  "split_ok cache_dir phone_key cache ct seen st \<longleftrightarrow>
     sr_hits st = List.map_filter (hit_entry cache_dir phone_key cache ct) seen \<and>
     sr_identities st = identity_of ct ` set (sr_misses st) \<and>
     distinct (map (identity_of ct) (sr_misses st)) \<and>
     sr_pending st = map (ct_failure ct) (sr_misses st) \<and>
     set (sr_misses st) \<subseteq> {item \<in> set seen. hit_entry cache_dir phone_key cache ct item = None} \<and>
     (\<forall>item \<in> set seen. hit_entry cache_dir phone_key cache ct item = None \<longrightarrow> identity_of ct item \<in> sr_identities st)"

lemma split_ok_revisions [simp]:
  "split_ok cache_dir phone_key cache ct seen (st\<lparr>sr_revisions := r\<rparr>) = split_ok cache_dir phone_key cache ct seen st"
  by (simp add: split_ok_def)

lemma split_ok_start: "split_ok cache_dir phone_key cache ct [] no_items"
  by (simp add: split_ok_def no_items_def map_filter_simps)

lemma map_filter_snoc: "List.map_filter f (xs @ [x]) = List.map_filter f xs @ (case f x of None \<Rightarrow> [] | Some y \<Rightarrow> [y])"
  by (simp add: List.map_filter_def split: option.split)

lemma split_ok_miss:
  assumes "split_ok cache_dir phone_key cache ct seen st" "hit_entry cache_dir phone_key cache ct item = None"
  shows "split_ok cache_dir phone_key cache ct (seen @ [item]) (schedule ct item st)"
  using assms by (auto simp: split_ok_def schedule_def identity_of_def Let_def map_filter_snoc)

lemma split_ok_hit:
  assumes "split_ok cache_dir phone_key cache ct seen st" "hit_entry cache_dir phone_key cache ct item = Some entry"
  shows "split_ok cache_dir phone_key cache ct (seen @ [item]) (st\<lparr>sr_hits := sr_hits st @ [entry]\<rparr>)"
  using assms by (auto simp: split_ok_def map_filter_snoc)

lemma split_items_ok:
  "split_items cache_dir phone_key cache ct items st = Inr st' \<Longrightarrow> split_ok cache_dir phone_key cache ct seen st \<Longrightarrow>
   split_ok cache_dir phone_key cache ct (seen @ items) st'"
proof (induction items arbitrary: seen st)
  case (Cons item items)
  have "split_ok cache_dir phone_key cache ct ((seen @ [item]) @ items) st'"
  proof (cases "hit_entry cache_dir phone_key cache ct item")
    case None
    then obtain r where "split_items cache_dir phone_key cache ct items (schedule ct item (st\<lparr>sr_revisions := r\<rparr>)) = Inr st'"
      using Cons.prems(1) that[of "sr_revisions st"]
      by (auto simp: hit_entry_def Let_def split: option.splits)
    from Cons.IH[OF this split_ok_miss[OF _ None]] show ?thesis using Cons.prems(2) by simp
  next
    case (Some entry)
    then obtain r where "split_items cache_dir phone_key cache ct items
        (st\<lparr>sr_revisions := r, sr_hits := sr_hits st @ [entry]\<rparr>) = Inr st'"
      using Cons.prems(1)
      by (auto simp: hit_entry_def Let_def cache_path_string_def split: option.splits sum.splits if_splits)
    from Cons.IH[OF this, of "seen @ [item]"] show ?thesis
      using split_ok_hit[of cache_dir phone_key cache ct seen "st\<lparr>sr_revisions := r\<rparr>", OF _ Some] Cons.prems(2) by simp
  qed
  then show ?case by simp
qed simp

section \<open>No item is lost\<close>

text \<open>A category whose failures carry the path and the id of the item they are about.\<close>

locale thumbnail_category =
  fixes ct :: "'i category"
    and failure_id :: "FfiThumbnailFailure \<Rightarrow> nat option"
  assumes failure_names: "failure_id (ct_failure ct item) = ct_id ct item" "tf_path (ct_failure ct item) = ct_path ct item"
    and kind_plain: "CHR ''/'' \<notin> set (ct_kind ct)"
begin

lemma answered_or_reported:
  assumes "cache_thumbnail_responses te cache_dir kind phone_key revisions operation responses cache = (Inr rs, cache')"
    and "split_items cache_dir phone_key cache0 ct items no_items = Inr st"
    and "m \<in> set (sr_misses st)"
  shows "ct_failure ct m \<in> set (unanswered failure_id (cr_responded rs) (sr_pending st)) \<or>
    (\<exists>r \<in> set responses. response_id r \<noteq> None \<and> response_id r = ct_id ct m \<or> tp_path r \<noteq> None \<and> tp_path r = ct_path ct m)"
proof (cases "thumbnail_response_seen (cr_responded rs) (ct_path ct m) (ct_id ct m)")
  case True
  then show ?thesis
    using cache_responses_ok(2,3)[OF assms(1)[unfolded cache_thumbnail_responses_def]]
    by (auto simp: thumbnail_response_seen_def split: option.splits)
next
  case False
  have "sr_pending st = map (ct_failure ct) (sr_misses st)"
    using split_items_ok[OF assms(2) split_ok_start] by (simp add: split_ok_def)
  then show ?thesis using False assms(3) by (auto simp: unanswered_def failure_names)
qed

lemma accounted:
  assumes "split_items cache_dir phone_key cache ct items no_items = Inr st"
    and "cache_thumbnail_responses te cache_dir kind phone_key revisions operation responses cache1 = (Inr rs, cache2)"
    and "item \<in> set items"
  shows "case hit_entry cache_dir phone_key cache ct item of
      Some entry \<Rightarrow> entry \<in> set (sr_hits st)
    | None \<Rightarrow> \<exists>m \<in> set (sr_misses st). identity_of ct m = identity_of ct item \<and>
        (ct_failure ct m \<in> set (unanswered failure_id (cr_responded rs) (sr_pending st)) \<or>
         (\<exists>r \<in> set responses. response_id r \<noteq> None \<and> response_id r = ct_id ct m \<or>
            tp_path r \<noteq> None \<and> tp_path r = ct_path ct m))"
proof (cases "hit_entry cache_dir phone_key cache ct item")
  case None
  have "identity_of ct item \<in> identity_of ct ` set (sr_misses st)"
    using split_items_ok[OF assms(1) split_ok_start] assms(3) None by (auto simp: split_ok_def)
  then obtain m where "m \<in> set (sr_misses st)" "identity_of ct m = identity_of ct item" by auto
  then show ?thesis using answered_or_reported[OF assms(2,1)] None by auto
next
  case (Some entry)
  have "sr_hits st = List.map_filter (hit_entry cache_dir phone_key cache ct) items"
    using split_items_ok[OF assms(1) split_ok_start] by (simp add: split_ok_def)
  then show ?thesis using Some assms(3) by (force simp: List.map_filter_def)
qed

text \<open>A thumbnail stored by one request answers the next one from the cache.\<close>

lemma stored_then_hit:
  assumes "cache_thumbnail_responses te cache_dir (ct_kind ct) phone_key revisions operation responses cache = (Inr rs, cache')"
    and "entry \<in> set (cr_cached rs)"
    and "ct_path ct item = Some (tc_path entry)" "ct_revision ct item = the_or [] (revisions (tc_path entry))"
  shows "\<exists>st sz. split_items cache_dir phone_key cache' ct [item] no_items = Inr st \<and> sr_misses st = [] \<and>
    sr_hits st = [\<lparr>tc_path = tc_path entry, tc_cache_path = tc_cache_path entry, tc_size = sz\<rparr>]"
    and "\<exists>name. tc_cache_path entry = join_name cache_dir name \<and> cache_name name"
proof -
  have ok: "entry_ok cache_dir (ct_kind ct) phone_key revisions cache' entry"
    using cache_responses_ok(4)[OF assms(1)[unfolded cache_thumbnail_responses_def] _ assms(2)] by simp
  then show "\<exists>st sz. split_items cache_dir phone_key cache' ct [item] no_items = Inr st \<and> sr_misses st = [] \<and>
    sr_hits st = [\<lparr>tc_path = tc_path entry, tc_cache_path = tc_cache_path entry, tc_size = sz\<rparr>]"
    using assms(3,4) by (auto simp: entry_ok_def no_items_def Let_def cache_path_string_def)
  show "\<exists>name. tc_cache_path entry = join_name cache_dir name \<and> cache_name name"
    using ok cache_path_in_dir[OF kind_plain] by (metis entry_ok_def)
qed

end

interpretation images: thumbnail_category "image_category te" tf_media_id for te
  by unfold_locales (simp_all add: image_category_def missing_response_def)

interpretation videos: thumbnail_category video_category tf_media_id
  by unfold_locales (simp_all add: video_category_def missing_response_def)

interpretation albums: thumbnail_category "audio_category te" tf_album_id for te
  by unfold_locales (simp_all add: audio_category_def missing_response_def)

section \<open>Properties\<close>

text \<open>An item is answered from the cache, or one miss of its identity was asked for, which is reported as
  not answered unless some answer carries its id or its path.\<close>

definition reported ::
  "string \<Rightarrow> string \<Rightarrow> (string \<rightharpoonup> cache_file) \<Rightarrow> 'i category \<Rightarrow> 'i split_request \<Rightarrow> FfiThumbnailFailure list
   \<Rightarrow> thumbnail_response list \<Rightarrow> 'i \<Rightarrow> bool" where
  "reported cache_dir phone_key cache ct st missing responses item =
     (case hit_entry cache_dir phone_key cache ct item of
        Some entry \<Rightarrow> entry \<in> set (sr_hits st)
      | None \<Rightarrow> \<exists>m \<in> set (sr_misses st). identity_of ct m = identity_of ct item \<and>
          (ct_failure ct m \<in> set missing \<or>
           (\<exists>r \<in> set responses. response_id r \<noteq> None \<and> response_id r = ct_id ct m \<or>
              tp_path r \<noteq> None \<and> tp_path r = ct_path ct m)))"


definition example_thumb_env :: thumb_env where
  "example_thumb_env = \<lparr>te_os = Linux, te_var = (\<lambda>_. None), te_debug = (\<lambda>t. t), te_mkdir = (\<lambda>_. None),
     te_remove = (\<lambda>_. None), te_write = (\<lambda>_. None), te_rename = (\<lambda>_. None), te_suffix = ''.1.2''\<rparr>"

definition example_image :: "string \<Rightarrow> nat option \<Rightarrow> FfiThumbnailImageItem" where
  "example_image p i = \<lparr>ti_path = Some p, ti_media_id = i, ti_album_id = None, ti_size = None, ti_modified_at = None,
     ti_mini_thumb_magic = None\<rparr>"

lemma example_split:
  "split_items ''/c'' ''ph'' Map.empty (image_category te) [example_image p i, example_image p i] no_items =
   Inr \<lparr>sr_hits = [], sr_revisions = [p \<mapsto> image_cache_revision te (example_image p i)],
     sr_identities = {thumbnail_identity (Some p) i}, sr_misses = [example_image p i],
     sr_pending = [missing_response (Some p) i None]\<rparr>"
  by (simp add: no_items_def image_category_def valid_cache_file_size_def schedule_def example_image_def Let_def)

lemma no_responses:
  "cache_thumbnail_responses te dir kind owner revisions op [] cache = (Inr \<lparr>cr_cached = [], cr_failed = [], cr_responded = {}\<rparr>, cache)"
  by (simp add: cache_thumbnail_responses_def)


text \<open>C40 A stored thumbnail is found again: when an answer has been cached, the next request for the same
  item with the same revision is answered from the cache, with the same file, without asking the phone.
  The file lies directly in the cache directory, whatever the phone calls itself or its paths.\<close>

theorem thumbnail_stored_then_hit:
  assumes "cache_thumbnail_responses te dir ''image'' owner revisions op answers cache = (Inr rs, cache')"
    and "entry \<in> set (cr_cached rs)"
    and "ti_path item = Some (tc_path entry)" "image_cache_revision te item = the_or [] (revisions (tc_path entry))"
  shows "(\<exists>st sz. split_items dir owner cache' (image_category te) [item] no_items = Inr st \<and> sr_misses st = [] \<and>
      sr_hits st = [\<lparr>tc_path = tc_path entry, tc_cache_path = tc_cache_path entry, tc_size = sz\<rparr>]) \<and>
    (\<exists>name. tc_cache_path entry = join_name dir name \<and> CHR ''/'' \<notin> set name \<and> (\<exists>stem. name = stem @ ''.thumb''))"
proof -
  have ct: "ct_kind (image_category te) = ''image''" "ct_path (image_category te) = ti_path"
    "ct_revision (image_category te) = image_cache_revision te" by (simp_all add: image_category_def)
  show ?thesis
    using images.stored_then_hit[of te dir te owner revisions op answers cache rs cache' entry item, unfolded ct, OF assms]
    unfolding cache_name_def by blast
qed

theorem thumbnail_stored_then_hit_witness:
  "\<exists>st. split_items ''/c'' ''p'' (snd (cache_thumbnail_responses example_thumb_env ''/c'' ''image'' ''p'' Map.empty ''op''
       [\<lparr>tp_path = Some ''a'', tp_media_id = None, tp_album_id = None, tp_thumbnail = Some [1], tp_error = False\<rparr>] Map.empty))
     (image_category example_thumb_env) [example_image ''a'' None] no_items = Inr st \<and> sr_misses st = []"
proof -
  let ?out = "cache_thumbnail_responses example_thumb_env ''/c'' ''image'' ''p'' Map.empty ''op''
       [\<lparr>tp_path = Some ''a'', tp_media_id = None, tp_album_id = None, tp_thumbnail = Some [1], tp_error = False\<rparr>] Map.empty"
  let ?entry = "\<lparr>tc_path = ''a'', tc_cache_path = cache_path_for ''/c'' ''image'' ''p'' ''a'' [], tc_size = 1\<rparr>"
  have utf8: "valid_utf8 (cache_path_for ''/c'' ''image'' ''p'' ''a'' [])"
    by (rule cache_path_utf8) (simp_all add: between_def)
  have "fst ?out = Inr \<lparr>cr_cached = [?entry], cr_failed = [], cr_responded = {path_key ''a''}\<rparr>"
    using utf8
    by (simp add: cache_thumbnail_responses_def cache_thumbnail_def cache_path_string_def valid_cache_file_size_def
        cache_exists_def example_thumb_env_def mark_thumbnail_response_def response_id_def the_or_def Let_def)
  then have "?out = (Inr \<lparr>cr_cached = [?entry], cr_failed = [], cr_responded = {path_key ''a''}\<rparr>, snd ?out)"
    by (simp add: prod_eq_iff)
  moreover have "ti_path (example_image ''a'' None) = Some (tc_path ?entry)"
    "image_cache_revision example_thumb_env (example_image ''a'' None) = the_or [] (Map.empty (tc_path ?entry))"
    by (simp_all add: example_image_def image_cache_revision_def the_or_def)
  ultimately show ?thesis
    using thumbnail_stored_then_hit[where entry = ?entry and item = "example_image ''a'' None"]
    by (metis (no_types, lifting) cached_responses.select_convs(1) list.set_intros(1))
qed

section \<open>Two answers that mislead\<close>

text \<open>An answer for another image that carries an album id but no media id counts as the answer to the item
  with that number as media id: the item is neither returned nor reported.\<close>

theorem album_answer_hides_item:
  assumes "tp_media_id r = None" "tp_album_id r = Some n" "tp_error r"
    and "cache_thumbnail_responses te dir kind owner revisions op [r] cache = (Inr rs, cache')"
  shows "cr_cached rs = [] \<and> cr_failed rs = [response_failure r ''thumbnail_error''] \<and>
    unanswered tf_media_id (cr_responded rs) [missing_response (Some p) (Some n) None] = []"
  using assms
  by (auto simp: cache_thumbnail_responses_def response_id_def mark_thumbnail_response_def unanswered_def
      thumbnail_response_seen_def missing_response_def Let_def split: option.splits)

text \<open>An answer for a path whose file is in the cache already leaves the file and reports the size of the
  bytes that were not written.\<close>

theorem reported_size_not_stored:
  assumes "valid_cache_file_size cache (cache_path_for dir kind owner p (the_or [] (revisions p))) = Some sz"
    and "tp_path r = Some p" "tp_thumbnail r = Some bytes" "bytes \<noteq> []" "\<not> tp_error r"
    and "cache_thumbnail_responses te dir kind owner revisions op [r] cache = (Inr rs, cache')"
  shows "cache' = cache \<and> map tc_size (cr_cached rs) = [length bytes]"
  using assms
  by (auto simp: cache_thumbnail_responses_def cache_thumbnail_def cache_path_string_def Let_def split: if_splits)

end
