(* ===== verification/FfiFacts.thy ===== *)
theory FfiFacts
  imports ThumbFacts
begin

text \<open>
  The contract of the C interface over all its calls: whatever the arguments, the state of the
  application runtime and its panics, a call on a handle that is NULL or alive returns a result that
  owns exactly one allocation, and bad arguments are refused before the application is touched.
\<close>

section \<open>Calls\<close>

text \<open>An exported call with the arguments besides the runtime handle.\<close>

datatype ffi_call =
    ListDevicesCall abi_input
  | ConnectCall abi_input
  | DisconnectCall nat
  | GetSessionCall nat
  | ListFilesCall nat abi_input
  | CreateDirectoryCall nat abi_input
  | PingCall nat
  | TransferStartDownloadCall nat abi_input
  | TransferStartUploadCall nat abi_input
  | TransferCancelCall nat
  | TransferGetCall nat
  | TransferListCall
  | TransferStartBatchDownloadCall nat abi_input
  | TransferStartBatchUploadCall nat abi_input
  | StatFileCall nat abi_input
  | CountFilesCall nat abi_input
  | MovePathCall nat abi_input
  | DeletePathsCall nat abi_input
  | UpdateFileInfoCall nat abi_input
  | MonitorFolderCall nat abi_input
  | ClipboardListCall nat
  | ClipboardSetCall nat abi_input
  | ClipboardDeleteCall nat abi_input
  | ClipboardClearCall nat
  | TrustListCall
  | TrustRemoveCall abi_input
  | TrustResetCall abi_input
  | DiscoverDevicesCall
  | SyncPlanCall nat abi_input
  | SyncStartCall nat abi_input
  | SyncStatusCall abi_input
  | SyncStopCall abi_input
  | SyncStartWatchCall abi_input
  | SyncStopWatchCall abi_input
  | MediaPhotoLibraryCall nat abi_input
  | MediaVideoLibraryCall nat abi_input
  | MediaAudioLibraryCall nat abi_input
  | MediaFetchExifCall nat abi_input
  | MediaMergeChangeCall abi_input abi_input abi_input
  | RuntimeDiagnosticsCall
  | MediaThumbnailCall nat abi_input
  | RuntimeCreateCall abi_input nat
  | RuntimeShutdownCall
  | SubscribeEventsCall nat
  | SubscriptionNextCall nat

text \<open>What stands behind the calls: JSON, the methods of the application runtime, and the outcomes of
  the system's own operations.\<close>

record 'a ffi_side =
  sd_json :: ffi_json
  sd_api :: "'a app_api"
  sd_build :: build_info
  sd_probe :: "bool \<times> string option"
  sd_thumb_env :: thumb_env
  sd_thumb_parse :: "string \<Rightarrow> string + FfiThumbnailRequest"
  sd_thumb_print :: "FfiThumbnailResult \<Rightarrow> string + string"
  sd_config_parse :: "string \<Rightarrow> string + FfiRuntimeConfig"
  sd_built :: "string option"
  sd_create :: "RuntimeConfig \<Rightarrow> 'a app_result option"
  sd_shutdown :: "('a, unit app_result) api"
  sd_subscribe :: "('a, unit) api"
  sd_event_print :: "EventEnvelope \<Rightarrow> string + string"
  sd_received :: recv_outcome

fun perform :: "abi_env \<Rightarrow> 'a ffi_side \<Rightarrow> nat \<Rightarrow> ffi_call \<Rightarrow> 'a abi_body" where
  "perform env sd runtime (ListDevicesCall input) = hs_list_devices env (sd_json sd) (sd_api sd) runtime input"
| "perform env sd runtime (ConnectCall input) = hs_connect env (sd_json sd) (sd_api sd) runtime input"
| "perform env sd runtime (DisconnectCall session_id) = hs_disconnect env (sd_json sd) (sd_api sd) runtime session_id"
| "perform env sd runtime (GetSessionCall session_id) = hs_get_session env (sd_json sd) (sd_api sd) runtime session_id"
| "perform env sd runtime (ListFilesCall session_id input) = hs_list_files env (sd_json sd) (sd_api sd) runtime session_id input"
| "perform env sd runtime (CreateDirectoryCall session_id input) = hs_create_directory env (sd_json sd) (sd_api sd) runtime session_id input"
| "perform env sd runtime (PingCall session_id) = hs_ping env (sd_json sd) (sd_api sd) runtime session_id"
| "perform env sd runtime (TransferStartDownloadCall session_id input) = hs_transfer_start_download env (sd_json sd) (sd_api sd) runtime session_id input"
| "perform env sd runtime (TransferStartUploadCall session_id input) = hs_transfer_start_upload env (sd_json sd) (sd_api sd) runtime session_id input"
| "perform env sd runtime (TransferCancelCall transfer_id) = hs_transfer_cancel env (sd_json sd) (sd_api sd) runtime transfer_id"
| "perform env sd runtime (TransferGetCall transfer_id) = hs_transfer_get env (sd_json sd) (sd_api sd) runtime transfer_id"
| "perform env sd runtime TransferListCall = hs_transfer_list env (sd_json sd) (sd_api sd) runtime"
| "perform env sd runtime (TransferStartBatchDownloadCall session_id input) = hs_transfer_start_batch_download env (sd_json sd) (sd_api sd) runtime session_id input"
| "perform env sd runtime (TransferStartBatchUploadCall session_id input) = hs_transfer_start_batch_upload env (sd_json sd) (sd_api sd) runtime session_id input"
| "perform env sd runtime (StatFileCall session_id input) = hs_stat_file env (sd_json sd) (sd_api sd) runtime session_id input"
| "perform env sd runtime (CountFilesCall session_id input) = hs_count_files env (sd_json sd) (sd_api sd) runtime session_id input"
| "perform env sd runtime (MovePathCall session_id input) = hs_move_path env (sd_json sd) (sd_api sd) runtime session_id input"
| "perform env sd runtime (DeletePathsCall session_id input) = hs_delete_paths env (sd_json sd) (sd_api sd) runtime session_id input"
| "perform env sd runtime (UpdateFileInfoCall session_id input) = hs_update_file_info env (sd_json sd) (sd_api sd) runtime session_id input"
| "perform env sd runtime (MonitorFolderCall session_id input) = hs_monitor_folder env (sd_json sd) (sd_api sd) runtime session_id input"
| "perform env sd runtime (ClipboardListCall session_id) = hs_clipboard_list env (sd_json sd) (sd_api sd) runtime session_id"
| "perform env sd runtime (ClipboardSetCall session_id input) = hs_clipboard_set env (sd_json sd) (sd_api sd) runtime session_id input"
| "perform env sd runtime (ClipboardDeleteCall session_id input) = hs_clipboard_delete env (sd_json sd) (sd_api sd) runtime session_id input"
| "perform env sd runtime (ClipboardClearCall session_id) = hs_clipboard_clear env (sd_json sd) (sd_api sd) runtime session_id"
| "perform env sd runtime TrustListCall = hs_trust_list env (sd_json sd) (sd_api sd) runtime"
| "perform env sd runtime (TrustRemoveCall input) = hs_trust_remove env (sd_json sd) (sd_api sd) runtime input"
| "perform env sd runtime (TrustResetCall input) = hs_trust_reset env (sd_json sd) (sd_api sd) runtime input"
| "perform env sd runtime DiscoverDevicesCall = hs_discover_devices env (sd_json sd) (sd_api sd) runtime"
| "perform env sd runtime (SyncPlanCall session_id input) = hs_sync_plan env (sd_json sd) (sd_api sd) runtime session_id input"
| "perform env sd runtime (SyncStartCall session_id input) = hs_sync_start env (sd_json sd) (sd_api sd) runtime session_id input"
| "perform env sd runtime (SyncStatusCall input) = hs_sync_status env (sd_json sd) (sd_api sd) runtime input"
| "perform env sd runtime (SyncStopCall input) = hs_sync_stop env (sd_json sd) (sd_api sd) runtime input"
| "perform env sd runtime (SyncStartWatchCall input) = hs_sync_start_watch env (sd_json sd) (sd_api sd) runtime input"
| "perform env sd runtime (SyncStopWatchCall input) = hs_sync_stop_watch env (sd_json sd) (sd_api sd) runtime input"
| "perform env sd runtime (MediaPhotoLibraryCall session_id input) = hs_media_photo_library env (sd_json sd) (sd_api sd) runtime session_id input"
| "perform env sd runtime (MediaVideoLibraryCall session_id input) = hs_media_video_library env (sd_json sd) (sd_api sd) runtime session_id input"
| "perform env sd runtime (MediaAudioLibraryCall session_id input) = hs_media_audio_library env (sd_json sd) (sd_api sd) runtime session_id input"
| "perform env sd runtime (MediaFetchExifCall session_id input) = hs_media_fetch_exif env (sd_json sd) (sd_api sd) runtime session_id input"
| "perform env sd runtime (MediaMergeChangeCall kind_input library_input change_input) = hs_media_merge_change env (sd_json sd) (sd_api sd) runtime kind_input library_input change_input"
| "perform env sd runtime RuntimeDiagnosticsCall = hs_runtime_diagnostics env (sd_json sd) (sd_api sd) runtime (sd_build sd) (sd_probe sd)"
| "perform env sd runtime (MediaThumbnailCall session_id input) =
     hs_media_thumbnail env (sd_thumb_parse sd) (sd_thumb_print sd) (sd_thumb_env sd) (sd_api sd) runtime session_id input"
| "perform env sd runtime (RuntimeCreateCall input out) =
     hs_runtime_create env (sd_config_parse sd) (sd_built sd) (sd_create sd) input out"
| "perform env sd runtime RuntimeShutdownCall = hs_runtime_shutdown env (sd_shutdown sd) runtime"
| "perform env sd runtime (SubscribeEventsCall out) = hs_subscribe_events env (sd_subscribe sd) (sd_built sd) runtime out"
| "perform env sd runtime (SubscriptionNextCall subscription) =
     hs_subscription_next env (sd_event_print sd) (sd_received sd) subscription"

text \<open>The operation named in errors, and the texts the caller passes.\<close>

fun call_name :: "ffi_call \<Rightarrow> string" where
  "call_name (ListDevicesCall _) = ''list_devices''"
| "call_name (ConnectCall _) = ''connect''"
| "call_name (DisconnectCall _) = ''disconnect''"
| "call_name (GetSessionCall _) = ''get_session''"
| "call_name (ListFilesCall _ _) = ''list_files''"
| "call_name (CreateDirectoryCall _ _) = ''create_directory''"
| "call_name (PingCall _) = ''ping''"
| "call_name (TransferStartDownloadCall _ _) = ''transfer_start_download''"
| "call_name (TransferStartUploadCall _ _) = ''transfer_start_upload''"
| "call_name (TransferCancelCall _) = ''transfer_cancel''"
| "call_name (TransferGetCall _) = ''transfer_get''"
| "call_name TransferListCall = ''transfer_list''"
| "call_name (TransferStartBatchDownloadCall _ _) = ''transfer_start_batch_download''"
| "call_name (TransferStartBatchUploadCall _ _) = ''transfer_start_batch_upload''"
| "call_name (StatFileCall _ _) = ''stat_file''"
| "call_name (CountFilesCall _ _) = ''count_files''"
| "call_name (MovePathCall _ _) = ''move_path''"
| "call_name (DeletePathsCall _ _) = ''delete_paths''"
| "call_name (UpdateFileInfoCall _ _) = ''update_file_info''"
| "call_name (MonitorFolderCall _ _) = ''monitor_folder''"
| "call_name (ClipboardListCall _) = ''clipboard_list''"
| "call_name (ClipboardSetCall _ _) = ''clipboard_set''"
| "call_name (ClipboardDeleteCall _ _) = ''clipboard_delete''"
| "call_name (ClipboardClearCall _) = ''clipboard_clear''"
| "call_name TrustListCall = ''trust_list''"
| "call_name (TrustRemoveCall _) = ''trust_remove''"
| "call_name (TrustResetCall _) = ''trust_reset''"
| "call_name DiscoverDevicesCall = ''discover_devices''"
| "call_name (SyncPlanCall _ _) = ''sync.plan''"
| "call_name (SyncStartCall _ _) = ''sync.start''"
| "call_name (SyncStatusCall _) = ''sync.status''"
| "call_name (SyncStopCall _) = ''sync.stop''"
| "call_name (SyncStartWatchCall _) = ''sync.start_watch''"
| "call_name (SyncStopWatchCall _) = ''sync.stop_watch''"
| "call_name (MediaPhotoLibraryCall _ _) = ''media_photo_library''"
| "call_name (MediaVideoLibraryCall _ _) = ''media_video_library''"
| "call_name (MediaAudioLibraryCall _ _) = ''media_audio_library''"
| "call_name (MediaFetchExifCall _ _) = ''media_fetch_exif''"
| "call_name (MediaMergeChangeCall _ _ _) = ''media_merge_change''"
| "call_name RuntimeDiagnosticsCall = ''runtime_diagnostics''"
| "call_name (MediaThumbnailCall _ _) = ''media_thumbnail''"
| "call_name (RuntimeCreateCall _ _) = ''runtime_create''"
| "call_name RuntimeShutdownCall = ''runtime_shutdown''"
| "call_name (SubscribeEventsCall _) = ''subscribe_events''"
| "call_name (SubscriptionNextCall _) = ''subscription_next''"

fun call_inputs :: "ffi_call \<Rightarrow> abi_input list" where
  "call_inputs (ListDevicesCall input) = [input]"
| "call_inputs (ConnectCall input) = [input]"
| "call_inputs (ListFilesCall _ input) = [input]"
| "call_inputs (CreateDirectoryCall _ input) = [input]"
| "call_inputs (TransferStartDownloadCall _ input) = [input]"
| "call_inputs (TransferStartUploadCall _ input) = [input]"
| "call_inputs (TransferStartBatchDownloadCall _ input) = [input]"
| "call_inputs (TransferStartBatchUploadCall _ input) = [input]"
| "call_inputs (StatFileCall _ input) = [input]"
| "call_inputs (CountFilesCall _ input) = [input]"
| "call_inputs (MovePathCall _ input) = [input]"
| "call_inputs (DeletePathsCall _ input) = [input]"
| "call_inputs (UpdateFileInfoCall _ input) = [input]"
| "call_inputs (MonitorFolderCall _ input) = [input]"
| "call_inputs (ClipboardSetCall _ input) = [input]"
| "call_inputs (ClipboardDeleteCall _ input) = [input]"
| "call_inputs (TrustRemoveCall input) = [input]"
| "call_inputs (TrustResetCall input) = [input]"
| "call_inputs (SyncPlanCall _ input) = [input]"
| "call_inputs (SyncStartCall _ input) = [input]"
| "call_inputs (SyncStatusCall input) = [input]"
| "call_inputs (SyncStopCall input) = [input]"
| "call_inputs (SyncStartWatchCall input) = [input]"
| "call_inputs (SyncStopWatchCall input) = [input]"
| "call_inputs (MediaPhotoLibraryCall _ input) = [input]"
| "call_inputs (MediaVideoLibraryCall _ input) = [input]"
| "call_inputs (MediaAudioLibraryCall _ input) = [input]"
| "call_inputs (MediaFetchExifCall _ input) = [input]"
| "call_inputs (MediaMergeChangeCall kind_input library_input change_input) = [kind_input, library_input, change_input]"
| "call_inputs (MediaThumbnailCall _ input) = [input]"
| "call_inputs (RuntimeCreateCall input _) = [input]"
| "call_inputs _ = []"

section \<open>Every call returns an owned result\<close>

lemma settles_replies [abi_intros]:
  "env_ok env \<Longrightarrow> settles P (acknowledge env field outcome)"
  "env_ok env \<Longrightarrow> settles P (answer_number env field number)"
  "env_ok env \<Longrightarrow> settles P (answer_text env field txt)"
  by (auto simp: acknowledge_def answer_number_def answer_text_def intro!: abi_intros)

lemma settles_reply [abi_intros]:
  "env_ok env \<Longrightarrow> (\<And>v. js_reply js v \<noteq> Inr []) \<Longrightarrow> settles P (reply_with env js wrap outcome)"
  unfolding reply_with_def by (rule settles_respond)

lemma settles_profile [abi_intros]:
  "env_ok env \<Longrightarrow> (\<And>x. settles P (body x)) \<Longrightarrow> settles P (ffi_try (parse_profile env parse session_id json operation) body)"
  by (rule settles_try[where Q = "\<lambda>_. True"])
     (simp_all add: parse_profile_def passes_refuse passes_give split: sum.split option.split)

lemma settles_page [abi_intros]:
  "(\<And>e. settles P (f e)) \<Longrightarrow> settles P g \<Longrightarrow> (\<And>c l. settles P (h c l)) \<Longrightarrow>
   settles P (case req of Inl e \<Rightarrow> f e | Inr FullLibrary \<Rightarrow> g | Inr (LibraryPage c l) \<Rightarrow> h c l)"
  by (simp split: sum.split MediaPageRequest.split)

lemma settles_state:
  "(\<And>x. settles P (finish (abi_ok env print x))) \<Longrightarrow> settles P (\<lambda>w. finish (abi_ok env print (f w)) w)"
  by (simp add: settles_def)

lemmas call_defs = hs_list_devices_def hs_connect_def hs_disconnect_def hs_get_session_def hs_list_files_def
    hs_create_directory_def hs_ping_def hs_transfer_start_download_def hs_transfer_start_upload_def hs_transfer_cancel_def
    hs_transfer_get_def hs_transfer_list_def hs_transfer_start_batch_download_def hs_transfer_start_batch_upload_def hs_stat_file_def
    hs_count_files_def hs_move_path_def hs_delete_paths_def hs_update_file_info_def hs_monitor_folder_def
    hs_clipboard_list_def hs_clipboard_set_def hs_clipboard_delete_def hs_clipboard_clear_def hs_trust_list_def
    hs_trust_remove_def hs_trust_reset_def hs_discover_devices_def hs_sync_plan_def hs_sync_start_def
    hs_sync_status_def hs_sync_stop_def hs_sync_start_watch_def hs_sync_stop_watch_def hs_media_photo_library_def
    hs_media_video_library_def hs_media_audio_library_def hs_media_fetch_exif_def hs_media_merge_change_def

lemma diagnostics_settles:
  assumes "env_ok env" "live runtime w" "\<And>v. js_reply js v \<noteq> Inr []"
  shows "\<exists>result w'. hs_runtime_diagnostics env js api runtime build probe w = (Return result, w') \<and> answered w result w'"
proof -
  have state: "settles P (\<lambda>w. finish (abi_ok env (\<lambda>x. js_reply js (RDiagnostics x)) (f w)) w)" for P and f :: "'a ffi \<Rightarrow> _"
    by (rule settles_state, rule settles_ok[OF assms(1)], rule assms(3))
  show ?thesis
    unfolding hs_runtime_diagnostics_def
    by (intro settles_catch[where P = "live runtime"] settles_runtime settles_app state assms(1,2))
qed

text \<open>What a side promises: the printers never give an empty text.\<close>

definition side_ok :: "'a ffi_side \<Rightarrow> bool" where
  "side_ok sd \<longleftrightarrow> (\<forall>v. js_reply (sd_json sd) v \<noteq> Inr []) \<and> (\<forall>v. sd_thumb_print sd v \<noteq> Inr []) \<and>
     (\<forall>v. sd_event_print sd v \<noteq> Inr [])"

text \<open>The handles a call gets are NULL or alive.\<close>

definition handles_ok :: "nat \<Rightarrow> ffi_call \<Rightarrow> 'a ffi \<Rightarrow> bool" where
  "handles_ok runtime call w \<longleftrightarrow>
     live runtime w \<and> (case call of SubscriptionNextCall s \<Rightarrow> live_subscription s w | _ \<Rightarrow> True)"

lemma perform_settles:
  assumes "env_ok env" "side_ok sd" "handles_ok runtime call w"
  shows "\<exists>result w'. perform env sd runtime call w = (Return result, w') \<and> answered w result w'"
proof -
  have live: "live runtime w" using assms(3) by (simp add: handles_ok_def)
  have printers: "js_reply (sd_json sd) v \<noteq> Inr []" "sd_thumb_print sd t \<noteq> Inr []" "sd_event_print sd e \<noteq> Inr []" for v t e
    using assms(2) by (simp_all add: side_ok_def)
  show ?thesis
  proof (cases call)
    case (SubscriptionNextCall s)
    then have "live_subscription s w" using assms(3) by (simp add: handles_ok_def)
    from subscription_next_settles[where to_json = "sd_event_print sd", OF assms(1) this printers(3)] show ?thesis
      by (simp only: SubscriptionNextCall perform.simps)
  qed (simp_all only: perform.simps runtime_create_settles[OF assms(1)] runtime_shutdown_settles[OF assms(1) live]
      subscribe_settles[OF assms(1) live] thumbnail_settles[OF assms(1) live printers(2)]
      diagnostics_settles[OF assms(1) live printers(1)],
      (unfold call_defs, (intro settles_catch[where P = "live runtime"] abi_intros assms(1) live printers(1); assumption)+))
qed

text \<open>C34 Every call of the C interface returns. Whatever the arguments, the state of the application and
  its panics, a call on a runtime handle that is NULL or alive never unwinds into the caller and never
  touches memory it does not own. Its status is 0 with a value and no error, or 1 with an error and no
  value; the buffer is a fresh allocation of exactly its length. Giving the result back restores the
  memory as it was, and giving it back a second time is undefined.\<close>

theorem every_call_answered:
  assumes "env_ok env" "side_ok sd" "handles_ok runtime call w" "distinct (map fst (fw_heap w))"
  shows "\<exists>result w' w''. perform env sd runtime call w = (Return result, w') \<and>
    (hc_status result = 0 \<and> stored w w' (hc_value result) \<and> hc_error result = empty_buffer \<or>
     hc_status result = 1 \<and> hc_value result = empty_buffer \<and> stored w w' (hc_error result)) \<and>
    hs_call_result_free result w' = (Return (), w'') \<and> fw_heap w'' = fw_heap w \<and>
    fst (hs_call_result_free result w'') = Undefined"
proof -
  obtain result w' where call: "perform env sd runtime call w = (Return result, w')" "answered w result w'"
    using perform_settles[OF assms(1-3)] by blast
  from answered_freed[OF call(2) assms(4)] call show ?thesis unfolding answered_def by blast
qed

section \<open>Bad arguments are refused\<close>

definition bad_input :: "abi_input \<Rightarrow> bool" where
  "bad_input input = (case input of None \<Rightarrow> True | Some bytes \<Rightarrow> \<not> valid_utf8 bytes)"

text \<open>A NULL handle, output slot or text, or a text that is not UTF-8. Shutting down NULL and reading
  from a NULL subscription are allowed.\<close>

definition bad_arguments :: "nat \<Rightarrow> ffi_call \<Rightarrow> bool" where
  "bad_arguments runtime call =
     (case call of
        RuntimeCreateCall input out \<Rightarrow> out = 0 \<or> bad_input input
      | RuntimeShutdownCall \<Rightarrow> False
      | SubscriptionNextCall _ \<Rightarrow> False
      | SubscribeEventsCall out \<Rightarrow> runtime = 0 \<or> out = 0
      | _ \<Rightarrow> runtime = 0 \<or> list_ex bad_input (call_inputs call))"

definition refuses :: "abi_env \<Rightarrow> string \<Rightarrow> 'a abi_body \<Rightarrow> 'a ffi \<Rightarrow> bool" where
  "refuses env operation body w \<longleftrightarrow>
     (\<exists>message. body w = fail_with env (with_operation (public_error_new InvalidArgument message) operation) w)"

lemma fail_with_returns: "fail_with env e w = (Return (fst (abi_err env e w)), snd (abi_err env e w))"
  by (simp add: fail_with_def finish_def case_prod_beta)

lemma abi_err_keeps:
  "hc_status (fst (abi_err env e w)) = 1"
  "snd (abi_err env e w) = w\<lparr>fw_heap := fw_heap (snd (abi_err env e w))\<rparr>"
  by (simp_all add: abi_err_def from_bytes_def Let_def case_prod_beta)

lemma refuses_catch: "refuses env operation body w \<Longrightarrow> refuses env operation (abi_catch env operation body) w"
  by (auto simp: refuses_def abi_catch_def fail_with_returns)

lemma try_refuse: "ffi_try (refuse env e) body w = fail_with env e w"
  by (simp add: ffi_try_def refuse_def fail_with_def finish_def case_prod_beta)

lemma try_give: "ffi_try (give x) body w = body x w"
  by (simp add: ffi_try_def give_def)

lemma refuses_runtime:
  assumes "live runtime w" "runtime \<noteq> 0 \<Longrightarrow> refuses env operation (body runtime) w"
  shows "refuses env operation (ffi_try (runtime_ref env runtime operation) body) w"
proof (cases "runtime = 0")
  case True
  then have "ffi_try (runtime_ref env runtime operation) body w =
      ffi_try (refuse env (with_operation (public_error_new InvalidArgument ''NULL runtime handle'') operation)) body w"
    by (simp add: ffi_try_def runtime_ref_def)
  then show ?thesis by (auto simp: refuses_def try_refuse)
next
  case False
  then have "ffi_try (runtime_ref env runtime operation) body w = ffi_try (give runtime) body w"
    using assms(1) by (simp add: ffi_try_def runtime_ref_def live_def)
  then show ?thesis using assms(2)[OF False] by (simp add: refuses_def try_give)
qed

lemma refuses_input:
  "(\<And>bytes. input = Some bytes \<Longrightarrow> valid_utf8 bytes \<Longrightarrow> refuses env operation (body bytes) w) \<Longrightarrow>
   refuses env operation (ffi_try (input_str env input operation) body) w"
  by (cases input) (auto simp: refuses_def input_str_def try_refuse try_give)

lemma refuses_slot:
  "(out \<noteq> 0 \<Longrightarrow> refuses env operation (body out) w) \<Longrightarrow> refuses env operation (ffi_try (out_slot env out operation) body) w"
  by (auto simp: refuses_def out_slot_def try_refuse try_give)

lemmas refusing = refuses_catch refuses_runtime refuses_input refuses_slot

lemma perform_refuses:
  assumes "live runtime w" "bad_arguments runtime call"
  shows "refuses env (call_name call) (perform env sd runtime call) w"
  using assms(2)
  by (cases call; simp only: perform.simps call_name.simps call_defs hs_media_thumbnail_def hs_runtime_diagnostics_def
        hs_runtime_create_def hs_subscribe_events_def)
     (((intro refusing assms(1))?; simp add: bad_arguments_def bad_input_def)+)


section \<open>A concrete world\<close>

definition example_env :: abi_env where
  "example_env = \<lparr>en_fresh = (\<lambda>used. Suc (foldr max used 0)), en_error_json = (\<lambda>_. Inr ''e''), en_object_json = (\<lambda>_. Inr ''o'')\<rparr>"

definition empty_world :: "'a ffi" where
  "empty_world = \<lparr>fw_heap = [], fw_runtimes = [], fw_subscriptions = [], fw_counters = [], fw_slots = (\<lambda>_. 0), fw_cache = Map.empty\<rparr>"

definition running_world :: "unit ffi" where
  "running_world = empty_world\<lparr>fw_runtimes := [(9, \<lparr>hr_app = (), hr_subscriptions = 0\<rparr>)], fw_counters := [0]\<rparr>"

text \<open>A runtime whose methods all panic.\<close>

definition panics :: "(unit, 'x) api" where
  "panics app = (None, app)"

lemma example_env_ok: "env_ok example_env"
proof -
  have "n \<le> foldr max used 0" if "n \<in> set used" for n :: nat and used using that by (induction used) auto
  then have "Suc (foldr max used 0) \<notin> set used" for used :: "nat list"
    using Suc_n_not_le_n by blast
  then show ?thesis by (simp add: env_ok_def example_env_def allocator_ok_def)
qed

definition example_json :: ffi_json where
  "example_json =
    \<lparr>js_reply = (\<lambda>_. Inr ''r''), js_list_devices = (\<lambda>_. Inl ''bad''),
     js_device = (\<lambda>_. Inl ''bad''), js_list_files = (\<lambda>_. Inl ''bad''),
     js_path = (\<lambda>_. Inl ''bad''), js_optional_path = (\<lambda>_. Inl ''bad''),
     js_transfer_paths = (\<lambda>_. Inl ''bad''), js_count_files = (\<lambda>_. Inl ''bad''),
     js_move_path = (\<lambda>_. Inl ''bad''), js_delete_paths = (\<lambda>_. Inl ''bad''),
     js_update_file_info = (\<lambda>_. Inl ''bad''), js_text = (\<lambda>_. Inl ''bad''),
     js_timestamp = (\<lambda>_. Inl ''bad''), js_device_id = (\<lambda>_. Inl ''bad''),
     js_trust_reset = (\<lambda>_. Inl ''bad''), js_batch = (\<lambda>_. Inl ''bad''),
     js_monitor = (\<lambda>_. Inl ''bad''), js_profile = (\<lambda>_. Inl ''bad''),
     js_page = (\<lambda>_. Inl ''bad''), js_photo_library = (\<lambda>_. Inl ''bad''),
     js_video_library = (\<lambda>_. Inl ''bad''), js_audio_library = (\<lambda>_. Inl ''bad''),
     js_media_change = (\<lambda>_. Inl ''bad'')\<rparr>"

definition example_api :: "unit app_api" where
  "example_api =
    \<lparr>ap_list_devices = (\<lambda>_ _. panics), ap_discover_devices = (\<lambda>_ _. panics),
     ap_connect = (\<lambda>_. panics), ap_disconnect = (\<lambda>_. panics),
     ap_get_session_snapshot = (\<lambda>_. panics), ap_list_files = (\<lambda>_. panics),
     ap_create_directory = (\<lambda>_. panics), ap_ping = (\<lambda>_. panics),
     ap_start_download = (\<lambda>_. panics), ap_start_upload = (\<lambda>_. panics),
     ap_cancel_transfer = (\<lambda>_. panics), ap_get_transfer = (\<lambda>_. panics),
     ap_list_transfers = panics, ap_stat_file = (\<lambda>_. panics), ap_count_files = (\<lambda>_. panics),
     ap_move_path = (\<lambda>_. panics), ap_delete_paths = (\<lambda>_. panics),
     ap_update_files_info = (\<lambda>_. panics), ap_list_clipboards = (\<lambda>_. panics),
     ap_set_clipboard = (\<lambda>_ _. panics), ap_delete_clipboard = (\<lambda>_ _. panics),
     ap_clear_clipboards = (\<lambda>_. panics), ap_list_trust_records = panics,
     ap_remove_trust_record = (\<lambda>_. panics), ap_reset_wifi_trust = (\<lambda>_ _. panics),
     ap_start_batch_download = (\<lambda>_. panics), ap_start_batch_upload = (\<lambda>_. panics),
     ap_monitor_folder = (\<lambda>_ _ _. panics), ap_plan_sync = (\<lambda>_. panics),
     ap_start_sync = (\<lambda>_. panics), ap_get_sync_status = (\<lambda>_. panics),
     ap_stop_sync = (\<lambda>_. panics), ap_start_sync_watch = (\<lambda>_. panics),
     ap_stop_sync_watch = (\<lambda>_. panics), ap_get_photo_library = (\<lambda>_. panics),
     ap_get_video_library = (\<lambda>_. panics), ap_get_audio_library = (\<lambda>_. panics),
     ap_get_photo_library_page = (\<lambda>_ _ _. panics),
     ap_get_video_library_page = (\<lambda>_ _ _. panics),
     ap_get_audio_library_page = (\<lambda>_ _ _. panics), ap_get_thumbnails = (\<lambda>_ _ _ _. panics),
     ap_fetch_exif = (\<lambda>_ _. panics), ap_session_count = panics,
     ap_config = (\<lambda>_. runtime_config_default), ap_display = (\<lambda>_. ''failed'')\<rparr>"

definition example_side :: "unit ffi_side" where
  "example_side =
    \<lparr>sd_json = example_json, sd_api = example_api, sd_build = \<lparr>bi_crate_version = ''1.0.0'', bi_platform = ''linux'', bi_arch = ''x86_64''\<rparr>,
     sd_probe = (False, None), sd_thumb_env = example_thumb_env,
     sd_thumb_parse = (\<lambda>_. Inl ''bad''), sd_thumb_print = (\<lambda>_. Inr ''t''), sd_config_parse = (\<lambda>_. Inl ''bad''),
     sd_built = None, sd_create = (\<lambda>_. Some (Inr ())), sd_shutdown = panics, sd_subscribe = panics,
     sd_event_print = (\<lambda>_. Inr ''v''), sd_received = recv_outcome.RecvClosed\<rparr>"

theorem every_call_answered_witness:
  "\<exists>result w' w''. perform example_env example_side 9 (PingCall 3) running_world = (Return result, w') \<and>
    hs_call_result_free result w' = (Return (), w'') \<and> fw_heap w'' = [] \<and>
    fst (hs_call_result_free result w'') = Undefined"
proof -
  have "side_ok example_side" by (simp add: side_ok_def example_side_def example_json_def)
  moreover have "handles_ok 9 (PingCall 3) running_world"
    by (simp add: handles_ok_def live_def running_world_def empty_world_def)
  moreover have "fw_heap running_world = []" by (simp add: running_world_def empty_world_def)
  ultimately show ?thesis
    using every_call_answered[OF example_env_ok, of example_side 9 "PingCall 3" running_world] by auto
qed


end
