(* ===== verification/Spec2Isabelle.thy ===== *)
theory Spec2Isabelle
  imports SessionFacts Download MediaMerge SyncFacts TransferFacts FilePlan Handshake Batch SyncJobs
    Exif Discovery FfiFacts
begin

text \<open>
  HandShaker: a verification development for the Rust workspace under \<open>src/crates\<close>, the desktop side of a
  phone companion: it connects to a phone over ADB, USB or Wi-Fi, multiplexes requests over one
  connection with a private protocol (SSP), browses and transfers files, shows the media libraries
  and mirrors photos to a local directory.

  \<^bold>\<open>The program.\<close> \<open>handshaker-core\<close> holds the protocol and the client: frames (\<open>protocol/frame.rs\<close>),
  handshakes (\<open>protocol/handshake.rs\<close>, \<open>crypto.rs\<close>, \<open>wifi_handshake.rs\<close>), the session that demultiplexes
  frames into requests and pushes (\<open>session.rs\<close>), the decoding of pushes into events (\<open>events.rs\<close>,
  \<open>event_decode.rs\<close>), the client operations and transfers on top (\<open>client.rs\<close>), merging of media changes
  (\<open>media_merge.rs\<close>), the host state (\<open>state.rs\<close>) and the photo sync with its plan (\<open>sync.rs\<close>), journal
  (\<open>sync_journal.rs\<close>) and ledgers (\<open>sync_store.rs\<close>). \<open>handshaker-application\<close> puts a service on top: the
  runtime with sessions, requests and events (\<open>runtime.rs\<close>, \<open>event.rs\<close>, \<open>dto.rs\<close>), the registry of
  background transfers (\<open>transfer.rs\<close>), plans for file operations (\<open>file_plan.rs\<close>) and paged media
  libraries (\<open>media.rs\<close>). A C interface (\<open>handshaker-ffi\<close>) and a command line (\<open>handshaker-cli\<close>) expose it.

  \<^bold>\<open>How the code becomes definitions.\<close> A struct is a record with prefixed field names, an enum a
  datatype, a method a function on the state it locks or borrows; \<open>Result\<close> is a sum with the error on
  the left, and an error keeps the i18n key of its message. A \<open>BTreeMap\<close> is a sorted list of entries
  (\<open>Stores\<close>), a \<open>HashMap\<close> a map, a byte stream the list of its bytes, a string its UTF-8 bytes, a path
  its components. Sizes are naturals with the checks and the wrap-around of \<open>u64\<close> and \<open>usize\<close>
  written out. What the program does not decide itself is an argument of the definition that meets
  it: the clock, random names, the outcome of a system call, what the phone sends, ciphers and
  digests, and the codecs that prost and serde generate. Asynchronous code is cut at its critical
  sections: each is one function, and a step relation interleaves them in any order
  (\<open>Machines\<close> holds the notion of a reachable state and the contract of an invariant).

  \<^bold>\<open>The theories.\<close>
  \<^item> \<open>Prelude\<close>, \<open>Stores\<close>, \<open>Paths\<close>, \<open>Texts\<close>, \<open>PlainCodec\<close>, \<open>Machines\<close>: machine integers, maps, strings, numbers in
    text and paths of the Rust standard library, a codec that instantiates the assumptions on third-party codecs, step relations.
  \<^item> \<open>Errors\<close>, \<open>Domain\<close>, \<open>Events\<close>: the errors and values of both layers and the decoding of a push. A
    push without a type is decoded only if exactly one event fits.
  \<^item> \<open>Frame\<close>, \<open>Envelope\<close>: SSP frames, and the three copies of message reassembly behind one locale: for
    every cutting into chunks the body comes back exactly, with its limits enforced.
  \<^item> \<open>Session\<close>, \<open>SessionFacts\<close>, \<open>Download\<close>: the shared state of a connection and everything its tasks do to
    it. A response and a push are delivered whole and to the right receiver, what an unknown sid may
    buffer is bounded, a closed session stays closed; a raw download is exactly the file sent, and ends.
  \<^item> \<open>Adb\<close>, \<open>Usb\<close>: the transports. A connection over ADB owns the port forward it makes and removes it on
    every path; a USB device is chosen, switched and opened safely, and its stream delivers in order
    what entered its channel.
  \<^item> \<open>TrustStore\<close>, \<open>Handshake\<close>: the host state file refines a map of trust records; a Wi-Fi handshake
    succeeds only after the phone has proved that it knows the session keys, and a device trusted
    once is recognised.
  \<^item> \<open>Client\<close>, \<open>ClientTransfer\<close>, \<open>Batch\<close>: requests and answers of the client, transfers of one file (a
    download is atomic, an upload sends the file), and batches and directory trees: every item is
    accounted for, a batch ends, a tree stays below its target.
  \<^item> \<open>MediaMerge\<close>, \<open>MediaPages\<close>: merging changes keeps a library consistent; pages partition it; the cache
    never serves what was fetched before a change.
  \<^item> \<open>SyncPlan\<close>, \<open>SyncJournal\<close>, \<open>SyncFacts\<close>, \<open>SyncStore\<close>: what a sync does and in which order its effects reach
    the disk. The plan is exact, conflicts fail closed, destinations stay below the root; a crash at
    any point is recovered, with one exception that is proved; a complete run leaves nothing to do;
    ledgers of different scopes never meet, and a save is atomic.
  \<^item> \<open>AppSync\<close>, \<open>SyncJobs\<close>: the sync service of the application. A run and a batch of a watch leave files
    that the user has edited alone; over all interleavings of runs, watches, stops and shutdown one
    task at a time works on a ledger, and no job runs and watches at once.
  \<^item> \<open>Transfers\<close>, \<open>TransferFacts\<close>: the registry of transfers under any interleaving of launchers, tasks and
    callers: histories only move forward, nothing live is evicted, closing a session cancels all its
    transfers, every task has one outcome, progress events are throttled.
  \<^item> \<open>FilePlan\<close>: remote paths stay below the root; a plan that may be executed overwrites nothing by surprise.
  \<^item> \<open>Exif\<close>: the dates of photos agree with the calendar.
  \<^item> \<open>Discovery\<close>: the mDNS browser, the sweep over the transports and the trust service.
  \<^item> \<open>Runtime\<close>: sessions of the application under any interleaving: every session ends exactly once.
  \<^item> \<open>Services\<close>, \<open>BatchPlan\<close>: the methods of the runtime that ask the phone for files, clipboards and media,
    and the batches. A lost session is not asked again; every item of a plan is counted once and its
    transfer ends once; a batch in the background ends with the result of the blocking one.
  \<^item> \<open>Abi\<close>, \<open>Ffi\<close>, \<open>Thumbs\<close>: the C interface. \<open>Abi\<close> has the memory handed out to the caller, results,
    panics and handles, \<open>Ffi\<close> the exported calls over a record of the methods of the runtime, \<open>Thumbs\<close> the
    thumbnail cache.
  \<^item> \<open>ThumbFacts\<close>, \<open>FfiFacts\<close>: no requested thumbnail is lost and a stored one is found again; every call
    returns a result that owns one allocation, and bad arguments are refused before anything is done.

  \<^bold>\<open>Bounds.\<close> No definition carries fuel except where the environment provides it: a list of random
  suffixes, of chunks or of events that runs out stands for a loop that has not ended, and the
  theorems that something returns say how long the list has to be. The loops of the code are
  structural recursions or have a termination proof.

  \<^bold>\<open>Not modelled.\<close> What other programs do (\<open>adb\<close>, libusb, the mDNS daemon, \<open>kamadak-exif\<close>) and what
  libraries generate (protobuf and JSON codecs), which are arguments; the i18n tables, whose texts are
  presentation; the command line, which parses arguments with \<open>clap\<close>, calls the client and prints;
  permission bits, socket options and log output.
\<close>

end
